(* ===== verification/Prelude.thy ===== *)
theory Prelude
  imports Main "HOL-Library.AList" "HOL-Library.Sublist"
begin

text \<open>
  The shared layer of the development.

  \<^item> Python exceptions as values, and a state-and-exception monad \<open>io\<close> for the code that
    mutates \<open>self\<close>, the file system and the services behind it.  An \<open>io\<close> computation maps a
    world to an outcome (\<open>Inl\<close> the exception, \<open>Inr\<close> the value) and the world it leaves
    behind: effects made before an exception stay made, as in Python.
  \<^item> The locale \<open>effect_frame\<close>: a reflexive and transitive relation between the world before
    and the world after, lifted once and for all through the combinators.
  \<^item> Python dictionaries as association lists in insertion order, with the locale
    \<open>keyed_store\<close> for the laws the clients use.
\<close>

named_theorems io_defs
named_theorems io_run

section \<open>Exceptions\<close>

text \<open>
  \<open>FailJson\<close> and \<open>ExitJson\<close> are AnsibleModule's \<open>fail_json\<close> and \<open>exit_json\<close>: both leave the
  program through SystemExit, which \<open>except Exception\<close> does not catch.  \<open>APIError\<close> is the
  container engine client's error with the HTTP status of the answer.
\<close>

datatype pyexn =
    FailJson string
  | ExitJson string
  | APIError nat
  | TypeError
  | ValueError
  | KeyError
  | IndexError
  | AttributeError
  | ZeroDivisionError
  | ReconciliationError string
  | OtherError string

fun is_system_exit :: "pyexn \<Rightarrow> bool" where
  "is_system_exit (FailJson _) = True"
| "is_system_exit (ExitJson _) = True"
| "is_system_exit _ = False"

text \<open>\<open>APIError.is_client_error()\<close>: the status is in the 4xx range.\<close>

fun is_client_error :: "pyexn \<Rightarrow> bool" where
  "is_client_error (APIError s) = (400 \<le> s \<and> s < 500)"
| "is_client_error _ = False"

fun is_api_error :: "pyexn \<Rightarrow> bool" where
  "is_api_error (APIError _) = True"
| "is_api_error _ = False"

section \<open>The state-and-exception monad\<close>

type_synonym ('w, 'a) io = "'w \<Rightarrow> (pyexn + 'a) \<times> 'w"

definition return_io :: "'a \<Rightarrow> ('w, 'a) io" where
  [io_defs]: "return_io a = (\<lambda>w. (Inr a, w))"

definition raise_io :: "pyexn \<Rightarrow> ('w, 'a) io" where
  [io_defs]: "raise_io e = (\<lambda>w. (Inl e, w))"

definition bnd :: "('w, 'a) io \<Rightarrow> ('a \<Rightarrow> ('w, 'b) io) \<Rightarrow> ('w, 'b) io" where
  [io_defs]: "bnd m f = (\<lambda>w. case m w of (Inl e, w') \<Rightarrow> (Inl e, w') | (Inr a, w') \<Rightarrow> f a w')"

definition gets_io :: "('w \<Rightarrow> 'a) \<Rightarrow> ('w, 'a) io" where
  [io_defs]: "gets_io f = (\<lambda>w. (Inr (f w), w))"

definition modify_io :: "('w \<Rightarrow> 'w) \<Rightarrow> ('w, unit) io" where
  [io_defs]: "modify_io f = (\<lambda>w. (Inr (), f w))"

text \<open>\<open>try: m except E: h\<close>, for the exceptions \<open>sel\<close> accepts.\<close>

definition catch_io :: "('w, 'a) io \<Rightarrow> (pyexn \<Rightarrow> bool) \<Rightarrow> (pyexn \<Rightarrow> ('w, 'a) io) \<Rightarrow> ('w, 'a) io" where
  [io_defs]: "catch_io m sel h =
     (\<lambda>w. case m w of (Inl e, w') \<Rightarrow> (if sel e then h e w' else (Inl e, w')) | (Inr a, w') \<Rightarrow> (Inr a, w'))"

definition lift_sum :: "pyexn + 'a \<Rightarrow> ('w, 'a) io" where
  [io_defs]: "lift_sum r = (case r of Inl e \<Rightarrow> raise_io e | Inr a \<Rightarrow> return_io a)"

definition when_io :: "bool \<Rightarrow> ('w, unit) io \<Rightarrow> ('w, unit) io" where
  [io_defs]: "when_io b m = (if b then m else return_io ())"

text \<open>Python's short-circuit \<open>a or b\<close> on computations.\<close>

definition or_io :: "('w, bool) io \<Rightarrow> ('w, bool) io \<Rightarrow> ('w, bool) io" where
  [io_defs]: "or_io m n = bnd m (\<lambda>b. if b then return_io True else n)"

fun any_io :: "('w, bool) io list \<Rightarrow> ('w, bool) io" where
  "any_io [] = return_io False"
| "any_io (m # ms) = or_io m (any_io ms)"

fun for_io :: "'a list \<Rightarrow> ('a \<Rightarrow> ('w, unit) io) \<Rightarrow> ('w, unit) io" where
  "for_io [] body = return_io ()"
| "for_io (x # xs) body = bnd (body x) (\<lambda>_. for_io xs body)"

lemma bnd_return [simp]: "bnd (return_io a) f = f a"
  by (simp add: io_defs)

lemma bnd_raise [simp]: "bnd (raise_io e) f = raise_io e"
  by (simp add: io_defs)

lemma bnd_assoc: "bnd (bnd m f) g = bnd m (\<lambda>a. bnd (f a) g)"
  by (auto simp: io_defs fun_eq_iff split: prod.splits sum.splits)

lemma return_run [io_run]: "return_io a w = (Inr a, w)"
  by (simp add: io_defs)

lemma raise_run [io_run]: "raise_io e w = (Inl e, w)"
  by (simp add: io_defs)

lemma gets_run [io_run]: "gets_io f w = (Inr (f w), w)"
  by (simp add: io_defs)

lemma modify_run [io_run]: "modify_io f w = (Inr (), f w)"
  by (simp add: io_defs)

lemma bnd_run: "bnd m f w = (case m w of (Inl e, w') \<Rightarrow> (Inl e, w') | (Inr a, w') \<Rightarrow> f a w')"
  by (simp add: io_defs)

lemma bnd_run_Inr [io_run]: "m w = (Inr a, w') \<Longrightarrow> bnd m f w = f a w'"
  by (simp add: io_defs)

lemma bnd_run_Inl [io_run]: "m w = (Inl e, w') \<Longrightarrow> bnd m f w = (Inl e, w')"
  by (simp add: io_defs)

lemma bnd_InrD:
  assumes "bnd m f w = (Inr b, w'')"
  obtains a w' where "m w = (Inr a, w')" and "f a w' = (Inr b, w'')"
  using assms by (auto simp: io_defs split: prod.splits sum.splits)

section \<open>Frames: what a computation may do to the world\<close>

definition keeps :: "('w \<Rightarrow> 'w \<Rightarrow> bool) \<Rightarrow> ('w, 'a) io \<Rightarrow> bool" where
  "keeps R m \<longleftrightarrow> (\<forall>w. R w (snd (m w)))"

lemma keepsD: "keeps R m \<Longrightarrow> m w = (r, w') \<Longrightarrow> R w w'"
  by (metis keeps_def snd_conv)

text \<open>Computations that never return, and computations that never return a given value.\<close>

definition fails :: "('w, 'a) io \<Rightarrow> bool" where
  "fails m \<longleftrightarrow> (\<forall>w. \<exists>e w'. m w = (Inl e, w'))"

definition avoids :: "('w, 'a) io \<Rightarrow> 'a \<Rightarrow> bool" where
  "avoids m a \<longleftrightarrow> (\<forall>w w'. m w \<noteq> (Inr a, w'))"

lemma failsE: "fails m \<Longrightarrow> (\<And>e w'. m w = (Inl e, w') \<Longrightarrow> P) \<Longrightarrow> P"
  unfolding fails_def by blast

lemma fails_raise: "fails (raise_io e)"
  by (simp add: fails_def io_run)

lemma fails_bnd: "fails m \<Longrightarrow> fails (bnd m f)"
  unfolding fails_def by (metis bnd_run_Inl)

lemma fails_bnd_next: "(\<And>a. \<not> avoids m a \<Longrightarrow> fails (f a)) \<Longrightarrow> fails (bnd m f)"
proof -
  assume f: "\<And>a. \<not> avoids m a \<Longrightarrow> fails (f a)"
  { fix w
    have "\<exists>e w'. bnd m f w = (Inl e, w')"
    proof (cases "m w")
      case (Pair r w1)
      then show ?thesis using f
        by (cases r) (auto simp: io_run avoids_def fails_def, blast)
    qed }
  then show ?thesis by (simp add: fails_def)
qed

lemma avoids_return [simp]: "avoids (return_io a) b \<longleftrightarrow> a \<noteq> b"
  by (auto simp: avoids_def io_run)

lemma avoids_bnd: "(\<And>a. \<not> avoids m a \<Longrightarrow> avoids (f a) b) \<Longrightarrow> avoids (bnd m f) b"
  unfolding avoids_def by (auto elim!: bnd_InrD)

lemma avoids_or: "avoids m False \<or> avoids n False \<Longrightarrow> avoids (or_io m n) False"
  by (auto simp: or_io_def avoids_def elim!: bnd_InrD split: if_splits simp: io_run)

lemma avoids_any: "m \<in> set ms \<Longrightarrow> avoids m False \<Longrightarrow> avoids (any_io ms) False"
  by (induction ms) (auto intro: avoids_or)

locale effect_frame =
  fixes R :: "'w \<Rightarrow> 'w \<Rightarrow> bool"
  assumes frame_refl: "R w w"
    and frame_trans: "R u v \<Longrightarrow> R v w \<Longrightarrow> R u w"
begin

lemma keeps_return: "keeps R (return_io a)"
  by (simp add: keeps_def io_defs frame_refl)

lemma keeps_raise: "keeps R (raise_io e)"
  by (simp add: keeps_def io_defs frame_refl)

lemma keeps_gets: "keeps R (gets_io f)"
  by (simp add: keeps_def io_defs frame_refl)

lemma keeps_modify: "(\<And>w. R w (f w)) \<Longrightarrow> keeps R (modify_io f)"
  by (simp add: keeps_def io_defs)

lemma keeps_bnd: "keeps R m \<Longrightarrow> (\<And>a. keeps R (f a)) \<Longrightarrow> keeps R (bnd m f)"
  unfolding keeps_def bnd_def by (auto split: prod.splits sum.splits) (metis frame_trans snd_conv)+

lemma keeps_bnd_fails: "keeps R m \<Longrightarrow> fails m \<Longrightarrow> keeps R (bnd m f)"
proof -
  assume k: "keeps R m" and f: "fails m"
  { fix w
    obtain e w' where "m w = (Inl e, w')" using f by (rule failsE)
    then have "R w (snd (bnd m f w))" using k by (simp add: io_run) (metis keeps_def snd_conv) }
  then show "keeps R (bnd m f)" by (simp add: keeps_def)
qed

lemma keeps_bnd_next:
  assumes "keeps R m" and "\<And>a. \<not> avoids m a \<Longrightarrow> keeps R (f a)"
  shows "keeps R (bnd m f)"
proof -
  { fix w
    have "R w (snd (bnd m f w))"
    proof (cases "m w")
      case (Pair r v)
      then have "R w v" using assms(1) by (metis keeps_def snd_conv)
      then show ?thesis using Pair assms(2)
        by (cases r) (auto simp: io_run avoids_def keeps_def intro: frame_trans)
    qed }
  then show ?thesis by (simp add: keeps_def)
qed

lemma keeps_catch: "keeps R m \<Longrightarrow> (\<And>e. keeps R (h e)) \<Longrightarrow> keeps R (catch_io m sel h)"
  unfolding keeps_def catch_io_def by (auto split: prod.splits sum.splits) (metis frame_trans snd_conv)+

lemma keeps_lift: "keeps R (lift_sum r)"
  by (simp add: lift_sum_def keeps_return keeps_raise split: sum.splits)

lemma keeps_when: "keeps R m \<Longrightarrow> keeps R (when_io b m)"
  by (simp add: when_io_def keeps_return)

lemma keeps_or: "keeps R m \<Longrightarrow> keeps R n \<Longrightarrow> keeps R (or_io m n)"
  by (simp add: or_io_def keeps_bnd keeps_return)

lemma keeps_any: "(\<And>m. m \<in> set ms \<Longrightarrow> keeps R m) \<Longrightarrow> keeps R (any_io ms)"
  by (induction ms) (auto simp: keeps_return intro: keeps_or)

lemma keeps_for: "(\<And>x. x \<in> set xs \<Longrightarrow> keeps R (body x)) \<Longrightarrow> keeps R (for_io xs body)"
  by (induction xs) (auto simp: keeps_return intro: keeps_bnd)

lemma keeps_if: "(b \<Longrightarrow> keeps R m) \<Longrightarrow> (\<not> b \<Longrightarrow> keeps R n) \<Longrightarrow> keeps R (if b then m else n)"
  by simp

lemma keeps_option:
  "(x = None \<Longrightarrow> keeps R m) \<Longrightarrow> (\<And>a. x = Some a \<Longrightarrow> keeps R (f a)) \<Longrightarrow>
   keeps R (case x of None \<Rightarrow> m | Some a \<Rightarrow> f a)"
  by (cases x) simp_all

lemma keeps_prod: "(\<And>a b. p = (a, b) \<Longrightarrow> keeps R (f a b)) \<Longrightarrow> keeps R (case p of (a, b) \<Rightarrow> f a b)"
  by (cases p) simp

lemmas keeps_rules =
  keeps_return keeps_raise keeps_gets keeps_modify keeps_bnd keeps_catch keeps_lift keeps_when
  keeps_or keeps_for keeps_if keeps_option keeps_prod

end

section \<open>Python dictionaries\<close>

text \<open>
  A dict is an association list in insertion order.  \<open>d[k] = v\<close> is \<open>AList.update\<close> (replace in
  place, or append), \<open>d.get(k)\<close> is \<open>map_of\<close>, \<open>del d[k]\<close> is \<open>AList.delete\<close>.
\<close>

type_synonym ('k, 'v) pydict = "('k \<times> 'v) list"

definition dict_update :: "('k, 'v) pydict \<Rightarrow> ('k, 'v) pydict \<Rightarrow> ('k, 'v) pydict" where
  "dict_update d e = fold (\<lambda>(k, v). AList.update k v) e d"

definition dict_keys :: "('k, 'v) pydict \<Rightarrow> 'k list" where
  "dict_keys d = map fst d"

definition wf_dict :: "('k, 'v) pydict \<Rightarrow> bool" where
  "wf_dict d \<longleftrightarrow> distinct (map fst d)"

definition in_dict :: "'k \<Rightarrow> ('k, 'v) pydict \<Rightarrow> bool" where
  "in_dict k d \<longleftrightarrow> k \<in> set (map fst d)"

text \<open>
  The laws a keyed store owes its clients.  The clients of a Python dict in this program use
  lookup, assignment and deletion, and rely on assignment keeping the other keys.
\<close>

locale keyed_store =
  fixes get :: "'s \<Rightarrow> 'k \<Rightarrow> 'v option"
    and put :: "'k \<Rightarrow> 'v \<Rightarrow> 's \<Rightarrow> 's"
    and ok :: "'s \<Rightarrow> bool"
  assumes get_put: "get (put k v s) l = (if l = k then Some v else get s l)"
    and ok_put: "ok s \<Longrightarrow> ok (put k v s)"
begin

lemma get_put_same: "get (put k v s) k = Some v"
  by (simp add: get_put)

lemma get_put_other: "l \<noteq> k \<Longrightarrow> get (put k v s) l = get s l"
  by (simp add: get_put)

lemma get_put_all: "get (fold (\<lambda>(k, v). put k v) kvs s) l =
    (case map_of (rev kvs) l of None \<Rightarrow> get s l | Some v \<Rightarrow> Some v)"
  by (induction kvs arbitrary: s) (auto simp: get_put map_add_def split: option.splits)

lemma ok_put_all: "ok s \<Longrightarrow> ok (fold (\<lambda>(k, v). put k v) kvs s)"
  by (induction kvs arbitrary: s) (auto intro: ok_put)

end

lemma map_of_AList_update [simp]: "map_of (AList.update k v d) l = (if l = k then Some v else map_of d l)"
  by (simp add: update_conv')

lemma wf_dict_update [intro]: "wf_dict d \<Longrightarrow> wf_dict (AList.update k v d)"
  by (simp add: wf_dict_def distinct_update)

interpretation pd: keyed_store map_of AList.update wf_dict
  by unfold_locales auto

lemma in_dict_iff: "in_dict k d \<longleftrightarrow> map_of d k \<noteq> None"
  by (simp add: in_dict_def map_of_eq_None_iff)

lemma map_of_rev_distinct: "wf_dict e \<Longrightarrow> map_of (rev e) = map_of e"
proof (induction e)
  case (Cons p e)
  then have "map_of e (fst p) = None"
    by (simp add: wf_dict_def map_of_eq_None_iff)
  with Cons show ?case
    by (auto simp: wf_dict_def map_add_def fun_eq_iff split: option.splits)
qed simp

lemma dict_update_get:
  "wf_dict e \<Longrightarrow> map_of (dict_update d e) k = (case map_of e k of None \<Rightarrow> map_of d k | Some v \<Rightarrow> Some v)"
  unfolding dict_update_def by (simp add: pd.get_put_all map_of_rev_distinct)

lemma wf_dict_dict_update [intro]: "wf_dict d \<Longrightarrow> wf_dict (dict_update d e)"
  unfolding dict_update_def by (rule pd.ok_put_all)

lemma keys_AList_update: "set (map fst (AList.update k v d)) = insert k (set (map fst d))"
  by (simp add: dom_update)

lemma wf_dict_filter [intro]: "wf_dict d \<Longrightarrow> wf_dict (filter P d)"
  unfolding wf_dict_def by (induction d) auto

lemma wf_dict_Nil [simp]: "wf_dict []"
  by (simp add: wf_dict_def)

lemma wf_dict_Cons [simp]: "wf_dict (kv # d) \<longleftrightarrow> fst kv \<notin> set (map fst d) \<and> wf_dict d"
  by (simp add: wf_dict_def)

end
