(* ===== verification/PyVal.thy ===== *)
theory PyVal
  imports Prelude
begin

text \<open>
  Python values and the string operations the code uses.  Strings are ASCII character lists;
  dictionaries have string keys; floats are not modelled.
\<close>

section \<open>Strings\<close>

definition is_digit :: "char \<Rightarrow> bool" where
  "is_digit c \<longleftrightarrow> 48 \<le> (of_char c :: nat) \<and> (of_char c :: nat) \<le> 57"

definition digit_val :: "char \<Rightarrow> nat" where
  "digit_val c = (of_char c :: nat) - 48"

definition digit_char :: "nat \<Rightarrow> char" where
  "digit_char d = (char_of (48 + d) :: char)"

definition is_space :: "char \<Rightarrow> bool" where
  "is_space c \<longleftrightarrow> (of_char c :: nat) \<in> {9, 10, 11, 12, 13, 28, 29, 30, 31, 32}"

definition lower_char :: "char \<Rightarrow> char" where
  "lower_char c = (let n = (of_char c :: nat) in if 65 \<le> n \<and> n \<le> 90 then char_of (n + 32) else c)"

definition upper_char :: "char \<Rightarrow> char" where
  "upper_char c = (let n = (of_char c :: nat) in if 97 \<le> n \<and> n \<le> 122 then char_of (n - 32) else c)"

definition py_lower :: "string \<Rightarrow> string" where
  "py_lower s = map lower_char s"

definition py_upper :: "string \<Rightarrow> string" where
  "py_upper s = map upper_char s"

definition py_strip :: "string \<Rightarrow> string" where
  "py_strip s = rev (dropWhile is_space (rev (dropWhile is_space s)))"

text \<open>\<open>s.split(c)\<close> on a one-character separator: never an empty list.\<close>

fun py_split :: "char \<Rightarrow> string \<Rightarrow> string list" where
  "py_split c [] = [[]]"
| "py_split c (x # xs) =
     (if x = c then [] # py_split c xs
      else (case py_split c xs of [] \<Rightarrow> [[x]] | p # ps \<Rightarrow> (x # p) # ps))"

text \<open>\<open>s.split(c, 1)\<close>: \<open>Some (a, b)\<close> when \<open>c\<close> occurs, \<open>None\<close> for the one-element result.\<close>

fun split_once :: "char \<Rightarrow> string \<Rightarrow> (string \<times> string) option" where
  "split_once c [] = None"
| "split_once c (x # xs) = (if x = c then Some ([], xs) else map_option (\<lambda>(a, b). (x # a, b)) (split_once c xs))"

text \<open>\<open>s.rsplit(c, 1)\<close>, likewise.\<close>

definition rsplit_once :: "char \<Rightarrow> string \<Rightarrow> (string \<times> string) option" where
  "rsplit_once c s = map_option (\<lambda>(a, b). (rev b, rev a)) (split_once c (rev s))"

fun join_with :: "string \<Rightarrow> string list \<Rightarrow> string" where
  "join_with sep [] = []"
| "join_with sep [s] = s"
| "join_with sep (s # t # ss) = s @ sep @ join_with sep (t # ss)"

text \<open>\<open>s.replace(a, b)\<close> on one-character patterns.\<close>

definition replace_char :: "char \<Rightarrow> char \<Rightarrow> string \<Rightarrow> string" where
  "replace_char a b s = map (\<lambda>c. if c = a then b else c) s"

lemma split_once_SomeD: "split_once c s = Some (a, b) \<Longrightarrow> s = a @ c # b \<and> c \<notin> set a"
  by (induction s arbitrary: a b) (auto split: if_splits)

lemma split_once_None_iff: "split_once c s = None \<longleftrightarrow> c \<notin> set s"
  by (induction s) auto

lemma split_once_append: "c \<notin> set a \<Longrightarrow> split_once c (a @ c # b) = Some (a, b)"
  by (induction a) auto

lemma rsplit_once_SomeD: "rsplit_once c s = Some (a, b) \<Longrightarrow> s = a @ c # b \<and> c \<notin> set b"
  unfolding rsplit_once_def
  by (auto dest!: split_once_SomeD) (metis append.assoc append_Cons append_Nil rev.simps(2) rev_append rev_rev_ident)

lemma rsplit_once_None_iff: "rsplit_once c s = None \<longleftrightarrow> c \<notin> set s"
  by (simp add: rsplit_once_def split_once_None_iff)

lemma rsplit_once_append: "c \<notin> set b \<Longrightarrow> rsplit_once c (a @ c # b) = Some (a, b)"
  by (simp add: rsplit_once_def split_once_append)

lemma py_split_nonempty [simp]: "py_split c s \<noteq> []"
  by (induction s) (auto split: list.splits)

lemma py_split_no_sep: "c \<notin> set s \<Longrightarrow> py_split c s = [s]"
  by (induction s) auto

lemma py_split_append: "c \<notin> set a \<Longrightarrow> py_split c (a @ c # b) = a # py_split c b"
  by (induction a) auto

section \<open>Decimal numerals: \<open>str(n)\<close> and \<open>int(s)\<close>\<close>

fun str_of_nat :: "nat \<Rightarrow> string" where
  "str_of_nat n = (if n < 10 then [digit_char n] else str_of_nat (n div 10) @ [digit_char (n mod 10)])"

declare str_of_nat.simps [simp del]

definition str_of_int :: "int \<Rightarrow> string" where
  "str_of_int i = (if i < 0 then CHR ''-'' # str_of_nat (nat (- i)) else str_of_nat (nat i))"

text \<open>
  The digits of \<open>int(s)\<close>: single underscores are allowed between digits.  The flag says that
  the previous character was a digit.
\<close>

fun parse_digits :: "bool \<Rightarrow> nat \<Rightarrow> string \<Rightarrow> nat option" where
  "parse_digits ok acc [] = (if ok then Some acc else None)"
| "parse_digits ok acc (c # cs) =
     (if is_digit c then parse_digits True (acc * 10 + digit_val c) cs
      else if c = CHR ''_'' \<and> ok then parse_digits False acc cs else None)"

definition int_of_str :: "string \<Rightarrow> int option" where
  "int_of_str s =
     (case py_strip s of
        [] \<Rightarrow> None
      | c # cs \<Rightarrow>
          if c = CHR ''-'' then map_option (\<lambda>n. - int n) (parse_digits False 0 cs)
          else if c = CHR ''+'' then map_option int (parse_digits False 0 cs)
          else map_option int (parse_digits False 0 (c # cs)))"

lemma digit_char_facts:
  assumes "d < 10"
  shows "is_digit (digit_char d)" "digit_val (digit_char d) = d" "\<not> is_space (digit_char d)"
    "digit_char d \<noteq> CHR ''-''" "digit_char d \<noteq> CHR ''+''" "digit_char d \<noteq> CHR ''_''"
proof -
  have n: "(of_char (digit_char d) :: nat) = 48 + d"
    using assms by (simp add: digit_char_def of_char_of)
  show "is_digit (digit_char d)" "digit_val (digit_char d) = d"
    using assms n by (simp_all add: is_digit_def digit_val_def)
  show "\<not> is_space (digit_char d)"
    using assms n by (auto simp: is_space_def)
  show "digit_char d \<noteq> CHR ''-''" "digit_char d \<noteq> CHR ''+''" "digit_char d \<noteq> CHR ''_''"
    using assms n by auto
qed

lemma str_of_nat_set: "x \<in> set (str_of_nat n) \<Longrightarrow> is_digit x \<and> \<not> is_space x \<and> x \<noteq> CHR ''-'' \<and> x \<noteq> CHR ''+''"
proof (induction n rule: str_of_nat.induct)
  case (1 n)
  then show ?case
    by (subst (asm) str_of_nat.simps) (auto simp: digit_char_facts split: if_splits)
qed

lemma str_of_nat_nonempty [simp]: "str_of_nat n \<noteq> []"
  by (subst str_of_nat.simps) simp

lemma parse_digits_append:
  "(\<And>x. x \<in> set s \<Longrightarrow> is_digit x) \<Longrightarrow> s \<noteq> [] \<Longrightarrow>
   parse_digits ok acc (s @ t) = parse_digits True (foldl (\<lambda>a c. a * 10 + digit_val c) acc s) t"
proof (induction s arbitrary: ok acc)
  case (Cons c s)
  then show ?case
  proof (cases s)
    case (Cons a list)
    with Cons.IH [of True "acc * 10 + digit_val c"] Cons.prems show ?thesis
      by (simp del: parse_digits.simps(2)) (subst parse_digits.simps(2), simp)
  qed simp
qed simp

lemma fold_digits_str: "foldl (\<lambda>a c. a * 10 + digit_val c) 0 (str_of_nat n) = n"
proof (induction n rule: str_of_nat.induct)
  case (1 n)
  show ?case
  proof (cases "n < 10")
    case True
    then show ?thesis by (subst str_of_nat.simps) (simp add: digit_char_facts)
  next
    case False
    with 1 show ?thesis by (subst str_of_nat.simps) (simp add: digit_char_facts)
  qed
qed

lemma parse_str_of_nat: "parse_digits False 0 (str_of_nat n) = Some n"
  using parse_digits_append [of "str_of_nat n" False 0 "[]"]
  by (simp add: str_of_nat_set fold_digits_str)

lemma py_strip_id: "(\<And>x. x \<in> set s \<Longrightarrow> \<not> is_space x) \<Longrightarrow> py_strip s = s"
proof -
  have d: "dropWhile is_space t = t" if "\<And>x. x \<in> set t \<Longrightarrow> \<not> is_space x" for t
    using that by (cases t) auto
  assume s: "\<And>x. x \<in> set s \<Longrightarrow> \<not> is_space x"
  have "dropWhile is_space s = s" by (rule d) (rule s)
  moreover have "dropWhile is_space (rev s) = rev s" by (rule d) (simp add: s)
  ultimately show ?thesis by (simp add: py_strip_def)
qed

lemma str_of_int_no_space: "x \<in> set (str_of_int i) \<Longrightarrow> \<not> is_space x"
proof -
  have "\<not> is_space (CHR ''-'')" by (simp add: is_space_def)
  then show "x \<in> set (str_of_int i) \<Longrightarrow> \<not> is_space x"
    using str_of_nat_set by (auto simp: str_of_int_def split: if_splits)
qed

lemma int_of_str_of_int [simp]: "int_of_str (str_of_int i) = Some i"
proof (cases "i < 0")
  case True
  then show ?thesis
    by (simp add: int_of_str_def py_strip_id str_of_int_no_space)
      (simp add: str_of_int_def parse_str_of_nat)
next
  case False
  obtain c cs where s: "str_of_nat (nat i) = c # cs"
    using str_of_nat_nonempty by (cases "str_of_nat (nat i)") blast+
  then have "c \<noteq> CHR ''-''" "c \<noteq> CHR ''+''"
    using str_of_nat_set [of c "nat i"] by auto
  with False s show ?thesis
    using parse_str_of_nat [of "nat i"]
    by (simp add: int_of_str_def py_strip_id str_of_int_no_space) (simp add: str_of_int_def)
qed

text \<open>
  The laws of a text format: what is read is valid, and a valid value is read back from its text.
  Numerals obey them here, IP addresses in IpAddress.
\<close>

locale text_codec =
  fixes render :: "'a \<Rightarrow> string"
    and reads :: "string \<Rightarrow> 'a option"
    and valid :: "'a \<Rightarrow> bool"
  assumes reads_valid: "reads s = Some a \<Longrightarrow> valid a"
    and reads_render: "valid a \<Longrightarrow> reads (render a) = Some a"
begin

lemma render_inj: "valid a \<Longrightarrow> valid b \<Longrightarrow> render a = render b \<longleftrightarrow> a = b"
  by (metis option.inject reads_render)

text \<open>The text of what was read is canonical: it means the same, and is its own text.\<close>

lemma reads_again: "reads s = Some a \<Longrightarrow> reads (render a) = Some a"
  by (rule reads_render [OF reads_valid])

lemma same_text: "reads s = Some a \<Longrightarrow> reads t = Some b \<Longrightarrow> render a = render b \<longleftrightarrow> reads s = reads t"
  using render_inj [OF reads_valid reads_valid] by simp

end

interpretation numeral_text: text_codec str_of_int int_of_str "\<lambda>_. True"
  by unfold_locales simp_all

lemma str_of_int_inj: "str_of_int i = str_of_int j \<longleftrightarrow> i = j"
  by (rule numeral_text.render_inj) simp_all

section \<open>Dynamic values\<close>

datatype pyval =
    PyNone
  | PyBool bool
  | PyInt int
  | PyStr string
  | PyList "pyval list"
  | PyDict "(string \<times> pyval) list"

type_synonym pyobj = "(string, pyval) pydict"

fun truthy :: "pyval \<Rightarrow> bool" where
  "truthy PyNone = False"
| "truthy (PyBool b) = b"
| "truthy (PyInt i) = (i \<noteq> 0)"
| "truthy (PyStr s) = (s \<noteq> [])"
| "truthy (PyList xs) = (xs \<noteq> [])"
| "truthy (PyDict d) = (d \<noteq> [])"

text \<open>\<open>d.get(k)\<close> and \<open>d.get(k, default)\<close>.\<close>

definition dget :: "pyobj \<Rightarrow> string \<Rightarrow> pyval" where
  "dget d k = (case map_of d k of None \<Rightarrow> PyNone | Some v \<Rightarrow> v)"

text \<open>
  Python's \<open>==\<close>: booleans are the integers 0 and 1, and dictionaries are compared without
  regard to the order of their keys.
\<close>

fun py_eq :: "pyval \<Rightarrow> pyval \<Rightarrow> bool"
  and py_eq_list :: "pyval list \<Rightarrow> pyval list \<Rightarrow> bool"
  and py_sub_dict :: "pyobj \<Rightarrow> pyobj \<Rightarrow> bool" where
  "py_eq PyNone v = (v = PyNone)"
| "py_eq (PyBool b) v = (v = PyBool b \<or> v = PyInt (if b then 1 else 0))"
| "py_eq (PyInt i) v = (v = PyInt i \<or> (\<exists>b \<in> {True, False}. v = PyBool b \<and> i = (if b then 1 else 0)))"
| "py_eq (PyStr s) v = (v = PyStr s)"
| "py_eq (PyList xs) v = (case v of PyList ys \<Rightarrow> py_eq_list xs ys | _ \<Rightarrow> False)"
| "py_eq (PyDict xs) v = (case v of PyDict ys \<Rightarrow> length xs = length ys \<and> py_sub_dict xs ys | _ \<Rightarrow> False)"
| "py_eq_list [] ys = (ys = [])"
| "py_eq_list (x # xs) ys = (case ys of [] \<Rightarrow> False | y # ys' \<Rightarrow> py_eq x y \<and> py_eq_list xs ys')"
| "py_sub_dict [] ys = True"
| "py_sub_dict ((k, x) # xs) ys = (case map_of ys k of None \<Rightarrow> False | Some y \<Rightarrow> py_eq x y \<and> py_sub_dict xs ys)"

definition py_dict_eq :: "pyobj \<Rightarrow> pyobj \<Rightarrow> bool" where
  "py_dict_eq d e = py_eq (PyDict d) (PyDict e)"

text \<open>\<open>repr\<close> of a string: single quotes unless the string has a single quote and no double one.\<close>

definition repr_str :: "string \<Rightarrow> string" where
  "repr_str s =
     (let q = (if CHR 0x27 \<in> set s \<and> CHR 0x22 \<notin> set s then CHR 0x22 else CHR 0x27);
          esc = (\<lambda>c. if c = q \<or> c = CHR 0x5C then [CHR 0x5C, c]
                     else if c = CHR 0x0A then [CHR 0x5C, CHR ''n'']
                     else if c = CHR 0x0D then [CHR 0x5C, CHR ''r'']
                     else if c = CHR 0x09 then [CHR 0x5C, CHR ''t''] else [c])
      in q # concat (map esc s) @ [q])"

fun py_repr :: "pyval \<Rightarrow> string" where
  "py_repr PyNone = ''None''"
| "py_repr (PyBool b) = (if b then ''True'' else ''False'')"
| "py_repr (PyInt i) = str_of_int i"
| "py_repr (PyStr s) = repr_str s"
| "py_repr (PyList xs) = ''['' @ join_with '', '' (map py_repr xs) @ '']''"
| "py_repr (PyDict d) = ''{'' @ join_with '', '' (map (\<lambda>(k, v). repr_str k @ '': '' @ py_repr v) d) @ ''}''"

fun py_str :: "pyval \<Rightarrow> string" where
  "py_str (PyStr s) = s"
| "py_str v = py_repr v"

text \<open>\<open>int(v)\<close>: TypeError on None and containers, ValueError on a string that is no numeral.\<close>

fun py_int :: "pyval \<Rightarrow> pyexn + int" where
  "py_int (PyInt i) = Inr i"
| "py_int (PyBool b) = Inr (if b then 1 else 0)"
| "py_int (PyStr s) = (case int_of_str s of None \<Rightarrow> Inl ValueError | Some i \<Rightarrow> Inr i)"
| "py_int _ = Inl TypeError"

text \<open>\<open>'{}'.format(x)\<close> for an optional string.\<close>

definition fmt_opt :: "string option \<Rightarrow> string" where
  "fmt_opt x = (case x of None \<Rightarrow> ''None'' | Some s \<Rightarrow> s)"

text \<open>Truth of an optional string: None and the empty string are falsy.\<close>

definition str_truthy :: "string option \<Rightarrow> bool" where
  "str_truthy x \<longleftrightarrow> (case x of None \<Rightarrow> False | Some s \<Rightarrow> s \<noteq> [])"

lemma dget_Some [simp]: "map_of d k = Some v \<Longrightarrow> dget d k = v"
  by (simp add: dget_def)

lemma py_sub_dict_iff:
  "py_sub_dict xs ys \<longleftrightarrow> (\<forall>(k, x) \<in> set xs. \<exists>y. map_of ys k = Some y \<and> py_eq x y)"
  by (induction xs) (auto split: option.splits)

lemma py_eq_list_iff: "py_eq_list xs ys \<longleftrightarrow> list_all2 py_eq xs ys"
  by (induction xs arbitrary: ys) (auto split: list.splits simp: list_all2_Cons1)

text \<open>Python's \<open>==\<close> is reflexive on well-formed values (no dictionary repeats a key).\<close>

fun wf_val :: "pyval \<Rightarrow> bool" where
  "wf_val (PyList xs) = list_all wf_val xs"
| "wf_val (PyDict d) = (wf_dict d \<and> list_all (\<lambda>kv. wf_val (snd kv)) d)"
| "wf_val _ = True"

lemma py_eq_PyStr: "py_eq v (PyStr s) \<longleftrightarrow> v = PyStr s"
  by (cases v) auto

lemma py_eq_refl: "wf_val v \<Longrightarrow> py_eq v v"
proof (induction v)
  case (PyList xs)
  then show ?case
    by (auto simp: py_eq_list_iff list_all_iff intro: list.rel_refl_strong)
next
  case (PyDict d)
  have "\<exists>y. map_of d k = Some y \<and> py_eq x y" if "(k, x) \<in> set d" for k x
  proof -
    have "map_of d k = Some x"
      using that PyDict.prems by (auto simp: wf_dict_def)
    moreover have "py_eq x x"
      using that PyDict by (auto simp: list_all_iff snds.intros)
    ultimately show ?thesis by blast
  qed
  then show ?case by (auto simp: py_sub_dict_iff)
qed auto

section \<open>Items of values\<close>

text \<open>\<open>v.get(key)\<close>.\<close>

fun val_get :: "pyval \<Rightarrow> string \<Rightarrow> pyexn + pyval" where
  "val_get (PyDict d) key = Inr (dget d key)"
| "val_get _ key = Inl AttributeError"

text \<open>\<open>v[key]\<close> with a string for a key, and along a path of keys.\<close>

fun val_item :: "pyval \<Rightarrow> string \<Rightarrow> pyexn + pyval" where
  "val_item (PyDict d) key = (case map_of d key of None \<Rightarrow> Inl KeyError | Some v \<Rightarrow> Inr v)"
| "val_item _ key = Inl TypeError"

fun val_path :: "pyval \<Rightarrow> string list \<Rightarrow> pyexn + pyval" where
  "val_path v [] = Inr v"
| "val_path v (key # keys) = (case val_item v key of Inl e \<Rightarrow> Inl e | Inr v \<Rightarrow> val_path v keys)"

fun_cases val_get_InrE: "val_get v key = Inr x"
fun_cases val_item_InrE: "val_item v key = Inr x"

text \<open>What \<open>for x in v\<close> runs through.\<close>

fun val_iter :: "pyval \<Rightarrow> pyexn + pyval list" where
  "val_iter (PyList xs) = Inr xs"
| "val_iter (PyDict d) = Inr (map (\<lambda>kv. PyStr (fst kv)) d)"
| "val_iter (PyStr s) = Inr (map (\<lambda>c. PyStr [c]) s)"
| "val_iter _ = Inl TypeError"

section \<open>How an Ansible module ends\<close>

text \<open>
  Through \<open>exit_json\<close>, through \<open>fail_json\<close> with these arguments besides the message, or with an
  exception that nobody handles.
\<close>

datatype module_end =
    Exits pyobj
  | Fails pyobj
  | Crashes pyexn

text \<open>A call \<open>f(a=x, **d)\<close> is a TypeError when \<open>d\<close> has the key \<open>a\<close> as well.\<close>

definition call_with :: "string list \<Rightarrow> pyobj \<Rightarrow> (pyobj \<Rightarrow> module_end) \<Rightarrow> pyobj \<Rightarrow> module_end" where
  "call_with explicit given f kwargs =
     (if list_ex (\<lambda>k. in_dict k kwargs) explicit then Crashes TypeError else f (given @ kwargs))"

end
