(* ===== verification/ArgParse.thy ===== *)
theory ArgParse
  imports PyVal
begin

text \<open>
  What the command lines use of Python's argparse: optional arguments that store a word, a number,
  a constant or a flag or append a word, their abbreviations, the ways to attach a value, required
  options and defaults.  The parsers of this repository have no positional arguments, so a word
  that no option takes is an error.  A usage error leaves the program with status 2, and
  \<open>--help\<close> with status 0; what is printed is not modelled.
\<close>

section \<open>Options\<close>

datatype option_action = StoreTrue | StoreConst pyval | StoreWord | StoreInt | AppendWord | ShowHelp

record option_spec =
  os_names :: "string list"
  os_dest :: string
  os_action :: option_action
  os_default :: pyval
  os_required :: bool

definition takes_value :: "option_spec \<Rightarrow> bool" where
  "takes_value sp \<longleftrightarrow> os_action sp \<in> {StoreWord, StoreInt, AppendWord}"

definition usage_exit :: "int \<Rightarrow> pyexn" where
  "usage_exit n = OtherError (''SystemExit '' @ str_of_int n)"

abbreviation usage_error :: "pyexn + 'a" where
  "usage_error \<equiv> Inl (usage_exit 2)"

definition option_names :: "option_spec list \<Rightarrow> (string \<times> option_spec) list" where
  "option_names specs = concat (map (\<lambda>sp. map (\<lambda>n. (n, sp)) (os_names sp)) specs)"

text \<open>The option every parser has.\<close>

definition help_option :: option_spec where
  "help_option = \<lparr>os_names = [''-h'', ''--help''], os_dest = ''help'', os_action = ShowHelp, os_default = PyNone,
     os_required = False\<rparr>"

section \<open>Reading one word\<close>

text \<open>A value attached with an equals sign, or glued to an option of one letter.\<close>

datatype attached = Nothing | Equals string | Glued string

datatype reading = Word | Hit option_spec string attached | Unknown | Clash | Separator

definition is_long :: "string \<Rightarrow> bool" where
  "is_long arg \<longleftrightarrow> prefix ''--'' arg"

text \<open>\<open>_get_option_tuples\<close>: abbreviations, and a single dash with something glued to its letter.\<close>

definition option_matches :: "option_spec list \<Rightarrow> string \<Rightarrow> (option_spec \<times> string \<times> attached) list" where
  "option_matches specs arg =
     (if is_long arg then
        (case (case split_once (CHR ''='') arg of None \<Rightarrow> (arg, Nothing) | Some (a, v) \<Rightarrow> (a, Equals v)) of (a, att) \<Rightarrow>
           map (\<lambda>(n, sp). (sp, n, att)) (filter (\<lambda>(n, sp). prefix a n) (option_names specs)))
      else
        map (\<lambda>(n, sp). (sp, n, if n = take 2 arg then Glued (drop 2 arg) else Nothing))
          (filter (\<lambda>(n, sp). n = take 2 arg \<or> prefix arg n) (option_names specs)))"

text \<open>\<open>^-\d+$|^-\d*\.\d+$\<close>, where \<open>$\<close> allows one newline at the end.\<close>

definition negative_number :: "string \<Rightarrow> bool" where
  "negative_number arg =
     (let s = (if arg \<noteq> [] \<and> last arg = CHR 0x0A then butlast arg else arg)
      in case s of
           [] \<Rightarrow> False
         | c # cs \<Rightarrow> c = CHR ''-'' \<and>
             (cs \<noteq> [] \<and> list_all is_digit cs
              \<or> (case split_once (CHR ''.'') cs of None \<Rightarrow> False
                 | Some (a, b) \<Rightarrow> list_all is_digit a \<and> b \<noteq> [] \<and> list_all is_digit b)))"

text \<open>\<open>_parse_optional\<close>.\<close>

definition read_arg :: "option_spec list \<Rightarrow> string \<Rightarrow> reading" where
  "read_arg specs arg =
     (if arg = [] \<or> hd arg \<noteq> CHR ''-'' then Word
      else case map_of (option_names specs) arg of
        Some sp \<Rightarrow> Hit sp arg Nothing
      | None \<Rightarrow>
          if length arg = 1 then Word
          else (case (case split_once (CHR ''='') arg of None \<Rightarrow> None
                      | Some (a, v) \<Rightarrow> map_option (\<lambda>sp. Hit sp a (Equals v)) (map_of (option_names specs) a)) of
                  Some r \<Rightarrow> r
                | None \<Rightarrow>
                    (case option_matches specs arg of
                       [(sp, n, att)] \<Rightarrow> Hit sp n att
                     | [] \<Rightarrow> if negative_number arg \<or> CHR '' '' \<in> set arg then Word else Unknown
                     | _ \<Rightarrow> Clash)))"

text \<open>All words; after \<open>--\<close> none is an option.\<close>

fun read_argv :: "option_spec list \<Rightarrow> string list \<Rightarrow> (string \<times> reading) list" where
  "read_argv specs [] = []"
| "read_argv specs (arg # rest) =
     (if arg = ''--'' then (arg, Separator) # map (\<lambda>a. (a, Word)) rest
      else (arg, read_arg specs arg) # read_argv specs rest)"

section \<open>Running the options\<close>

record parse_state =
  ps_namespace :: pyobj
  ps_seen :: "option_spec list"
  ps_extras :: bool

type_synonym setting = "option_spec \<times> string"

definition store :: "option_spec \<Rightarrow> pyval \<Rightarrow> parse_state \<Rightarrow> parse_state" where
  "store sp v st = st\<lparr>ps_namespace := AList.update (os_dest sp) v (ps_namespace st), ps_seen := sp # ps_seen st\<rparr>"

fun apply_setting :: "setting \<Rightarrow> parse_state \<Rightarrow> pyexn + parse_state" where
  "apply_setting (sp, word) st =
     (case os_action sp of
        StoreTrue \<Rightarrow> Inr (store sp (PyBool True) st)
      | StoreConst v \<Rightarrow> Inr (store sp v st)
      | StoreWord \<Rightarrow> Inr (store sp (PyStr word) st)
      | StoreInt \<Rightarrow> (case int_of_str word of None \<Rightarrow> usage_error | Some i \<Rightarrow> Inr (store sp (PyInt i) st))
      | AppendWord \<Rightarrow>
          Inr (store sp (PyList ((case dget (ps_namespace st) (os_dest sp) of PyList vs \<Rightarrow> vs | _ \<Rightarrow> []) @ [PyStr word])) st)
      | ShowHelp \<Rightarrow> Inl (usage_exit 0))"

fun apply_settings :: "setting list \<Rightarrow> parse_state \<Rightarrow> pyexn + parse_state" where
  "apply_settings [] st = Inr st"
| "apply_settings (x # xs) st =
     (case apply_setting x st of Inl e \<Rightarrow> Inl e | Inr st' \<Rightarrow> apply_settings xs st')"

text \<open>
  The option behind a word and what is attached to it: settings that are complete, or flags before
  an option that waits for the next word, or flags before a letter that is no option, or an error.
\<close>

datatype settled = Complete "setting list" | Awaits "setting list" option_spec | Junk "setting list" | Refused

fun after_flag :: "setting \<Rightarrow> settled \<Rightarrow> settled" where
  "after_flag x (Complete xs) = Complete (x # xs)"
| "after_flag x (Awaits xs sp) = Awaits (x # xs) sp"
| "after_flag x (Junk xs) = Junk (x # xs)"
| "after_flag x Refused = Refused"

definition tail_of :: "string \<Rightarrow> attached" where
  "tail_of cs = (case cs of [] \<Rightarrow> Nothing | c # r \<Rightarrow> if c = CHR ''='' then Equals r else Glued cs)"

function settle :: "(string \<times> option_spec) list \<Rightarrow> option_spec \<Rightarrow> string \<Rightarrow> attached \<Rightarrow> settled" where
  "settle N sp name Nothing = (if takes_value sp then Awaits [] sp else Complete [(sp, [])])"
| "settle N sp name (Equals v) = (if takes_value sp then Complete [(sp, v)] else Refused)"
| "settle N sp name (Glued []) = (if takes_value sp then Complete [(sp, [])] else Refused)"
| "settle N sp name (Glued (c # cs)) =
     (if takes_value sp then Complete [(sp, c # cs)]
      else if is_long name \<or> c = CHR ''-'' then Refused
      else case map_of N [CHR ''-'', c] of
        None \<Rightarrow> Junk [(sp, [])]
      | Some sp' \<Rightarrow> after_flag (sp, []) (settle N sp' [CHR ''-'', c] (tail_of cs)))"
  by pat_completeness auto
termination
  by (relation "measure (\<lambda>(N, sp, name, att). case att of Glued s \<Rightarrow> length s | _ \<Rightarrow> 0)")
    (auto simp: tail_of_def split: list.splits)

fun parse_loop :: "(string \<times> option_spec) list \<Rightarrow> (string \<times> reading) list \<Rightarrow> parse_state \<Rightarrow> pyexn + parse_state" where
  "parse_loop N [] st = Inr st"
| "parse_loop N ((arg, Hit sp name att) # rest) st =
     (case settle N sp name att of
        Complete xs \<Rightarrow> (case apply_settings xs st of Inl e \<Rightarrow> Inl e | Inr st' \<Rightarrow> parse_loop N rest st')
      | Junk xs \<Rightarrow>
          (case apply_settings xs st of Inl e \<Rightarrow> Inl e | Inr st' \<Rightarrow> parse_loop N rest (st'\<lparr>ps_extras := True\<rparr>))
      | Awaits xs sp' \<Rightarrow>
          (case rest of
             (word, Word) # rest' \<Rightarrow>
               (case apply_settings (xs @ [(sp', word)]) st of Inl e \<Rightarrow> Inl e | Inr st' \<Rightarrow> parse_loop N rest' st')
           | _ \<Rightarrow> usage_error)
      | Refused \<Rightarrow> usage_error)"
| "parse_loop N ((arg, r) # rest) st = parse_loop N rest (st\<lparr>ps_extras := True\<rparr>)"

text \<open>The first option with a destination gives its default.\<close>

definition option_defaults :: "option_spec list \<Rightarrow> pyobj" where
  "option_defaults specs =
     fold (\<lambda>sp d. if os_action sp = ShowHelp \<or> in_dict (os_dest sp) d then d else d @ [(os_dest sp, os_default sp)]) specs []"

definition parse_args :: "option_spec list \<Rightarrow> string list \<Rightarrow> pyexn + pyobj" where
  "parse_args specs argv =
     (let readings = read_argv specs argv
      in if list_ex (\<lambda>(arg, r). r = Clash) readings then usage_error
         else case parse_loop (option_names specs) readings
             \<lparr>ps_namespace = option_defaults specs, ps_seen = [], ps_extras = False\<rparr> of
           Inl e \<Rightarrow> Inl e
         | Inr st \<Rightarrow>
             if list_ex (\<lambda>sp. os_required sp \<and> sp \<notin> set (ps_seen st)) specs \<or> ps_extras st then usage_error
             else Inr (ps_namespace st))"

section \<open>What was given on the command line\<close>

fun settings_of :: "settled \<Rightarrow> option_spec set" where
  "settings_of (Complete xs) = fst ` set xs"
| "settings_of (Awaits xs sp) = insert sp (fst ` set xs)"
| "settings_of (Junk xs) = fst ` set xs"
| "settings_of Refused = {}"

lemma settings_of_after_flag: "settings_of (after_flag x s) \<subseteq> insert (fst x) (settings_of s)"
  by (cases s) auto

lemma settings_of_settle:
  "settings_of (settle N sp name att) \<subseteq> insert sp {sp'. \<exists>c. map_of N [CHR ''-'', c] = Some sp'}"
proof (induction N sp name att rule: settle.induct)
  case (4 N sp name c cs)
  show ?case
  proof (cases "takes_value sp \<or> is_long name \<or> c = CHR ''-'' \<or> map_of N [CHR ''-'', c] = None")
    case False
    then obtain sp' where "map_of N [CHR ''-'', c] = Some sp'" by auto
    with False 4 settings_of_after_flag [of "(sp, [])" "settle N sp' [CHR ''-'', c] (tail_of cs)"] show ?thesis
      by fastforce
  qed auto
qed auto

lemma apply_setting_seen: "apply_setting x st = Inr st' \<Longrightarrow> ps_seen st' = fst x # ps_seen st"
  by (cases x) (auto simp: store_def split: option_action.splits option.splits)

lemma apply_settings_seen: "apply_settings xs st = Inr st' \<Longrightarrow> set (ps_seen st') = fst ` set xs \<union> set (ps_seen st)"
  by (induction xs arbitrary: st) (auto split: sum.splits dest!: apply_setting_seen)

definition gives :: "(string \<times> option_spec) list \<Rightarrow> option_spec \<Rightarrow> string \<times> reading \<Rightarrow> bool" where
  "gives N sp ar \<longleftrightarrow>
     (\<exists>sp0 name att. snd ar = Hit sp0 name att \<and> settle N sp0 name att \<noteq> Refused \<and> sp \<in> settings_of (settle N sp0 name att))"

lemma parse_loop_seen:
  "parse_loop N rs st = Inr st' \<Longrightarrow> sp \<in> set (ps_seen st') \<Longrightarrow> sp \<in> set (ps_seen st) \<or> (\<exists>ar \<in> set rs. gives N sp ar)"
proof (induction N rs st rule: parse_loop.induct)
  case (2 N arg sp0 name att rest st)
  show ?case
  proof (cases "settle N sp0 name att")
    case c: (Complete xs)
    with 2 obtain st1 where "apply_settings xs st = Inr st1" "parse_loop N rest st1 = Inr st'" by (auto split: sum.splits)
    with 2 c show ?thesis by (fastforce simp: gives_def dest: apply_settings_seen)
  next
    case c: (Junk xs)
    with 2 obtain st1 where "apply_settings xs st = Inr st1" "parse_loop N rest (st1\<lparr>ps_extras := True\<rparr>) = Inr st'"
      by (auto split: sum.splits)
    with 2 c show ?thesis by (fastforce simp: gives_def dest: apply_settings_seen)
  next
    case c: (Awaits xs sp')
    with 2(4) obtain word rest' st1 where r: "rest = (word, Word) # rest'"
        "apply_settings (xs @ [(sp', word)]) st = Inr st1" "parse_loop N rest' st1 = Inr st'"
      by (auto split: list.splits prod.splits reading.splits sum.splits)
    with 2(2) [OF c r(1)] c have "sp \<in> set (ps_seen st1) \<or> (\<exists>ar\<in>set rest'. gives N sp ar)"
      using 2(5) by simp
    with r c show ?thesis by (fastforce simp: gives_def dest: apply_settings_seen)
  next
    case Refused
    with 2 show ?thesis by simp
  qed
qed auto

text \<open>A word that is read as an option is its name, an abbreviation of it, or one with something attached.\<close>

lemma option_names_iff: "(n, sp) \<in> set (option_names specs) \<longleftrightarrow> sp \<in> set specs \<and> n \<in> set (os_names sp)"
  by (auto simp: option_names_def)

lemma option_matches_Hit:
  "(sp, n, att) \<in> set (option_matches specs arg) \<Longrightarrow>
     (n, sp) \<in> set (option_names specs) \<and>
     (prefix arg n \<and> att = Nothing \<or> att \<noteq> Nothing)"
  by (auto simp: option_matches_def split: option.splits prod.splits if_splits)

lemma read_arg_Hit:
  assumes "read_arg specs arg = Hit sp n att"
  shows "(n, sp) \<in> set (option_names specs) \<and> (prefix arg n \<and> att = Nothing \<or> att \<noteq> Nothing)"
proof -
  consider "map_of (option_names specs) arg = Some sp" "n = arg" "att = Nothing"
    | a v where "map_of (option_names specs) a = Some sp" "n = a" "att = Equals v"
    | "option_matches specs arg = [(sp, n, att)]"
    using assms by (auto simp: read_arg_def Let_def split: if_splits option.splits list.splits prod.splits)
  then show ?thesis
  proof cases
    case 3
    then show ?thesis using option_matches_Hit [of sp n att specs arg] by simp
  qed (auto dest: map_of_SomeD)
qed

lemma read_argv_Hit: "(arg, Hit sp n att) \<in> set (read_argv specs argv) \<Longrightarrow> arg \<in> set argv \<and> arg \<noteq> ''--'' \<and> read_arg specs arg = Hit sp n att"
  by (induction specs argv rule: read_argv.induct) (auto split: if_splits)

lemma settle_flag: "\<not> takes_value sp \<Longrightarrow> settle N sp n att \<noteq> Refused \<Longrightarrow> is_long n \<Longrightarrow> att = Nothing"
  by (cases "(N, sp, n, att)" rule: settle.cases) auto

text \<open>
  A required flag with long names only is there: some argument is one of its names or the beginning
  of one.
\<close>

lemma required_flag_given:
  assumes "parse_args specs argv = Inr ns" and sp: "sp \<in> set specs" "os_required sp" "\<not> takes_value sp"
    and long: "\<forall>n \<in> set (os_names sp). is_long n \<and> length n > 2"
  shows "\<exists>arg \<in> set argv. is_long arg \<and> length arg > 2 \<and> (\<exists>n \<in> set (os_names sp). prefix arg n)"
proof -
  let ?N = "option_names specs"
  obtain st where "parse_loop ?N (read_argv specs argv) \<lparr>ps_namespace = option_defaults specs, ps_seen = [], ps_extras = False\<rparr> = Inr st"
      "sp \<in> set (ps_seen st)"
    using assms(1) sp by (auto simp: parse_args_def Let_def list_ex_iff split: if_splits sum.splits)
  from parse_loop_seen [OF this] obtain arg r where "(arg, r) \<in> set (read_argv specs argv)" "gives ?N sp (arg, r)"
    by auto
  then obtain sp0 n att where hit: "arg \<in> set argv" "arg \<noteq> ''--''" "read_arg specs arg = Hit sp0 n att"
      and settled: "settle ?N sp0 n att \<noteq> Refused" "sp \<in> settings_of (settle ?N sp0 n att)"
    by (auto simp: gives_def dest: read_argv_Hit)
  have "map_of ?N [CHR ''-'', c] \<noteq> Some sp" for c
    using bspec [OF long, of "[CHR ''-'', c]"] map_of_SomeD [of ?N "[CHR ''-'', c]" sp] by (auto simp: option_names_iff)
  then have "sp0 = sp" using settings_of_settle settled(2) by fastforce
  with read_arg_Hit [OF hit(3)] have n: "n \<in> set (os_names sp)" "prefix arg n \<and> att = Nothing \<or> att \<noteq> Nothing"
    by (auto simp: option_names_iff)
  with settle_flag [of sp ?N n att] sp(3) settled(1) long \<open>sp0 = sp\<close> have "prefix arg n" by auto
  moreover have "length arg \<noteq> 1"
    using hit(3) n(1) long by (auto simp: read_arg_def split: if_splits option.splits)
  moreover have "arg \<noteq> []" using hit(3) by (auto simp: read_arg_def)
  ultimately have "length arg \<ge> 2" "prefix ''--'' arg"
    using long n(1) by (cases arg; cases "tl arg"; auto simp: is_long_def prefix_def)+
  then have "is_long arg \<and> length arg > 2"
    using hit(2) by (cases "length arg = 2") (auto simp: is_long_def prefix_def)
  with \<open>prefix arg n\<close> show ?thesis using hit(1) n(1) by blast
qed

section \<open>Settings written out\<close>

definition setting_words :: "setting \<Rightarrow> string list" where
  "setting_words x = (case x of (sp, v) \<Rightarrow> hd (os_names sp) # (if takes_value sp then [v] else []))"

definition sayable :: "option_spec list \<Rightarrow> setting \<Rightarrow> bool" where
  "sayable specs x \<longleftrightarrow> (case x of (sp, v) \<Rightarrow>
     sp \<in> set specs \<and> os_names sp \<noteq> [] \<and> (if takes_value sp then v \<noteq> ''--'' \<and> read_arg specs v = Word else v = []))"

definition good_parser :: "option_spec list \<Rightarrow> bool" where
  "good_parser specs \<longleftrightarrow> distinct (map fst (option_names specs))
     \<and> list_all (\<lambda>n. n \<noteq> [] \<and> hd n = CHR ''-'' \<and> n \<noteq> ''--'') (map fst (option_names specs))"

lemma read_own_name:
  assumes "good_parser specs" "sp \<in> set specs" "n \<in> set (os_names sp)"
  shows "read_arg specs n = Hit sp n Nothing \<and> n \<noteq> ''--''"
proof -
  have "(n, sp) \<in> set (option_names specs)" using assms by (simp add: option_names_iff)
  with assms(1) show ?thesis by (force simp: good_parser_def read_arg_def list_all_iff)
qed

lemma apply_settings_append:
  "apply_settings (xs @ ys) st = (case apply_settings xs st of Inl e \<Rightarrow> Inl e | Inr st' \<Rightarrow> apply_settings ys st')"
  by (induction xs arbitrary: st) (auto split: sum.splits)

lemma parse_loop_settings:
  assumes "good_parser specs"
  shows "\<forall>x \<in> set xs. sayable specs x \<Longrightarrow>
    parse_loop (option_names specs) (read_argv specs (concat (map setting_words xs))) st = apply_settings xs st
    \<and> \<not> list_ex (\<lambda>(arg, r). r = Clash) (read_argv specs (concat (map setting_words xs)))"
proof (induction xs arbitrary: st)
  case (Cons x xs)
  obtain sp v where x: "x = (sp, v)" by fastforce
  with Cons.prems have sp: "sp \<in> set specs" "hd (os_names sp) \<in> set (os_names sp)"
      "if takes_value sp then v \<noteq> ''--'' \<and> read_arg specs v = Word else v = []"
    by (auto simp: sayable_def)
  note own = read_own_name [OF assms sp(1,2)]
  show ?case
  proof (cases "takes_value sp")
    case True
    then show ?thesis using Cons own sp(3) by (auto simp: x setting_words_def simp del: apply_setting.simps split: sum.splits)
  next
    case False
    then show ?thesis using Cons own sp(3) by (auto simp: x setting_words_def simp del: apply_setting.simps split: sum.splits)
  qed
qed simp

lemma parse_settings:
  assumes "good_parser specs" and "\<forall>x \<in> set xs. sayable specs x"
    and "apply_settings xs \<lparr>ps_namespace = option_defaults specs, ps_seen = [], ps_extras = False\<rparr> = Inr st"
    and "\<forall>sp \<in> set specs. os_required sp \<longrightarrow> sp \<in> fst ` set xs"
  shows "parse_args specs (concat (map setting_words xs)) = Inr (ps_namespace st)"
proof -
  have "ps_extras st' = ps_extras st0" if "apply_settings xs st0 = Inr st'" for xs st0 st'
    using that
  proof (induction xs arbitrary: st0)
    case (Cons x xs)
    then show ?case
      by (cases x) (auto simp: store_def split: sum.splits option_action.splits option.splits)
  qed simp
  from this [OF assms(3)] have "\<not> ps_extras st" by simp
  moreover have "set (ps_seen st) = fst ` set xs" using apply_settings_seen [OF assms(3)] by simp
  ultimately show ?thesis
    using parse_loop_settings [OF assms(1,2)] assms(3,4) by (auto simp: parse_args_def Let_def list_ex_iff)
qed

text \<open>A usage error is an exit with status 2, help one with status 0.\<close>

lemma apply_settings_exit: "apply_settings xs st = Inl e \<Longrightarrow> e \<in> {usage_exit 0, usage_exit 2}"
proof (induction xs arbitrary: st)
  case (Cons x xs)
  then show ?case by (cases x) (auto split: sum.splits option_action.splits option.splits)
qed simp

lemma parse_loop_exit: "parse_loop N rs st = Inl e \<Longrightarrow> e \<in> {usage_exit 0, usage_exit 2}"
proof (induction N rs st rule: parse_loop.induct)
  case (2 N arg sp name att rest st)
  show ?case
  proof (cases "settle N sp name att")
    case c: (Awaits xs sp')
    show ?thesis
    proof (cases "\<exists>word rest'. rest = (word, Word) # rest'")
      case True
      then show ?thesis using 2 c by (auto split: sum.splits dest: apply_settings_exit)
    next
      case False
      with 2(4) c have "e = usage_exit 2" by (auto split: list.splits prod.splits reading.splits)
      then show ?thesis by simp
    qed
  qed (use 2 in \<open>auto split: sum.splits dest: apply_settings_exit\<close>)
qed auto

lemma parse_args_exit: "parse_args specs argv = Inl e \<Longrightarrow> e \<in> {usage_exit 0, usage_exit 2}"
  by (auto simp: parse_args_def Let_def split: if_splits sum.splits dest: parse_loop_exit)

section \<open>The namespace\<close>

text \<open>The value a setting leaves at its destination, for options that cannot fail.\<close>

definition new_value :: "setting \<Rightarrow> pyval \<Rightarrow> pyval" where
  "new_value x old = (case x of (sp, word) \<Rightarrow>
     (case os_action sp of
        StoreTrue \<Rightarrow> PyBool True
      | StoreConst v \<Rightarrow> v
      | AppendWord \<Rightarrow> PyList ((case old of PyList vs \<Rightarrow> vs | _ \<Rightarrow> []) @ [PyStr word])
      | _ \<Rightarrow> PyStr word))"

definition value_after :: "string \<Rightarrow> setting list \<Rightarrow> pyval \<Rightarrow> pyval" where
  "value_after d xs v = fold (\<lambda>x v. if os_dest (fst x) = d then new_value x v else v) xs v"

lemma value_after_simps [simp]:
  "value_after d [] v = v"
  "value_after d (x # xs) v = value_after d xs (if os_dest (fst x) = d then new_value x v else v)"
  "value_after d (xs @ ys) v = value_after d ys (value_after d xs v)"
  by (simp_all add: value_after_def)

lemma dget_update: "dget (AList.update k v d) l = (if l = k then v else dget d l)"
  by (simp add: dget_def)

lemma apply_setting_value:
  assumes "os_action sp \<notin> {StoreInt, ShowHelp}"
  shows "apply_setting (sp, word) st = Inr (store sp (new_value (sp, word) (dget (ps_namespace st) (os_dest sp))) st)"
  using assms by (cases "os_action sp") (simp_all add: new_value_def)

lemma apply_settings_values:
  assumes "\<forall>x \<in> set xs. os_action (fst x) \<notin> {StoreInt, ShowHelp}"
  shows "\<exists>st'. apply_settings xs st = Inr st' \<and>
    (\<forall>d. dget (ps_namespace st') d = value_after d xs (dget (ps_namespace st) d))"
  using assms
proof (induction xs arbitrary: st)
  case (Cons x xs)
  obtain sp word where x: "x = (sp, word)" by fastforce
  define st1 where "st1 = store sp (new_value x (dget (ps_namespace st) (os_dest sp))) st"
  have st1: "apply_setting x st = Inr st1"
    using Cons.prems apply_setting_value [of sp word st] by (simp add: x st1_def)
  have get: "dget (ps_namespace st1) d = (if os_dest sp = d then new_value x (dget (ps_namespace st) d) else dget (ps_namespace st) d)" for d
    by (simp add: st1_def store_def dget_update)
  from Cons.IH [of st1] Cons.prems obtain st2 where "apply_settings xs st1 = Inr st2"
      "\<forall>d. dget (ps_namespace st2) d = value_after d xs (dget (ps_namespace st1) d)" by auto
  then show ?case using st1 by (simp add: get) (simp add: x)
qed simp

lemma option_defaults_get:
  "dget (option_defaults specs) d =
     (case find (\<lambda>sp. os_dest sp = d \<and> os_action sp \<noteq> ShowHelp) specs of None \<Rightarrow> PyNone | Some sp \<Rightarrow> os_default sp)"
proof -
  let ?add = "\<lambda>sp d. if os_action sp = ShowHelp \<or> in_dict (os_dest sp) d then d else d @ [(os_dest sp, os_default sp)]"
  have "dget (fold ?add specs ns) d = (if in_dict d ns then dget ns d
      else case find (\<lambda>sp. os_dest sp = d \<and> os_action sp \<noteq> ShowHelp) specs of None \<Rightarrow> PyNone | Some sp \<Rightarrow> os_default sp)" for ns
  proof (induction specs arbitrary: ns)
    case Nil
    then show ?case by (auto simp: dget_def in_dict_iff)
  next
    case (Cons sp specs)
    then show ?case by (auto simp: dget_def in_dict_iff map_add_def split: option.splits)
  qed
  then show ?thesis by (simp add: option_defaults_def in_dict_iff)
qed

lemma option_names_fst: "map fst (option_names specs) = concat (map os_names specs)"
  by (induction specs) (auto simp: option_names_def comp_def)

lemma find_in_left: "x \<in> set xs \<Longrightarrow> P x \<Longrightarrow> \<exists>y. find P (xs @ ys) = Some y \<and> y \<in> set xs \<and> P y"
  by (induction xs) auto

lemma find_in_right: "\<forall>x \<in> set xs. \<not> P x \<Longrightarrow> find P (xs @ ys) = find P ys"
  by (induction xs) auto

end
