(* ===== verification/Paths.thy ===== *)
theory Paths
  imports PyVal "HOL-Library.Char_ord" "HOL-Library.List_Lexorder"
begin

text \<open>
  What the code uses of \<open>os.path\<close> on POSIX: joining, normalisation, the last component and its
  extension.  Strings are ordered by their characters, as Python orders them.
\<close>

definition path_join :: "string \<Rightarrow> string \<Rightarrow> string" where
  "path_join a b =
     (if prefix ''/'' b then b else if a = [] \<or> last a = CHR ''/'' then a @ b else a @ ''/'' @ b)"

definition path_step :: "bool \<Rightarrow> string \<Rightarrow> string list \<Rightarrow> string list" where
  "path_step rooted part parts =
     (if part = [] \<or> part = ''.'' then parts
      else if part \<noteq> ''..'' \<or> (\<not> rooted \<and> parts = []) \<or> (parts \<noteq> [] \<and> last parts = ''..'') then parts @ [part]
      else butlast parts)"

definition normpath :: "string \<Rightarrow> string" where
  "normpath p =
     (let slashes = (if prefix ''//'' p \<and> \<not> prefix ''///'' p then ''//'' else if prefix ''/'' p then ''/'' else []);
          path = slashes @ join_with ''/'' (fold (path_step (slashes \<noteq> [])) (py_split (CHR ''/'') p) [])
      in if path = [] then ''.'' else path)"

definition abspath :: "string \<Rightarrow> string \<Rightarrow> string" where
  "abspath cwd p = normpath (path_join cwd p)"

text \<open>\<open>os.path.splitext(name)[1]\<close> of a name without a slash: leading dots do not start an extension.\<close>

definition extension :: "string \<Rightarrow> string" where
  "extension name =
     (case rsplit_once (CHR ''.'') name of
        None \<Rightarrow> []
      | Some (root, ext) \<Rightarrow> (if list_all (\<lambda>c. c = CHR ''.'') root then [] else CHR ''.'' # ext))"

definition splitext_root :: "string \<Rightarrow> string" where
  "splitext_root name = take (length name - length (extension name)) name"

definition basename :: "string \<Rightarrow> string" where
  "basename p = (case rsplit_once (CHR ''/'') p of None \<Rightarrow> p | Some (_, b) \<Rightarrow> b)"

end
