(* ===== verification/CommandLine.thy ===== *)
theory CommandLine
  imports Paths
begin

text \<open>
  The command line of kolla-ansible: \<open>kolla_ansible/ansible.py\<close> (validation of the arguments and
  the ansible-playbook command), the parts of \<open>kolla_ansible/utils.py\<close> it uses, and the commands
  of \<open>kolla_ansible/cli/commands.py\<close>.

  The file system is read only, and a record of what the code asks it.  A run is a computation
  over an abstract state of the machine and the log of the commands started and the pauses made.
  A non-zero exit status is the value the runner answers with; \<open>sys_exit\<close> is \<open>sys.exit\<close>.  Logging
  is not modelled.
\<close>

section \<open>The file system\<close>

record file_system =
  fs_cwd :: string
  fs_exists :: "string \<Rightarrow> bool"
  fs_isdir :: "string \<Rightarrow> bool"
  fs_isfile :: "string \<Rightarrow> bool"
  fs_readable :: "string \<Rightarrow> bool"
  fs_listdir :: "string \<Rightarrow> string list"

text \<open>The message, or None when the check passes.\<close>

definition is_readable_dir :: "file_system \<Rightarrow> string \<Rightarrow> string option" where
  "is_readable_dir F path =
     (if \<not> fs_exists F path then Some ''Path does not exist''
      else if \<not> fs_isdir F path then Some ''Path is not a directory''
      else if \<not> fs_readable F path then Some ''Directory is not readable'' else None)"

definition is_readable_file :: "file_system \<Rightarrow> string \<Rightarrow> string option" where
  "is_readable_file F path =
     (if \<not> fs_exists F path then Some ''Path does not exist''
      else if \<not> fs_isfile F path then Some ''Path is not a file''
      else if \<not> fs_readable F path then Some ''File is not readable'' else None)"

section \<open>The arguments\<close>

record parsed_args =
  pa_become :: bool
  pa_check :: bool
  pa_diff :: bool
  pa_extra_vars :: "string list"
  pa_inventory :: "string list"
  pa_limit :: "string option"
  pa_skip_tags :: "string option"
  pa_tags :: "string option"
  pa_list_tasks :: bool
  pa_playbook :: "string list"
  pa_vault_id :: "string list"
  pa_vault_password_file :: "string list"
  pa_ask_vault_password :: bool
  pa_config_path :: string
  pa_passwords :: "string option"

definition config_dir :: "file_system \<Rightarrow> parsed_args \<Rightarrow> string" where
  "config_dir F a = abspath (fs_cwd F) (pa_config_path a)"

definition get_inventory_paths :: "file_system \<Rightarrow> parsed_args \<Rightarrow> string list" where
  "get_inventory_paths F a =
     (if pa_inventory a \<noteq> [] then pa_inventory a
      else [path_join (path_join (path_join (config_dir F a) ''ansible'') ''inventory'') ''all-in-one''])"

definition sys_exit :: "int \<Rightarrow> pyexn" where
  "sys_exit n = OtherError (''SystemExit '' @ str_of_int n)"

text \<open>The missing password and globals files are only logged.\<close>

definition validate_args :: "file_system \<Rightarrow> parsed_args \<Rightarrow> string list \<Rightarrow> pyexn + unit" where
  "validate_args F a playbooks =
     (if is_readable_dir F (config_dir F a) \<noteq> None then Inl (sys_exit 1)
      else if list_ex (\<lambda>i. is_readable_dir F i \<noteq> None \<and> is_readable_file F i \<noteq> None) (get_inventory_paths F a)
      then Inl (sys_exit 1)
      else if list_ex (\<lambda>p. is_readable_file F p \<noteq> None) playbooks then Inl (sys_exit 1)
      else Inr ())"

definition get_vars_files :: "file_system \<Rightarrow> string \<Rightarrow> string list" where
  "get_vars_files F config_path =
     (let vars_path = path_join config_path ''globals.d''
      in if is_readable_dir F vars_path \<noteq> None then []
         else sort (map (path_join vars_path)
           (filter (\<lambda>f. is_readable_file F (path_join vars_path f) = None \<and>
               extension f \<in> {''.yml'', ''.yaml'', ''.json''})
             (fs_listdir F vars_path))))"

text \<open>\<open>-e\<close> before each value, and an option with its value if there is one.\<close>

definition extra :: "string list \<Rightarrow> string list" where
  "extra vs = concat (map (\<lambda>v. [''-e'', v]) vs)"

definition option_arg :: "string \<Rightarrow> string option \<Rightarrow> string list" where
  "option_arg name v = (if str_truthy v then [name, the v] else [])"

definition flag :: "string \<Rightarrow> bool \<Rightarrow> string list" where
  "flag name b = (if b then [name] else [])"

definition extra_var :: "string \<times> pyval \<Rightarrow> string" where
  "extra_var nv = fst nv @ ''='' @ py_str (snd nv)"

definition build_args :: "file_system \<Rightarrow> parsed_args \<Rightarrow> string list \<Rightarrow> pyobj \<Rightarrow> int \<Rightarrow> string \<times> string list" where
  "build_args F a playbooks extra_vars verbose_level =
     (let dir = config_dir F a
      in (''ansible-playbook'',
          (if verbose_level \<noteq> 0 then [CHR ''-'' # replicate (nat verbose_level) (CHR ''v'')] else [])
          @ flag ''--list-tasks'' (pa_list_tasks a)
          @ concat (map (\<lambda>i. [''--inventory'', i]) (get_inventory_paths F a))
          @ extra [CHR ''@'' # path_join dir ''globals.yml'', CHR ''@'' # path_join dir ''passwords.yml'']
          @ concat (map (\<lambda>i. [''--vault-id'', i]) (pa_vault_id a))
          @ concat (map (\<lambda>i. [''--vault-password-file'', i]) (pa_vault_password_file a))
          @ flag ''--ask-vault-password'' (pa_ask_vault_password a)
          @ extra (map (\<lambda>f. CHR ''@'' # f) (get_vars_files F dir))
          @ extra (pa_extra_vars a)
          @ extra (map extra_var extra_vars)
          @ extra [''CONFIG_DIR='' @ dir]
          @ flag ''--become'' (pa_become a) @ flag ''--check'' (pa_check a) @ flag ''--diff'' (pa_diff a)
          @ option_arg ''--limit'' (pa_limit a) @ option_arg ''--skip-tags'' (pa_skip_tags a)
          @ option_arg ''--tags'' (pa_tags a)
          @ [join_with '' '' playbooks]))"

section \<open>Running\<close>

datatype shell_event = Started "string list" bool | Slept int

record 's shell =
  ss_state :: 's
  ss_log :: "shell_event list"

type_synonym ('s, 'a) cmd = "('s shell, 'a) io"
type_synonym 's runner = "string list \<Rightarrow> 's \<Rightarrow> (pyexn + int) \<times> 's"

definition run_command :: "'s runner \<Rightarrow> string \<Rightarrow> string list \<Rightarrow> bool \<Rightarrow> ('s, int) cmd" where
  "run_command R executable args quiet =
     (\<lambda>w. case R (executable # args) (ss_state w) of
        (r, s) \<Rightarrow> (r, w\<lparr>ss_state := s, ss_log := ss_log w @ [Started (executable # args) quiet]\<rparr>))"

definition run_playbooks ::
  "'s runner \<Rightarrow> file_system \<Rightarrow> parsed_args \<Rightarrow> string list \<Rightarrow> pyobj \<Rightarrow> bool \<Rightarrow> int \<Rightarrow> ('s, unit) cmd" where
  "run_playbooks R F a playbooks extra_vars quiet verbose_level =
     bnd (lift_sum (validate_args F a playbooks)) (\<lambda>_.
     case build_args F a playbooks extra_vars verbose_level of (executable, args) \<Rightarrow>
       bnd (run_command R executable args quiet) (\<lambda>status.
       if status = 0 then return_io () else raise_io (sys_exit status)))"

text \<open>
  \<open>galaxy_collection_install\<close>: \<open>requirements\<close> is the content of the file; attempt \<open>k\<close> of five.
\<close>

fun install_attempts :: "'s runner \<Rightarrow> string list \<Rightarrow> nat \<Rightarrow> ('s, unit) cmd" where
  "install_attempts R args 0 = return_io ()"
| "install_attempts R args (Suc left) =
     bnd (run_command R ''ansible-galaxy'' args False) (\<lambda>status.
     if status = 0 then return_io ()
     else if left > 0 then
       bnd (modify_io (\<lambda>w. w\<lparr>ss_log := ss_log w @ [Slept 2]\<rparr>)) (\<lambda>_. install_attempts R args left)
     else raise_io (sys_exit status))"

definition galaxy_collection_install ::
  "'s runner \<Rightarrow> (string \<Rightarrow> pyexn + pyval) \<Rightarrow> string \<Rightarrow> string option \<Rightarrow> bool \<Rightarrow> ('s, unit) cmd" where
  "galaxy_collection_install R yaml requirements_file collections_path force =
     bnd (lift_sum (yaml requirements_file)) (\<lambda>requirements.
     case requirements of
       PyDict _ \<Rightarrow>
         install_attempts R ([''collection'', ''install''] @ option_arg ''--collections-path'' collections_path
           @ [''--requirements-file'', requirements_file] @ flag ''--force'' force) 5
     | _ \<Rightarrow> return_io ())"

definition install_galaxy_collections ::
  "'s runner \<Rightarrow> (string \<Rightarrow> pyexn + pyval) \<Rightarrow> (string \<Rightarrow> string) \<Rightarrow> bool \<Rightarrow> ('s, unit) cmd" where
  "install_galaxy_collections R yaml data_file force =
     bnd (galaxy_collection_install R yaml (data_file ''requirements.yml'') None force) (\<lambda>_.
     galaxy_collection_install R yaml (data_file ''requirements-core.yml'') None force)"

section \<open>The commands\<close>

text \<open>Each command with its own options; \<open>--check-expiry\<close> is an optional number of days.\<close>

datatype kolla_command =
    GatherFacts | InstallDeps | Prechecks | GenConfig | Reconfigure | ValidateConfig | BootstrapServers | Pull
  | Certificates | OctaviaCertificates "int option" | Deploy | DeployContainers | Postdeploy | Upgrade
  | Stop bool | Destroy bool bool | PruneImages | BifrostDeploy | BifrostDeployServers | BifrostUpgrade
  | RabbitMQResetState | MariaDBBackup string | MariaDBRecovery | NovaLibvirtCleanup | Check
  | MigrateContainerEngine | MigrateValkey

definition ANSIBLE_SERIAL :: int where "ANSIBLE_SERIAL = 0"

definition yes_no :: "bool \<Rightarrow> pyval" where
  "yes_no b = PyStr (if b then ''yes'' else ''no'')"

text \<open>The playbook of a command, and the variables it passes; \<open>py\<close> is \<open>sys.executable\<close>.\<close>

fun kolla_playbook :: "kolla_command \<Rightarrow> string" where
  "kolla_playbook GatherFacts = ''gather-facts''"
| "kolla_playbook BootstrapServers = ''kolla-host''"
| "kolla_playbook Certificates = ''certificates''"
| "kolla_playbook (OctaviaCertificates _) = ''octavia-certificates''"
| "kolla_playbook Postdeploy = ''post-deploy''"
| "kolla_playbook (Destroy _ _) = ''destroy''"
| "kolla_playbook PruneImages = ''prune-images''"
| "kolla_playbook BifrostDeploy = ''bifrost''"
| "kolla_playbook BifrostDeployServers = ''bifrost''"
| "kolla_playbook BifrostUpgrade = ''bifrost''"
| "kolla_playbook RabbitMQResetState = ''rabbitmq-reset-state''"
| "kolla_playbook (MariaDBBackup _) = ''mariadb_backup''"
| "kolla_playbook MariaDBRecovery = ''mariadb_recovery''"
| "kolla_playbook NovaLibvirtCleanup = ''nova-libvirt-cleanup''"
| "kolla_playbook MigrateContainerEngine = ''migrate-container-engine''"
| "kolla_playbook MigrateValkey = ''migrate-valkey''"
| "kolla_playbook _ = ''site''"

definition action_var :: "string \<Rightarrow> string \<times> pyval" where
  "action_var action = (''kolla_action'', PyStr action)"

text \<open>The commands with options of their own.\<close>

definition octavia_vars :: "string \<Rightarrow> int option \<Rightarrow> pyobj" where
  "octavia_vars py check_expiry =
     [(''ansible_python_interpreter'', PyStr py)]
     @ (case check_expiry of None \<Rightarrow> []
        | Some days \<Rightarrow> [(''octavia_certs_check_expiry'', PyStr ''yes''), (''octavia_certs_expiry_limit'', PyInt days)])"

definition stop_vars :: "bool \<Rightarrow> pyobj" where
  "stop_vars ignore_missing = [action_var ''stop'', (''kolla_action_stop_ignore_missing'', yes_no ignore_missing)]"

definition destroy_vars :: "bool \<Rightarrow> bool \<Rightarrow> pyobj" where
  "destroy_vars include_dev include_images =
     [action_var ''destroy'', (''destroy_include_dev'', yes_no include_dev),
      (''destroy_include_images'', yes_no include_images)]"

definition backup_vars :: "string \<Rightarrow> pyobj" where
  "backup_vars mariadb_backup_type = [action_var ''backup'', (''mariadb_backup_type'', PyStr mariadb_backup_type)]"

fun kolla_vars :: "string \<Rightarrow> kolla_command \<Rightarrow> pyobj" where
  "kolla_vars py Prechecks = [action_var ''precheck'']"
| "kolla_vars py GenConfig = [action_var ''config'']"
| "kolla_vars py Reconfigure = [action_var ''reconfigure'', (''kolla_serial'', PyInt ANSIBLE_SERIAL)]"
| "kolla_vars py ValidateConfig = [action_var ''config_validate'']"
| "kolla_vars py BootstrapServers =
     [action_var ''bootstrap-servers'', (''ansible_python_interpreter'', PyStr ''auto_silent'')]"
| "kolla_vars py Pull = [action_var ''pull'']"
| "kolla_vars py (OctaviaCertificates check_expiry) = octavia_vars py check_expiry"
| "kolla_vars py Deploy = [action_var ''deploy'']"
| "kolla_vars py DeployContainers = [action_var ''deploy-containers'']"
| "kolla_vars py Upgrade = [action_var ''upgrade'', (''kolla_serial'', PyInt ANSIBLE_SERIAL)]"
| "kolla_vars py (Stop ignore_missing) = stop_vars ignore_missing"
| "kolla_vars py (Destroy include_dev include_images) = destroy_vars include_dev include_images"
| "kolla_vars py BifrostDeploy = [action_var ''deploy'']"
| "kolla_vars py BifrostDeployServers = [action_var ''deploy-servers'']"
| "kolla_vars py BifrostUpgrade = [action_var ''upgrade'']"
| "kolla_vars py (MariaDBBackup backup_type) = backup_vars backup_type"
| "kolla_vars py MariaDBRecovery = [action_var ''deploy'']"
| "kolla_vars py Check = [action_var ''check'']"
| "kolla_vars py _ = []"

definition choose_playbooks :: "(string \<Rightarrow> string) \<Rightarrow> parsed_args \<Rightarrow> string \<Rightarrow> string list" where
  "choose_playbooks data_file a playbook =
     (if pa_playbook a \<noteq> [] then pa_playbook a
      else [data_file (path_join ''ansible'' (playbook @ ''.yml''))])"

text \<open>
  The mixin's \<open>run_playbooks\<close>: an interpreter the user sets stands, and Cliff's verbosity, 1 by
  default and 0 for quiet, is turned into Ansible's.
\<close>

definition user_sets_interpreter :: "parsed_args \<Rightarrow> bool" where
  "user_sets_interpreter a \<longleftrightarrow> list_ex (prefix ''ansible_python_interpreter='') (pa_extra_vars a)"

definition command_vars :: "string \<Rightarrow> parsed_args \<Rightarrow> kolla_command \<Rightarrow> pyobj" where
  "command_vars py a c =
     (if user_sets_interpreter a then AList.delete ''ansible_python_interpreter'' (kolla_vars py c) else kolla_vars py c)"

definition verbosity_args :: "int \<Rightarrow> bool \<times> int" where
  "verbosity_args verbose_level = (if verbose_level \<noteq> 0 then (False, verbose_level - 1) else (True, 0))"

text \<open>\<open>data_file\<close> is \<open>utils.get_data_files_path\<close>, applied to the joined path.\<close>

definition take_action ::
  "'s runner \<Rightarrow> file_system \<Rightarrow> (string \<Rightarrow> pyexn + pyval) \<Rightarrow> (string \<Rightarrow> string) \<Rightarrow> string \<Rightarrow> int
    \<Rightarrow> parsed_args \<Rightarrow> kolla_command \<Rightarrow> ('s, unit) cmd" where
  "take_action R F yaml data_file py verbose_level a c =
     (if c = InstallDeps then install_galaxy_collections R yaml data_file True
      else case verbosity_args verbose_level of (quiet, level) \<Rightarrow>
        run_playbooks R F a (choose_playbooks data_file a (kolla_playbook c)) (command_vars py a c) quiet level)"

section \<open>Which variable wins\<close>



definition last_assignment :: "string \<Rightarrow> string list \<Rightarrow> string option" where
  "last_assignment name vs =
     (let ms = filter (prefix (name @ ''='')) vs
      in if ms = [] then None else Some (drop (length name + 1) (last ms)))"









lemma last_assignment_some: "list_ex (prefix (name @ ''='')) vs \<Longrightarrow> last_assignment name vs \<noteq> None"
  by (auto simp: last_assignment_def list_ex_iff filter_empty_conv Let_def)





definition demo_args :: parsed_args where
  "demo_args = \<lparr>pa_become = True, pa_check = False, pa_diff = False,
     pa_extra_vars = [''kolla_action=destroy'', ''ansible_python_interpreter=/py''], pa_inventory = [''-e'', ''multinode''],
     pa_limit = None, pa_skip_tags = None, pa_tags = Some ''nova'', pa_list_tasks = False, pa_playbook = [],
     pa_vault_id = [], pa_vault_password_file = [], pa_ask_vault_password = False, pa_config_path = ''etc/../kolla/'',
     pa_passwords = None\<rparr>"

definition demo_files :: file_system where
  "demo_files = \<lparr>fs_cwd = ''/root'', fs_exists = (\<lambda>_. True), fs_isdir = (\<lambda>_. True), fs_isfile = (\<lambda>_. True),
     fs_readable = (\<lambda>_. True), fs_listdir = (\<lambda>_. [''b.yml'', ''.yml'', ''a.json'', ''c.txt''])\<rparr>"

lemma demo_paths:
  "config_dir demo_files demo_args = ''/root/kolla''"
  "get_vars_files demo_files ''/root/kolla'' = [''/root/kolla/globals.d/a.json'', ''/root/kolla/globals.d/b.yml'']"
  by code_simp+


section \<open>Runs\<close>

definition inputs_readable :: "file_system \<Rightarrow> parsed_args \<Rightarrow> string list \<Rightarrow> bool" where
  "inputs_readable F a playbooks \<longleftrightarrow> is_readable_dir F (config_dir F a) = None
     \<and> (\<forall>i \<in> set (get_inventory_paths F a). is_readable_dir F i = None \<or> is_readable_file F i = None)
     \<and> (\<forall>p \<in> set playbooks. is_readable_file F p = None)"

lemma validate_readable:
  "validate_args F a playbooks = (if inputs_readable F a playbooks then Inr () else Inl (sys_exit 1))"
  by (auto simp: validate_args_def inputs_readable_def list_ex_iff simp del: not_None_eq)

text \<open>
  C34. One validated run.  A command other than the installation of dependencies starts at most
  one program.  It starts nothing and exits with status 1 if the configuration directory, an
  inventory or a playbook cannot be read; otherwise it starts ansible-playbook once, and if that
  ends with a non-zero status the command exits with the same one.
\<close>

theorem command_runs_once:
  assumes "take_action R F yaml data_file py verbose_level a c w = (r, w')" and "c \<noteq> InstallDeps"
    and "playbooks = choose_playbooks data_file a (kolla_playbook c)"
  shows "if inputs_readable F a playbooks
    then \<exists>args quiet status. ss_log w' = ss_log w @ [Started (''ansible-playbook'' # args) quiet]
      \<and> status = fst (R (''ansible-playbook'' # args) (ss_state w))
      \<and> r = (case status of Inl e \<Rightarrow> Inl e | Inr n \<Rightarrow> if n = 0 then Inr () else Inl (sys_exit n))
    else r = Inl (sys_exit 1) \<and> w' = w"
proof -
  obtain quiet level where v: "verbosity_args verbose_level = (quiet, level)" by fastforce
  have run: "run_playbooks R F a playbooks (command_vars py a c) quiet level w = (r, w')"
    using assms v by (simp add: take_action_def)
  obtain args where args: "build_args F a playbooks (command_vars py a c) level = (''ansible-playbook'', args)"
    by (simp add: build_args_def Let_def)
  have "\<exists>status. ss_log w' = ss_log w @ [Started (''ansible-playbook'' # args) quiet]
        \<and> status = fst (R (''ansible-playbook'' # args) (ss_state w))
        \<and> r = (case status of Inl e \<Rightarrow> Inl e | Inr n \<Rightarrow> if n = 0 then Inr () else Inl (sys_exit n))"
    if "inputs_readable F a playbooks"
    using run that args
    by (auto simp: validate_readable run_playbooks_def run_command_def bnd_run lift_sum_def io_run
        split: prod.splits sum.splits if_splits)
  then show ?thesis
    using run by (auto simp: validate_readable run_playbooks_def bnd_run lift_sum_def io_run split: if_splits)
qed

theorem command_runs_once_witness:
  "fst (take_action (\<lambda>_ (s :: unit). (Inr 4, s)) demo_files (\<lambda>_. Inr PyNone) id ''python3'' 1 demo_args Deploy
     \<lparr>ss_state = (), ss_log = []\<rparr>) = Inl (sys_exit 4)"
proof -
  let ?w = "\<lparr>ss_state = (), ss_log = []\<rparr> :: unit shell"
  obtain r w' where run: "take_action (\<lambda>_ s. (Inr 4, s)) demo_files (\<lambda>_. Inr PyNone) id ''python3'' 1 demo_args Deploy ?w = (r, w')"
    by fastforce
  have "is_readable_dir demo_files p = None" "is_readable_file demo_files p = None" for p
    by (simp_all add: is_readable_dir_def is_readable_file_def demo_files_def)
  then have "inputs_readable demo_files demo_args p" for p by (simp add: inputs_readable_def)
  with command_runs_once [OF run _ refl] show ?thesis by (auto simp: run)
qed

definition attempt_log :: "string list \<Rightarrow> nat \<Rightarrow> shell_event list" where
  "attempt_log args n =
     concat (replicate (n - 1) [Started (''ansible-galaxy'' # args) False, Slept 2])
       @ [Started (''ansible-galaxy'' # args) False]"

lemma attempt_log_Suc:
  "0 < n \<Longrightarrow> attempt_log args (Suc n) = Started (''ansible-galaxy'' # args) False # Slept 2 # attempt_log args n"
  by (cases n) (simp_all add: attempt_log_def)

text \<open>
  The installation of the collections tries at most five times, two seconds apart; it gives up
  before the fifth only on success or if the program could not be started.
\<close>

lemma install_attempts_bound:
  "0 < left \<Longrightarrow> install_attempts R args left w = (r, w') \<Longrightarrow>
   \<exists>n. 0 < n \<and> n \<le> left \<and> ss_log w' = ss_log w @ attempt_log args n
     \<and> (n = left \<or> r = Inr () \<or> (\<exists>e s s'. r = Inl e \<and> R (''ansible-galaxy'' # args) s = (Inl e, s')))"
proof (induction left arbitrary: w)
  case (Suc left)
  obtain status s where run: "R (''ansible-galaxy'' # args) (ss_state w) = (status, s)" by fastforce
  let ?w1 = "w\<lparr>ss_state := s, ss_log := ss_log w @ [Started (''ansible-galaxy'' # args) False]\<rparr>"
  show ?case
  proof (cases "status \<noteq> Inr 0 \<and> left > 0 \<and> \<not> isl status")
    case True
    let ?w2 = "?w1\<lparr>ss_log := ss_log ?w1 @ [Slept 2]\<rparr>"
    have "install_attempts R args left ?w2 = (r, w')"
      using Suc.prems(2) run True
      by (cases status) (auto simp: run_command_def bnd_run modify_run)
    from Suc.IH [OF _ this] True obtain n where "0 < n" "n \<le> left" "ss_log w' = ss_log ?w2 @ attempt_log args n"
      "n = left \<or> r = Inr () \<or> (\<exists>e s s'. r = Inl e \<and> R (''ansible-galaxy'' # args) s = (Inl e, s'))" by blast
    then show ?thesis by (intro exI [of _ "Suc n"]) (auto simp: attempt_log_Suc)
  next
    case False
    then have "ss_log w' = ss_log w @ attempt_log args 1"
      "1 = Suc left \<or> r = Inr () \<or> (\<exists>e s s'. r = Inl e \<and> R (''ansible-galaxy'' # args) s = (Inl e, s'))"
      using Suc.prems(2) run
      by (auto simp: run_command_def bnd_run io_run attempt_log_def split: sum.splits if_splits)
    then show ?thesis by (intro exI [of _ 1]) auto
  qed
qed simp

section \<open>Options that do not do what they say\<close>

text \<open>
  \<open>--passwords\<close> names a password file, whose absence is logged; Ansible is given the one in the
  configuration directory all the same.
\<close>

lemma passwords_option_ignored:
  "take_action R F yaml data_file py verbose_level (a\<lparr>pa_passwords := p\<rparr>) c = take_action R F yaml data_file py verbose_level a c"
proof -
  have "build_args F (a\<lparr>pa_passwords := p\<rparr>) = build_args F a" "validate_args F (a\<lparr>pa_passwords := p\<rparr>) = validate_args F a"
    by (simp_all add: fun_eq_iff build_args_def validate_args_def config_dir_def get_inventory_paths_def)
  moreover have "choose_playbooks data_file (a\<lparr>pa_passwords := p\<rparr>) = choose_playbooks data_file a"
    "command_vars py (a\<lparr>pa_passwords := p\<rparr>) = command_vars py a"
    by (simp_all add: fun_eq_iff choose_playbooks_def command_vars_def user_sets_interpreter_def)
  ultimately show ?thesis
    by (cases "verbosity_args verbose_level") (simp add: take_action_def run_playbooks_def)
qed

text \<open>Several \<open>--playbook\<close> options reach Ansible as the name of one playbook, with spaces.\<close>

lemma several_playbooks_one_word:
  "last (snd (build_args F a [p, q] vars level)) = p @ '' '' @ q"
  by (simp add: build_args_def Let_def)

end
