(* ===== verification/KollaCommands.thy ===== *)
theory KollaCommands
  imports ArgParse CommandLine
begin

text \<open>
  The command lines of kolla-ansible's commands: the options of \<open>kolla_ansible/ansible.py\<close> and of
  the classes in \<open>kolla_ansible/cli/commands.py\<close>, the names under which \<open>setup.cfg\<close> registers the
  classes, and a run from the words behind the command's name to the playbooks.
\<close>

section \<open>The options all commands share\<close>

definition word_option :: "string list \<Rightarrow> string \<Rightarrow> option_spec" where
  "word_option names dest =
     \<lparr>os_names = names, os_dest = dest, os_action = StoreWord, os_default = PyNone, os_required = False\<rparr>"

definition flag_option :: "string list \<Rightarrow> string \<Rightarrow> option_spec" where
  "flag_option names dest =
     \<lparr>os_names = names, os_dest = dest, os_action = StoreTrue, os_default = PyBool False, os_required = False\<rparr>"

definition list_option :: "string list \<Rightarrow> string \<Rightarrow> pyval \<Rightarrow> option_spec" where
  "list_option names dest initial =
     \<lparr>os_names = names, os_dest = dest, os_action = AppendWord, os_default = initial, os_required = False\<rparr>"

definition add_ansible_args :: "option_spec list" where
  "add_ansible_args =
     [flag_option [''-b'', ''--become''] ''become'',
      flag_option [''-C'', ''--check''] ''check'',
      flag_option [''-D'', ''--diff''] ''diff'',
      list_option [''-e'', ''--extra-vars''] ''extra_vars'' PyNone,
      list_option [''-i'', ''--inventory''] ''inventory'' PyNone,
      word_option [''-l'', ''--limit''] ''limit'',
      word_option [''--skip-tags''] ''skip_tags'',
      word_option [''-t'', ''--tags''] ''tags'',
      flag_option [''-lt'', ''--list-tasks''] ''list_tasks'',
      list_option [''-p'', ''--playbook''] ''playbook'' PyNone,
      list_option [''--vault-id''] ''vault_id'' (PyList []),
      list_option [''--vault-password-file'', ''--vault-pass-file''] ''vault_password_file'' (PyList []),
      flag_option [''-J'', ''--ask-vault-password'', ''--ask-vault-pass''] ''ask_vault_password'']"

text \<open>The environment variable \<open>KOLLA_CONFIG_PATH\<close> gives the default of the configuration path.\<close>

definition add_kolla_ansible_args :: "string option \<Rightarrow> option_spec list" where
  "add_kolla_ansible_args env_config_path =
     [(word_option [''--configdir''] ''kolla_config_path'')
        \<lparr>os_default := PyStr (case env_config_path of None \<Rightarrow> ''/etc/kolla'' | Some p \<Rightarrow> p)\<rparr>,
      word_option [''--passwords''] ''kolla_passwords'']"

definition words_of :: "pyval \<Rightarrow> string list" where
  "words_of v = (case v of PyList vs \<Rightarrow> map py_str vs | _ \<Rightarrow> [])"

definition word_of :: "pyval \<Rightarrow> string option" where
  "word_of v = (case v of PyStr s \<Rightarrow> Some s | _ \<Rightarrow> None)"

text \<open>The namespace as the record the commands read.\<close>

definition namespace_args :: "pyobj \<Rightarrow> parsed_args" where
  "namespace_args ns =
     \<lparr>pa_become = truthy (dget ns ''become''), pa_check = truthy (dget ns ''check''), pa_diff = truthy (dget ns ''diff''),
      pa_extra_vars = words_of (dget ns ''extra_vars''), pa_inventory = words_of (dget ns ''inventory''),
      pa_limit = word_of (dget ns ''limit''), pa_skip_tags = word_of (dget ns ''skip_tags''),
      pa_tags = word_of (dget ns ''tags''), pa_list_tasks = truthy (dget ns ''list_tasks''),
      pa_playbook = words_of (dget ns ''playbook''), pa_vault_id = words_of (dget ns ''vault_id''),
      pa_vault_password_file = words_of (dget ns ''vault_password_file''),
      pa_ask_vault_password = truthy (dget ns ''ask_vault_password''),
      pa_config_path = py_str (dget ns ''kolla_config_path''), pa_passwords = word_of (dget ns ''kolla_passwords'')\<rparr>"

section \<open>The commands' own options\<close>

definition confirm_option :: option_spec where
  "confirm_option = (flag_option [''--yes-i-really-really-mean-it''] ''yes_i_really_really_mean_it'')\<lparr>os_required := True\<rparr>"

record command_class =
  cc_options :: "option_spec list"
  cc_command :: "pyobj \<Rightarrow> kolla_command"

definition plain :: "kolla_command \<Rightarrow> command_class" where
  "plain c = \<lparr>cc_options = [], cc_command = (\<lambda>_. c)\<rparr>"

definition octavia_class :: command_class where
  "octavia_class =
     \<lparr>cc_options = [\<lparr>os_names = [''--check-expiry''], os_dest = ''check_expiry'', os_action = StoreInt,
        os_default = PyNone, os_required = False\<rparr>],
      cc_command = (\<lambda>ns. OctaviaCertificates (case dget ns ''check_expiry'' of PyInt i \<Rightarrow> Some i | _ \<Rightarrow> None))\<rparr>"

definition stop_class :: command_class where
  "stop_class =
     \<lparr>cc_options = [confirm_option, flag_option [''--ignore-missing''] ''ignore_missing''],
      cc_command = (\<lambda>ns. Stop (truthy (dget ns ''ignore_missing'')))\<rparr>"

definition destroy_class :: command_class where
  "destroy_class =
     \<lparr>cc_options = [confirm_option, flag_option [''--include-dev''] ''include_dev'',
        flag_option [''--include-images''] ''include_images''],
      cc_command = (\<lambda>ns. Destroy (truthy (dget ns ''include_dev'')) (truthy (dget ns ''include_images'')))\<rparr>"

definition prune_class :: command_class where
  "prune_class = \<lparr>cc_options = [confirm_option], cc_command = (\<lambda>_. PruneImages)\<rparr>"

definition backup_class :: command_class where
  "backup_class =
     \<lparr>cc_options =
        [\<lparr>os_names = [''--full''], os_dest = ''mariadb_backup_type'', os_action = StoreConst (PyStr ''full''),
          os_default = PyStr ''full'', os_required = False\<rparr>,
         \<lparr>os_names = [''--incremental''], os_dest = ''mariadb_backup_type'', os_action = StoreConst (PyStr ''incremental''),
          os_default = PyNone, os_required = False\<rparr>],
      cc_command = (\<lambda>ns. MariaDBBackup (py_str (dget ns ''mariadb_backup_type'')))\<rparr>"

text \<open>The classes without options of their own, one for each action.\<close>

definition gather_facts_class :: command_class where "gather_facts_class = plain GatherFacts"

definition install_deps_class :: command_class where "install_deps_class = plain InstallDeps"

definition prechecks_class :: command_class where "prechecks_class = plain Prechecks"

definition gen_config_class :: command_class where "gen_config_class = plain GenConfig"

definition reconfigure_class :: command_class where "reconfigure_class = plain Reconfigure"

definition validate_config_class :: command_class where "validate_config_class = plain ValidateConfig"

definition bootstrap_servers_class :: command_class where "bootstrap_servers_class = plain BootstrapServers"

definition pull_class :: command_class where "pull_class = plain Pull"

definition certificates_class :: command_class where "certificates_class = plain Certificates"

definition deploy_class :: command_class where "deploy_class = plain Deploy"

definition deploy_containers_class :: command_class where "deploy_containers_class = plain DeployContainers"

definition postdeploy_class :: command_class where "postdeploy_class = plain Postdeploy"

definition upgrade_class :: command_class where "upgrade_class = plain Upgrade"

definition bifrost_deploy_class :: command_class where "bifrost_deploy_class = plain BifrostDeploy"

definition bifrost_deploy_servers_class :: command_class where "bifrost_deploy_servers_class = plain BifrostDeployServers"

definition bifrost_upgrade_class :: command_class where "bifrost_upgrade_class = plain BifrostUpgrade"

definition rabbitmq_reset_class :: command_class where "rabbitmq_reset_class = plain RabbitMQResetState"

definition mariadb_recovery_class :: command_class where "mariadb_recovery_class = plain MariaDBRecovery"

definition nova_libvirt_cleanup_class :: command_class where "nova_libvirt_cleanup_class = plain NovaLibvirtCleanup"

definition check_class :: command_class where "check_class = plain Check"

definition migrate_container_engine_class :: command_class where "migrate_container_engine_class = plain MigrateContainerEngine"

definition migrate_valkey_class :: command_class where "migrate_valkey_class = plain MigrateValkey"

definition command_classes :: "(string \<times> command_class) list" where
  "command_classes =
     [(''gather-facts'', gather_facts_class), (''install-deps'', install_deps_class), (''prechecks'', prechecks_class),
      (''genconfig'', gen_config_class), (''reconfigure'', reconfigure_class), (''validate-config'', validate_config_class),
      (''bootstrap-servers'', bootstrap_servers_class), (''pull'', pull_class), (''certificates'', certificates_class),
      (''octavia-certificates'', octavia_class), (''deploy'', deploy_class), (''deploy-containers'', deploy_containers_class),
      (''post-deploy'', postdeploy_class), (''upgrade'', upgrade_class), (''stop'', stop_class),
      (''destroy'', destroy_class), (''prune-images'', prune_class), (''deploy-bifrost'', bifrost_deploy_class),
      (''deploy-servers'', bifrost_deploy_servers_class), (''upgrade-bifrost'', bifrost_upgrade_class),
      (''rabbitmq-reset-state'', rabbitmq_reset_class), (''mariadb-backup'', backup_class),
      (''mariadb-recovery'', mariadb_recovery_class), (''nova-libvirt-cleanup'', nova_libvirt_cleanup_class),
      (''check'', check_class), (''migrate-container-engine'', migrate_container_engine_class),
      (''migrate-valkey'', migrate_valkey_class)]"

text \<open>The parser of a command: the help option, the two shared groups, and its own.\<close>

definition get_parser :: "string option \<Rightarrow> command_class \<Rightarrow> option_spec list" where
  "get_parser env_config_path cls =
     help_option # add_ansible_args @ add_kolla_ansible_args env_config_path @ cc_options cls"

definition run_class ::
  "'s runner \<Rightarrow> file_system \<Rightarrow> (string \<Rightarrow> pyexn + pyval) \<Rightarrow> (string \<Rightarrow> string) \<Rightarrow> string \<Rightarrow> int
    \<Rightarrow> string option \<Rightarrow> command_class \<Rightarrow> string list \<Rightarrow> ('s, unit) cmd" where
  "run_class R F yaml data_file py verbose_level env_config_path cls argv =
     bnd (lift_sum (parse_args (get_parser env_config_path cls) argv)) (\<lambda>ns.
     take_action R F yaml data_file py verbose_level (namespace_args ns) (cc_command cls ns))"

section \<open>Confirmation\<close>

definition confirmed_classes :: "command_class list" where
  "confirmed_classes = [stop_class, destroy_class, prune_class]"

lemma confirm_in_parser: "cls \<in> set confirmed_classes \<Longrightarrow> confirm_option \<in> set (get_parser env cls)"
  by (auto simp: confirmed_classes_def get_parser_def stop_class_def destroy_class_def prune_class_def)

lemma confirmation_given:
  assumes "cls \<in> set confirmed_classes" "parse_args (get_parser env cls) argv = Inr ns"
  shows "\<exists>arg \<in> set argv. prefix ''--y'' arg \<and> prefix arg ''--yes-i-really-really-mean-it''"
proof -
  have "os_required confirm_option" "\<not> takes_value confirm_option"
    "\<forall>n \<in> set (os_names confirm_option). is_long n \<and> length n > 2"
    by (simp_all add: confirm_option_def flag_option_def takes_value_def is_long_def)
  from required_flag_given [OF assms(2) confirm_in_parser [OF assms(1)] this]
  obtain arg where arg: "arg \<in> set argv" "is_long arg" "length arg > 2" "prefix arg ''--yes-i-really-really-mean-it''"
    by (auto simp: confirm_option_def flag_option_def)
  then have "prefix ''--y'' arg"
    by (auto simp: is_long_def prefix_def neq_Nil_conv)
  with arg show ?thesis by blast
qed

text \<open>
  C17. The commands that stop the cloud, destroy it or remove images do nothing without the
  confirmation: if no argument is \<open>--yes-i-really-really-mean-it\<close> or an abbreviation of it,
  they exit with a usage error or after the help text, and start no program.
\<close>

theorem destroying_needs_confirmation:
  assumes "cls \<in> set confirmed_classes"
    and "\<forall>arg \<in> set argv. prefix ''--y'' arg \<longrightarrow> \<not> prefix arg ''--yes-i-really-really-mean-it''"
  shows "\<exists>n \<in> {0, 2}. run_class R F yaml data_file py verbose_level env cls argv w = (Inl (usage_exit n), w)"
proof (cases "parse_args (get_parser env cls) argv")
  case (Inl e)
  then show ?thesis using parse_args_exit [OF Inl] by (auto simp: run_class_def lift_sum_def)
      (simp_all add: raise_run)
next
  case (Inr ns)
  then show ?thesis using confirmation_given [OF assms(1)] assms(2) by blast
qed

lemma destroying_needs_confirmation_witness:
  "\<exists>n \<in> {0, 2}. run_class (\<lambda>_ (s :: unit). (Inr 0, s)) demo_files (\<lambda>_. Inr PyNone) id ''python3'' 1 None destroy_class
     [''--include-images'', ''-i'', ''multinode''] \<lparr>ss_state = (), ss_log = []\<rparr>
   = (Inl (usage_exit n), \<lparr>ss_state = (), ss_log = []\<rparr>)"
  by (rule destroying_needs_confirmation) (simp_all add: confirmed_classes_def)

section \<open>Command lines written out\<close>

definition shared_args :: "string option \<Rightarrow> option_spec list" where
  "shared_args env = add_ansible_args @ add_kolla_ansible_args env"

definition shared_option :: "string option \<Rightarrow> string \<Rightarrow> option_spec" where
  "shared_option env dest = hd (filter (\<lambda>sp. os_dest sp = dest) (shared_args env))"

definition flag_part :: "string option \<Rightarrow> string \<Rightarrow> bool \<Rightarrow> setting list" where
  "flag_part env dest b = (if b then [(shared_option env dest, [])] else [])"

definition words_part :: "string option \<Rightarrow> string \<Rightarrow> string list \<Rightarrow> setting list" where
  "words_part env dest ws = map (\<lambda>w. (shared_option env dest, w)) ws"

definition word_part :: "string option \<Rightarrow> string \<Rightarrow> string option \<Rightarrow> setting list" where
  "word_part env dest v = (case v of None \<Rightarrow> [] | Some w \<Rightarrow> [(shared_option env dest, w)])"

definition args_settings :: "string option \<Rightarrow> parsed_args \<Rightarrow> setting list" where
  "args_settings env a =
     flag_part env ''become'' (pa_become a) @ flag_part env ''check'' (pa_check a) @ flag_part env ''diff'' (pa_diff a)
     @ words_part env ''extra_vars'' (pa_extra_vars a) @ words_part env ''inventory'' (pa_inventory a)
     @ word_part env ''limit'' (pa_limit a) @ word_part env ''skip_tags'' (pa_skip_tags a)
     @ word_part env ''tags'' (pa_tags a) @ flag_part env ''list_tasks'' (pa_list_tasks a)
     @ words_part env ''playbook'' (pa_playbook a) @ words_part env ''vault_id'' (pa_vault_id a)
     @ words_part env ''vault_password_file'' (pa_vault_password_file a)
     @ flag_part env ''ask_vault_password'' (pa_ask_vault_password a)
     @ word_part env ''kolla_config_path'' (Some (pa_config_path a))
     @ word_part env ''kolla_passwords'' (pa_passwords a)"

definition command_words :: "string option \<Rightarrow> parsed_args \<Rightarrow> string list" where
  "command_words env a = concat (map setting_words (args_settings env a))"

text \<open>Words that argparse does not take for options.\<close>

definition plain_word :: "string \<Rightarrow> bool" where
  "plain_word v \<longleftrightarrow> v = [] \<or> hd v \<noteq> CHR ''-''"

definition plain_args :: "parsed_args \<Rightarrow> bool" where
  "plain_args a \<longleftrightarrow>
     list_all plain_word (pa_extra_vars a @ pa_inventory a @ pa_playbook a @ pa_vault_id a @ pa_vault_password_file a)
     \<and> list_all plain_word (pa_config_path a # concat (map (case_option [] (\<lambda>w. [w]))
         [pa_limit a, pa_skip_tags a, pa_tags a, pa_passwords a]))"

lemma plain_word_read: "plain_word v \<Longrightarrow> v \<noteq> ''--'' \<and> read_arg specs v = Word"
  by (auto simp: plain_word_def read_arg_def)

definition DESTS :: "string list" where
  "DESTS = [''become'', ''check'', ''diff'', ''extra_vars'', ''inventory'', ''limit'', ''skip_tags'', ''tags'', ''list_tasks'',
     ''playbook'', ''vault_id'', ''vault_password_file'', ''ask_vault_password'', ''kolla_config_path'', ''kolla_passwords'']"

lemma shared_args_unfold: "shared_args env =
    [flag_option [''-b'', ''--become''] ''become'',
     flag_option [''-C'', ''--check''] ''check'',
     flag_option [''-D'', ''--diff''] ''diff'',
     list_option [''-e'', ''--extra-vars''] ''extra_vars'' PyNone,
     list_option [''-i'', ''--inventory''] ''inventory'' PyNone,
     word_option [''-l'', ''--limit''] ''limit'',
     word_option [''--skip-tags''] ''skip_tags'',
     word_option [''-t'', ''--tags''] ''tags'',
     flag_option [''-lt'', ''--list-tasks''] ''list_tasks'',
     list_option [''-p'', ''--playbook''] ''playbook'' PyNone,
     list_option [''--vault-id''] ''vault_id'' (PyList []),
     list_option [''--vault-password-file'', ''--vault-pass-file''] ''vault_password_file'' (PyList []),
     flag_option [''-J'', ''--ask-vault-password'', ''--ask-vault-pass''] ''ask_vault_password'',
     (word_option [''--configdir''] ''kolla_config_path'')
        \<lparr>os_default := PyStr (case env of None \<Rightarrow> ''/etc/kolla'' | Some p \<Rightarrow> p)\<rparr>,
     word_option [''--passwords''] ''kolla_passwords'']"
  by (simp add: shared_args_def add_ansible_args_def add_kolla_ansible_args_def)

lemmas option_kinds = word_option_def flag_option_def list_option_def

lemma shared_dests: "map os_dest (shared_args env) = DESTS"
  by (simp add: shared_args_unfold option_kinds DESTS_def)

lemma shared_option_in:
  assumes "d \<in> set DESTS"
  shows "shared_option env d \<in> set (shared_args env)" "os_dest (shared_option env d) = d"
proof -
  have "filter (\<lambda>sp. os_dest sp = d) (shared_args env) \<noteq> []"
    using assms unfolding shared_dests [of env, symmetric] by (auto simp: filter_empty_conv)
  then have "shared_option env d \<in> set (filter (\<lambda>sp. os_dest sp = d) (shared_args env))"
    unfolding shared_option_def by (rule hd_in_set)
  then show "shared_option env d \<in> set (shared_args env)" "os_dest (shared_option env d) = d" by auto
qed

definition kind_at :: "string \<Rightarrow> option_action" where
  "kind_at d = (if d \<in> {''become'', ''check'', ''diff'', ''list_tasks'', ''ask_vault_password''} then StoreTrue
     else if d \<in> {''extra_vars'', ''inventory'', ''playbook'', ''vault_id'', ''vault_password_file''} then AppendWord
     else StoreWord)"

lemma option_kinds_simps [simp]:
  "os_dest (flag_option n d) = d" "os_action (flag_option n d) = StoreTrue" "os_names (flag_option n d) = n"
  "os_dest (word_option n d) = d" "os_action (word_option n d) = StoreWord" "os_names (word_option n d) = n"
  "os_dest (list_option n d v) = d" "os_action (list_option n d v) = AppendWord" "os_names (list_option n d v) = n"
  by (simp_all add: option_kinds)

lemma shared_kinds: "\<forall>sp \<in> set (shared_args env). os_action sp = kind_at (os_dest sp) \<and> os_names sp \<noteq> []"
  unfolding shared_args_unfold by (simp add: kind_at_def)

lemma shared_action: "d \<in> set DESTS \<Longrightarrow> os_action (shared_option env d) = kind_at d \<and> os_names (shared_option env d) \<noteq> []"
  using shared_kinds shared_option_in by metis

lemma shared_sayable:
  assumes "d \<in> set DESTS"
  shows "kind_at d = StoreTrue \<Longrightarrow> sayable (get_parser env cls) (shared_option env d, [])"
    and "kind_at d \<noteq> StoreTrue \<Longrightarrow> plain_word v \<Longrightarrow> sayable (get_parser env cls) (shared_option env d, v)"
proof -
  have "shared_option env d \<in> set (get_parser env cls)"
    using shared_option_in [OF assms] by (auto simp: get_parser_def shared_args_def)
  then show "kind_at d = StoreTrue \<Longrightarrow> sayable (get_parser env cls) (shared_option env d, [])"
    "kind_at d \<noteq> StoreTrue \<Longrightarrow> plain_word v \<Longrightarrow> sayable (get_parser env cls) (shared_option env d, v)"
    using shared_action [OF assms] plain_word_read
    by (auto simp: sayable_def takes_value_def kind_at_def split: if_splits)
qed

lemma parts_sayable:
  assumes "d \<in> set DESTS"
  shows "kind_at d = StoreTrue \<Longrightarrow> \<forall>x \<in> set (flag_part env d b). sayable (get_parser env cls) x"
    and "kind_at d \<noteq> StoreTrue \<Longrightarrow> list_all plain_word ws \<Longrightarrow> \<forall>x \<in> set (words_part env d ws). sayable (get_parser env cls) x"
    and "kind_at d \<noteq> StoreTrue \<Longrightarrow> pred_option plain_word w \<Longrightarrow> \<forall>x \<in> set (word_part env d w). sayable (get_parser env cls) x"
  using shared_sayable [OF assms]
  by (auto simp: flag_part_def words_part_def word_part_def list_all_iff split: option.splits)

lemma args_sayable: "plain_args a \<Longrightarrow> \<forall>x \<in> set (args_settings env a). sayable (get_parser env cls) x"
  unfolding args_settings_def set_append ball_Un
  by (intro conjI parts_sayable)
    (auto simp: DESTS_def kind_at_def plain_args_def split: option.splits)

lemma parts_values:
  assumes "d \<in> set DESTS"
  shows "kind_at d = StoreTrue \<Longrightarrow> value_after e (flag_part env d b) v = (if e = d \<and> b then PyBool True else v)"
    and "kind_at d = StoreWord \<Longrightarrow> value_after e (word_part env d w) v = (if e = d then (case w of None \<Rightarrow> v | Some s \<Rightarrow> PyStr s) else v)"
  using shared_option_in [OF assms] shared_action [OF assms]
  by (auto simp: flag_part_def word_part_def new_value_def split: option.splits)

lemma words_values:
  assumes "d \<in> set DESTS" "kind_at d = AppendWord"
  shows "value_after e (words_part env d ws) v =
    (if e = d \<and> ws \<noteq> [] then PyList ((case v of PyList vs \<Rightarrow> vs | _ \<Rightarrow> []) @ map PyStr ws) else v)"
proof (induction ws arbitrary: v)
  case (Cons w ws)
  then show ?case
    using shared_option_in [OF assms(1)] shared_action [OF assms(1)] assms(2)
    by (auto simp: words_part_def new_value_def)
qed (simp add: words_part_def)

definition shared_default :: "string \<Rightarrow> pyval" where
  "shared_default d = (case kind_at d of StoreTrue \<Rightarrow> PyBool False | _ \<Rightarrow> if d \<in> {''vault_id'', ''vault_password_file''} then PyList [] else PyNone)"

lemma shared_defaults:
  "\<forall>sp \<in> set (shared_args env). os_dest sp \<noteq> ''kolla_config_path'' \<longrightarrow> os_default sp = shared_default (os_dest sp)"
  unfolding shared_args_unfold by (simp add: shared_default_def kind_at_def option_kinds)

lemma parser_default:
  assumes "d \<in> set DESTS" "d \<noteq> ''kolla_config_path''"
  shows "dget (option_defaults (get_parser env cls)) d = shared_default d"
proof -
  let ?P = "\<lambda>sp. os_dest sp = d \<and> os_action sp \<noteq> ShowHelp"
  have "?P (shared_option env d)"
    using shared_option_in [OF assms(1), of env] shared_action [OF assms(1), of env] by (simp add: kind_at_def)
  from find_in_left [of "shared_option env d" _ ?P, OF shared_option_in(1) [OF assms(1)] this]
  obtain sp where "find ?P (shared_args env @ cc_options cls) = Some sp" "sp \<in> set (shared_args env)" "os_dest sp = d"
    by blast
  then show ?thesis
    using shared_defaults [of env] assms(2)
    by (auto simp: option_defaults_get get_parser_def shared_args_def help_option_def)
qed

lemma flag_dests:
  "''become'' \<in> set DESTS" "kind_at ''become'' = StoreTrue"
  "''check'' \<in> set DESTS" "kind_at ''check'' = StoreTrue"
  "''diff'' \<in> set DESTS" "kind_at ''diff'' = StoreTrue"
  "''list_tasks'' \<in> set DESTS" "kind_at ''list_tasks'' = StoreTrue"
  "''ask_vault_password'' \<in> set DESTS" "kind_at ''ask_vault_password'' = StoreTrue"
  by (simp_all add: DESTS_def kind_at_def)

lemma list_dests:
  "''extra_vars'' \<in> set DESTS" "kind_at ''extra_vars'' = AppendWord"
  "''inventory'' \<in> set DESTS" "kind_at ''inventory'' = AppendWord"
  "''playbook'' \<in> set DESTS" "kind_at ''playbook'' = AppendWord"
  "''vault_id'' \<in> set DESTS" "kind_at ''vault_id'' = AppendWord"
  "''vault_password_file'' \<in> set DESTS" "kind_at ''vault_password_file'' = AppendWord"
  by (simp_all add: DESTS_def kind_at_def)

lemma word_dests:
  "''limit'' \<in> set DESTS" "kind_at ''limit'' = StoreWord"
  "''skip_tags'' \<in> set DESTS" "kind_at ''skip_tags'' = StoreWord"
  "''tags'' \<in> set DESTS" "kind_at ''tags'' = StoreWord"
  "''kolla_config_path'' \<in> set DESTS" "kind_at ''kolla_config_path'' = StoreWord"
  "''kolla_passwords'' \<in> set DESTS" "kind_at ''kolla_passwords'' = StoreWord"
  by (simp_all add: DESTS_def kind_at_def)

lemmas flag_values =
  parts_values(1) [OF flag_dests(1) flag_dests(2)]
  parts_values(1) [OF flag_dests(3) flag_dests(4)]
  parts_values(1) [OF flag_dests(5) flag_dests(6)]
  parts_values(1) [OF flag_dests(7) flag_dests(8)]
  parts_values(1) [OF flag_dests(9) flag_dests(10)]

lemmas list_values =
  words_values [OF list_dests(1) list_dests(2)]
  words_values [OF list_dests(3) list_dests(4)]
  words_values [OF list_dests(5) list_dests(6)]
  words_values [OF list_dests(7) list_dests(8)]
  words_values [OF list_dests(9) list_dests(10)]

lemmas word_values =
  parts_values(2) [OF word_dests(1) word_dests(2)]
  parts_values(2) [OF word_dests(3) word_dests(4)]
  parts_values(2) [OF word_dests(5) word_dests(6)]
  parts_values(2) [OF word_dests(7) word_dests(8)]
  parts_values(2) [OF word_dests(9) word_dests(10)]

lemma args_values:
  assumes "\<And>d. d \<in> set DESTS \<Longrightarrow> d \<noteq> ''kolla_config_path'' \<Longrightarrow> v d = shared_default d"
    and "\<And>d. d \<in> set DESTS \<Longrightarrow> dget ns d = value_after d (args_settings env a) (v d)"
  shows "namespace_args ns = a"
proof -
  note get = assms(2) [unfolded args_settings_def value_after_simps flag_values list_values word_values]
  have flags: "truthy (dget ns ''become'') = pa_become a" "truthy (dget ns ''check'') = pa_check a"
      "truthy (dget ns ''diff'') = pa_diff a" "truthy (dget ns ''list_tasks'') = pa_list_tasks a"
      "truthy (dget ns ''ask_vault_password'') = pa_ask_vault_password a"
    by (simp_all add: get flag_dests assms(1) shared_default_def)
  have lists: "words_of (dget ns ''extra_vars'') = pa_extra_vars a" "words_of (dget ns ''inventory'') = pa_inventory a"
      "words_of (dget ns ''playbook'') = pa_playbook a" "words_of (dget ns ''vault_id'') = pa_vault_id a"
      "words_of (dget ns ''vault_password_file'') = pa_vault_password_file a"
    by (simp_all add: get list_dests assms(1) shared_default_def words_of_def comp_def)
  have words: "word_of (dget ns ''limit'') = pa_limit a" "word_of (dget ns ''skip_tags'') = pa_skip_tags a"
      "word_of (dget ns ''tags'') = pa_tags a" "word_of (dget ns ''kolla_passwords'') = pa_passwords a"
      "py_str (dget ns ''kolla_config_path'') = pa_config_path a"
    by (simp_all add: get word_dests assms(1) shared_default_def word_of_def split: option.splits)
  show ?thesis
    by (rule parsed_args.equality) (simp_all add: namespace_args_def flags lists words)
qed

lemma args_settings_options: "x \<in> set (args_settings env a) \<Longrightarrow> \<exists>d \<in> set DESTS. fst x = shared_option env d"
  using flag_dests list_dests word_dests
  unfolding args_settings_def flag_part_def words_part_def word_part_def
  by (elim UnE set_append [THEN equalityD1, THEN subsetD, elim_format]) (auto split: if_splits option.splits)

text \<open>The parsers are sound: no two options share a name.\<close>

lemma shared_names: "concat (map os_names (shared_args env)) =
    [''-b'', ''--become'', ''-C'', ''--check'', ''-D'', ''--diff'', ''-e'', ''--extra-vars'', ''-i'', ''--inventory'', ''-l'', ''--limit'',
     ''--skip-tags'', ''-t'', ''--tags'', ''-lt'', ''--list-tasks'', ''-p'', ''--playbook'', ''--vault-id'', ''--vault-password-file'',
     ''--vault-pass-file'', ''-J'', ''--ask-vault-password'', ''--ask-vault-pass'', ''--configdir'', ''--passwords'']"
  unfolding shared_args_unfold by (simp add: option_kinds)

lemma good_parserI:
  assumes "distinct (concat (map os_names (shared_args env)) @ own @ [''-h'', ''--help''])"
    and "list_all (\<lambda>n. n \<noteq> [] \<and> hd n = CHR ''-'' \<and> n \<noteq> ''--'') (concat (map os_names (shared_args env)) @ own)"
    and "own = concat (map os_names (cc_options cls))"
  shows "good_parser (get_parser env cls)"
  using assms unfolding good_parser_def option_names_fst
  by (auto simp: get_parser_def shared_args_def [symmetric] help_option_def simp flip: append_assoc)

lemma good_parsers:
  "good_parser (get_parser env (plain c))" "good_parser (get_parser env stop_class)"
  "good_parser (get_parser env destroy_class)" "good_parser (get_parser env prune_class)"
  "good_parser (get_parser env backup_class)" "good_parser (get_parser env octavia_class)"
  by (rule good_parserI [OF _ _ refl];
      simp add: shared_names plain_def stop_class_def destroy_class_def prune_class_def backup_class_def octavia_class_def
        confirm_option_def)+

lemma value_after_other: "\<forall>x \<in> set xs. os_dest (fst x) \<noteq> d \<Longrightarrow> value_after d xs v = v"
  by (induction xs arbitrary: v) auto

lemma kind_at_range: "kind_at d \<notin> {StoreInt, ShowHelp}"
  by (simp add: kind_at_def)

lemma command_line_parsed:
  assumes "plain_args a" and good: "good_parser (get_parser env cls)"
    and ys: "\<forall>y \<in> set ys. sayable (get_parser env cls) y \<and> os_action (fst y) \<notin> {StoreInt, ShowHelp} \<and> os_dest (fst y) \<notin> set DESTS"
    and req: "\<forall>sp \<in> set (get_parser env cls). os_required sp \<longrightarrow> sp \<in> fst ` set ys"
  shows "\<exists>ns. parse_args (get_parser env cls) (command_words env a @ concat (map setting_words ys)) = Inr ns
    \<and> namespace_args ns = a
    \<and> (\<forall>d. d \<notin> set DESTS \<longrightarrow> dget ns d = value_after d ys (dget (option_defaults (get_parser env cls)) d))"
proof -
  let ?xs = "args_settings env a @ ys"
  let ?st = "\<lparr>ps_namespace = option_defaults (get_parser env cls), ps_seen = [], ps_extras = False\<rparr>"
  have shared: "os_dest (fst x) \<in> set DESTS" "os_action (fst x) \<notin> {StoreInt, ShowHelp}"
    if "x \<in> set (args_settings env a)" for x
    using args_settings_options [OF that] shared_option_in(2) shared_action kind_at_range by fastforce+
  have "\<forall>x \<in> set ?xs. os_action (fst x) \<notin> {StoreInt, ShowHelp}" using shared ys by auto
  from apply_settings_values [OF this, of ?st] obtain st' where st': "apply_settings ?xs ?st = Inr st'"
      "\<And>d. dget (ps_namespace st') d = value_after d ?xs (dget (option_defaults (get_parser env cls)) d)" by auto
  have "\<forall>x \<in> set ?xs. sayable (get_parser env cls) x" using args_sayable [OF assms(1)] ys by auto
  moreover have "\<forall>sp \<in> set (get_parser env cls). os_required sp \<longrightarrow> sp \<in> fst ` set ?xs" using req by auto
  ultimately have "parse_args (get_parser env cls) (concat (map setting_words ?xs)) = Inr (ps_namespace st')"
    using parse_settings [OF good _ st'(1)] by blast
  moreover have "dget (ps_namespace st') d = value_after d (args_settings env a) (dget (option_defaults (get_parser env cls)) d)"
    if "d \<in> set DESTS" for d
    using st'(2) ys that value_after_other [of ys d] by fastforce
  then have "namespace_args (ps_namespace st') = a"
    by (intro args_values [of "dget (option_defaults (get_parser env cls))"]) (simp_all add: parser_default)
  moreover have "dget (ps_namespace st') d = value_after d ys (dget (option_defaults (get_parser env cls)) d)"
    if "d \<notin> set DESTS" for d
    using st'(2) that shared value_after_other [of "args_settings env a" d] by fastforce
  ultimately show ?thesis by (auto simp: command_words_def)
qed

lemma required_own:
  assumes "sp \<in> set (get_parser env cls)" "os_required sp"
  shows "sp \<in> set (cc_options cls)"
proof -
  have "\<forall>sp \<in> set (shared_args env). \<not> os_required sp" by (simp add: shared_args_unfold option_kinds)
  with assms show ?thesis by (auto simp: get_parser_def shared_args_def help_option_def)
qed

definition destroy_flags :: "bool \<Rightarrow> bool \<Rightarrow> setting list" where
  "destroy_flags dev images =
     (confirm_option, []) # (if dev then [(flag_option [''--include-dev''] ''include_dev'', [])] else [])
       @ (if images then [(flag_option [''--include-images''] ''include_images'', [])] else [])"

lemma destroy_flags_words:
  "concat (map setting_words (destroy_flags dev images)) =
     ''--yes-i-really-really-mean-it'' # flag ''--include-dev'' dev @ flag ''--include-images'' images"
  by (simp add: destroy_flags_def setting_words_def takes_value_def confirm_option_def flag_def)

lemma destroy_flags_fine:
  "\<forall>y \<in> set (destroy_flags dev images). sayable (get_parser env destroy_class) y \<and> os_action (fst y) \<notin> {StoreInt, ShowHelp}
      \<and> os_dest (fst y) \<notin> set DESTS"
proof -
  have "fst y \<in> set (cc_options destroy_class) \<and> snd y = []" if "y \<in> set (destroy_flags dev images)" for y
    using that by (auto simp: destroy_flags_def destroy_class_def split: if_splits)
  moreover have "\<forall>sp \<in> set (cc_options destroy_class). os_action sp = StoreTrue \<and> os_names sp \<noteq> [] \<and> os_dest sp \<notin> set DESTS
      \<and> sp \<in> set (get_parser env destroy_class)"
    by (simp add: destroy_class_def get_parser_def confirm_option_def DESTS_def)
  ultimately show ?thesis by (fastforce simp: sayable_def takes_value_def)
qed

lemma destroy_default:
  "dget (option_defaults (get_parser env destroy_class)) d = PyBool False" if "d \<in> {''include_dev'', ''include_images''}"
proof -
  have "d \<notin> set DESTS" using that by (auto simp: DESTS_def)
  then have "\<forall>sp \<in> set (shared_args env). \<not> (os_dest sp = d \<and> os_action sp \<noteq> ShowHelp)"
    unfolding shared_dests [of env, symmetric] by auto
  from find_in_right [OF this, of "cc_options destroy_class"] show ?thesis
    using that by (auto simp: option_defaults_get get_parser_def shared_args_def help_option_def destroy_class_def
        confirm_option_def option_kinds)
qed

lemma destroy_read_back:
  assumes "plain_args a"
  shows "run_class R F yaml data_file py verbose_level env destroy_class
      (command_words env a @ concat (map setting_words (destroy_flags dev images))) w =
    take_action R F yaml data_file py verbose_level a (Destroy dev images) w"
proof -
  have "\<forall>sp \<in> set (get_parser env destroy_class). os_required sp \<longrightarrow> sp \<in> fst ` set (destroy_flags dev images)"
  proof -
    have "\<forall>sp \<in> set (cc_options destroy_class). os_required sp \<longrightarrow> sp = confirm_option"
      by (simp add: destroy_class_def flag_option_def)
    then show ?thesis using required_own [of _ env destroy_class] by (auto simp: destroy_flags_def)
  qed
  from command_line_parsed [OF assms good_parsers(3) destroy_flags_fine this]
  obtain ns where ns: "parse_args (get_parser env destroy_class)
        (command_words env a @ concat (map setting_words (destroy_flags dev images))) = Inr ns" "namespace_args ns = a"
      "\<And>d. d \<notin> set DESTS \<Longrightarrow>
        dget ns d = value_after d (destroy_flags dev images) (dget (option_defaults (get_parser env destroy_class)) d)"
    by blast
  have "truthy (dget ns ''include_dev'') = dev" "truthy (dget ns ''include_images'') = images"
    using ns(3) [of "''include_dev''"] ns(3) [of "''include_images''"]
    by (simp_all add: DESTS_def new_value_def destroy_flags_def confirm_option_def destroy_default)
  then show ?thesis using ns(1,2) by (simp add: run_class_def lift_sum_def) (simp add: destroy_class_def)
qed

text \<open>
  C19. A command line written out from its parsed form is parsed back: for every record of
  arguments without words that look like options, the words of the shared options, given in their
  order and behind their first names, run the command with exactly that record; with the
  confirmation, so do they for \<open>destroy\<close> with its own two options.
\<close>

theorem command_line_read_back:
  assumes "plain_args a"
  shows "run_class R F yaml data_file py verbose_level env (plain c) (command_words env a) w =
      take_action R F yaml data_file py verbose_level a c w
    \<and> run_class R F yaml data_file py verbose_level env destroy_class
        (command_words env a @ ''--yes-i-really-really-mean-it'' # flag ''--include-dev'' dev @ flag ''--include-images'' images) w =
      take_action R F yaml data_file py verbose_level a (Destroy dev images) w"
proof
  have "\<forall>sp \<in> set (get_parser env (plain c)). \<not> os_required sp"
    using required_own [of _ env "plain c"] by (auto simp: plain_def)
  then obtain ns where "parse_args (get_parser env (plain c)) (command_words env a) = Inr ns" "namespace_args ns = a"
    using command_line_parsed [OF assms good_parsers(1), of "[]"] by force
  then show "run_class R F yaml data_file py verbose_level env (plain c) (command_words env a) w =
      take_action R F yaml data_file py verbose_level a c w"
    by (simp add: run_class_def lift_sum_def plain_def)
  show "run_class R F yaml data_file py verbose_level env destroy_class
        (command_words env a @ ''--yes-i-really-really-mean-it'' # flag ''--include-dev'' dev @ flag ''--include-images'' images) w =
      take_action R F yaml data_file py verbose_level a (Destroy dev images) w"
    using destroy_read_back [OF assms] by (simp only: destroy_flags_words)
qed

definition demo_plain_args :: parsed_args where
  "demo_plain_args = demo_args\<lparr>pa_inventory := [''multinode''], pa_limit := Some ''compute''\<rparr>"

definition demo_runner :: "unit runner" where
  "demo_runner = (\<lambda>_ s. (Inr 4, s))"

lemma command_line_read_back_witness:
  "plain_args demo_plain_args
    \<and> run_class demo_runner demo_files (\<lambda>_. Inr PyNone) id ''python3'' 1 None destroy_class (command_words None demo_plain_args
        @ ''--yes-i-really-really-mean-it'' # flag ''--include-dev'' True @ flag ''--include-images'' False) \<lparr>ss_state = (), ss_log = []\<rparr>
      = take_action demo_runner demo_files (\<lambda>_. Inr PyNone) id ''python3'' 1 demo_plain_args (Destroy True False) \<lparr>ss_state = (), ss_log = []\<rparr>"
proof -
  have "plain_args demo_plain_args"
    by (simp add: plain_args_def plain_word_def demo_plain_args_def demo_args_def)
  with command_line_read_back [OF this] show ?thesis by blast
qed

end
