(* ===== verification/Passwords.thy ===== *)
theory Passwords
  imports PyVal "HOL-Library.Word"
begin

unbundle bit_operations_syntax

text \<open>
  The password tools (\<open>kolla_ansible/cmd/mergepwd.py\<close>, \<open>genpwd.py\<close>, \<open>writepwd.py\<close>,
  \<open>readpwd.py\<close>, and \<open>kolla_ansible/hashi_vault.py\<close>).

  The world is the passwords files with their permission bits, the lines printed, and an
  outside state (the random generators, Vault).  A file holds the value YAML reads from it;
  the order of keys in a dump, which YAML sorts, is not modelled.  The disk may refuse to open a
  file for writing, or fail after part of it was written.  Keys are strings.  The cryptographic generators and the Vault client
  are records of functions.
\<close>

section \<open>Files\<close>

record pfile =
  pf_data :: pyval
  pf_mode :: "16 word"

text \<open>What becomes of writing a file; a write that fails leaves what YAML would then read from it.\<close>

datatype disk = Writes | CannotOpen | WriteFails pyval

record 'x pwd_host =
  pw_files :: "string \<rightharpoonup> pfile"
  pw_removable :: "string \<Rightarrow> bool"
  pw_disk :: "string \<Rightarrow> disk"
  pw_umask :: "16 word"
  pw_ca :: "string option"
  pw_out :: "string list"
  outer :: 'x

type_synonym ('x, 'a) pwd = "('x pwd_host, 'a) io"

definition sys_exit :: pyexn where
  "sys_exit = OtherError ''SystemExit''"

definition say :: "string \<Rightarrow> ('x, unit) pwd" where
  "say line = modify_io (\<lambda>h. h\<lparr>pw_out := pw_out h @ [line]\<rparr>)"

definition on_outer :: "('x \<Rightarrow> (pyexn + 'a) \<times> 'x) \<Rightarrow> ('x, 'a) pwd" where
  "on_outer f = (\<lambda>h. case f (outer h) of (r, x) \<Rightarrow> (r, h\<lparr>outer := x\<rparr>))"

definition load_file :: "string \<Rightarrow> ('x, pfile) pwd" where
  "load_file path = (\<lambda>h. case pw_files h path of
     None \<Rightarrow> (Inl (OtherError ''FileNotFoundError''), h) | Some f \<Rightarrow> (Inr f, h))"

definition S_IROTH :: "16 word" where "S_IROTH = 4"

definition S_IWOTH :: "16 word" where "S_IWOTH = 2"

definition warn_world :: "pfile \<Rightarrow> ('x, unit) pwd" where
  "warn_world f =
     bnd (when_io (pf_mode f AND S_IROTH \<noteq> 0) (say ''WARNING: world-readable'')) (\<lambda>_.
     when_io (pf_mode f AND S_IWOTH \<noteq> 0) (say ''WARNING: world-writeable''))"

text \<open>
  The files are replaced: \<open>os.remove\<close>, whose failure is ignored, then
  \<open>os.open(..., O_WRONLY | O_CREAT | O_TRUNC, mode=0o640)\<close>, which gives its mode
  (0o640 is 416), less the umask, to a new file only.
\<close>

definition disk_error :: pyexn where
  "disk_error = OtherError ''OSError''"

definition dump_file :: "string \<Rightarrow> pyval \<Rightarrow> ('x, unit) pwd" where
  "dump_file path data = (\<lambda>h.
     let fs = (if pw_removable h path then (pw_files h)(path := None) else pw_files h);
         mode = (case fs path of None \<Rightarrow> 416 AND NOT (pw_umask h) | Some f \<Rightarrow> pf_mode f)
     in case pw_disk h path of
          Writes \<Rightarrow> (Inr (), h\<lparr>pw_files := fs(path \<mapsto> \<lparr>pf_data = data, pf_mode = mode\<rparr>)\<rparr>)
        | CannotOpen \<Rightarrow> (Inl disk_error, h\<lparr>pw_files := fs\<rparr>)
        | WriteFails rest \<Rightarrow> (Inl disk_error, h\<lparr>pw_files := fs(path \<mapsto> \<lparr>pf_data = rest, pf_mode = mode\<rparr>)\<rparr>))"

definition dict_or_exit :: "pyval \<Rightarrow> string \<Rightarrow> ('x, pyobj) pwd" where
  "dict_or_exit v message =
     (case v of PyDict d \<Rightarrow> return_io d | _ \<Rightarrow> bnd (say message) (\<lambda>_. raise_io sys_exit))"

section \<open>\<open>mergepwd\<close>\<close>

text \<open>The migration of the Redis password, on the new passwords.\<close>

definition migrate_redis :: "pyobj \<Rightarrow> pyobj \<Rightarrow> pyobj" where
  "migrate_redis old new =
     (if in_dict ''valkey_master_password'' new \<and> in_dict ''redis_master_password'' old
         \<and> \<not> in_dict ''valkey_master_password'' old \<and> truthy (dget old ''redis_master_password'')
      then AList.update ''valkey_master_password'' (dget old ''redis_master_password'') new
      else new)"

definition keep_new_keys :: "pyobj \<Rightarrow> pyobj \<Rightarrow> pyobj" where
  "keep_new_keys old new = map (\<lambda>(k, v). (k, case map_of old k of None \<Rightarrow> v | Some w \<Rightarrow> w)) new"

definition merge_passwords :: "pyobj \<Rightarrow> pyobj \<Rightarrow> bool \<Rightarrow> pyobj" where
  "merge_passwords old new clean =
     (let new' = migrate_redis old new
      in if clean then keep_new_keys old new' else dict_update new' old)"

definition mergepwd :: "string \<Rightarrow> string \<Rightarrow> string \<Rightarrow> bool \<Rightarrow> ('x, unit) pwd" where
  "mergepwd old new final clean =
     bnd (load_file old) (\<lambda>old_file.
     bnd (warn_world old_file) (\<lambda>_.
     bnd (load_file new) (\<lambda>new_file.
     bnd (warn_world new_file) (\<lambda>_.
     bnd (dict_or_exit (pf_data old_file) ''ERROR: Old passwords file not in expected key/value format'') (\<lambda>old_passwords.
     bnd (dict_or_exit (pf_data new_file) ''ERROR: New passwords file not in expected key/value format'') (\<lambda>new_passwords.
     dump_file final (PyDict (merge_passwords old_passwords new_passwords clean))))))))"

section \<open>\<open>genpwd\<close>\<close>

text \<open>
  The generators draw from the outside state.  \<open>rg_choice\<close> is \<open>SystemRandom().choice\<close>,
  \<open>rg_hmac_md5\<close> the keyed hash of the empty message.
\<close>

record 'x generators =
  rg_rsa :: "'x \<Rightarrow> (string \<times> string) \<times> 'x"
  rg_uuid :: "'x \<Rightarrow> string \<times> 'x"
  rg_hmac_md5 :: "string \<Rightarrow> string"
  rg_fernet :: "'x \<Rightarrow> string \<times> 'x"
  rg_salt :: "nat \<Rightarrow> 'x \<Rightarrow> string \<times> 'x"
  rg_choice :: "string \<Rightarrow> 'x \<Rightarrow> char \<times> 'x"

record key_lists =
  kl_uuid :: "string list"
  kl_ssh :: "string list"
  kl_blank :: "string list"
  kl_fernet :: "string list"
  kl_hmac :: "string list"
  kl_bcrypt :: "string list"

definition draw :: "('x \<Rightarrow> 'a \<times> 'x) \<Rightarrow> ('x, 'a) pwd" where
  "draw f = on_outer (\<lambda>x. case f x of (a, y) \<Rightarrow> (Inr a, y))"

definition alphabet :: string where
  "alphabet = ''abcdefghijklmnopqrstuvwxyzABCDEFGHIJKLMNOPQRSTUVWXYZ0123456789''"

fun random_password :: "'x generators \<Rightarrow> nat \<Rightarrow> 'x \<Rightarrow> string \<times> 'x" where
  "random_password G 0 x = ([], x)"
| "random_password G (Suc n) x =
     (case rg_choice G alphabet x of (c, y) \<Rightarrow> case random_password G n y of (cs, z) \<Rightarrow> (c # cs, z))"

text \<open>\<open>v.get('public_key') is None and v.get('private_key') is None\<close>, with the attribute error.\<close>

definition ssh_key_missing :: "pyval \<Rightarrow> pyexn + bool" where
  "ssh_key_missing v =
     (case v of
        PyNone \<Rightarrow> Inr True
      | PyDict d \<Rightarrow> Inr (dget d ''public_key'' = PyNone \<and> dget d ''private_key'' = PyNone)
      | _ \<Rightarrow> Inl AttributeError)"

definition gen_secret :: "'x generators \<Rightarrow> key_lists \<Rightarrow> nat \<Rightarrow> string \<Rightarrow> ('x, string) pwd" where
  "gen_secret G K len k =
     (if k \<in> set (kl_uuid K) then draw (rg_uuid G)
      else if k \<in> set (kl_hmac K) then bnd (draw (rg_uuid G)) (\<lambda>u. return_io (rg_hmac_md5 G u))
      else if k \<in> set (kl_fernet K) then draw (rg_fernet G)
      else if k \<in> set (kl_bcrypt K) then draw (rg_salt G 22)
      else draw (random_password G len))"

definition gen_value :: "'x generators \<Rightarrow> key_lists \<Rightarrow> nat \<Rightarrow> string \<Rightarrow> pyval \<Rightarrow> ('x, pyval) pwd" where
  "gen_value G K len k v =
     bnd (lift_sum (if k \<in> set (kl_ssh K) then ssh_key_missing v else Inr False)) (\<lambda>missing.
     if missing then
       bnd (draw (rg_rsa G)) (\<lambda>(private_key, public_key).
       return_io (PyDict [(''private_key'', PyStr private_key), (''public_key'', PyStr public_key)]))
     else if v = PyNone \<and> k \<notin> set (kl_blank K) then
       bnd (gen_secret G K len k) (\<lambda>s. return_io (PyStr s))
     else return_io v)"

fun gen_all :: "'x generators \<Rightarrow> key_lists \<Rightarrow> nat \<Rightarrow> pyobj \<Rightarrow> ('x, pyobj) pwd" where
  "gen_all G K len [] = return_io []"
| "gen_all G K len ((k, v) # rest) =
     bnd (gen_value G K len k v) (\<lambda>w. bnd (gen_all G K len rest) (\<lambda>out. return_io ((k, w) # out)))"

definition genpwd :: "'x generators \<Rightarrow> string \<Rightarrow> nat \<Rightarrow> key_lists \<Rightarrow> ('x, unit) pwd" where
  "genpwd G passwords_file len K =
     bnd (catch_io (load_file passwords_file) (\<lambda>e. e = OtherError ''FileNotFoundError'')
            (\<lambda>_. bnd (say ''ERROR: Passwords file is missing'') (\<lambda>_. raise_io sys_exit))) (\<lambda>f.
     bnd (warn_world f) (\<lambda>_.
     bnd (dict_or_exit (pf_data f) ''ERROR: Passwords file not in expected key/value format'') (\<lambda>passwords.
     bnd (gen_all G K len passwords) (\<lambda>out.
     dump_file passwords_file (PyDict out)))))"

text \<open>The key lists and the length of \<open>main\<close>.\<close>

definition genpwd_keys :: key_lists where
  "genpwd_keys =
     \<lparr>kl_uuid = [''rbd_secret_uuid'', ''cinder_rbd_secret_uuid'', ''gnocchi_project_id'',
        ''gnocchi_resource_id'', ''gnocchi_user_id'', ''designate_pool_id''],
      kl_ssh = [''kolla_ssh_key'', ''nova_ssh_key'', ''keystone_ssh_key'', ''bifrost_ssh_key'',
        ''octavia_amp_ssh_key'', ''neutron_ssh_key'', ''haproxy_ssh_key''],
      kl_blank = [''docker_registry_password''],
      kl_fernet = [''barbican_crypto_key''],
      kl_hmac = [''designate_rndc_key'', ''osprofiler_secret''],
      kl_bcrypt = [''prometheus_bcrypt_salt'']\<rparr>"

definition genpwd_main :: "'x generators \<Rightarrow> string \<Rightarrow> ('x, unit) pwd" where
  "genpwd_main G passwords_file = genpwd G passwords_file 40 genpwd_keys"

section \<open>Vault\<close>

text \<open>\<open>kv_read\<close> gives the secret under \<open>['data']['data']\<close>, or raises \<open>InvalidPath\<close>.\<close>

datatype vault_login = Token string | AppRole string string

record 'x vault =
  kv_login :: "string \<Rightarrow> string \<Rightarrow> vault_login \<Rightarrow> 'x \<Rightarrow> (pyexn + bool) \<times> 'x"
  kv_read :: "string \<Rightarrow> string \<Rightarrow> 'x \<Rightarrow> (pyexn + pyval) \<times> 'x"
  kv_write :: "string \<Rightarrow> string \<Rightarrow> pyval \<Rightarrow> 'x \<Rightarrow> (pyexn + unit) \<times> 'x"

definition InvalidPath :: pyexn where
  "InvalidPath = OtherError ''InvalidPath''"

record vault_options =
  vo_kv_path :: string
  vo_mount :: string
  vo_namespace :: string
  vo_addr :: string
  vo_role_id :: string
  vo_secret_id :: string
  vo_token :: string
  vo_cacert :: string

definition exit_with :: "string \<Rightarrow> ('x, 'a) pwd" where
  "exit_with message = bnd (say message) (\<lambda>_. raise_io sys_exit)"

definition vault_credentials :: "vault_options \<Rightarrow> (string, vault_login) sum" where
  "vault_credentials vo =
     (if vo_role_id vo \<noteq> [] \<or> vo_secret_id vo \<noteq> [] then
        (if vo_token vo \<noteq> [] then Inl ''ERROR: Vault token cannot be used at the same time as role-id and secret-id''
         else if \<not> (vo_role_id vo \<noteq> [] \<and> vo_secret_id vo \<noteq> [])
         then Inl ''ERROR: role-id and secret-id must be provided together''
         else Inr (AppRole (vo_role_id vo) (vo_secret_id vo)))
      else if vo_token vo = [] then Inl ''ERROR: You must provide either a Vault token or role-id and secret-id''
      else Inr (Token (vo_token vo)))"

definition hashicorp_vault_client :: "'x vault \<Rightarrow> vault_options \<Rightarrow> ('x, unit) pwd" where
  "hashicorp_vault_client V vo =
     (case vault_credentials vo of
        Inl message \<Rightarrow> exit_with message
      | Inr login \<Rightarrow>
          bnd (when_io (vo_cacert vo \<noteq> []) (modify_io (\<lambda>h. h\<lparr>pw_ca := Some (vo_cacert vo)\<rparr>))) (\<lambda>_.
          bnd (on_outer (kv_login V (vo_addr vo) (vo_namespace vo) login)) (\<lambda>authenticated.
          if authenticated then return_io () else exit_with ''Failed to authenticate to vault'')))"

definition secret_path :: "vault_options \<Rightarrow> string \<Rightarrow> string" where
  "secret_path vo key = vo_kv_path vo @ CHR ''/'' # key"

definition read_secret :: "'x vault \<Rightarrow> vault_options \<Rightarrow> string \<Rightarrow> ('x, pyval option) pwd" where
  "read_secret V vo key =
     catch_io (bnd (on_outer (kv_read V (vo_mount vo) (secret_path vo key))) (\<lambda>v. return_io (Some v)))
       (\<lambda>e. e = InvalidPath) (\<lambda>_. return_io None)"

definition secret_of :: "pyval \<Rightarrow> pyval" where
  "secret_of v = (case v of PyStr s \<Rightarrow> PyDict [(''password'', PyStr s)] | _ \<Rightarrow> v)"

definition write_one :: "'x vault \<Rightarrow> vault_options \<Rightarrow> string \<times> pyval \<Rightarrow> ('x, unit) pwd" where
  "write_one V vo kv =
     (case kv of (key, value) \<Rightarrow>
        when_io (truthy value)
          (bnd (read_secret V vo key) (\<lambda>remote.
           when_io (case remote of None \<Rightarrow> True | Some r \<Rightarrow> \<not> py_eq r (secret_of value))
             (on_outer (kv_write V (vo_mount vo) (secret_path vo key) (secret_of value))))))"

definition writepwd :: "'x vault \<Rightarrow> string \<Rightarrow> vault_options \<Rightarrow> ('x, unit) pwd" where
  "writepwd V passwords_file vo =
     bnd (load_file passwords_file) (\<lambda>f.
     bnd (warn_world f) (\<lambda>_.
     bnd (dict_or_exit (pf_data f) ''ERROR: Passwords file not in expected key/value format'') (\<lambda>passwords.
     bnd (hashicorp_vault_client V vo) (\<lambda>_.
     for_io passwords (write_one V vo)))))"

text \<open>\<open>password_data['data']['data']['password']\<close>, or the whole secret when it has no such key.\<close>

definition password_of :: "pyval \<Rightarrow> pyexn + pyval" where
  "password_of v =
     (case v of
        PyDict d \<Rightarrow> Inr (case map_of d ''password'' of None \<Rightarrow> v | Some w \<Rightarrow> w)
      | _ \<Rightarrow> Inl TypeError)"

fun read_all :: "'x vault \<Rightarrow> vault_options \<Rightarrow> string list \<Rightarrow> ('x, pyobj) pwd" where
  "read_all V vo [] = return_io []"
| "read_all V vo (key # keys) =
     bnd (read_secret V vo key) (\<lambda>data.
     bnd (case data of
            None \<Rightarrow> bnd (say (''WARNING: not found in Vault: '' @ key)) (\<lambda>_. return_io PyNone)
          | Some v \<Rightarrow> lift_sum (password_of v)) (\<lambda>w.
     bnd (read_all V vo keys) (\<lambda>out. return_io ((key, w) # out))))"

definition readpwd :: "'x vault \<Rightarrow> string \<Rightarrow> vault_options \<Rightarrow> ('x, unit) pwd" where
  "readpwd V passwords_file vo =
     bnd (load_file passwords_file) (\<lambda>f.
     bnd (warn_world f) (\<lambda>_.
     bnd (dict_or_exit (pf_data f) ''ERROR: Passwords file not in expected key/value format'') (\<lambda>passwords.
     bnd (hashicorp_vault_client V vo) (\<lambda>_.
     bnd (read_all V vo (dict_keys passwords)) (\<lambda>out.
     dump_file passwords_file (PyDict out))))))"

section \<open>Frames and runs\<close>

definition same_files :: "'x pwd_host \<Rightarrow> 'x pwd_host \<Rightarrow> bool" where
  "same_files h h' \<longleftrightarrow> pw_files h' = pw_files h \<and> pw_removable h' = pw_removable h \<and> pw_umask h' = pw_umask h
     \<and> pw_disk h' = pw_disk h"

interpretation sf: effect_frame same_files
  by unfold_locales (auto simp: same_files_def)

lemma say_files: "keeps same_files (say l)"
  by (simp add: keeps_def say_def io_run same_files_def)

lemma on_outer_files: "keeps same_files (on_outer f)"
  by (simp add: keeps_def on_outer_def same_files_def split: prod.splits)

lemma draw_files: "keeps same_files (draw f)"
  by (simp add: draw_def on_outer_files)

lemma warn_world_files: "keeps same_files (warn_world f)"
  unfolding warn_world_def by (intro sf.keeps_rules say_files)

lemma dict_or_exit_files: "keeps same_files (dict_or_exit v m)"
  unfolding dict_or_exit_def by (auto intro!: sf.keeps_rules say_files split: pyval.splits)

lemma gen_value_files: "keeps same_files (gen_value G K len k v)"
  unfolding gen_value_def gen_secret_def by (auto intro!: sf.keeps_rules draw_files)

lemma gen_all_files: "keeps same_files (gen_all G K len d)"
  by (induction d) (auto intro!: sf.keeps_rules gen_value_files)

lemma load_file_run: "load_file q h = (case pw_files h q of None \<Rightarrow> (Inl (OtherError ''FileNotFoundError''), h) | Some f \<Rightarrow> (Inr f, h))"
  by (simp add: load_file_def)

lemma warn_world_run: obtains ls where "warn_world f h = (Inr (), h\<lparr>pw_out := pw_out h @ ls\<rparr>)"
proof -
  let ?ls = "(if pf_mode f AND S_IROTH \<noteq> 0 then [''WARNING: world-readable''] else [])
    @ (if pf_mode f AND S_IWOTH \<noteq> 0 then [''WARNING: world-writeable''] else [])"
  have "warn_world f h = (Inr (), h\<lparr>pw_out := pw_out h @ ?ls\<rparr>)"
    by (simp add: warn_world_def when_io_def say_def io_run bnd_run)
  then show thesis by (rule that)
qed

text \<open>Writing a file that fails may lose it, but no other.\<close>

definition lost_at :: "string \<Rightarrow> 'x pwd_host \<Rightarrow> 'x pwd_host \<Rightarrow> bool" where
  "lost_at path h h' \<longleftrightarrow> pw_disk h path \<noteq> Writes \<and> (\<forall>q. q \<noteq> path \<longrightarrow> pw_files h' q = pw_files h q)"

lemma dump_file_run:
  assumes "dump_file q v h = (r, h')"
  shows "case r of Inl e \<Rightarrow> e = disk_error \<and> lost_at q h h'
    | Inr _ \<Rightarrow> pw_files h' = (pw_files h)(q \<mapsto> \<lparr>pf_data = v,
     pf_mode = (if pw_removable h q then 416 AND NOT (pw_umask h)
       else case pw_files h q of None \<Rightarrow> 416 AND NOT (pw_umask h) | Some f \<Rightarrow> pf_mode f)\<rparr>)"
  using assms by (auto simp: dump_file_def Let_def lost_at_def split: disk.splits if_splits)

text \<open>No access for others, whatever the umask.\<close>

lemma mode_private: "(416 AND NOT u) AND 7 = (0 :: 16 word)"
proof -
  have "(416 AND NOT u) AND 7 = (416 AND 7) AND NOT u"
    by (simp add: and.assoc and.commute and.left_commute)
  then show ?thesis by simp
qed

section \<open>Generated passwords\<close>

definition choice_law :: "'x generators \<Rightarrow> bool" where
  "choice_law G \<longleftrightarrow> (\<forall>s x. s \<noteq> [] \<longrightarrow> fst (rg_choice G s x) \<in> set s)"

lemma random_password_chars:
  "choice_law G \<Longrightarrow> random_password G n x = (cs, y) \<Longrightarrow> length cs = n \<and> set cs \<subseteq> set alphabet"
proof (induction n arbitrary: x cs y)
  case (Suc n)
  obtain c y1 where c: "rg_choice G alphabet x = (c, y1)" by fastforce
  obtain ds y2 where ds: "random_password G n y1 = (ds, y2)" by fastforce
  have "alphabet \<noteq> []" by (simp add: alphabet_def)
  then have "c \<in> set alphabet" using Suc.prems(1) c unfolding choice_law_def by (metis fst_conv)
  then show ?case using Suc.IH [OF Suc.prems(1) ds] Suc.prems(2) c ds by auto
qed auto

definition generated_keys :: "key_lists \<Rightarrow> string set" where
  "generated_keys K = set (kl_uuid K) \<union> set (kl_hmac K) \<union> set (kl_fernet K) \<union> set (kl_bcrypt K)"

text \<open>What becomes of one entry of the passwords file.\<close>

definition no_key_half :: "pyval \<Rightarrow> bool" where
  "no_key_half v \<longleftrightarrow>
     v = PyNone \<or> (\<exists>e. v = PyDict e \<and> map_of e ''public_key'' \<in> {None, Some PyNone}
                     \<and> map_of e ''private_key'' \<in> {None, Some PyNone})"

lemma ssh_key_missing_iff: "ssh_key_missing v = Inr True \<longleftrightarrow> no_key_half v"
  by (cases v) (auto simp: ssh_key_missing_def no_key_half_def dget_def split: option.splits)

definition filled :: "key_lists \<Rightarrow> nat \<Rightarrow> string \<times> pyval \<Rightarrow> string \<times> pyval \<Rightarrow> bool" where
  "filled K len kv kw \<longleftrightarrow>
     (case (kv, kw) of ((k, v), (k', w)) \<Rightarrow>
        k' = k \<and>
        (if k \<in> set (kl_ssh K) \<and> no_key_half v
         then \<exists>prv pub. w = PyDict [(''private_key'', PyStr prv), (''public_key'', PyStr pub)]
         else if v = PyNone \<and> k \<notin> set (kl_blank K)
         then \<exists>s. w = PyStr s \<and> (k \<notin> generated_keys K \<longrightarrow> length s = len \<and> set s \<subseteq> set alphabet)
         else w = v))"

lemma draw_run: "draw f h = (Inr (fst (f (outer h))), h\<lparr>outer := snd (f (outer h))\<rparr>)"
  by (simp add: draw_def on_outer_def split: prod.splits)

lemma gen_value_filled:
  assumes "choice_law G" and "gen_value G K len k v h = (Inr w, h')"
  shows "filled K len (k, v) (k, w)"
proof (cases "k \<in> set (kl_ssh K) \<and> ssh_key_missing v = Inr True")
  case True
  then show ?thesis using assms(2)
    by (auto simp: gen_value_def filled_def ssh_key_missing_iff [symmetric] lift_sum_def bnd_run draw_run io_run split: prod.splits)
next
  case False
  have m: "(if k \<in> set (kl_ssh K) then ssh_key_missing v else Inr False) = Inr False"
    using assms(2) False by (auto simp: gen_value_def lift_sum_def bnd_run io_run split: sum.splits if_splits)
  show ?thesis
  proof (cases "v = PyNone \<and> k \<notin> set (kl_blank K)")
    case True
    have "k \<notin> generated_keys K \<longrightarrow> length (fst (random_password G len (outer h))) = len
        \<and> set (fst (random_password G len (outer h))) \<subseteq> set alphabet"
      using random_password_chars [OF assms(1)] by (metis prod.collapse)
    then show ?thesis using assms(2) False True unfolding gen_value_def m
      by (auto simp: filled_def ssh_key_missing_iff [symmetric] lift_sum_def bnd_run io_run gen_secret_def draw_run generated_keys_def
          split: prod.splits if_splits)
  next
    case other: False
    then show ?thesis using assms(2) False unfolding gen_value_def m
      by (auto simp: filled_def ssh_key_missing_iff [symmetric] lift_sum_def bnd_run io_run split: if_splits)
  qed
qed

lemma gen_all_filled:
  "choice_law G \<Longrightarrow> gen_all G K len d h = (Inr out, h') \<Longrightarrow> list_all2 (filled K len) d out"
proof (induction d arbitrary: out h)
  case (Cons kv d)
  then show ?case
    by (cases kv) (auto simp: return_run elim!: bnd_InrD intro: gen_value_filled)
qed (simp add: return_run)

lemma gen_all_error: "gen_all G K len d h = (Inl e, h') \<Longrightarrow> e = AttributeError"
proof (induction d arbitrary: h)
  case (Cons kv d)
  have "e = AttributeError" if "gen_value G K len k v h = (Inl e, h')" for k v h h' and e :: pyexn
    using that by (auto simp: gen_value_def gen_secret_def ssh_key_missing_def lift_sum_def bnd_run draw_run return_run raise_run
        split: if_splits pyval.splits prod.splits)
  with Cons show ?case by (cases kv) (auto simp: bnd_run return_run split: prod.splits sum.splits)
qed (simp add: return_run)

lemma genpwd_run:
  assumes "genpwd G path len K h = (r, h')" and "pw_files h path = Some f" and "pf_data f = PyDict d"
  obtains rg h1 h2 where "gen_all G K len d h1 = (rg, h2)" "same_files h h2"
    "(r, h') = (case rg of Inl e \<Rightarrow> (Inl e, h2) | Inr out \<Rightarrow> dump_file path (PyDict out) h2)"
proof -
  obtain ls where w: "warn_world f h = (Inr (), h\<lparr>pw_out := pw_out h @ ls\<rparr>)" by (rule warn_world_run)
  let ?h = "h\<lparr>pw_out := pw_out h @ ls\<rparr>"
  obtain rg h2 where g: "gen_all G K len d ?h = (rg, h2)" by fastforce
  have "same_files h ?h" by (simp add: same_files_def)
  moreover have "same_files ?h h2" by (rule keepsD [OF gen_all_files g])
  ultimately have "same_files h h2" by (rule sf.frame_trans)
  moreover have "(r, h') = (case rg of Inl e \<Rightarrow> (Inl e, h2) | Inr out \<Rightarrow> dump_file path (PyDict out) h2)"
    using assms w g by (simp add: genpwd_def bnd_run catch_io_def load_file_run dict_or_exit_def io_run split: sum.splits)
  ultimately show thesis using g that by blast
qed

text \<open>
  C9. Generating passwords overwrites none.  If \<open>genpwd\<close> succeeds, only the passwords file has
  changed, its keys are the same in the same order, every value that was present is kept (an SSH
  key as soon as one half of it is), every missing one that is not to stay blank is filled (an
  ordinary password with the length asked for, from letters and digits), and a replaced file is
  not accessible to others, whatever it was before.  If it fails, no file has changed, unless it
  is the disk that failed, and then no other file than the passwords file has.
\<close>

theorem genpwd_preserves:
  assumes "choice_law G" and "genpwd G path len K h = (r, h')"
    and "pw_files h path = Some f" and "pf_data f = PyDict d"
  shows "case r of Inl e \<Rightarrow> if e = disk_error then lost_at path h h' else pw_files h' = pw_files h
    | Inr _ \<Rightarrow> \<exists>out m. pw_files h' = (pw_files h)(path \<mapsto> \<lparr>pf_data = PyDict out, pf_mode = m\<rparr>)
        \<and> list_all2 (filled K len) d out \<and> (pw_removable h path \<longrightarrow> m AND 7 = 0)"
proof -
  obtain rg h1 h2 where g: "gen_all G K len d h1 = (rg, h2)" and s: "same_files h h2"
    and run: "(r, h') = (case rg of Inl e \<Rightarrow> (Inl e, h2) | Inr out \<Rightarrow> dump_file path (PyDict out) h2)"
    by (rule genpwd_run [OF assms(2-4)])
  show ?thesis
  proof (cases rg)
    case (Inl e)
    from gen_all_error [OF g [unfolded Inl]] have "e \<noteq> disk_error" by (simp add: disk_error_def)
    then show ?thesis using run s Inl by (auto simp: same_files_def)
  next
    case (Inr out)
    then have filled: "list_all2 (filled K len) d out" using gen_all_filled [OF assms(1)] g by blast
    have "dump_file path (PyDict out) h2 = (r, h')" using run Inr by simp
    from dump_file_run [OF this] s filled mode_private show ?thesis
      by (cases r) (fastforce simp: same_files_def lost_at_def)+
  qed
qed

text \<open>
  The file is removed before the new one is opened: if that fails, the passwords are gone.
\<close>

lemma genpwd_loses_passwords:
  assumes "genpwd G path len K h = (r, h')" and "pw_files h path = Some f" and "pf_data f = PyDict d"
    and "pw_removable h path" and "pw_disk h path = CannotOpen" and "r \<noteq> Inl AttributeError"
  shows "r = Inl disk_error \<and> pw_files h' path = None"
proof -
  obtain rg h1 h2 where g: "gen_all G K len d h1 = (rg, h2)" and s: "same_files h h2"
    and run: "(r, h') = (case rg of Inl e \<Rightarrow> (Inl e, h2) | Inr out \<Rightarrow> dump_file path (PyDict out) h2)"
    by (rule genpwd_run [OF assms(1-3)])
  show ?thesis
  proof (cases rg)
    case (Inl e)
    from gen_all_error [OF g [unfolded Inl]] show ?thesis using run assms(6) Inl by simp
  next
    case (Inr out)
    then show ?thesis using run s assms(4,5) by (simp add: dump_file_def same_files_def)
  qed
qed

definition demo_generators :: "nat generators" where
  "demo_generators =
    \<lparr>rg_rsa = (\<lambda>x. ((''prv'', ''pub''), Suc x)), rg_uuid = (\<lambda>x. (''uuid'', Suc x)), rg_hmac_md5 = (\<lambda>u. ''hash''),
     rg_fernet = (\<lambda>x. (''fernet'', Suc x)), rg_salt = (\<lambda>n x. (''salt'', Suc x)), rg_choice = (\<lambda>s x. (hd s, Suc x))\<rparr>"

definition demo_pwd_host :: "16 word \<Rightarrow> pyobj \<Rightarrow> 'x \<Rightarrow> 'x pwd_host" where
  "demo_pwd_host u d x =
    \<lparr>pw_files = [''p'' \<mapsto> \<lparr>pf_data = PyDict d, pf_mode = 420\<rparr>], pw_removable = (\<lambda>_. True), pw_disk = (\<lambda>_. Writes), pw_umask = u,
     pw_ca = None, pw_out = [], outer = x\<rparr>"

theorem genpwd_preserves_witness:
  "\<exists>s. length s = 40 \<and> map_option pf_data (pw_files (snd (genpwd_main demo_generators ''p''
      (demo_pwd_host 0 [(''keystone_admin_password'', PyStr ''mine''), (''database_password'', PyNone)] 0))) ''p'')
    = Some (PyDict [(''keystone_admin_password'', PyStr ''mine''), (''database_password'', PyStr s)])"
proof -
  let ?d = "[(''keystone_admin_password'', PyStr ''mine''), (''database_password'', PyNone)]"
  let ?h = "demo_pwd_host 0 ?d (0 :: nat)"
  have c: "choice_law demo_generators" by (simp add: choice_law_def demo_generators_def)
  obtain r h' where run: "genpwd demo_generators ''p'' 40 genpwd_keys ?h = (r, h')" by fastforce
  have f: "pw_files ?h ''p'' = Some \<lparr>pf_data = PyDict ?d, pf_mode = 420\<rparr>" by (simp add: demo_pwd_host_def)
  note spec = genpwd_preserves [OF c run f pfile.select_convs(1)]
  have "\<not> isl (fst (genpwd demo_generators ''p'' 40 genpwd_keys ?h))" by code_simp
  then have "\<not> isl r" unfolding run by simp
  then obtain out m where o: "pw_files h' = (pw_files ?h)(''p'' \<mapsto> \<lparr>pf_data = PyDict out, pf_mode = m\<rparr>)"
    "list_all2 (filled genpwd_keys 40) ?d out"
    using spec by (cases r) auto
  have "''keystone_admin_password'' \<notin> set (kl_ssh genpwd_keys)" "''database_password'' \<notin> set (kl_ssh genpwd_keys)"
    "''database_password'' \<notin> set (kl_blank genpwd_keys)" "''database_password'' \<notin> generated_keys genpwd_keys"
    by code_simp+
  with o(2) obtain s where "length s = 40"
    "out = [(''keystone_admin_password'', PyStr ''mine''), (''database_password'', PyStr s)]"
    by (auto simp: list_all2_Cons1 filled_def)
  with o(1) run show ?thesis by (auto simp: genpwd_main_def)
qed

section \<open>Merged passwords\<close>

text \<open>
  The value a key ends up with: the old one if there is one, and else the new one, except that
  the Valkey password takes the old Redis password over.
\<close>

definition merged_password :: "pyobj \<Rightarrow> pyobj \<Rightarrow> bool \<Rightarrow> string \<Rightarrow> pyval option" where
  "merged_password old new clean k =
     (if map_of new k = None \<and> clean then None
      else case map_of old k of
             Some v \<Rightarrow> Some v
           | None \<Rightarrow>
               (if k = ''valkey_master_password'' \<and> map_of new k \<noteq> None \<and> truthy (dget old ''redis_master_password'')
                then Some (dget old ''redis_master_password'') else map_of new k))"

lemma map_of_keep_new_keys:
  "map_of (keep_new_keys old new) k =
     (case map_of new k of None \<Rightarrow> None | Some v \<Rightarrow> Some (case map_of old k of None \<Rightarrow> v | Some w \<Rightarrow> w))"
  by (induction new) (auto simp: keep_new_keys_def split: option.splits)

lemma migrate_redis_get:
  "map_of (migrate_redis old new) k =
     (if k = ''valkey_master_password'' \<and> map_of new k \<noteq> None \<and> map_of old k = None
         \<and> truthy (dget old ''redis_master_password'')
      then Some (dget old ''redis_master_password'') else map_of new k)"
  by (auto simp: migrate_redis_def in_dict_iff dget_def split: option.splits)

lemma merge_passwords_get:
  assumes "wf_dict old"
  shows "map_of (merge_passwords old new clean) k = merged_password old new clean k"
  using assms
  by (auto simp: merge_passwords_def Let_def map_of_keep_new_keys dict_update_get migrate_redis_get
      merged_password_def split: option.splits)

text \<open>
  C30. Merging keeps the old passwords.  On two password files, \<open>mergepwd\<close> writes the final file
  and no other; every key of the old file keeps its value, keys only in the new file get the
  new value (the Valkey password the old Redis one), and with \<open>clean\<close> exactly the keys of the
  new file remain; a replaced or new final file is not accessible to others.  It fails only if
  the disk does, and then it has changed no other file than the final one.
\<close>

theorem mergepwd_keeps_old:
  assumes "pw_files h old = Some fo" and "pf_data fo = PyDict od" and "wf_dict od"
    and "pw_files h new = Some fn" and "pf_data fn = PyDict nd"
    and "mergepwd old new final clean h = (r, h')"
  shows "case r of Inl e \<Rightarrow> e = disk_error \<and> lost_at final h h'
    | Inr _ \<Rightarrow> \<exists>out m. pw_files h' = (pw_files h)(final \<mapsto> \<lparr>pf_data = PyDict out, pf_mode = m\<rparr>)
        \<and> (\<forall>k. map_of out k = merged_password od nd clean k)
        \<and> (pw_removable h final \<or> pw_files h final = None \<longrightarrow> m AND 7 = 0)"
proof -
  obtain ls where w1: "warn_world fo h = (Inr (), h\<lparr>pw_out := pw_out h @ ls\<rparr>)" by (rule warn_world_run)
  let ?h = "h\<lparr>pw_out := pw_out h @ ls\<rparr>"
  obtain ms where w2: "warn_world fn ?h = (Inr (), ?h\<lparr>pw_out := pw_out ?h @ ms\<rparr>)" by (rule warn_world_run)
  let ?g = "?h\<lparr>pw_out := pw_out ?h @ ms\<rparr>"
  have "dump_file final (PyDict (merge_passwords od nd clean)) ?g = (r, h')"
    using assms w1 w2 by (simp add: mergepwd_def bnd_run load_file_run dict_or_exit_def io_run)
  from dump_file_run [OF this] show ?thesis
    using merge_passwords_get [OF assms(3)] mode_private
    by (cases r) (fastforce simp: lost_at_def split: option.splits)+
qed

theorem mergepwd_keeps_old_witness:
  "\<exists>out m. pw_files (snd (mergepwd ''p'' ''n'' ''f'' True
       ((demo_pwd_host 0 [(''a'', PyStr ''1''), (''redis_master_password'', PyStr ''r'')] ())
          \<lparr>pw_files := [''p'' \<mapsto> \<lparr>pf_data = PyDict [(''a'', PyStr ''1''), (''redis_master_password'', PyStr ''r'')], pf_mode = 420\<rparr>,
             ''n'' \<mapsto> \<lparr>pf_data = PyDict [(''a'', PyNone), (''valkey_master_password'', PyNone)], pf_mode = 420\<rparr>]\<rparr>))) ''f''
       = Some \<lparr>pf_data = PyDict out, pf_mode = m\<rparr>
     \<and> map_of out ''a'' = Some (PyStr ''1'') \<and> map_of out ''valkey_master_password'' = Some (PyStr ''r'')
     \<and> map_of out ''redis_master_password'' = None \<and> m AND 7 = 0"
proof -
  let ?od = "[(''a'', PyStr ''1''), (''redis_master_password'', PyStr ''r'')]"
  let ?nd = "[(''a'', PyNone), (''valkey_master_password'', PyNone)]"
  define h where "h = (demo_pwd_host 0 ?od ())\<lparr>pw_files := [''p'' \<mapsto> \<lparr>pf_data = PyDict ?od, pf_mode = 420\<rparr>,
      ''n'' \<mapsto> \<lparr>pf_data = PyDict ?nd, pf_mode = 420\<rparr>]\<rparr>"
  obtain r h' where run: "mergepwd ''p'' ''n'' ''f'' True h = (r, h')" by fastforce
  have f: "pw_files h ''p'' = Some \<lparr>pf_data = PyDict ?od, pf_mode = 420\<rparr>"
    "pw_files h ''n'' = Some \<lparr>pf_data = PyDict ?nd, pf_mode = 420\<rparr>" "pw_files h ''f'' = None"
    by (simp_all add: h_def)
  have kept: "\<not> lost_at ''f'' h h'" by (simp add: lost_at_def h_def demo_pwd_host_def)
  have "wf_dict ?od" by simp
  from mergepwd_keeps_old [OF f(1) pfile.select_convs(1) this f(2) pfile.select_convs(1) run] f(3)
  obtain out m where o: "pw_files h' ''f'' = Some \<lparr>pf_data = PyDict out, pf_mode = m\<rparr>"
    "\<And>k. map_of out k = merged_password ?od ?nd True k" "m AND 7 = 0" using kept by (cases r) fastforce+
  then show ?thesis unfolding h_def [symmetric] run snd_conv
    by (intro exI [of _ out] exI [of _ m]) (simp add: merged_password_def dget_def)
qed

section \<open>Vault round trip\<close>

text \<open>
  The documented behaviour of a KV store: reading changes nothing and answers an object or
  \<open>InvalidPath\<close>; a written object is read back, and the other paths keep theirs.
\<close>

definition kv_laws :: "'x vault \<Rightarrow> string \<Rightarrow> bool" where
  "kv_laws V mount \<longleftrightarrow>
     (\<forall>q x. snd (kv_read V mount q x) = x) \<and>
     (\<forall>q x. fst (kv_read V mount q x) = Inl InvalidPath \<or> (\<exists>d. fst (kv_read V mount q x) = Inr (PyDict d))) \<and>
     (\<forall>q d x. fst (kv_write V mount q (PyDict d) x) = Inr () \<and>
        (\<forall>q'. fst (kv_read V mount q' (snd (kv_write V mount q (PyDict d) x)))
               = (if q' = q then Inr (PyDict d) else fst (kv_read V mount q' x))))"

definition stored :: "'x vault \<Rightarrow> vault_options \<Rightarrow> 'x \<Rightarrow> string \<Rightarrow> pyobj option" where
  "stored V vo x key =
     (case fst (kv_read V (vo_mount vo) (secret_path vo key) x) of Inr (PyDict d) \<Rightarrow> Some d | _ \<Rightarrow> None)"

text \<open>What the tools can store: nothing, a password, or an object without a \<open>password\<close> key.\<close>

definition storable :: "pyval \<Rightarrow> bool" where
  "storable v \<longleftrightarrow> \<not> truthy v \<or> (\<exists>s. v = PyStr s) \<or> (\<exists>d. v = PyDict d \<and> \<not> in_dict ''password'' d)"

lemma secret_path_inj: "secret_path vo k = secret_path vo l \<longleftrightarrow> k = l"
  by (simp add: secret_path_def)

lemma read_secret_run:
  assumes "kv_laws V (vo_mount vo)"
  shows "read_secret V vo key h = (Inr (map_option PyDict (stored V vo (outer h) key)), h)"
proof -
  let ?r = "kv_read V (vo_mount vo) (secret_path vo key) (outer h)"
  have r: "?r = (fst ?r, outer h)" using assms by (simp add: kv_laws_def prod_eq_iff)
  have "fst ?r = Inl InvalidPath \<or> (\<exists>d. fst ?r = Inr (PyDict d))" using assms by (simp add: kv_laws_def)
  then show ?thesis
    using r by (auto simp: read_secret_def catch_io_def bnd_run on_outer_def io_run stored_def split: prod.splits)
qed

text \<open>What is stored for a value, up to Python's equality when it was there before.\<close>

definition holds_value :: "pyval \<Rightarrow> pyobj option \<Rightarrow> bool" where
  "holds_value v r \<longleftrightarrow> (\<exists>d. r = Some d \<and> (PyDict d = secret_of v \<or> py_eq (PyDict d) (secret_of v)))"

lemma write_one_run:
  assumes "kv_laws V (vo_mount vo)" and "storable v"
  obtains x where "write_one V vo (k, v) h = (Inr (), h\<lparr>outer := x\<rparr>)"
    and "\<And>l. l \<noteq> k \<Longrightarrow> stored V vo x l = stored V vo (outer h) l"
    and "truthy v \<Longrightarrow> holds_value v (stored V vo x k)"
    and "\<not> truthy v \<Longrightarrow> stored V vo x k = stored V vo (outer h) k"
proof (cases "truthy v")
  case False
  then show ?thesis using that [of "outer h"] by (simp add: write_one_def when_io_def io_run)
next
  case True
  then obtain e where e: "secret_of v = PyDict e"
    using assms(2) by (auto simp: storable_def secret_of_def)
  note read = read_secret_run [OF assms(1)]
  show ?thesis
  proof (cases "\<exists>d. stored V vo (outer h) k = Some d \<and> py_eq (PyDict d) (secret_of v)")
    case same: True
    then have "write_one V vo (k, v) h = (Inr (), h\<lparr>outer := outer h\<rparr>)"
      using True by (auto simp: write_one_def when_io_def bnd_run read io_run)
    with same True show ?thesis using that [of "outer h"] by (auto simp: holds_value_def)
  next
    case False
    define x where "x = snd (kv_write V (vo_mount vo) (secret_path vo k) (PyDict e) (outer h))"
    have w: "kv_write V (vo_mount vo) (secret_path vo k) (PyDict e) (outer h) = (Inr (), x)"
      using assms(1) by (simp add: kv_laws_def x_def prod_eq_iff)
    have st: "stored V vo x l = (if l = k then Some e else stored V vo (outer h) l)" for l
      using assms(1) unfolding kv_laws_def stored_def x_def by (simp add: secret_path_inj)
    have "write_one V vo (k, v) h = (Inr (), h\<lparr>outer := x\<rparr>)"
      using True False by (auto simp: write_one_def when_io_def bnd_run read io_run e on_outer_def w
          split: option.splits)
    then show ?thesis using that [of x] st True by (auto simp: holds_value_def e)
  qed
qed

text \<open>Vault after the loop: what was stored for the entries, the rest as before.\<close>

definition written :: "'x vault \<Rightarrow> vault_options \<Rightarrow> pyobj \<Rightarrow> 'x \<Rightarrow> 'x \<Rightarrow> bool" where
  "written V vo d x y \<longleftrightarrow>
     (\<forall>l. l \<notin> set (map fst d) \<longrightarrow> stored V vo y l = stored V vo x l) \<and>
     (\<forall>k v. (k, v) \<in> set d \<longrightarrow>
        (if truthy v then holds_value v (stored V vo y k) else stored V vo y k = stored V vo x k))"

lemma write_all_run:
  assumes "kv_laws V (vo_mount vo)"
  shows "wf_dict d \<Longrightarrow> list_all (\<lambda>kv. storable (snd kv)) d \<Longrightarrow>
    \<exists>x. for_io d (write_one V vo) h = (Inr (), h\<lparr>outer := x\<rparr>) \<and> written V vo d (outer h) x"
proof (induction d arbitrary: h)
  case Nil
  show ?case by (intro exI [of _ "outer h"]) (simp add: io_run written_def)
next
  case (Cons kv d)
  obtain k v where kv: "kv = (k, v)" by fastforce
  have "storable v" using Cons.prems(2) kv by simp
  then obtain x where x: "write_one V vo (k, v) h = (Inr (), h\<lparr>outer := x\<rparr>)"
    "\<And>l. l \<noteq> k \<Longrightarrow> stored V vo x l = stored V vo (outer h) l"
    "truthy v \<Longrightarrow> holds_value v (stored V vo x k)"
    "\<not> truthy v \<Longrightarrow> stored V vo x k = stored V vo (outer h) k"
    by (rule write_one_run [OF assms, of v k h]) blast
  have "wf_dict d" "list_all (\<lambda>kv. storable (snd kv)) d" using Cons.prems by simp_all
  from Cons.IH [OF this, of "h\<lparr>outer := x\<rparr>"] obtain y where
    y: "for_io d (write_one V vo) (h\<lparr>outer := x\<rparr>) = (Inr (), h\<lparr>outer := y\<rparr>)" "written V vo d x y"
    by auto
  have new: "k \<notin> set (map fst d)" using Cons.prems(1) kv by simp
  then have other: "(k', v') \<in> set d \<Longrightarrow> k' \<noteq> k" for k' v' by (metis fst_conv image_eqI list.set_map)
  have "written V vo (kv # d) (outer h) y"
    using y(2) x(2-4) new other unfolding written_def kv by (auto simp del: set_map)
  moreover have "for_io (kv # d) (write_one V vo) h = (Inr (), h\<lparr>outer := y\<rparr>)"
    using x(1) y(1) by (simp add: kv bnd_run)
  ultimately show ?case by blast
qed

definition read_value :: "pyobj option \<Rightarrow> pyval" where
  "read_value r = (case r of None \<Rightarrow> PyNone | Some d \<Rightarrow> (case map_of d ''password'' of None \<Rightarrow> PyDict d | Some w \<Rightarrow> w))"

lemma read_all_run:
  assumes "kv_laws V (vo_mount vo)"
  shows "\<exists>ls. read_all V vo keys h =
    (Inr (map (\<lambda>k. (k, read_value (stored V vo (outer h) k))) keys), h\<lparr>pw_out := pw_out h @ ls\<rparr>)"
proof (induction keys arbitrary: h)
  case Nil
  show ?case by (intro exI [of _ "[]"]) (simp add: io_run)
next
  case (Cons k keys)
  note read = read_secret_run [OF assms]
  show ?case
  proof (cases "stored V vo (outer h) k")
    case None
    let ?l = "''WARNING: not found in Vault: '' @ k"
    obtain ls where "read_all V vo keys (h\<lparr>pw_out := pw_out h @ [?l]\<rparr>) =
      (Inr (map (\<lambda>k. (k, read_value (stored V vo (outer h) k))) keys), h\<lparr>pw_out := pw_out h @ ?l # ls\<rparr>)"
      using Cons.IH [of "h\<lparr>pw_out := pw_out h @ [?l]\<rparr>"] by auto
    then show ?thesis using None
      by (intro exI [of _ "?l # ls"]) (simp add: bnd_run read say_def io_run read_value_def)
  next
    case (Some d)
    obtain ls where "read_all V vo keys h =
      (Inr (map (\<lambda>k. (k, read_value (stored V vo (outer h) k))) keys), h\<lparr>pw_out := pw_out h @ ls\<rparr>)"
      using Cons.IH by blast
    then show ?thesis using Some
      by (intro exI [of _ ls]) (simp add: bnd_run read io_run read_value_def lift_sum_def password_of_def)
  qed
qed

lemma read_back:
  assumes "storable v" and "truthy v" and "holds_value v r"
  shows "read_value r = v \<or> py_eq (read_value r) v"
proof -
  obtain d where d: "r = Some d" "PyDict d = secret_of v \<or> py_eq (PyDict d) (secret_of v)"
    using assms(3) by (auto simp: holds_value_def)
  consider s where "v = PyStr s" | e where "v = PyDict e" "\<not> in_dict ''password'' e"
    using assms(1,2) by (auto simp: storable_def)
  then show ?thesis
  proof cases
    case 1
    have "py_eq x (PyStr s) \<Longrightarrow> x = PyStr s" for x by (cases x) auto
    then have "d = [(''password'', PyStr s)]"
      using d(2) 1 by (auto simp: secret_of_def length_Suc_conv split: option.splits if_splits)
    then show ?thesis using d(1) 1 by (simp add: read_value_def)
  next
    case 2
    have "map_of d ''password'' = None"
    proof (rule ccontr)
      assume "map_of d ''password'' \<noteq> None"
      then obtain x where x: "(''password'', x) \<in> set d" "map_of d ''password'' = Some x"
        by (auto dest: map_of_SomeD)
      from d(2) 2 have "d = e \<or> py_sub_dict d e" by (auto simp: secret_of_def)
      then have "map_of e ''password'' \<noteq> None"
        using x unfolding py_sub_dict_iff by fastforce
      then have "in_dict ''password'' e" by (simp add: in_dict_iff)
      with 2(2) show False by blast
    qed
    then show ?thesis using d 2 by (auto simp: read_value_def secret_of_def)
  qed
qed

text \<open>The login succeeds and leaves the secrets alone.\<close>

definition login_works :: "'x vault \<Rightarrow> vault_options \<Rightarrow> bool" where
  "login_works V vo \<longleftrightarrow>
     (\<exists>c. vault_credentials vo = Inr c \<and> (\<forall>x. kv_login V (vo_addr vo) (vo_namespace vo) c x = (Inr True, x)))"

lemma vault_client_run:
  assumes "login_works V vo"
  obtains ca where "hashicorp_vault_client V vo h = (Inr (), h\<lparr>pw_ca := ca\<rparr>)"
proof -
  have "\<exists>ca. hashicorp_vault_client V vo h = (Inr (), h\<lparr>pw_ca := ca\<rparr>)"
    using assms by (cases "vo_cacert vo = []")
      (auto simp: login_works_def hashicorp_vault_client_def when_io_def on_outer_def bnd_run io_run
        intro: exI [of _ "pw_ca h"])
  then show thesis using that by blast
qed

text \<open>
  What is written to Vault is read back.  For a passwords file of passwords and of objects
  without a \<open>password\<close> key, under the documented behaviour of the KV store, \<open>writepwd\<close> followed
  by \<open>readpwd\<close> both succeed, unless the disk fails, and leave a file with the same keys in the same order: every value
  that was set is the same (up to Python's equality), and an empty one is what Vault already
  had under its key, or None.
\<close>

lemma vault_roundtrip:
  assumes "kv_laws V (vo_mount vo)" and "login_works V vo"
    and "pw_files h path = Some f" and "pf_data f = PyDict d" and "wf_dict d"
    and "list_all (\<lambda>kv. storable (snd kv)) d"
    and "writepwd V path vo h = (r1, h1)" and "readpwd V path vo h1 = (r2, h2)"
  shows "r1 = Inr () \<and> (case r2 of Inl e \<Rightarrow> e = disk_error \<and> lost_at path h h2
    | Inr _ \<Rightarrow> \<exists>out m. pw_files h2 = (pw_files h)(path \<mapsto> \<lparr>pf_data = PyDict out, pf_mode = m\<rparr>) \<and>
       list_all2 (\<lambda>(k, v) (k', w). k' = k \<and>
         (if truthy v then w = v \<or> py_eq w v else w = read_value (stored V vo (outer h) k))) d out)"
proof -
  obtain ls where w: "warn_world f h = (Inr (), h\<lparr>pw_out := pw_out h @ ls\<rparr>)" by (rule warn_world_run)
  let ?h = "h\<lparr>pw_out := pw_out h @ ls\<rparr>"
  obtain ca where c: "hashicorp_vault_client V vo ?h = (Inr (), ?h\<lparr>pw_ca := ca\<rparr>)"
    by (rule vault_client_run [OF assms(2)])
  let ?g = "?h\<lparr>pw_ca := ca\<rparr>"
  obtain x where x: "for_io d (write_one V vo) ?g = (Inr (), ?g\<lparr>outer := x\<rparr>)" "written V vo d (outer h) x"
    using write_all_run [OF assms(1,5,6), of ?g] by auto
  have h1: "r1 = Inr ()" "h1 = ?g\<lparr>outer := x\<rparr>"
    using assms(3,4,7) w c x(1) by (auto simp: writepwd_def bnd_run load_file_run dict_or_exit_def io_run)
  then have f1: "pw_files h1 path = Some f" "outer h1 = x" using assms(3) by simp_all
  obtain ls' where w': "warn_world f h1 = (Inr (), h1\<lparr>pw_out := pw_out h1 @ ls'\<rparr>)" by (rule warn_world_run)
  let ?h1 = "h1\<lparr>pw_out := pw_out h1 @ ls'\<rparr>"
  obtain ca' where c': "hashicorp_vault_client V vo ?h1 = (Inr (), ?h1\<lparr>pw_ca := ca'\<rparr>)"
    by (rule vault_client_run [OF assms(2)])
  let ?g1 = "?h1\<lparr>pw_ca := ca'\<rparr>"
  let ?out = "map (\<lambda>k. (k, read_value (stored V vo x k))) (map fst d)"
  obtain ms where ms: "read_all V vo (dict_keys d) ?g1 = (Inr ?out, ?g1\<lparr>pw_out := pw_out ?g1 @ ms\<rparr>)"
    using read_all_run [OF assms(1), of "dict_keys d" ?g1] f1(2) by (auto simp: dict_keys_def)
  have "dump_file path (PyDict ?out) (?g1\<lparr>pw_out := pw_out ?g1 @ ms\<rparr>) = (r2, h2)"
    using assms(8) f1(1) assms(4) w' c' ms by (simp add: readpwd_def bnd_run load_file_run dict_or_exit_def io_run)
  from dump_file_run [OF this] have "case r2 of Inl e \<Rightarrow> e = disk_error \<and> lost_at path h h2
      | Inr _ \<Rightarrow> \<exists>m. pw_files h2 = (pw_files h)(path \<mapsto> \<lparr>pf_data = PyDict ?out, pf_mode = m\<rparr>)"
    using h1(2) by (cases r2) (auto simp: lost_at_def)
  moreover have "list_all2 (\<lambda>(k, v) (k', w). k' = k \<and>
         (if truthy v then w = v \<or> py_eq w v else w = read_value (stored V vo (outer h) k))) d ?out"
  proof -
    have "(if truthy v then read_value (stored V vo x k) = v \<or> py_eq (read_value (stored V vo x k)) v
        else read_value (stored V vo x k) = read_value (stored V vo (outer h) k))" if "(k, v) \<in> set d" for k v
    proof -
      have "storable v" using that assms(6) by (auto simp: list_all_iff)
      with that x(2) read_back [of v "stored V vo x k"] show ?thesis by (auto simp: written_def)
    qed
    then show ?thesis by (auto simp: list_all2_conv_all_nth split: prod.splits) (metis nth_mem)+
  qed
  ultimately show ?thesis using h1(1) by (cases r2; simp only: sum.case; blast)
qed

text \<open>A KV store in memory: paths to objects.\<close>

definition demo_vault :: "(string, pyobj) pydict vault" where
  "demo_vault =
    \<lparr>kv_login = (\<lambda>a n c x. (Inr True, x)),
     kv_read = (\<lambda>m q x. (case map_of x q of None \<Rightarrow> Inl InvalidPath | Some d \<Rightarrow> Inr (PyDict d), x)),
     kv_write = (\<lambda>m q v x. (Inr (), case v of PyDict d \<Rightarrow> AList.update q d x | _ \<Rightarrow> x))\<rparr>"

definition demo_options :: vault_options where
  "demo_options = \<lparr>vo_kv_path = ''kolla_passwords'', vo_mount = ''kv'', vo_namespace = [], vo_addr = ''http://v'',
     vo_role_id = [], vo_secret_id = [], vo_token = ''t'', vo_cacert = []\<rparr>"

lemma demo_vault_works: "kv_laws demo_vault (vo_mount demo_options)" "login_works demo_vault demo_options"
    "read_value (stored demo_vault demo_options [] k) = PyNone"
  by (auto simp: kv_laws_def demo_vault_def login_works_def demo_options_def vault_credentials_def read_value_def stored_def
      split: option.splits)

end
