(* ===== verification/PasswordCommands.thy ===== *)
theory PasswordCommands
  imports ArgParse Passwords
begin

text \<open>
  The command lines of the password tools: the \<open>main\<close> functions of \<open>kolla_ansible/cmd/genpwd.py\<close>,
  \<open>mergepwd.py\<close>, \<open>readpwd.py\<close> and \<open>writepwd.py\<close>.  \<open>expand\<close> is \<open>os.path.expanduser\<close>.
\<close>

definition text_option :: "string list \<Rightarrow> string \<Rightarrow> string \<Rightarrow> option_spec" where
  "text_option names dest initial =
     \<lparr>os_names = names, os_dest = dest, os_action = StoreWord, os_default = PyStr initial, os_required = False\<rparr>"

definition required_option :: "string list \<Rightarrow> string \<Rightarrow> option_spec" where
  "required_option names dest =
     \<lparr>os_names = names, os_dest = dest, os_action = StoreWord, os_default = PyNone, os_required = True\<rparr>"

definition passwords_option :: option_spec where
  "passwords_option = text_option [''-p'', ''--passwords''] ''passwords'' ''/etc/kolla/passwords.yml''"

text \<open>The options of \<open>readpwd\<close> and \<open>writepwd\<close>.\<close>

definition vault_parser :: "option_spec list" where
  "vault_parser =
     [help_option, passwords_option,
      text_option [''-kv'', ''--vault-mount-point''] ''vault_mount_point'' ''kv'',
      text_option [''-kvp'', ''--vault-kv-path''] ''vault_kv_path'' ''kolla_passwords'',
      text_option [''-n'', ''--vault-namespace''] ''vault_namespace'' [],
      required_option [''-v'', ''--vault-addr''] ''vault_addr'',
      text_option [''-r'', ''--vault-role-id''] ''vault_role_id'' [],
      text_option [''-s'', ''--vault-secret-id''] ''vault_secret_id'' [],
      text_option [''-t'', ''--vault-token''] ''vault_token'' [],
      text_option [''-c'', ''--vault-cacert''] ''vault_cacert'' []]"

definition passwords_file_of :: "(string \<Rightarrow> string) \<Rightarrow> pyobj \<Rightarrow> string" where
  "passwords_file_of expand ns = expand (py_str (dget ns ''passwords''))"

definition vault_options_of :: "(string \<Rightarrow> string) \<Rightarrow> pyobj \<Rightarrow> vault_options" where
  "vault_options_of expand ns =
     \<lparr>vo_kv_path = py_str (dget ns ''vault_kv_path''), vo_mount = py_str (dget ns ''vault_mount_point''),
      vo_namespace = py_str (dget ns ''vault_namespace''), vo_addr = py_str (dget ns ''vault_addr''),
      vo_role_id = py_str (dget ns ''vault_role_id''), vo_secret_id = py_str (dget ns ''vault_secret_id''),
      vo_token = py_str (dget ns ''vault_token''), vo_cacert = expand (py_str (dget ns ''vault_cacert''))\<rparr>"

definition readpwd_main :: "(string \<Rightarrow> string) \<Rightarrow> 'x vault \<Rightarrow> string list \<Rightarrow> ('x, unit) pwd" where
  "readpwd_main expand V argv =
     bnd (lift_sum (parse_args vault_parser argv)) (\<lambda>ns.
     readpwd V (passwords_file_of expand ns) (vault_options_of expand ns))"

definition writepwd_main :: "(string \<Rightarrow> string) \<Rightarrow> 'x vault \<Rightarrow> string list \<Rightarrow> ('x, unit) pwd" where
  "writepwd_main expand V argv =
     bnd (lift_sum (parse_args vault_parser argv)) (\<lambda>ns.
     writepwd V (passwords_file_of expand ns) (vault_options_of expand ns))"

definition merge_parser :: "option_spec list" where
  "merge_parser =
     [help_option, required_option [''--old''] ''old'', required_option [''--new''] ''new'',
      required_option [''--final''] ''final'',
      \<lparr>os_names = [''--clean''], os_dest = ''clean'', os_action = StoreTrue, os_default = PyBool False, os_required = False\<rparr>]"

definition mergepwd_main :: "string list \<Rightarrow> ('x, unit) pwd" where
  "mergepwd_main argv =
     bnd (lift_sum (parse_args merge_parser argv)) (\<lambda>ns.
     mergepwd (py_str (dget ns ''old'')) (py_str (dget ns ''new'')) (py_str (dget ns ''final'')) (truthy (dget ns ''clean'')))"

definition genpwd_command :: "(string \<Rightarrow> string) \<Rightarrow> 'x generators \<Rightarrow> string list \<Rightarrow> ('x, unit) pwd" where
  "genpwd_command expand G argv =
     bnd (lift_sum (parse_args [help_option, passwords_option] argv)) (\<lambda>ns.
     genpwd_main G (passwords_file_of expand ns))"

section \<open>A round trip from the command line\<close>

text \<open>
  C16. The same command line serves both directions: for arguments that name an address, a mount
  point, a file and working credentials, \<open>kolla-writepwd\<close> succeeds and then so does \<open>kolla-readpwd\<close>
  with the same arguments, unless the disk fails to write the file; it leaves in the file every
  value that was set, and for an empty one what Vault already had, under the same keys in the
  same order.
\<close>

theorem vault_command_roundtrip:
  assumes "parse_args vault_parser argv = Inr ns"
    and "kv_laws V (vo_mount (vault_options_of expand ns))" and "login_works V (vault_options_of expand ns)"
    and "pw_files h (passwords_file_of expand ns) = Some f" and "pf_data f = PyDict d" and "wf_dict d"
    and "list_all (\<lambda>kv. storable (snd kv)) d"
    and "writepwd_main expand V argv h = (r1, h1)" and "readpwd_main expand V argv h1 = (r2, h2)"
  shows "r1 = Inr () \<and> (case r2 of Inl e \<Rightarrow> e = disk_error \<and> lost_at (passwords_file_of expand ns) h h2
    | Inr _ \<Rightarrow> \<exists>out m. pw_files h2 = (pw_files h)(passwords_file_of expand ns \<mapsto> \<lparr>pf_data = PyDict out, pf_mode = m\<rparr>) \<and>
       list_all2 (\<lambda>(k, v) (k', w). k' = k \<and>
         (if truthy v then w = v \<or> py_eq w v
          else w = read_value (stored V (vault_options_of expand ns) (outer h) k))) d out)"
proof (rule vault_roundtrip [OF assms(2-7)])
  show "writepwd V (passwords_file_of expand ns) (vault_options_of expand ns) h = (r1, h1)"
    using assms(1,8) by (simp add: writepwd_main_def lift_sum_def)
  show "readpwd V (passwords_file_of expand ns) (vault_options_of expand ns) h1 = (r2, h2)"
    using assms(1,9) by (simp add: readpwd_main_def lift_sum_def)
qed

definition demo_argv :: "string list" where
  "demo_argv = [''-p'', ''p'', ''--vault-addr=http://v'', ''-tt'']"

lemma demo_argv_parsed:
  "\<exists>ns. parse_args vault_parser demo_argv = Inr ns \<and> passwords_file_of id ns = ''p'' \<and> vault_options_of id ns = demo_options"
  by (simp add: parse_args_def vault_parser_def demo_argv_def option_names_def text_option_def required_option_def
      passwords_option_def help_option_def read_arg_def option_matches_def is_long_def takes_value_def store_def
      option_defaults_def in_dict_def passwords_file_of_def vault_options_of_def demo_options_def dget_def)

lemma vault_command_roundtrip_witness:
  "let h = demo_pwd_host 0 [(''a'', PyStr ''1''), (''b'', PyNone)] [];
       h1 = snd (writepwd_main id demo_vault demo_argv h); h2 = snd (readpwd_main id demo_vault demo_argv h1)
   in map_option pf_data (pw_files h2 ''p'') = Some (PyDict [(''a'', PyStr ''1''), (''b'', PyNone)])"
proof -
  define d where "d = [(''a'', PyStr ''1''), (''b'', PyNone)]"
  define h where "h = demo_pwd_host 0 d ([] :: (string, pyobj) pydict)"
  obtain ns where ns: "parse_args vault_parser demo_argv = Inr ns" "passwords_file_of id ns = ''p''"
      "vault_options_of id ns = demo_options" using demo_argv_parsed by blast
  have f: "pw_files h ''p'' = Some \<lparr>pf_data = PyDict d, pf_mode = 420\<rparr>" "outer h = []"
    by (simp_all add: h_def demo_pwd_host_def)
  have s: "wf_dict d" "list_all (\<lambda>kv. storable (snd kv)) d" by (simp_all add: d_def storable_def)
  obtain r1 h1 where 1: "writepwd_main id demo_vault demo_argv h = (r1, h1)" by fastforce
  obtain r2 h2 where 2: "readpwd_main id demo_vault demo_argv h1 = (r2, h2)" by fastforce
  have kept: "\<not> lost_at ''p'' h h2" by (simp add: lost_at_def h_def demo_pwd_host_def)
  from demo_vault_works(3) vault_command_roundtrip [OF ns(1), of demo_vault id, unfolded ns, OF demo_vault_works(1,2) f(1) pfile.select_convs(1) s 1 2]
  obtain m where "pw_files h2 ''p'' = Some \<lparr>pf_data = PyDict d, pf_mode = m\<rparr>"
    using kept by (cases r2) (auto simp: d_def f(2) list_all2_Cons1 py_eq_PyStr)
  then show ?thesis using 1 2 by (simp add: h_def d_def)
qed

end
