(* ===== verification/Reconcile.thy ===== *)
theory Reconcile
  imports PyVal "HOL-Library.List_Lexorder" "HOL-Library.Char_ord"
begin

text \<open>
  What the reconciliation modules of the powerops role share
  (\<open>ansible/roles/powerops/library/*.py\<close>).  A resource of an OpenStack API is the dict of its
  attributes, which \<open>_value\<close> reads.  The world is the API's state and a log of the calls
  made, split into those that read and those that write; a call is logged whatever it answers.
\<close>

section \<open>API calls\<close>

datatype api_event = Fetch string | Write string "pyobj list"

fun is_write :: "api_event \<Rightarrow> bool" where
  "is_write (Write _ _) = True"
| "is_write (Fetch _) = False"

record 's api_world =
  ap_state :: 's
  ap_log :: "api_event list"

type_synonym ('s, 'a) api = "('s api_world, 'a) io"

type_synonym ('s, 'a) acall = "'s \<Rightarrow> (pyexn + 'a) \<times> 's"

definition api_call :: "api_event \<Rightarrow> ('s, 'a) acall \<Rightarrow> ('s, 'a) api" where
  "api_call e f = (\<lambda>w. case f (ap_state w) of (r, s) \<Rightarrow> (r, w\<lparr>ap_state := s, ap_log := ap_log w @ [e]\<rparr>))"

definition fetch :: "string \<Rightarrow> ('s, 'a) acall \<Rightarrow> ('s, 'a) api" where
  "fetch m f = api_call (Fetch m) f"

definition put_call :: "string \<Rightarrow> pyobj list \<Rightarrow> ('s, 'a) acall \<Rightarrow> ('s, 'a) api" where
  "put_call m args f = api_call (Write m args) f"

text \<open>A write that check mode leaves out; \<open>old\<close> is what the code goes on with then.\<close>

definition write_unless :: "bool \<Rightarrow> string \<Rightarrow> pyobj list \<Rightarrow> ('s, 'a) acall \<Rightarrow> 'a \<Rightarrow> ('s, 'a) api" where
  "write_unless check m args f old = (if check then return_io old else put_call m args f)"

section \<open>Values\<close>

text \<open>\<open>str(x or '')\<close>, with the default the code gives.\<close>

definition str_or :: "pyval \<Rightarrow> string \<Rightarrow> string" where
  "str_or v d = (if truthy v then py_str v else d)"

text \<open>\<open>for x in (v or [])\<close>.\<close>

definition py_iter :: "pyval \<Rightarrow> pyexn + pyval list" where
  "py_iter v =
     (if \<not> truthy v then Inr []
      else case v of
             PyList xs \<Rightarrow> Inr xs
           | PyDict d \<Rightarrow> Inr (map (\<lambda>kv. PyStr (fst kv)) d)
           | PyStr s \<Rightarrow> Inr (map (\<lambda>c. PyStr [c]) s)
           | _ \<Rightarrow> Inl TypeError)"

definition reconciliation_error :: "string \<Rightarrow> pyexn + 'a" where
  "reconciliation_error m = Inl (ReconciliationError m)"

definition value_is :: "pyobj \<Rightarrow> string \<Rightarrow> pyval \<Rightarrow> bool" where
  "value_is r k v \<longleftrightarrow> py_eq (dget r k) v"

text \<open>The desired attributes that a resource does not have yet.\<close>

definition differing :: "pyobj \<Rightarrow> pyobj \<Rightarrow> pyobj" where
  "differing resource desired = filter (\<lambda>(k, v). \<not> value_is resource k v) desired"

definition bool_field :: "pyobj \<Rightarrow> string \<Rightarrow> bool" where
  "bool_field r k = (dget r k = PyBool True)"

definition nat_field :: "pyobj \<Rightarrow> string \<Rightarrow> nat" where
  "nat_field r k = (case dget r k of PyInt i \<Rightarrow> nat i | _ \<Rightarrow> 0)"

section \<open>The writes of a run\<close>

text \<open>\<open>wrote n\<close>: the log grew by calls of which exactly \<open>n\<close> are writes.\<close>

definition wrote :: "nat \<Rightarrow> 's api_world \<Rightarrow> 's api_world \<Rightarrow> bool" where
  "wrote n w w' \<longleftrightarrow> (\<exists>ts. ap_log w' = ap_log w @ ts \<and> length (filter is_write ts) = n)"

lemma wrote_refl [simp]: "wrote 0 w w"
  by (simp add: wrote_def)

lemma wrote_trans: "wrote m u v \<Longrightarrow> wrote n v w \<Longrightarrow> wrote (m + n) u w"
  unfolding wrote_def by auto

interpretation quiet: effect_frame "wrote 0"
  by unfold_locales (use wrote_trans [of 0 _ _ 0] in auto)

lemma fetch_quiet: "keeps (wrote 0) (fetch m f)"
  by (simp add: keeps_def fetch_def api_call_def wrote_def split: prod.splits)

lemma fetch_run: "fetch m f w = (r, w') \<Longrightarrow> wrote 0 w w'"
  by (rule keepsD [OF fetch_quiet])

lemma put_run: "put_call m args f w = (r, w') \<Longrightarrow> wrote 1 w w'"
  by (auto simp: put_call_def api_call_def wrote_def split: prod.splits)

lemma write_unless_run: "write_unless c m args f old w = (r, w') \<Longrightarrow> wrote (if c then 0 else 1) w w'"
  by (auto simp: write_unless_def return_run dest: put_run split: if_splits)

section \<open>Counting the writes of a computation\<close>

text \<open>
  \<open>counts check P m\<close>: \<open>m\<close> writes nothing in check mode, and when it returns \<open>a\<close> after \<open>k\<close>
  writes then \<open>P a k\<close>.
\<close>

definition counts :: "bool \<Rightarrow> ('a \<Rightarrow> nat \<Rightarrow> bool) \<Rightarrow> ('s, 'a) api \<Rightarrow> bool" where
  "counts check P m \<longleftrightarrow>
     (\<forall>w r w'. m w = (r, w') \<longrightarrow> (\<exists>k. wrote k w w' \<and> (check \<longrightarrow> k = 0) \<and> (\<forall>a. r = Inr a \<longrightarrow> P a k)))"

lemma countsD:
  assumes "counts check P m" and "m w = (r, w')"
  obtains k where "wrote k w w'" "check \<longrightarrow> k = 0" "\<forall>a. r = Inr a \<longrightarrow> P a k"
proof -
  have "\<exists>k. wrote k w w' \<and> (check \<longrightarrow> k = 0) \<and> (\<forall>a. r = Inr a \<longrightarrow> P a k)"
    using assms(1) [unfolded counts_def, rule_format, OF assms(2)] .
  then show thesis using that by (elim exE conjE)
qed

lemma counts_bnd:
  assumes "counts check P m" and "\<And>a. counts check (\<lambda>b k. \<forall>j. (check \<longrightarrow> j = 0) \<longrightarrow> P a j \<longrightarrow> Q b (j + k)) (f a)"
  shows "counts check Q (bnd m f)"
  unfolding counts_def
proof (intro allI impI)
  fix w r w' assume run: "bnd m f w = (r, w')"
  obtain rm w1 where m: "m w = (rm, w1)" by fastforce
  obtain j where j: "wrote j w w1" "check \<longrightarrow> j = 0" "\<forall>a. rm = Inr a \<longrightarrow> P a j"
    by (rule countsD [OF assms(1) m])
  show "\<exists>k. wrote k w w' \<and> (check \<longrightarrow> k = 0) \<and> (\<forall>a. r = Inr a \<longrightarrow> Q a k)"
  proof (cases rm)
    case (Inl e)
    then show ?thesis using run m j by (auto simp: bnd_run)
  next
    case (Inr a)
    then have "f a w1 = (r, w')" using run m by (simp add: bnd_run)
    then obtain k where k: "wrote k w1 w'" "check \<longrightarrow> k = 0"
      "\<forall>b. r = Inr b \<longrightarrow> (\<forall>j. (check \<longrightarrow> j = 0) \<longrightarrow> P a j \<longrightarrow> Q b (j + k))"
      by (rule countsD [OF assms(2)])
    then show ?thesis using wrote_trans [OF j(1) k(1)] j(2,3) Inr
      by (intro exI [of _ "j + k"]) auto
  qed
qed

lemma counts_mono: "counts check P m \<Longrightarrow> (\<And>a k. (check \<longrightarrow> k = 0) \<Longrightarrow> P a k \<Longrightarrow> Q a k) \<Longrightarrow> counts check Q m"
  unfolding counts_def by meson

lemma counts_return: "P a 0 \<Longrightarrow> counts check P (return_io a)"
  unfolding counts_def by (auto simp: return_run intro: exI [of _ 0])

lemma counts_raise: "counts check P (raise_io e)"
  unfolding counts_def by (auto simp: raise_run intro: exI [of _ 0])

lemma counts_lift: "counts check (\<lambda>a k. r = Inr a \<and> k = 0) (lift_sum r)"
  unfolding lift_sum_def by (cases r) (auto intro: counts_return counts_raise)

lemma counts_fetch: "counts check (\<lambda>a k. k = 0) (fetch m f)"
  unfolding counts_def using fetch_run by blast

lemma counts_put: "counts False (\<lambda>a k. k = 1) (put_call m args f)"
  unfolding counts_def using put_run by blast

lemma counts_unless: "counts check (\<lambda>a k. k = (if check then 0 else 1)) (write_unless check m args f old)"
  unfolding counts_def
  by (intro allI impI, drule write_unless_run) (auto intro: exI [of _ "if check then 0 else 1"])

lemma counts_unless_skip:
  "counts check (\<lambda>a k. k = (if skip \<or> check then 0 else 1))
     (if skip then return_io old else write_unless check m args f old)"
  using counts_unless [of check m args f old] by (cases skip) (simp_all add: counts_return)

end
