(* ===== verification/IronicNode.thy ===== *)
theory IronicNode
  imports Reconcile
begin

text \<open>
  The module powerops_ironic_node
  (\<open>ansible/roles/powerops/library/powerops_ironic_node.py\<close>): the normalisation of a node, the
  redaction of its secrets, and the reconciliation of the node and its ports.  The text of an
  exception that is not the module's own is the parameter \<open>T\<close>.
\<close>

section \<open>Secrets\<close>

fun occurs :: "string \<Rightarrow> string \<Rightarrow> bool" where
  "occurs s [] = (s = [])"
| "occurs s (c # cs) = (prefix s (c # cs) \<or> occurs s cs)"

text \<open>\<open>t.replace(old, new)\<close> for a pattern that is not empty.\<close>

function py_replace :: "string \<Rightarrow> string \<Rightarrow> string \<Rightarrow> string" where
  "py_replace old new [] = []"
| "py_replace old new (c # cs) =
     (if old \<noteq> [] \<and> prefix old (c # cs) then new @ py_replace old new (drop (length old) (c # cs))
      else c # py_replace old new cs)"
  by pat_completeness auto
termination by (relation "measure (\<lambda>(old, new, t). length t)") auto

definition secret_values :: "pyval \<Rightarrow> string list" where
  "secret_values spec =
     (case spec of
        PyDict d \<Rightarrow>
          (case dget d ''driver_info'' of
             PyDict info \<Rightarrow>
               map (\<lambda>(k, v). py_str v) (filter (\<lambda>(k, v). occurs ''password'' (py_lower k) \<and> truthy v) info)
           | _ \<Rightarrow> [])
      | _ \<Rightarrow> [])"

definition redact :: "string \<Rightarrow> string list \<Rightarrow> string" where
  "redact message secrets = fold (\<lambda>secret m. py_replace secret ''***'' m) secrets message"

section \<open>The specification\<close>

definition required_driver_info :: "string \<Rightarrow> string list option" where
  "required_driver_info driver =
     (if driver = ''redfish''
      then Some [''redfish_address'', ''redfish_system_id'', ''redfish_username'', ''redfish_password'']
      else if driver = ''ipmi'' then Some [''ipmi_address'', ''ipmi_username'', ''ipmi_password'']
      else None)"

definition is_hex :: "char \<Rightarrow> bool" where
  "is_hex c \<longleftrightarrow> is_digit c \<or> lower_char c \<in> set ''abcdef''"

text \<open>\<open>MAC.match\<close>; the \<open>$\<close> of the pattern also matches before a final newline.\<close>

definition is_mac :: "string \<Rightarrow> bool" where
  "is_mac s =
     (let parts = py_split (CHR '':'') (if s \<noteq> [] \<and> last s = CHR 0x0A then butlast s else s)
      in length parts = 6 \<and> list_all (\<lambda>q. length q = 2 \<and> list_all is_hex q) parts)"

type_synonym port_spec = "string \<times> pyval"

record node_spec =
  nd_name :: string
  nd_nova_hostname :: string
  nd_driver :: string
  nd_driver_info :: pyobj
  nd_ports :: "port_spec list"

fun normalize_ports :: "string list \<Rightarrow> pyval list \<Rightarrow> pyexn + port_spec list" where
  "normalize_ports seen [] = Inr []"
| "normalize_ports seen (raw # rest) =
     (case raw of
        PyDict d \<Rightarrow>
          (let address = py_lower (str_or (dget d ''address'') [])
           in if \<not> is_mac address then reconciliation_error (''invalid port MAC: '' @ address)
              else if address \<in> set seen then reconciliation_error (''duplicate desired port MAC: '' @ address)
              else (case normalize_ports (address # seen) rest of
                      Inl e \<Rightarrow> Inl e
                    | Inr ports \<Rightarrow> Inr ((address, dget d ''physical_network'') # ports)))
      | _ \<Rightarrow> reconciliation_error ''every port must be a mapping'')"

definition normalize_spec :: "pyval \<Rightarrow> pyexn + node_spec" where
  "normalize_spec spec =
     (case spec of
        PyDict d \<Rightarrow>
          (let name = py_strip (str_or (dget d ''name'') []);
               nova_hostname = py_strip (str_or (dget d ''nova_hostname'') []);
               driver = py_lower (py_strip (str_or (dget d ''driver'') []))
           in if name = [] \<or> nova_hostname = [] then reconciliation_error ''name and nova_hostname are required''
              else case required_driver_info driver of
                None \<Rightarrow> reconciliation_error ''driver must be redfish or ipmi''
              | Some keys \<Rightarrow>
                  (if dget d ''network_interface'' \<noteq> PyStr ''noop''
                   then reconciliation_error ''network_interface must be noop''
                   else if dget d ''desired_provision_state'' \<noteq> PyStr ''manageable''
                   then reconciliation_error ''desired_provision_state must be manageable''
                   else case (if truthy (dget d ''driver_info'') then dget d ''driver_info'' else PyDict []) of
                     PyDict info \<Rightarrow>
                       (case find (\<lambda>k. \<not> truthy (dget info k)) keys of
                          Some k \<Rightarrow> reconciliation_error (''missing driver_info.'' @ k)
                        | None \<Rightarrow>
                            (case py_iter (dget d ''ports'') of Inl e \<Rightarrow> Inl e | Inr raws \<Rightarrow>
                            (case normalize_ports [] raws of Inl e \<Rightarrow> Inl e | Inr ports \<Rightarrow>
                               Inr \<lparr>nd_name = name, nd_nova_hostname = nova_hostname, nd_driver = driver,
                                    nd_driver_info = info, nd_ports = ports\<rparr>)))
                   | _ \<Rightarrow> Inl AttributeError))
      | _ \<Rightarrow> reconciliation_error ''node specification must be a mapping'')"

section \<open>The API and the ports\<close>

record 's ironic =
  ir_nodes :: "('s, pyobj list) acall"
  ir_create_node :: "pyobj \<Rightarrow> ('s, pyobj) acall"
  ir_update_node :: "pyobj \<Rightarrow> pyobj \<Rightarrow> ('s, pyobj) acall"
  ir_provision :: "pyobj \<Rightarrow> string \<Rightarrow> int \<Rightarrow> ('s, pyobj) acall"
  ir_get_node :: "pyobj \<Rightarrow> ('s, pyobj) acall"
  ir_ports :: "('s, pyobj list) acall"
  ir_create_port :: "pyobj \<Rightarrow> ('s, unit) acall"
  ir_update_port :: "pyobj \<Rightarrow> pyobj \<Rightarrow> ('s, unit) acall"

definition port_address :: "pyobj \<Rightarrow> string" where
  "port_address port = py_lower (py_str (case map_of port ''address'' of None \<Rightarrow> PyStr [] | Some v \<Rightarrow> v))"

text \<open>The port with the address, if it is the only one and belongs to the node.\<close>

definition owned_port :: "pyobj list \<Rightarrow> pyval \<Rightarrow> string \<Rightarrow> pyexn + pyobj option" where
  "owned_port all_ports node_id address =
     (case filter (\<lambda>port. port_address port = address) all_ports of
        [] \<Rightarrow> Inr None
      | [port] \<Rightarrow>
          (if value_is port ''node_id'' node_id then Inr (Some port)
           else reconciliation_error (''port '' @ address @ '' belongs to another Ironic Node''))
      | _ \<Rightarrow> reconciliation_error (''expected at most one Ironic Port with MAC '' @ address))"

definition new_port :: "pyval \<Rightarrow> port_spec \<Rightarrow> pyobj" where
  "new_port node_id desired =
     [(''node_id'', node_id), (''address'', PyStr (fst desired)), (''physical_network'', snd desired)]"

fun reconcile_port_list ::
  "'s ironic \<Rightarrow> bool \<Rightarrow> pyobj list \<Rightarrow> pyval \<Rightarrow> port_spec list \<Rightarrow> nat \<Rightarrow> ('s, nat) api" where
  "reconcile_port_list C check all_ports node_id [] n = return_io n"
| "reconcile_port_list C check all_ports node_id (desired # rest) n =
     bnd (lift_sum (owned_port all_ports node_id (fst desired))) (\<lambda>found.
     case found of
       None \<Rightarrow>
         bnd (write_unless check ''create_port'' [new_port node_id desired] (ir_create_port C (new_port node_id desired)) ()) (\<lambda>_.
         reconcile_port_list C check all_ports node_id rest (n + 1))
     | Some port \<Rightarrow>
         (if value_is port ''physical_network'' (snd desired)
          then reconcile_port_list C check all_ports node_id rest n
          else
            bnd (write_unless check ''update_port'' [port, [(''physical_network'', snd desired)]]
                   (ir_update_port C port [(''physical_network'', snd desired)]) ()) (\<lambda>_.
            reconcile_port_list C check all_ports node_id rest (n + 1))))"

definition extra_ports :: "pyobj list \<Rightarrow> pyval \<Rightarrow> port_spec list \<Rightarrow> string list" where
  "extra_ports all_ports node_id desired =
     sort (map (\<lambda>port. py_lower (py_str (dget port ''address'')))
       (filter (\<lambda>port. value_is port ''node_id'' node_id \<and> port_address port \<notin> fst ` set desired) all_ports))"

definition reconcile_ports :: "'s ironic \<Rightarrow> bool \<Rightarrow> pyobj \<Rightarrow> port_spec list \<Rightarrow> ('s, nat \<times> string list) api" where
  "reconcile_ports C check node desired =
     bnd (fetch ''ports'' (ir_ports C)) (\<lambda>all_ports.
     bnd (reconcile_port_list C check all_ports (dget node ''id'') desired 0) (\<lambda>n.
     return_io (n, extra_ports all_ports (dget node ''id'') desired)))"

fun preflight :: "pyobj list \<Rightarrow> pyval \<Rightarrow> port_spec list \<Rightarrow> pyexn + unit" where
  "preflight all_ports node_id [] = Inr ()"
| "preflight all_ports node_id (desired # rest) =
     (case owned_port all_ports node_id (fst desired) of
        Inl e \<Rightarrow> Inl e | Inr _ \<Rightarrow> preflight all_ports node_id rest)"

section \<open>The node\<close>

definition driver_info_differs :: "pyobj \<Rightarrow> pyobj \<Rightarrow> bool" where
  "driver_info_differs current desired \<longleftrightarrow> list_ex (\<lambda>(k, v). \<not> value_is current k v) desired"

text \<open>\<open>_value(node, k, {}) or {}\<close>; the API answers an object or null.\<close>

definition dict_field :: "pyobj \<Rightarrow> string \<Rightarrow> pyobj" where
  "dict_field r k = (case dget r k of PyDict d \<Rightarrow> d | _ \<Rightarrow> [])"

definition node_updates :: "node_spec \<Rightarrow> pyobj \<Rightarrow> pyobj" where
  "node_updates spec node =
     (let info = dict_field node ''driver_info''; extra = dict_field node ''extra''
      in (if value_is node ''driver'' (PyStr (nd_driver spec)) then [] else [(''driver'', PyStr (nd_driver spec))])
         @ (if value_is node ''network_interface'' (PyStr ''noop'') then [] else [(''network_interface'', PyStr ''noop'')])
         @ (if driver_info_differs info (nd_driver_info spec)
            then [(''driver_info'', PyDict (dict_update info (nd_driver_info spec)))] else [])
         @ (if value_is extra ''nova_hostname'' (PyStr (nd_nova_hostname spec)) then []
            else [(''extra'', PyDict (AList.update ''nova_hostname'' (PyStr (nd_nova_hostname spec)) extra))]))"

definition new_node :: "node_spec \<Rightarrow> pyobj" where
  "new_node spec =
     [(''name'', PyStr (nd_name spec)), (''driver'', PyStr (nd_driver spec)),
      (''driver_info'', PyDict (nd_driver_info spec)), (''network_interface'', PyStr ''noop''),
      (''extra'', PyDict [(''nova_hostname'', PyStr (nd_nova_hostname spec))])]"

definition node_result :: "bool \<Rightarrow> node_spec \<Rightarrow> pyval \<Rightarrow> pyval \<Rightarrow> nat \<Rightarrow> string list \<Rightarrow> pyobj" where
  "node_result changed spec uuid state n extra =
     [(''changed'', PyBool changed), (''node'', PyStr (nd_name spec)), (''node_uuid'', uuid),
      (''provision_state'', state), (''ports_changed'', PyInt (int n)), (''extra_ports'', PyList (map PyStr extra))]"

definition state_allowed :: "pyobj \<Rightarrow> bool" where
  "state_allowed node \<longleftrightarrow> dget node ''provision_state'' \<in> {PyStr ''enroll'', PyStr ''manageable''}"

text \<open>From the node on: its state, its fields, the transition to manageable, and its ports.\<close>

definition manage_node :: "'s ironic \<Rightarrow> bool \<Rightarrow> int \<Rightarrow> pyobj \<Rightarrow> ('s, pyobj) api" where
  "manage_node C check timeout node =
     (if check then return_io node
      else
        bnd (put_call ''set_node_provision_state'' [node, [(''target'', PyStr ''manage'')]]
               (ir_provision C node ''manage'' timeout)) (\<lambda>node.
        fetch ''get_node'' (ir_get_node C node)))"

definition reconcile_existing_node ::
  "'s ironic \<Rightarrow> bool \<Rightarrow> int \<Rightarrow> node_spec \<Rightarrow> bool \<Rightarrow> pyobj \<Rightarrow> ('s, pyobj) api" where
  "reconcile_existing_node C check timeout spec created node =
     (if \<not> state_allowed node
      then raise_io (ReconciliationError (''Ironic Node '' @ nd_name spec @ '' is in forbidden provision state ''
             @ py_str (dget node ''provision_state'')))
      else
        let updates = node_updates spec node; enrolled = (dget node ''provision_state'' = PyStr ''enroll'')
        in bnd (if updates = [] then return_io node
                else write_unless check ''update_node'' [node, updates] (ir_update_node C node updates) node) (\<lambda>node.
           bnd (if enrolled then manage_node C check timeout node else return_io node) (\<lambda>node.
           bnd (reconcile_ports C check node (nd_ports spec)) (\<lambda>(n, extra).
           return_io (node_result (created \<or> updates \<noteq> [] \<or> enrolled \<or> n > 0) spec (dget node ''id'')
             (dget node ''provision_state'') n extra)))))"

definition after_preflight ::
  "'s ironic \<Rightarrow> node_spec \<Rightarrow> bool \<Rightarrow> int \<Rightarrow> pyobj list \<Rightarrow> ('s, pyobj) api" where
  "after_preflight C spec check timeout found =
     (if found = [] \<and> check
      then return_io (node_result True spec PyNone (PyStr ''absent'') (length (nd_ports spec)) [])
      else if found = []
      then bnd (put_call ''create_node'' [new_node spec] (ir_create_node C (new_node spec)))
             (reconcile_existing_node C check timeout spec True)
      else reconcile_existing_node C check timeout spec False (hd found))"

definition reconcile_node_core ::
  "'s ironic \<Rightarrow> node_spec \<Rightarrow> bool \<Rightarrow> int \<Rightarrow> ('s, pyobj) api" where
  "reconcile_node_core C spec check timeout =
     bnd (fetch ''nodes'' (ir_nodes C)) (\<lambda>nodes.
     let found = filter (\<lambda>node. value_is node ''name'' (PyStr (nd_name spec))) nodes
     in if length found > 1
        then raise_io (ReconciliationError (''expected exactly one Ironic Node named '' @ nd_name spec))
        else
          bnd (fetch ''ports'' (ir_ports C)) (\<lambda>all_ports.
          bnd (lift_sum (preflight all_ports (if found = [] then PyNone else dget (hd found) ''id'') (nd_ports spec))) (\<lambda>_.
          after_preflight C spec check timeout found)))"

definition exn_text :: "(pyexn \<Rightarrow> string) \<Rightarrow> pyexn \<Rightarrow> string" where
  "exn_text T e = (case e of ReconciliationError m \<Rightarrow> m | _ \<Rightarrow> T e)"

definition reconcile_node ::
  "(pyexn \<Rightarrow> string) \<Rightarrow> 's ironic \<Rightarrow> pyval \<Rightarrow> bool \<Rightarrow> int \<Rightarrow> ('s, pyobj) api" where
  "reconcile_node T C raw_spec check timeout =
     catch_io
       (bnd (lift_sum (normalize_spec raw_spec)) (\<lambda>spec. reconcile_node_core C spec check timeout))
       (\<lambda>_. True)
       (\<lambda>e. let message = redact (exn_text T e) (secret_values raw_spec)
            in if e = ReconciliationError message then raise_io e else raise_io (ReconciliationError message))"

text \<open>\<open>main\<close>: connecting, which may fail, is inside the guard.\<close>

definition node_main ::
  "(pyexn \<Rightarrow> string) \<Rightarrow> pyexn + 's ironic \<Rightarrow> pyval \<Rightarrow> bool \<Rightarrow> int \<Rightarrow> ('s, pyobj) api" where
  "node_main T connected raw_spec check timeout =
     catch_io (bnd (lift_sum connected) (\<lambda>C. reconcile_node T C raw_spec check timeout)) (\<lambda>_. True)
       (\<lambda>e. raise_io (FailJson (redact (exn_text T e) (secret_values raw_spec))))"

section \<open>Redaction\<close>

lemma replaced_prefix:
  "CHR ''*'' \<notin> set p \<Longrightarrow> prefix p (py_replace s ''***'' t) \<Longrightarrow> prefix p t"
proof (induction s "''***''" t arbitrary: p rule: py_replace.induct)
  case (2 s c cs)
  show ?case
  proof (cases p)
    case (Cons x xs)
    then show ?thesis using 2 by (auto split: if_splits)
  qed simp
qed simp

lemma occurs_append: "occurs s t \<Longrightarrow> occurs s (u @ t)"
  by (induction u) auto

lemma occurs_drop: "occurs s (drop n t) \<Longrightarrow> occurs s t"
  using occurs_append [of s "drop n t" "take n t"] by simp

text \<open>A replacement brings in no new occurrence of a word without stars.\<close>

lemma occurs_replaced:
  assumes "CHR ''*'' \<notin> set p" and "p \<noteq> []"
  shows "occurs p (py_replace s ''***'' t) \<Longrightarrow> occurs p t"
proof (induction s "''***''" t rule: py_replace.induct)
  case (2 s c cs)
  have star: "\<not> prefix p (CHR ''*'' # u)" for u using assms by (cases p) auto
  show ?case
  proof (cases "s \<noteq> [] \<and> prefix s (c # cs)")
    case True
    then have "occurs p (py_replace s ''***'' (drop (length s) (c # cs)))"
      using 2(3) star by auto
    then show ?thesis using 2(1) True occurs_drop by blast
  next
    case False
    then have "prefix p (c # py_replace s ''***'' cs) \<or> occurs p (py_replace s ''***'' cs)"
      using 2(3) by auto
    then show ?thesis
    proof
      assume a: "prefix p (c # py_replace s ''***'' cs)"
      have "c # py_replace s ''***'' cs = py_replace s ''***'' (c # cs)" using False by auto
      with a have "prefix p (c # cs)" using replaced_prefix [OF assms(1), of s "c # cs"] by simp
      then show ?thesis by simp
    next
      assume "occurs p (py_replace s ''***'' cs)"
      then show ?thesis using 2(2) False by auto
    qed
  qed
qed simp

lemma replaced_hidden:
  "CHR ''*'' \<notin> set s \<Longrightarrow> s \<noteq> [] \<Longrightarrow> \<not> occurs s (py_replace s ''***'' t)"
proof (induction s "''***''" t rule: py_replace.induct)
  case (2 s c cs)
  have star: "\<not> prefix s (CHR ''*'' # u)" for u using 2(3,4) by (cases s) auto
  show ?case
  proof (cases "prefix s (c # cs)")
    case True
    then show ?thesis using 2 star by auto
  next
    case False
    have "\<not> prefix s (c # py_replace s ''***'' cs)"
      using replaced_prefix [OF 2(3), of s "c # cs"] False by auto
    then show ?thesis using 2 False by auto
  qed
qed simp

lemma redact_keeps_hidden:
  assumes "CHR ''*'' \<notin> set s" and "s \<noteq> []" and "\<not> occurs s m"
  shows "\<not> occurs s (redact m secrets)"
  using assms(3) unfolding redact_def
  by (induction secrets arbitrary: m) (auto dest: occurs_replaced [OF assms(1,2)])

lemma redact_hides:
  assumes "CHR ''*'' \<notin> set s" and "s \<noteq> []" and "s \<in> set secrets"
  shows "\<not> occurs s (redact m secrets)"
  using assms(3)
proof (induction secrets arbitrary: m)
  case (Cons r secrets)
  show ?case
  proof (cases "s \<in> set secrets")
    case True
    then show ?thesis using Cons.IH by (simp add: redact_def)
  next
    case False
    then have "\<not> occurs s (py_replace r ''***'' m)" using Cons.prems replaced_hidden [OF assms(1,2)] by simp
    then show ?thesis using redact_keeps_hidden [OF assms(1,2), of "py_replace r ''***'' m" secrets]
      by (simp add: redact_def)
  qed
qed simp

text \<open>
  C28. Configured secrets do not leak.  Whatever goes wrong in connecting or in the
  reconciliation, in the specification, the API or the library, the module fails with a message in which none of the
  configured passwords occurs, provided the password has no star in it (the mask is made of
  stars).
\<close>

theorem failure_hides_secrets:
  assumes "node_main T connected raw check timeout w = (Inl e, w')"
    and "s \<in> set (secret_values raw)" and "s \<noteq> []" and "CHR ''*'' \<notin> set s"
  shows "\<exists>m. e = FailJson m \<and> \<not> occurs s m"
  using assms(1) redact_hides [OF assms(4,3,2)]
  by (auto simp: node_main_def catch_io_def raise_run split: prod.splits sum.splits)

definition demo_node_spec :: pyval where
  "demo_node_spec = PyDict [(''name'', PyStr ''n1''), (''nova_hostname'', PyStr ''c1''), (''driver'', PyStr ''ipmi''),
     (''network_interface'', PyStr ''noop''), (''desired_provision_state'', PyStr ''manageable''),
     (''driver_info'', PyDict [(''ipmi_address'', PyStr ''10.0.0.1''), (''ipmi_username'', PyStr ''admin''),
        (''ipmi_password'', PyStr ''hunter2'')]),
     (''ports'', PyList [PyDict [(''address'', PyStr ''AA:bb:cc:dd:ee:ff'')]])]"

text \<open>An Ironic with the given nodes and ports that keeps no state.\<close>

definition demo_ironic :: "pyobj list \<Rightarrow> pyobj list \<Rightarrow> unit ironic" where
  "demo_ironic nodes ports =
    \<lparr>ir_nodes = (\<lambda>s. (Inr nodes, s)), ir_create_node = (\<lambda>a s. (Inl (OtherError ''bad password hunter2''), s)),
     ir_update_node = (\<lambda>n u s. (Inr n, s)), ir_provision = (\<lambda>n t m s. (Inr n, s)), ir_get_node = (\<lambda>n s. (Inr n, s)),
     ir_ports = (\<lambda>s. (Inr ports, s)), ir_create_port = (\<lambda>a s. (Inr (), s)), ir_update_port = (\<lambda>q u s. (Inr (), s))\<rparr>"

definition show_other :: "pyexn \<Rightarrow> string" where
  "show_other e = (case e of OtherError m \<Rightarrow> m | _ \<Rightarrow> [])"

theorem failure_hides_secrets_witness:
  "\<exists>m. fst (node_main show_other (Inr (demo_ironic [] [])) demo_node_spec False 300 \<lparr>ap_state = (), ap_log = []\<rparr>)
     = Inl (FailJson m) \<and> \<not> occurs ''hunter2'' m"
proof -
  let ?w = "\<lparr>ap_state = (), ap_log = []\<rparr>"
  let ?run = "node_main show_other (Inr (demo_ironic [] [])) demo_node_spec False 300 ?w"
  have "isl (fst ?run)" by code_simp
  then obtain e where "?run = (Inl e, snd ?run)" by (metis isl_def prod.collapse)
  moreover have "''hunter2'' \<in> set (secret_values demo_node_spec)" by code_simp
  moreover have "''hunter2'' \<noteq> []" "CHR ''*'' \<notin> set ''hunter2''" by simp_all
  ultimately obtain m where "e = FailJson m" "\<not> occurs ''hunter2'' m"
    using failure_hides_secrets by blast
  with \<open>?run = (Inl e, snd ?run)\<close> show ?thesis by (metis fst_conv)
qed

section \<open>What is reported is what was written\<close>

lemma reconcile_port_list_counts:
  "counts check (\<lambda>k m. n \<le> k \<and> (\<not> check \<longrightarrow> m = k - n)) (reconcile_port_list C check all_ports node_id desired n)"
proof (induction desired arbitrary: n)
  case Nil
  show ?case by (simp add: counts_return)
next
  case (Cons d desired)
  have step: "counts check (\<lambda>k m. n \<le> k \<and> (\<not> check \<longrightarrow> m = k - n))
      (bnd (write_unless check m args f ()) (\<lambda>_. reconcile_port_list C check all_ports node_id desired (Suc n)))"
    for m args f
    by (rule counts_bnd, rule counts_unless, rule counts_mono, rule Cons.IH [of "Suc n"]) auto
  show ?case
    unfolding reconcile_port_list.simps
    by (rule counts_bnd, rule counts_lift)
      (auto intro!: counts_mono [OF step] counts_mono [OF Cons.IH] split: option.split)
qed

lemma reconcile_ports_counts:
  "counts check (\<lambda>a m. \<not> check \<longrightarrow> m = fst a) (reconcile_ports C check node desired)"
  unfolding reconcile_ports_def
  by (rule counts_bnd, rule counts_fetch, rule counts_bnd, rule reconcile_port_list_counts, rule counts_return) auto

lemma manage_node_counts:
  "counts check (\<lambda>a m. m = (if check then 0 else 1)) (manage_node C check timeout node)"
  unfolding manage_node_def
  by (cases check) (auto intro!: counts_return counts_bnd [OF counts_put] counts_mono [OF counts_fetch])

lemma manage_if_counts:
  "counts check (\<lambda>a m. m = (if enrolled \<and> \<not> check then 1 else 0))
     (if enrolled then manage_node C check timeout node else return_io node)"
  using manage_node_counts [of check C timeout node] by (cases enrolled; cases check) (simp_all add: counts_return)

lemma reconcile_existing_node_counts:
  "counts check (\<lambda>a m. \<not> check \<longrightarrow> (bool_field a ''changed'' \<longleftrightarrow> created \<or> m > 0))
     (reconcile_existing_node C check timeout spec created node)"
proof (cases "state_allowed node")
  case True
  have "counts check (\<lambda>a m. \<not> check \<longrightarrow> (bool_field a ''changed'' \<longleftrightarrow> created \<or> m > 0))
     (let updates = node_updates spec node; enrolled = (dget node ''provision_state'' = PyStr ''enroll'')
        in bnd (if updates = [] then return_io node
                else write_unless check ''update_node'' [node, updates] (ir_update_node C node updates) node) (\<lambda>node.
           bnd (if enrolled then manage_node C check timeout node else return_io node) (\<lambda>node.
           bnd (reconcile_ports C check node (nd_ports spec)) (\<lambda>(n, extra).
           return_io (node_result (created \<or> updates \<noteq> [] \<or> enrolled \<or> n > 0) spec (dget node ''id'')
             (dget node ''provision_state'') n extra)))))"
    unfolding Let_def split_def
    by (rule counts_bnd, rule counts_unless_skip, rule counts_bnd, rule manage_if_counts, rule counts_bnd,
        rule reconcile_ports_counts, rule counts_return)
      (auto simp: node_result_def bool_field_def dget_def)
  with True show ?thesis by (simp add: reconcile_existing_node_def)
qed (simp add: reconcile_existing_node_def counts_raise)

lemma after_preflight_counts:
  "counts check (\<lambda>a m. \<not> check \<longrightarrow> (bool_field a ''changed'' \<longleftrightarrow> m > 0)) (after_preflight C spec check timeout found)"
proof (cases check)
  case True
  then show ?thesis
    by (auto simp: after_preflight_def intro!: counts_return counts_mono [OF reconcile_existing_node_counts])
next
  case False
  have "counts False (\<lambda>a m. (bool_field a ''changed'' \<longleftrightarrow> m > 0))
      (bnd (put_call ''create_node'' [new_node spec] (ir_create_node C (new_node spec)))
        (reconcile_existing_node C False timeout spec True))"
    by (rule counts_bnd, rule counts_put, rule counts_mono, rule reconcile_existing_node_counts) auto
  with False show ?thesis
    by (auto simp: after_preflight_def intro!: counts_mono [OF reconcile_existing_node_counts])
qed

lemma forbidden_state_quiet:
  "found \<noteq> [] \<Longrightarrow> \<not> state_allowed (hd found) \<Longrightarrow> after_preflight C spec check timeout found w = (r, w') \<Longrightarrow>
   w' = w \<and> (\<exists>e. r = Inl e)"
  by (auto simp: after_preflight_def reconcile_existing_node_def raise_run)

text \<open>
  What must have been seen before anything is written: at most one node of the name, in a
  permitted provision state, and no declared port that belongs to another node.
\<close>

definition ports_free :: "pyobj list \<Rightarrow> pyval \<Rightarrow> port_spec list \<Rightarrow> bool" where
  "ports_free all_ports node_id desired \<longleftrightarrow>
     (\<forall>d \<in> set desired. length (filter (\<lambda>port. port_address port = fst d) all_ports) \<le> 1 \<and>
        (\<forall>port \<in> set all_ports. port_address port = fst d \<longrightarrow> value_is port ''node_id'' node_id))"

lemma owned_port_free:
  "(\<exists>found. owned_port all_ports node_id address = Inr found) \<longleftrightarrow>
     length (filter (\<lambda>port. port_address port = address) all_ports) \<le> 1 \<and>
     (\<forall>port \<in> set all_ports. port_address port = address \<longrightarrow> value_is port ''node_id'' node_id)"
proof -
  define f where "f = filter (\<lambda>port. port_address port = address) all_ports"
  have "(\<forall>port \<in> set all_ports. port_address port = address \<longrightarrow> value_is port ''node_id'' node_id) \<longleftrightarrow>
      (\<forall>port \<in> set f. value_is port ''node_id'' node_id)" by (auto simp: f_def)
  moreover have "(\<exists>found. owned_port all_ports node_id address = Inr found) \<longleftrightarrow>
      length f \<le> 1 \<and> (\<forall>port \<in> set f. value_is port ''node_id'' node_id)"
    unfolding owned_port_def reconciliation_error_def f_def [symmetric]
    by (cases f rule: list.exhaust; cases "tl f") auto
  ultimately show ?thesis by (simp add: f_def)
qed

lemma preflight_free: "preflight all_ports node_id desired = Inr () \<longleftrightarrow> ports_free all_ports node_id desired"
proof (induction desired)
  case (Cons d desired)
  then show ?case using owned_port_free [of all_ports node_id "fst d"]
    by (auto simp: ports_free_def split: sum.splits)
qed (simp add: ports_free_def)

definition cleared :: "'s ironic \<Rightarrow> node_spec \<Rightarrow> 's \<Rightarrow> bool" where
  "cleared C spec s \<longleftrightarrow>
     (\<exists>nodes s1 all_ports s2. ir_nodes C s = (Inr nodes, s1) \<and> ir_ports C s1 = (Inr all_ports, s2) \<and>
        (case filter (\<lambda>node. value_is node ''name'' (PyStr (nd_name spec))) nodes of
           [] \<Rightarrow> ports_free all_ports PyNone (nd_ports spec)
         | [node] \<Rightarrow> dget node ''provision_state'' \<in> {PyStr ''enroll'', PyStr ''manageable''}
             \<and> ports_free all_ports (dget node ''id'') (nd_ports spec)
         | _ \<Rightarrow> False))"

text \<open>A run of the module either ends before the clearance, or goes on with the node found.\<close>

lemma reconcile_node_core_run:
  assumes "reconcile_node_core C spec check timeout w = (r, w')"
  obtains w1 where "wrote 0 w w1" "(\<exists>e. r = Inl e) \<and> w' = w1"
  | w1 found where "wrote 0 w w1" "after_preflight C spec check timeout found w1 = (r, w')"
      "found = [] \<or> state_allowed (hd found) \<Longrightarrow> cleared C spec (ap_state w)"
proof -
  obtain rn w1 where n: "fetch ''nodes'' (ir_nodes C) w = (rn, w1)" by fastforce
  obtain rp w2 where p: "fetch ''ports'' (ir_ports C) w1 = (rp, w2)" by fastforce
  note q = fetch_run [OF n] wrote_trans [OF fetch_run [OF n] fetch_run [OF p], simplified]
  note core = reconcile_node_core_def bnd_run raise_run Let_def lift_sum_def return_run
  show thesis
  proof (cases rn)
    case (Inl e)
    with assms n show thesis by (intro that(1) [OF q(1)]) (auto simp: core)
  next
    case nodes: (Inr nodes)
    define found where "found = filter (\<lambda>node. value_is node ''name'' (PyStr (nd_name spec))) nodes"
    let ?pid = "if found = [] then PyNone else dget (hd found) ''id''"
    note run = assms [unfolded reconcile_node_core_def, simplified n nodes bnd_run prod.case sum.case Let_def,
        folded found_def]
    consider "length found > 1" | "length found \<le> 1" "\<nexists>ports. rp = Inr ports \<and> preflight ports ?pid (nd_ports spec) = Inr ()"
      | ports where "length found \<le> 1" "rp = Inr ports" "preflight ports ?pid (nd_ports spec) = Inr ()"
      by fastforce
    then show thesis
    proof cases
      case 1
      with run show thesis by (intro that(1) [OF q(1)]) (auto simp: core)
    next
      case 2
      with run p show thesis by (intro that(1) [OF q(2)]) (auto simp: core split: sum.splits if_splits)
    next
      case 3
      obtain s1 s2 where s: "ir_nodes C (ap_state w) = (Inr nodes, s1)" "ir_ports C s1 = (Inr ports, s2)"
        using n p nodes 3(2) by (auto simp: fetch_def api_call_def split: prod.splits)
      have "cleared C spec (ap_state w)" if "found = [] \<or> state_allowed (hd found)"
        using that s 3 unfolding cleared_def state_allowed_def preflight_free
        by (cases found) (auto simp: found_def [symmetric])
      moreover have "after_preflight C spec check timeout found w2 = (r, w')"
        using run p 3 by (auto simp: core split: if_splits)
      ultimately show thesis using that(2) [OF q(2)] by blast
    qed
  qed
qed

lemma reconcile_node_core_guarded:
  assumes "reconcile_node_core C spec check timeout w = (r, w')"
  shows "\<exists>m. wrote m w w' \<and> (check \<longrightarrow> m = 0) \<and> (m > 0 \<longrightarrow> cleared C spec (ap_state w)) \<and>
    (\<forall>a. r = Inr a \<longrightarrow> \<not> check \<longrightarrow> (bool_field a ''changed'' \<longleftrightarrow> m > 0))"
  using assms
proof (cases rule: reconcile_node_core_run)
  case (1 w1)
  then show ?thesis by (intro exI [of _ 0]) auto
next
  case (2 w1 found)
  show ?thesis
  proof (cases "found = [] \<or> state_allowed (hd found)")
    case True
    obtain k where "wrote k w1 w'" "check \<longrightarrow> k = 0"
      "\<forall>a. r = Inr a \<longrightarrow> \<not> check \<longrightarrow> (bool_field a ''changed'' \<longleftrightarrow> k > 0)"
      by (rule countsD [OF after_preflight_counts 2(2)])
    with wrote_trans [OF 2(1)] 2(3) True show ?thesis by fastforce
  next
    case False
    with forbidden_state_quiet [of found, OF _ _ 2(2)] 2(1) show ?thesis by (intro exI [of _ 0]) auto
  qed
qed

lemma reconcile_node_guarded:
  assumes "reconcile_node T C raw check timeout w = (r, w')"
  shows "\<exists>m. wrote m w w' \<and> (check \<longrightarrow> m = 0) \<and>
    (m > 0 \<longrightarrow> (\<exists>spec. normalize_spec raw = Inr spec \<and> cleared C spec (ap_state w))) \<and>
    (\<forall>a. r = Inr a \<longrightarrow> \<not> check \<longrightarrow> (bool_field a ''changed'' \<longleftrightarrow> m > 0))"
proof (cases "normalize_spec raw")
  case (Inl e)
  with assms have "w' = w" "\<exists>e. r = Inl e"
    by (auto simp: reconcile_node_def catch_io_def bnd_run lift_sum_def raise_run Let_def split: if_splits)
  then show ?thesis by (intro exI [of _ 0]) auto
next
  case (Inr spec)
  obtain rc wc where c: "reconcile_node_core C spec check timeout w = (rc, wc)" by fastforce
  have "w' = wc" "\<forall>a. r = Inr a \<longrightarrow> rc = Inr a"
    using assms Inr c
    by (cases rc; auto simp: reconcile_node_def catch_io_def bnd_run lift_sum_def return_run raise_run Let_def
        split: if_splits)+
  with reconcile_node_core_guarded [OF c] Inr show ?thesis by fastforce
qed

text \<open>
  C8. The node module writes nothing it has not cleared, and reports what it wrote.  Whatever
  the API answers: in check mode nothing is written; no write is made unless the specification
  is valid, at most one node has the name and it is in the state enroll or manageable, and no
  declared port belongs to another node; and on success, outside check mode, \<open>changed\<close> is
  reported exactly if something was written.
\<close>

theorem node_writes_guarded:
  assumes "reconcile_node T C raw check timeout w = (r, w')"
  shows "\<exists>m. wrote m w w' \<and> (check \<longrightarrow> m = 0) \<and>
    (m > 0 \<longrightarrow> (\<exists>spec. normalize_spec raw = Inr spec \<and> cleared C spec (ap_state w))) \<and>
    (\<forall>a. r = Inr a \<longrightarrow> \<not> check \<longrightarrow> (bool_field a ''changed'' \<longleftrightarrow> m > 0))"
  using assms by (rule reconcile_node_guarded)

definition demo_ironic_node :: "string \<Rightarrow> pyobj" where
  "demo_ironic_node state = [(''name'', PyStr ''n1''), (''id'', PyStr ''u1''), (''provision_state'', PyStr state)]"

theorem node_writes_guarded_witness:
  "let w = \<lparr>ap_state = (), ap_log = []\<rparr>;
       run = (\<lambda>state. reconcile_node show_other (demo_ironic [demo_ironic_node state] []) demo_node_spec False 300 w)
   in wrote 0 w (snd (run ''active'')) \<and> \<not> wrote 0 w (snd (run ''enroll''))"
proof -
  define w where "w = \<lparr>ap_state = (), ap_log = []\<rparr>"
  define run where "run state = reconcile_node show_other (demo_ironic [demo_ironic_node state] []) demo_node_spec False 300 w"
    for state
  have pair: "reconcile_node show_other (demo_ironic [demo_ironic_node state] []) demo_node_spec False 300 w
      = (fst (run state), snd (run state))" for state
    by (simp add: run_def)
  have "\<not> cleared (demo_ironic [demo_ironic_node ''active''] []) spec (ap_state w)" if "nd_name spec = ''n1''" for spec
    using that by (auto simp: cleared_def demo_ironic_def demo_ironic_node_def value_is_def dget_def)
  moreover have "map_sum id nd_name (normalize_spec demo_node_spec) = Inr ''n1''" by code_simp
  then obtain spec where "normalize_spec demo_node_spec = Inr spec" "nd_name spec = ''n1''"
    by (cases "normalize_spec demo_node_spec") auto
  ultimately have "wrote 0 w (snd (run ''active''))"
    using node_writes_guarded [OF pair [of "''active''"]] by auto
  moreover have "\<not> isl (fst (run ''enroll''))" "case fst (run ''enroll'') of Inr a \<Rightarrow> bool_field a ''changed'' | _ \<Rightarrow> False"
    unfolding run_def w_def by code_simp+
  then obtain a where "fst (run ''enroll'') = Inr a" "bool_field a ''changed''"
    by (cases "fst (run ''enroll'')") auto
  then have "\<not> wrote 0 w (snd (run ''enroll''))"
    using node_writes_guarded [OF pair [of "''enroll''"]] by (auto simp: wrote_def)
  ultimately show ?thesis unfolding Let_def w_def [symmetric] run_def [symmetric] by blast
qed

end
