(* ===== verification/PowerOpsConfig.thy ===== *)
theory PowerOpsConfig
  imports IronicNode
begin

text \<open>
  The validation of the deployment inputs by the PowerOps command line
  (\<open>tools/powerops_cli.py\<close>, \<open>validate_config\<close> and its helpers): the configuration, already read
  from YAML, against the inventory text.  The result is the list of violations, or the exception
  of a malformed value the code does not expect.  Sets are lists used for membership.
\<close>

section \<open>The inventory\<close>

text \<open>\<open>text.split(marker, 1)[1]\<close> for a marker that occurs.\<close>

fun after_first :: "string \<Rightarrow> string \<Rightarrow> string option" where
  "after_first m [] = (if m = [] then Some [] else None)"
| "after_first m (c # cs) = (if prefix m (c # cs) then Some (drop (length m) (c # cs)) else after_first m cs)"

definition inventory_section :: "string \<Rightarrow> string \<Rightarrow> string option" where
  "inventory_section inventory_text name =
     map_option (takeWhile (\<lambda>c. c \<noteq> CHR ''['')) (after_first (CHR ''['' # name @ '']'') inventory_text)"

text \<open>
  \<open>splitlines\<close>.  A CR LF pair is one line end in Python and two here: the empty line between them
  is one of those that \<open>compute_hosts\<close> leaves out.
\<close>

definition is_linebreak :: "char \<Rightarrow> bool" where
  "is_linebreak c \<longleftrightarrow> (of_char c :: nat) \<in> {10, 11, 12, 13, 28, 29, 30}"

fun py_lines :: "string \<Rightarrow> string list" where
  "py_lines [] = []"
| "py_lines (c # cs) =
     (if is_linebreak c then [] # py_lines cs
      else case py_lines cs of [] \<Rightarrow> [[c]] | l # ls \<Rightarrow> (c # l) # ls)"

definition lstrip :: "string \<Rightarrow> string" where
  "lstrip s = dropWhile is_space s"

definition first_word :: "string \<Rightarrow> string" where
  "first_word line = takeWhile (\<lambda>c. \<not> is_space c) (lstrip line)"

definition compute_hosts :: "string \<Rightarrow> string list option" where
  "compute_hosts inventory_text =
     map_option (\<lambda>section. map first_word
         (filter (\<lambda>line. py_strip line \<noteq> [] \<and> \<not> prefix ''#'' (lstrip line)) (py_lines section)))
       (inventory_section inventory_text ''compute'')"

section \<open>The configuration\<close>

text \<open>\<open>load_config\<close>, from the value YAML gives.\<close>

definition config_root :: "pyval \<Rightarrow> pyexn + pyobj" where
  "config_root data =
     (if \<not> truthy data then Inr [] else case data of PyDict d \<Rightarrow> Inr d | _ \<Rightarrow> Inl ValueError)"

definition REQUIRED_SERVICES :: "string list" where
  "REQUIRED_SERVICES = [''enable_ironic'', ''enable_masakari'', ''enable_mistral'', ''enable_powerops'']"

definition hashable :: "pyval \<Rightarrow> bool" where
  "hashable v \<longleftrightarrow> (case v of PyList _ \<Rightarrow> False | PyDict _ \<Rightarrow> False | _ \<Rightarrow> True)"

definition required_driver_fields :: "pyval \<Rightarrow> pyexn + string list option" where
  "required_driver_fields driver =
     (if \<not> hashable driver then Inl TypeError
      else Inr (case driver of PyStr s \<Rightarrow> required_driver_info s | _ \<Rightarrow> None))"

text \<open>\<open>{}.format(v)\<close> and the messages.\<close>

definition about :: "string \<Rightarrow> string \<Rightarrow> string" where
  "about name m = name @ '': '' @ m"

fun check_ports :: "string \<Rightarrow> string list \<Rightarrow> pyval list \<Rightarrow> pyexn + string list \<times> string list" where
  "check_ports name macs [] = Inr (macs, [])"
| "check_ports name macs (PyDict port # rest) =
     (let mac = py_lower (str_or (dget port ''address'') []);
          errors = (if is_mac mac then [] else [about name (''invalid port MAC: '' @ mac)])
            @ (if mac \<in> set macs then [''duplicate port MAC: '' @ mac] else [])
      in case check_ports name (mac # macs) rest of
           Inl e \<Rightarrow> Inl e
         | Inr (macs', errors') \<Rightarrow> Inr (macs', errors @ errors'))"
| "check_ports name macs (_ # rest) = Inl AttributeError"

record seen_nodes =
  sn_names :: "string list"
  sn_macs :: "string list"
  sn_systems :: "(pyval \<times> pyval) list"

text \<open>\<open>info.get(key)\<close> where the code has not checked that \<open>info\<close> is a mapping.\<close>

definition info_or_empty :: "pyobj \<Rightarrow> pyval" where
  "info_or_empty node = (if truthy (dget node ''driver_info'') then dget node ''driver_info'' else PyDict [])"

definition check_driver :: "string \<Rightarrow> pyval \<Rightarrow> pyval \<Rightarrow> pyexn + string list" where
  "check_driver name driver info =
     (case required_driver_fields driver of
        Inl e \<Rightarrow> Inl e
      | Inr None \<Rightarrow> Inr [about name ''driver must be redfish or ipmi'']
      | Inr (Some keys) \<Rightarrow>
          (case info of
             PyDict d \<Rightarrow> Inr (map (\<lambda>k. about name (''missing driver_info.'' @ k)) (filter (\<lambda>k. \<not> truthy (dget d k)) keys))
           | _ \<Rightarrow> Inl AttributeError))"

definition check_system :: "(pyval \<times> pyval) list \<Rightarrow> pyval \<Rightarrow> pyval
    \<Rightarrow> pyexn + (pyval \<times> pyval) list \<times> string list" where
  "check_system systems driver info =
     (if driver \<noteq> PyStr ''redfish'' then Inr (systems, [])
      else case info of
        PyDict d \<Rightarrow>
          (let address = dget d ''redfish_address''; system_id = dget d ''redfish_system_id''
           in if \<not> hashable address \<or> \<not> hashable system_id then Inl TypeError
              else Inr ((address, system_id) # systems,
                if list_ex (\<lambda>(a, i). py_eq a address \<and> py_eq i system_id) systems
                then [''duplicate Redfish system: '' @ py_str address @ '' '' @ py_str system_id] else []))
      | _ \<Rightarrow> Inl AttributeError)"

definition check_node :: "string list \<Rightarrow> seen_nodes \<Rightarrow> pyobj \<Rightarrow> pyexn + seen_nodes \<times> string list" where
  "check_node computes seen node =
     (let name = str_or (dget node ''name'') ''<unnamed>''; hostname = dget node ''nova_hostname''
      in if \<not> hashable hostname then Inl TypeError
      else case check_driver name (dget node ''driver'') (info_or_empty node) of Inl e \<Rightarrow> Inl e | Inr driver_errors \<Rightarrow>
      (case check_system (sn_systems seen) (dget node ''driver'') (info_or_empty node) of
         Inl e \<Rightarrow> Inl e | Inr (systems, system_errors) \<Rightarrow>
      (case py_iter (dget node ''ports'') of Inl e \<Rightarrow> Inl e | Inr ports \<Rightarrow>
      (case check_ports name (sn_macs seen) ports of Inl e \<Rightarrow> Inl e | Inr (macs, port_errors) \<Rightarrow>
         Inr (\<lparr>sn_names = name # sn_names seen, sn_macs = macs, sn_systems = systems\<rparr>,
           (if name \<in> set (sn_names seen) then [''duplicate node name: '' @ name] else [])
           @ (if hostname \<in> PyStr ` set computes then [] else [about name ''nova_hostname is absent from [compute]''])
           @ (if dget node ''network_interface'' = PyStr ''noop'' then []
              else [about name ''network_interface must be noop''])
           @ (if dget node ''desired_provision_state'' = PyStr ''manageable'' then []
              else [about name ''desired_provision_state must be manageable''])
           @ driver_errors @ system_errors @ port_errors)))))"

fun check_nodes :: "string list \<Rightarrow> seen_nodes \<Rightarrow> pyval list \<Rightarrow> pyexn + string list" where
  "check_nodes computes seen [] = Inr []"
| "check_nodes computes seen (PyDict node # rest) =
     (case check_node computes seen node of
        Inl e \<Rightarrow> Inl e
      | Inr (seen', errors) \<Rightarrow>
          (case check_nodes computes seen' rest of Inl e \<Rightarrow> Inl e | Inr errors' \<Rightarrow> Inr (errors @ errors')))"
| "check_nodes computes seen (_ # rest) =
     (case check_nodes computes seen rest of
        Inl e \<Rightarrow> Inl e
      | Inr errors \<Rightarrow> Inr (''every powerops_ironic_nodes item must be a mapping'' # errors))"

definition config_nodes :: "pyobj \<Rightarrow> pyval" where
  "config_nodes data =
     (if truthy (dget data ''powerops_ironic_nodes'') then dget data ''powerops_ironic_nodes'' else PyList [])"

definition validate_config :: "pyobj \<Rightarrow> string \<Rightarrow> pyexn + string list" where
  "validate_config data inventory_text =
     (let services = map (\<lambda>k. k @ '' must be yes'') (filter (\<lambda>k. dget data k \<noteq> PyStr ''yes'') REQUIRED_SERVICES);
          section = (if compute_hosts inventory_text = None then [''inventory is missing [compute] section''] else []);
          computes = (case compute_hosts inventory_text of None \<Rightarrow> [] | Some hosts \<Rightarrow> hosts)
      in case config_nodes data of
           PyList nodes \<Rightarrow>
             (case check_nodes computes \<lparr>sn_names = [], sn_macs = [], sn_systems = []\<rparr> nodes of
                Inl e \<Rightarrow> Inl e
              | Inr errors \<Rightarrow> Inr (services @ section @ errors))
         | _ \<Rightarrow> Inr (services @ section @ [''powerops_ironic_nodes must be a list'']))"

section \<open>The inventory's hosts\<close>

lemma first_word_clean:
  assumes "py_strip line \<noteq> []"
  shows "first_word line \<noteq> []" and "list_all (\<lambda>c. \<not> is_space c) (first_word line)"
proof -
  have "dropWhile is_space line \<noteq> []"
  proof
    assume "dropWhile is_space line = []"
    then have "py_strip line = []" by (simp only: py_strip_def rev.simps dropWhile.simps)
    with assms show False ..
  qed
  then obtain c cs where c: "dropWhile is_space line = c # cs" by (cases "dropWhile is_space line") auto
  then have "\<not> is_space c" by (metis hd_dropWhile list.distinct(1) list.sel(1))
  with c show "first_word line \<noteq> []" by (simp add: first_word_def lstrip_def)
  show "list_all (\<lambda>c. \<not> is_space c) (first_word line)"
    by (auto simp: first_word_def list_all_iff dest: set_takeWhileD)
qed

lemma compute_hosts_clean:
  "compute_hosts text = Some hosts \<Longrightarrow> h \<in> set hosts \<Longrightarrow> h \<noteq> [] \<and> list_all (\<lambda>c. \<not> is_space c) h"
proof -
  assume "compute_hosts text = Some hosts" and "h \<in> set hosts"
  then obtain line where "h = first_word line" "py_strip line \<noteq> []" by (auto simp: compute_hosts_def)
  then show ?thesis by (simp add: first_word_clean)
qed

lemma strip_clean: "list_all (\<lambda>c. \<not> is_space c) s \<Longrightarrow> py_strip s = s"
proof -
  have d: "dropWhile is_space t = t" if "list_all (\<lambda>c. \<not> is_space c) t" for t
    using that by (cases t) simp_all
  assume "list_all (\<lambda>c. \<not> is_space c) s"
  then show ?thesis by (simp add: py_strip_def d list_all_iff)
qed

section \<open>Valid inputs and the module\<close>

text \<open>What a port list leaves behind when it raises no complaint.\<close>

definition macs_of :: "port_spec list \<Rightarrow> string list" where
  "macs_of ports = map fst ports"

lemma check_ports_ok:
  "check_ports name macs raws = Inr (macs', []) \<Longrightarrow> set known \<subseteq> set macs \<Longrightarrow>
   \<exists>ports. normalize_ports known raws = Inr ports \<and> macs' = rev (macs_of ports) @ macs
     \<and> (distinct macs \<longrightarrow> distinct macs')"
proof (induction raws arbitrary: macs known)
  case Nil
  then show ?case by (simp add: macs_of_def)
next
  case (Cons raw raws)
  then obtain port where raw: "raw = PyDict port" by (cases raw) auto
  let ?mac = "py_lower (str_or (dget port ''address'') [])"
  have mac: "is_mac ?mac" "?mac \<notin> set macs" "check_ports name (?mac # macs) raws = Inr (macs', [])"
    using Cons.prems(1) by (auto simp: raw Let_def split: sum.splits if_splits)
  have "set (?mac # known) \<subseteq> set (?mac # macs)" using Cons.prems(2) by auto
  from Cons.IH [OF mac(3) this] obtain ports where
    "normalize_ports (?mac # known) raws = Inr ports" "macs' = rev (macs_of ports) @ ?mac # macs"
    "distinct (?mac # macs) \<longrightarrow> distinct macs'" by blast
  with mac Cons.prems(2) show ?case by (auto simp: raw Let_def macs_of_def)
qed

text \<open>What the validation of a node that raises no complaint says.\<close>

definition node_spec_ok :: "string list \<Rightarrow> pyobj \<Rightarrow> node_spec \<Rightarrow> bool" where
  "node_spec_ok hosts node spec \<longleftrightarrow> normalize_spec (PyDict node) = Inr spec \<and> nd_nova_hostname spec \<in> set hosts"

text \<open>A node that raises no complaint passed each check.\<close>

lemma check_node_parts:
  assumes "check_node hosts seen node = Inr (seen', [])"
  shows "check_driver (str_or (dget node ''name'') ''<unnamed>'') (dget node ''driver'') (info_or_empty node) = Inr []"
    and "\<exists>ports. py_iter (dget node ''ports'') = Inr ports
      \<and> check_ports (str_or (dget node ''name'') ''<unnamed>'') (sn_macs seen) ports = Inr (sn_macs seen', [])"
    and "dget node ''nova_hostname'' \<in> PyStr ` set hosts" and "dget node ''network_interface'' = PyStr ''noop''"
    and "dget node ''desired_provision_state'' = PyStr ''manageable''"
proof -
  let ?name = "str_or (dget node ''name'') ''<unnamed>''"
  let ?info = "info_or_empty node"
  have hashable: "hashable (dget node ''nova_hostname'')"
    using assms(1) by (simp add: check_node_def Let_def split: if_splits)
  obtain es where es: "check_driver ?name (dget node ''driver'') ?info = Inr es"
    using assms(1) hashable by (cases "check_driver ?name (dget node ''driver'') ?info") (simp_all add: check_node_def Let_def)
  obtain systems ss where ss: "check_system (sn_systems seen) (dget node ''driver'') ?info = Inr (systems, ss)"
    using assms(1) hashable es
    by (cases "check_system (sn_systems seen) (dget node ''driver'') ?info") (auto simp: check_node_def Let_def)
  obtain ports where ports: "py_iter (dget node ''ports'') = Inr ports"
    using assms(1) hashable es ss by (cases "py_iter (dget node ''ports'')") (simp_all add: check_node_def Let_def)
  obtain macs ps where ps: "check_ports ?name (sn_macs seen) ports = Inr (macs, ps)"
    using assms(1) hashable es ss ports by (cases "check_ports ?name (sn_macs seen) ports") (auto simp: check_node_def Let_def)
  show "check_driver ?name (dget node ''driver'') ?info = Inr []"
    "\<exists>ports. py_iter (dget node ''ports'') = Inr ports \<and> check_ports ?name (sn_macs seen) ports = Inr (sn_macs seen', [])"
    "dget node ''nova_hostname'' \<in> PyStr ` set hosts" "dget node ''network_interface'' = PyStr ''noop''"
    "dget node ''desired_provision_state'' = PyStr ''manageable''"
    using assms(1) hashable es ss ports ps by (auto simp: check_node_def Let_def split: if_splits)
qed

lemma check_node_ok:
  assumes "check_node hosts seen node = Inr (seen', [])"
    and named: "py_strip (str_or (dget node ''name'') []) \<noteq> []"
    and clean: "\<And>h. h \<in> set hosts \<Longrightarrow> h \<noteq> [] \<and> list_all (\<lambda>c. \<not> is_space c) h"
  shows "\<exists>spec. node_spec_ok hosts node spec \<and> sn_macs seen' = rev (macs_of (nd_ports spec)) @ sn_macs seen
    \<and> (distinct (sn_macs seen) \<longrightarrow> distinct (sn_macs seen'))"
proof -
  note ok = check_node_parts [OF assms(1)]
  obtain ports where ports: "py_iter (dget node ''ports'') = Inr ports"
    "check_ports (str_or (dget node ''name'') ''<unnamed>'') (sn_macs seen) ports = Inr (sn_macs seen', [])" using ok(2) by blast
  from ok(3) obtain h where h: "dget node ''nova_hostname'' = PyStr h" "h \<in> set hosts" by auto
  with clean have strip: "py_strip h = h" "h \<noteq> []" by (auto simp: strip_clean)
  obtain driver keys where driver: "dget node ''driver'' = PyStr driver" "required_driver_info driver = Some keys"
    using ok(1) by (auto simp: check_driver_def required_driver_fields_def split: if_splits pyval.splits option.splits)
  then have plain: "py_lower (py_strip driver) = driver" "driver \<noteq> []"
    by (auto simp: required_driver_info_def split: if_splits) (code_simp+)
  obtain info where info: "info_or_empty node = PyDict info" "\<forall>k \<in> set keys. truthy (dget info k)"
    using ok(1) driver by (auto simp: check_driver_def required_driver_fields_def hashable_def filter_empty_conv
        split: pyval.splits)
  from check_ports_ok [OF ports(2), of "[]"] obtain specs where specs: "normalize_ports [] ports = Inr specs"
    "sn_macs seen' = rev (macs_of specs) @ sn_macs seen" "distinct (sn_macs seen) \<longrightarrow> distinct (sn_macs seen')" by auto
  have "find (\<lambda>k. \<not> truthy (dget info k)) keys = None" using info(2) by (auto simp: find_None_iff)
  then have "normalize_spec (PyDict node) = Inr \<lparr>nd_name = py_strip (str_or (dget node ''name'') []),
      nd_nova_hostname = h, nd_driver = driver, nd_driver_info = info, nd_ports = specs\<rparr>"
    using named h strip driver plain info(1) ports(1) ok(4,5) specs(1)
    by (simp add: normalize_spec_def str_or_def info_or_empty_def)
  then show ?thesis using h(2) specs(2,3) by (auto simp: node_spec_ok_def)
qed

definition named :: "pyval \<Rightarrow> bool" where
  "named raw \<longleftrightarrow> (case raw of PyDict node \<Rightarrow> py_strip (str_or (dget node ''name'') []) \<noteq> [] | _ \<Rightarrow> True)"

lemma check_nodes_ok:
  assumes clean: "\<And>h. h \<in> set hosts \<Longrightarrow> h \<noteq> [] \<and> list_all (\<lambda>c. \<not> is_space c) h"
  shows "check_nodes hosts seen nodes = Inr [] \<Longrightarrow> distinct (sn_macs seen) \<Longrightarrow>
    \<exists>specs. list_all2 (\<lambda>raw spec. normalize_spec raw = Inr spec \<and> nd_nova_hostname spec \<in> set hosts) (filter named nodes) specs
      \<and> distinct (rev (concat (map (\<lambda>spec. macs_of (nd_ports spec)) specs)) @ sn_macs seen)"
proof (induction nodes arbitrary: seen)
  case Nil
  then show ?case by simp
next
  case (Cons raw nodes)
  then obtain node seen' where node: "raw = PyDict node" "check_node hosts seen node = Inr (seen', [])"
    "check_nodes hosts seen' nodes = Inr []"
    by (cases raw) (auto split: sum.splits prod.splits)
  from check_node_parts(2) [OF node(2)] obtain ports where
    "check_ports (str_or (dget node ''name'') ''<unnamed>'') (sn_macs seen) ports = Inr (sn_macs seen', [])" by blast
  from check_ports_ok [OF this, of "[]"] Cons.prems(2) have
    seen': "distinct (sn_macs seen')" "suffix (sn_macs seen) (sn_macs seen')" by (auto simp: suffix_def)
  from Cons.IH [OF node(3) seen'(1)] obtain specs where specs:
    "list_all2 (\<lambda>raw spec. normalize_spec raw = Inr spec \<and> nd_nova_hostname spec \<in> set hosts) (filter named nodes) specs"
    "distinct (rev (concat (map (\<lambda>spec. macs_of (nd_ports spec)) specs)) @ sn_macs seen')" by blast
  show ?case
  proof (cases "named raw")
    case True
    then have "py_strip (str_or (dget node ''name'') []) \<noteq> []" by (simp add: named_def node(1))
    from check_node_ok [OF node(2) this clean] obtain spec where
      "node_spec_ok hosts node spec" "sn_macs seen' = rev (macs_of (nd_ports spec)) @ sn_macs seen" by blast
    with specs node(1) True show ?thesis
      by (intro exI [of _ "spec # specs"]) (simp add: node_spec_ok_def)
  next
    case False
    with specs seen'(2) show ?thesis by (intro exI [of _ specs]) (auto simp: suffix_def)
  qed
qed

lemma unnamed_rejected:
  "\<not> named raw \<Longrightarrow> normalize_spec raw = reconciliation_error ''name and nova_hostname are required''"
  by (auto simp: named_def normalize_spec_def split: pyval.splits)

text \<open>
  C22. What the command line validates the Ironic node module accepts, but for the names.  If
  \<open>validate_config\<close> finds nothing wrong, the module's \<open>normalize_spec\<close> accepts every node that has a
  name, the nova host of each is in the inventory's compute section, and no two ports of all these
  nodes share a MAC address; a node without a name, which passes the validation as \<open><unnamed>\<close>,
  it rejects.
\<close>

theorem validated_nodes_accepted:
  assumes "validate_config data text = Inr []" and "config_nodes data = PyList nodes"
  shows "\<exists>hosts specs. compute_hosts text = Some hosts
    \<and> list_all2 (\<lambda>raw spec. normalize_spec raw = Inr spec \<and> nd_nova_hostname spec \<in> set hosts) (filter named nodes) specs
    \<and> distinct (concat (map (\<lambda>spec. map fst (nd_ports spec)) specs))
    \<and> (\<forall>raw \<in> set nodes. \<not> named raw \<longrightarrow>
         normalize_spec raw = reconciliation_error ''name and nova_hostname are required'')"
proof -
  obtain hosts where hosts: "compute_hosts text = Some hosts"
    "check_nodes hosts \<lparr>sn_names = [], sn_macs = [], sn_systems = []\<rparr> nodes = Inr []"
    using assms(1,2) by (auto simp: validate_config_def Let_def split: sum.splits if_splits)
  from check_nodes_ok [OF compute_hosts_clean [OF hosts(1)] hosts(2)] obtain specs where
    "list_all2 (\<lambda>raw spec. normalize_spec raw = Inr spec \<and> nd_nova_hostname spec \<in> set hosts) (filter named nodes) specs"
    "distinct (concat (map (\<lambda>spec. macs_of (nd_ports spec)) specs))" by auto
  with hosts(1) unnamed_rejected show ?thesis by (auto simp: macs_of_def)
qed

definition demo_config_node :: pyobj where
  "demo_config_node = [(''name'', PyStr ''n1''), (''nova_hostname'', PyStr ''c1''), (''driver'', PyStr ''ipmi''),
     (''network_interface'', PyStr ''noop''), (''desired_provision_state'', PyStr ''manageable''),
     (''driver_info'', PyDict [(''ipmi_address'', PyStr ''10.0.0.9''), (''ipmi_username'', PyStr ''admin''),
        (''ipmi_password'', PyStr ''secret'')]),
     (''ports'', PyList [PyDict [(''address'', PyStr ''AA:bb:cc:00:11:22'')]])]"

definition demo_config :: pyobj where
  "demo_config = map (\<lambda>k. (k, PyStr ''yes'')) REQUIRED_SERVICES
     @ [(''powerops_ironic_nodes'', PyList [PyDict demo_config_node])]"

definition demo_inventory :: string where
  "demo_inventory = ''[compute]'' @ [CHR 0x0A] @ ''# none yet'' @ [CHR 0x0A] @ ''c1 ansible_host=x'' @ [CHR 0x0A] @ ''[network]''"

lemma demo_config_valid: "validate_config demo_config demo_inventory = Inr []"
  by code_simp

definition nameless_config :: pyobj where
  "nameless_config = map (\<lambda>k. (k, PyStr ''yes'')) REQUIRED_SERVICES
     @ [(''powerops_ironic_nodes'', PyList [PyDict demo_config_node,
          PyDict (AList.update ''ports'' (PyList []) (AList.delete ''name'' demo_config_node))])]"

theorem validated_nodes_accepted_witness:
  "(\<exists>spec. normalize_spec (PyDict demo_config_node) = Inr spec \<and> nd_nova_hostname spec \<in> {''c1''})
   \<and> isl (normalize_spec (PyDict (AList.update ''ports'' (PyList []) (AList.delete ''name'' demo_config_node))))"
proof -
  let ?other = "PyDict (AList.update ''ports'' (PyList []) (AList.delete ''name'' demo_config_node))"
  have valid: "validate_config nameless_config demo_inventory = Inr []" by code_simp
  have nodes: "config_nodes nameless_config = PyList [PyDict demo_config_node, ?other]"
    by (simp add: config_nodes_def nameless_config_def REQUIRED_SERVICES_def dget_def)
  have "named (PyDict demo_config_node)" "\<not> named ?other" by code_simp+
  moreover have "compute_hosts demo_inventory = Some [''c1'']" by code_simp
  ultimately show ?thesis
    using validated_nodes_accepted [OF valid nodes] by (auto simp: list_all2_Cons1 reconciliation_error_def)
qed

section \<open>Credentials\<close>

definition CREDENTIALS :: "string set" where
  "CREDENTIALS = {''redfish_username'', ''redfish_password'', ''ipmi_username'', ''ipmi_password''}"

text \<open>Other credentials in the same places.\<close>

definition other_info :: "(pyval \<Rightarrow> pyval) \<Rightarrow> pyval \<Rightarrow> pyval" where
  "other_info f v = (case v of PyDict d \<Rightarrow> PyDict (map (\<lambda>(k, v). (k, if k \<in> CREDENTIALS then f v else v)) d) | _ \<Rightarrow> v)"

definition other_node :: "(pyval \<Rightarrow> pyval) \<Rightarrow> pyval \<Rightarrow> pyval" where
  "other_node f v = (case v of
     PyDict d \<Rightarrow> PyDict (map (\<lambda>(k, v). (k, if k = ''driver_info'' then other_info f v else v)) d) | _ \<Rightarrow> v)"

definition other_credentials :: "(pyval \<Rightarrow> pyval) \<Rightarrow> pyobj \<Rightarrow> pyobj" where
  "other_credentials f data = map (\<lambda>(k, v). (k, if k = ''powerops_ironic_nodes''
     then (case v of PyList nodes \<Rightarrow> PyList (map (other_node f) nodes) | _ \<Rightarrow> v) else v)) data"

lemma dget_map: "dget (map (\<lambda>(k, v). (k, g k v)) d) k = (case map_of d k of None \<Rightarrow> PyNone | Some v \<Rightarrow> g k v)"
  by (induction d) (auto simp: dget_def)

lemma other_info_same:
  assumes "\<And>v. truthy (f v) = truthy v"
  shows "check_driver name driver (other_info f info) = check_driver name driver info"
    and "check_system systems driver (other_info f info) = check_system systems driver info"
    and "truthy (other_info f info) = truthy info"
proof -
  have t: "truthy (dget (map (\<lambda>(k, v). (k, if k \<in> CREDENTIALS then f v else v)) d) k) = truthy (dget d k)" for d k
    using assms by (simp add: dget_map [where g = "\<lambda>k v. if k \<in> CREDENTIALS then f v else v"])
      (simp add: dget_def split: option.splits)
  have a: "dget (map (\<lambda>(k, v). (k, if k \<in> CREDENTIALS then f v else v)) d) k = dget d k" if "k \<notin> CREDENTIALS" for d k
    using that by (simp add: dget_map [where g = "\<lambda>k v. if k \<in> CREDENTIALS then f v else v"])
      (simp add: dget_def split: option.splits)
  show "check_driver name driver (other_info f info) = check_driver name driver info"
    by (cases info) (simp_all add: check_driver_def other_info_def t split: sum.splits option.splits)
  have plain: "''redfish_address'' \<notin> CREDENTIALS" "''redfish_system_id'' \<notin> CREDENTIALS" by (simp_all add: CREDENTIALS_def)
  show "check_system systems driver (other_info f info) = check_system systems driver info"
    by (cases info) (simp_all add: check_system_def other_info_def a [OF plain(1)] a [OF plain(2)])
  show "truthy (other_info f info) = truthy info"
    by (cases info) (simp_all add: other_info_def)
qed

lemma check_node_other:
  assumes "\<And>v. truthy (f v) = truthy v" and "other_node f (PyDict node) = PyDict node'"
  shows "check_node hosts seen node' = check_node hosts seen node"
proof -
  have n: "node' = map (\<lambda>(k, v). (k, if k = ''driver_info'' then other_info f v else v)) node"
    using assms(2) by (simp add: other_node_def)
  have same: "dget node' k = dget node k" if "k \<noteq> ''driver_info''" for k
    using that by (simp add: n dget_map [where g = "\<lambda>k v. if k = ''driver_info'' then other_info f v else v"])
      (simp add: dget_def split: option.splits)
  have none: "other_info f PyNone = PyNone" "other_info f (PyDict []) = PyDict []" by (simp_all add: other_info_def)
  have "dget node' ''driver_info'' = other_info f (dget node ''driver_info'')"
    by (simp add: n dget_map [where g = "\<lambda>k v. if k = ''driver_info'' then other_info f v else v"])
      (simp add: dget_def none(1) split: option.splits)
  then have "info_or_empty node' = other_info f (info_or_empty node)"
    using other_info_same(3) [OF assms(1)] none(2) by (simp add: info_or_empty_def)
  moreover have "dget node' ''name'' = dget node ''name''" "dget node' ''nova_hostname'' = dget node ''nova_hostname''"
    "dget node' ''driver'' = dget node ''driver''" "dget node' ''ports'' = dget node ''ports''"
    "dget node' ''network_interface'' = dget node ''network_interface''"
    "dget node' ''desired_provision_state'' = dget node ''desired_provision_state''" by (simp_all add: same)
  ultimately show ?thesis unfolding check_node_def by (simp only: other_info_same [OF assms(1)] cong: sum.case_cong)
qed

lemma other_node_plain:
  "other_node f PyNone = PyNone" "other_node f (PyBool b) = PyBool b" "other_node f (PyInt i) = PyInt i"
  "other_node f (PyStr s) = PyStr s" "other_node f (PyList xs) = PyList xs"
  by (simp_all add: other_node_def)

lemma check_nodes_other:
  assumes "\<And>v. truthy (f v) = truthy v"
  shows "check_nodes hosts seen (map (other_node f) nodes) = check_nodes hosts seen nodes"
proof (induction nodes arbitrary: seen)
  case (Cons raw nodes)
  show ?case
  proof (cases raw)
    case (PyDict node)
    then obtain node' where n: "other_node f raw = PyDict node'" by (auto simp: other_node_def)
    from check_node_other [OF assms, of node node'] n PyDict show ?thesis
      by (simp add: Cons.IH split: sum.splits prod.splits)
  qed (simp_all add: other_node_plain Cons.IH)
qed simp

text \<open>
  The validation reveals no credentials.  Its result, the list of the messages or the
  exception, is the same for any other user names and passwords in the same places, as long as
  none becomes empty that was not and none filled in that was.
\<close>

lemma validation_hides_credentials:
  assumes "\<And>v. truthy (f v) = truthy v"
  shows "validate_config (other_credentials f data) inventory_text = validate_config data inventory_text"
proof -
  let ?d = "other_credentials f data"
  let ?g = "\<lambda>k v. if k = ''powerops_ironic_nodes'' then (case v of PyList nodes \<Rightarrow> PyList (map (other_node f) nodes) | _ \<Rightarrow> v) else v"
  have same: "dget ?d k = dget data k" if "k \<noteq> ''powerops_ironic_nodes''" for k
    using that by (simp add: other_credentials_def dget_map [where g = ?g])
      (simp add: dget_def split: option.splits)
  have "dget ?d ''powerops_ironic_nodes'' = (case map_of data ''powerops_ironic_nodes'' of
      None \<Rightarrow> PyNone | Some v \<Rightarrow> (case v of PyList nodes \<Rightarrow> PyList (map (other_node f) nodes) | _ \<Rightarrow> v))"
    by (simp add: other_credentials_def dget_map [where g = ?g] split: option.splits)
  then have "config_nodes ?d = (case config_nodes data of PyList nodes \<Rightarrow> PyList (map (other_node f) nodes) | v \<Rightarrow> v)"
    by (simp add: config_nodes_def dget_def split: option.splits pyval.splits)
  moreover have "filter (\<lambda>k. dget ?d k \<noteq> PyStr ''yes'') REQUIRED_SERVICES
      = filter (\<lambda>k. dget data k \<noteq> PyStr ''yes'') REQUIRED_SERVICES"
    by (rule filter_cong [OF refl]) (auto simp: REQUIRED_SERVICES_def same)
  ultimately show ?thesis unfolding validate_config_def
    by (cases "config_nodes data") (simp_all only: pyval.case check_nodes_other [OF assms])
qed

lemma validation_hides_credentials_demo:
  "validate_config (other_credentials (\<lambda>v. if truthy v then PyStr ''x'' else v) demo_config) demo_inventory
     = validate_config demo_config demo_inventory"
  by (rule validation_hides_credentials) simp

end
