(* ===== verification/PowerOpsImages.thy ===== *)
theory PowerOpsImages
  imports PowerOpsConfig
begin

text \<open>
  Building and publishing the derived images with the PowerOps command line
  (\<open>tools/powerops_cli.py\<close>).  The machine it works on is a record: running a command, listing
  the built wheels of a package with their modification times, the archive members of a wheel,
  reading an entry point from one, making a directory and copying a file, each over an abstract
  state and with any exception.  The log has, in order, the commands run and whether they
  succeeded, what was read from the wheels, and the wheels copied: each is noted where the machine
  answers, with its answer.
  \<open>py\<close> is \<open>sys.executable\<close> and \<open>root\<close> the resolved repository root, in which every command runs.
\<close>

section \<open>The machine\<close>

datatype image_event =
    Ran "pyval list" bool
  | Members string "string list"
  | HasOption string string string string bool
  | Copied string string

record 's shop =
  sh_state :: 's
  sh_log :: "image_event list"

type_synonym ('s, 'a) job = "('s shop, 'a) io"
type_synonym ('s, 'a) tool = "'s \<Rightarrow> (pyexn + 'a) \<times> 's"

record 's machine =
  mc_run :: "pyval list \<Rightarrow> ('s, unit) tool"
  mc_glob :: "string \<Rightarrow> string \<Rightarrow> ('s, (int \<times> string) list) tool"
  mc_members :: "string \<Rightarrow> ('s, string list) tool"
  mc_has_option :: "string \<Rightarrow> string \<Rightarrow> string \<Rightarrow> string \<Rightarrow> ('s, bool) tool"
  mc_mkdir :: "string \<Rightarrow> ('s, unit) tool"
  mc_copy :: "string \<Rightarrow> string \<Rightarrow> ('s, unit) tool"

definition watch :: "('s, 'a) tool \<Rightarrow> (pyexn + 'a \<Rightarrow> image_event list) \<Rightarrow> ('s, 'a) job" where
  "watch f note = (\<lambda>w. case f (sh_state w) of (r, s) \<Rightarrow> (r, w\<lparr>sh_state := s, sh_log := sh_log w @ note r\<rparr>))"

definition use :: "('s, 'a) tool \<Rightarrow> ('s, 'a) job" where
  "use f = watch f (\<lambda>_. [])"

text \<open>\<open>_run\<close>: with \<open>check=True\<close> a command that fails raises.\<close>

definition run_cmd :: "'s machine \<Rightarrow> pyval list \<Rightarrow> ('s, unit) job" where
  "run_cmd M command = watch (mc_run M command) (\<lambda>r. [Ran command (\<not> isl r)])"

section \<open>The images\<close>

definition IMAGE_SERVICES :: "string list" where
  "IMAGE_SERVICES = [''mistral-api'', ''mistral-engine'', ''mistral-executor'', ''masakari-engine'']"

fun missing_image :: "pyobj \<Rightarrow> pyobj \<Rightarrow> string list \<Rightarrow> bool" where
  "missing_image base derived [] = False"
| "missing_image base derived (service # services) =
     (\<not> truthy (dget base service) \<or> \<not> truthy (dget derived service) \<or> missing_image base derived services)"

definition image_mappings :: "pyobj \<Rightarrow> pyexn + pyobj \<times> pyobj" where
  "image_mappings data =
     (case (dget data ''powerops_base_images'', dget data ''powerops_derived_images'') of
        (PyDict base, PyDict derived) \<Rightarrow>
          (if missing_image base derived IMAGE_SERVICES then Inl ValueError else Inr (base, derived))
      | _ \<Rightarrow> Inl ValueError)"

definition container_engine :: "pyobj \<Rightarrow> pyval" where
  "container_engine data =
     (case map_of data ''kolla_container_engine'' of None \<Rightarrow> PyStr ''podman'' | Some v \<Rightarrow> v)"

section \<open>Building\<close>

record plugin_build =
  pb_package :: string
  pb_wheel :: string
  pb_context :: string
  pb_entry_group :: string
  pb_entry_name :: string

definition PLUGIN_BUILDS :: "plugin_build list" where
  "PLUGIN_BUILDS =
    [\<lparr>pb_package = ''plugins/mistral_power_actions'', pb_wheel = ''openstack_power_actions-*.whl'',
      pb_context = ''docker/powerops/mistral'', pb_entry_group = ''mistral.actions'',
      pb_entry_name = ''powerops.acquire_host_lock''\<rparr>,
     \<lparr>pb_package = ''plugins/masakari_ironic_fence'', pb_wheel = ''masakari_ironic_fence-*.whl'',
      pb_context = ''docker/powerops/masakari'', pb_entry_group = ''masakari.task_flow.tasks'',
      pb_entry_name = ''ironic_fence''\<rparr>]"

definition slash :: "string \<Rightarrow> string \<Rightarrow> string" where
  "slash a b = a @ ''/'' @ b"

text \<open>The last of the candidates by time and then by name; names are compared character by character.\<close>

fun str_less :: "string \<Rightarrow> string \<Rightarrow> bool" where
  "str_less s [] = False"
| "str_less [] (d # t) = True"
| "str_less (c # s) (d # t) =
     (of_char c < (of_char d :: nat) \<or> c = d \<and> str_less s t)"

fun newest :: "(int \<times> string) list \<Rightarrow> int \<times> string \<Rightarrow> int \<times> string" where
  "newest [] best = best"
| "newest ((t, n) # cs) best =
     newest cs (if fst best < t \<or> fst best = t \<and> str_less (snd best) n then (t, n) else best)"

definition built_wheel :: "'s machine \<Rightarrow> string \<Rightarrow> plugin_build \<Rightarrow> ('s, string) job" where
  "built_wheel M root build =
     bnd (use (mc_glob M (slash (slash root (pb_package build)) ''dist'') (pb_wheel build))) (\<lambda>candidates.
     case candidates of
       [] \<Rightarrow> raise_io ValueError
     | c # cs \<Rightarrow> return_io (snd (newest cs c)))"

text \<open>\<open>path\<close> is the wheel in the \<open>dist\<close> directory of its package.\<close>

definition verify_wheel_entrypoint :: "'s machine \<Rightarrow> string \<Rightarrow> string \<Rightarrow> string \<Rightarrow> ('s, unit) job" where
  "verify_wheel_entrypoint M path entry_group entry_name =
     bnd (watch (mc_members M path) (\<lambda>r. case r of Inl _ \<Rightarrow> [] | Inr names \<Rightarrow> [Members path names])) (\<lambda>names.
     case filter (\<lambda>n. suffix ''/entry_points.txt'' n) names of
       [member] \<Rightarrow>
         bnd (watch (mc_has_option M path member entry_group entry_name)
                (\<lambda>r. case r of Inl _ \<Rightarrow> [] | Inr ok \<Rightarrow> [HasOption path member entry_group entry_name ok])) (\<lambda>ok.
         if ok then return_io () else raise_io ValueError)
     | _ \<Rightarrow> raise_io ValueError)"

definition build_command :: "string \<Rightarrow> string \<Rightarrow> pyval list" where
  "build_command py package =
     map PyStr [py, ''-m'', ''build'', ''--wheel'', ''--no-isolation'', package]"

definition build_plugin :: "'s machine \<Rightarrow> string \<Rightarrow> string \<Rightarrow> plugin_build \<Rightarrow> ('s, unit) job" where
  "build_plugin M py root build =
     (let package = slash root (pb_package build)
      in bnd (run_cmd M (build_command py package)) (\<lambda>_.
         bnd (built_wheel M root build) (\<lambda>wheel.
         let path = slash (slash package ''dist'') wheel;
             context = slash (slash root (pb_context build)) ''dist'';
             destination = slash context wheel
         in bnd (verify_wheel_entrypoint M path (pb_entry_group build) (pb_entry_name build)) (\<lambda>_.
            bnd (use (mc_mkdir M context)) (\<lambda>_.
            watch (mc_copy M path destination)
              (\<lambda>r. if isl r then [] else [Copied path destination]))))))"

definition image_command :: "string \<Rightarrow> pyval \<Rightarrow> pyobj \<Rightarrow> pyobj \<Rightarrow> string \<Rightarrow> pyval list" where
  "image_command root engine base derived service =
     [engine, PyStr ''build'', PyStr ''--build-arg'', PyStr (''BASE_IMAGE='' @ py_str (dget base service)),
      PyStr ''--tag'', dget derived service,
      PyStr (slash root (slash ''docker/powerops'' (if service = ''masakari-engine'' then ''masakari'' else ''mistral'')))]"

definition derived_images :: "pyobj \<Rightarrow> pyval list" where
  "derived_images derived = map (dget derived) IMAGE_SERVICES"

definition build_images :: "'s machine \<Rightarrow> string \<Rightarrow> string \<Rightarrow> pyobj \<Rightarrow> ('s, pyobj) job" where
  "build_images M py root data =
     bnd (lift_sum (image_mappings data)) (\<lambda>(base, derived).
     bnd (for_io PLUGIN_BUILDS (build_plugin M py root)) (\<lambda>_.
     bnd (for_io IMAGE_SERVICES (\<lambda>service.
            run_cmd M (image_command root (container_engine data) base derived service))) (\<lambda>_.
     return_io [(''built_images'', PyList (derived_images derived))])))"

section \<open>Publishing\<close>

text \<open>\<open>"/" in image\<close> and \<open>image.split\<close> on a value that need not be a string.\<close>

definition registry_host :: "pyval \<Rightarrow> pyexn + string" where
  "registry_host img =
     (case img of
        PyStr s \<Rightarrow> (if CHR ''/'' \<in> set s then Inr (takeWhile (\<lambda>c. c \<noteq> CHR ''/'') s) else Inl ValueError)
      | PyList xs \<Rightarrow> (if PyStr ''/'' \<in> set xs then Inl AttributeError else Inl ValueError)
      | PyDict d \<Rightarrow> (if map_of d ''/'' \<noteq> None then Inl AttributeError else Inl ValueError)
      | _ \<Rightarrow> Inl TypeError)"

fun registry_hosts :: "pyval list \<Rightarrow> pyexn + string list" where
  "registry_hosts [] = Inr []"
| "registry_hosts (img # images) =
     (case registry_host img of
        Inl e \<Rightarrow> Inl e
      | Inr h \<Rightarrow> (case registry_hosts images of Inl e \<Rightarrow> Inl e | Inr hs \<Rightarrow> Inr (h # hs)))"

definition inspect_command :: "pyval \<Rightarrow> pyval \<Rightarrow> pyval list" where
  "inspect_command engine img = [engine, PyStr ''image'', PyStr ''inspect'', img]"

definition push_command :: "pyval \<Rightarrow> pyval \<Rightarrow> pyval list" where
  "push_command engine img = [engine, PyStr ''push'', img]"

definition publish_images :: "'s machine \<Rightarrow> pyobj \<Rightarrow> string \<Rightarrow> ('s, pyobj) job" where
  "publish_images M data confirm_registry =
     bnd (lift_sum (image_mappings data)) (\<lambda>(base, derived).
     let engine = container_engine data; images = derived_images derived
     in bnd (lift_sum (registry_hosts images)) (\<lambda>registries.
        if set registries \<noteq> {confirm_registry} then raise_io ValueError
        else
          bnd (for_io images (\<lambda>img. run_cmd M (inspect_command engine img))) (\<lambda>_.
          bnd (for_io images (\<lambda>img. run_cmd M (push_command engine img))) (\<lambda>_.
          return_io [(''published_images'', PyList images)]))))"

section \<open>The exit code\<close>

definition is_cli_error :: "pyexn \<Rightarrow> bool" where
  "is_cli_error e \<longleftrightarrow> e = ValueError \<or> e \<in> OtherError ` {''OSError'', ''CalledProcessError'', ''YAMLError'', ''BadZipFile''}"

text \<open>A command's handler: \<open>load_config\<close> on the document read, then the work.\<close>

definition build_images_command :: "'s machine \<Rightarrow> string \<Rightarrow> string \<Rightarrow> pyval \<Rightarrow> ('s, int) job" where
  "build_images_command M py root document =
     bnd (lift_sum (config_root document)) (\<lambda>data.
     bnd (build_images M py root data) (\<lambda>_. return_io 0))"

definition publish_images_command :: "'s machine \<Rightarrow> pyval \<Rightarrow> string \<Rightarrow> ('s, int) job" where
  "publish_images_command M document confirm_registry =
     bnd (lift_sum (config_root document)) (\<lambda>data.
     bnd (publish_images M data confirm_registry) (\<lambda>_. return_io 0))"

definition cli_main :: "('s, int) job \<Rightarrow> ('s, int) job" where
  "cli_main handler = catch_io handler is_cli_error (\<lambda>_. return_io 2)"

section \<open>Plans\<close>

text \<open>
  A plan is the log of a run in which every step succeeds.  A run keeps to it if its log is the
  plan, when it returns, and otherwise the plan up to some step, which may be there as a failure.
\<close>

definition entry_file :: "string \<Rightarrow> bool" where
  "entry_file name = suffix ''/entry_points.txt'' name"

fun broke :: "image_event \<Rightarrow> image_event \<Rightarrow> bool" where
  "broke (Ran command True) e = (e = Ran command False)"
| "broke (Members path _) e = (\<exists>names. e = Members path names \<and> length (filter entry_file names) \<noteq> 1)"
| "broke (HasOption path member entry_group entry_name True) e = (e = HasOption path member entry_group entry_name False)"
| "broke _ e = False"

definition kept_to :: "image_event list \<Rightarrow> image_event list \<Rightarrow> bool \<Rightarrow> bool" where
  "kept_to plan ts ok \<longleftrightarrow>
     (if ok then ts = plan
      else prefix ts plan \<or> (\<exists>pre step rest e. plan = pre @ step # rest \<and> ts = pre @ [e] \<and> broke step e))"

definition along :: "image_event list \<Rightarrow> 's shop \<Rightarrow> pyexn + 'a \<Rightarrow> 's shop \<Rightarrow> bool" where
  "along plan w r w' \<longleftrightarrow> (\<exists>ts. sh_log w' = sh_log w @ ts \<and> kept_to plan ts (\<not> isl r))"

lemma kept_to_append: "kept_to p ts True \<Longrightarrow> kept_to q us ok \<Longrightarrow> kept_to (p @ q) (ts @ us) ok"
  unfolding kept_to_def by (auto split: if_splits)

lemma kept_to_stop: "kept_to p ts False \<Longrightarrow> kept_to (p @ q) ts False"
  unfolding kept_to_def by (auto simp: prefix_prefix)

lemma along_stop: "along p w (Inl e) w' \<Longrightarrow> along (p @ q) w (Inl d) w'"
  unfolding along_def using kept_to_stop by auto

lemma along_append: "along p w (Inr a) w1 \<Longrightarrow> along q w1 r w' \<Longrightarrow> along (p @ q) w r w'"
  unfolding along_def using kept_to_append by fastforce

lemma along_none: "sh_log w' = sh_log w \<Longrightarrow> along p w (Inl e) w'" "sh_log w' = sh_log w \<Longrightarrow> along [] w r w'"
  by (auto simp: along_def kept_to_def)

lemma along_bnd:
  assumes "bnd m f w = (r, w')" and "\<And>b w1. m w = (b, w1) \<Longrightarrow> along p w b w1"
    and "\<And>a w1. m w = (Inr a, w1) \<Longrightarrow> f a w1 = (r, w') \<Longrightarrow> along q w1 r w'"
  shows "along (p @ q) w r w'"
proof -
  obtain b w1 where m: "m w = (b, w1)" by fastforce
  then show ?thesis using assms
    by (cases b) (auto simp: bnd_run intro: along_stop along_append)
qed

lemma watch_log: "watch f note w = (r, w') \<Longrightarrow> sh_log w' = sh_log w @ note r"
  by (auto simp: watch_def split: prod.splits)

lemma use_log: "use f w = (r, w') \<Longrightarrow> sh_log w' = sh_log w"
  unfolding use_def by (drule watch_log) simp

lemma run_cmd_along: "run_cmd M c w = (r, w') \<Longrightarrow> along [Ran c True] w r w'"
  unfolding run_cmd_def by (drule watch_log) (auto simp: along_def kept_to_def)

lemma for_along:
  assumes "\<And>x w r w'. x \<in> set xs \<Longrightarrow> m x w = (r, w') \<Longrightarrow> along (p x) w r w'"
  shows "for_io xs m w = (r, w') \<Longrightarrow> along (concat (map p xs)) w r w'"
  using assms
proof (induction xs arbitrary: w)
  case (Cons x xs)
  from Cons.prems(1) have "bnd (m x) (\<lambda>_. for_io xs m) w = (r, w')" by simp
  then have "along (p x @ concat (map p xs)) w r w'"
    by (rule along_bnd) (use Cons in \<open>auto\<close>)
  then show ?case by simp
qed (simp add: along_none io_run)

lemma for_cmds_along:
  "for_io xs (\<lambda>x. run_cmd M (f x)) w = (r, w') \<Longrightarrow> along (map (\<lambda>x. Ran (f x) True) xs) w r w'"
  using for_along [of xs "\<lambda>x. run_cmd M (f x)" "\<lambda>x. [Ran (f x) True]"] run_cmd_along by simp blast

section \<open>What is published\<close>

lemma registry_hosts_all: "registry_hosts images = Inr hs \<Longrightarrow> map registry_host images = map Inr hs"
  by (induction images arbitrary: hs) (auto split: sum.splits)

text \<open>
  C13. Publishing is confirmed and checked first.  What \<open>publish_images\<close> does keeps to the plan:
  inspect every derived image, then push every one, in order.  Anything is run only if every
  derived image names the confirmed registry; an image is pushed only after the engine found all
  of them, the first command that fails is the last one, and on success all were pushed.
\<close>

theorem publish_confirmed:
  assumes "publish_images M data confirm_registry w = (r, w')"
  shows "\<exists>ts. sh_log w' = sh_log w @ ts \<and> (ts \<noteq> [] \<or> isl r = False \<longrightarrow>
    (\<exists>base derived. image_mappings data = Inr (base, derived)
      \<and> (\<forall>img \<in> set (derived_images derived). registry_host img = Inr confirm_registry)
      \<and> kept_to (map (\<lambda>c. Ran c True) (map (inspect_command (container_engine data)) (derived_images derived)
          @ map (push_command (container_engine data)) (derived_images derived))) ts (\<not> isl r)))"
proof (cases "\<exists>base derived hs. image_mappings data = Inr (base, derived)
    \<and> registry_hosts (derived_images derived) = Inr hs \<and> set hs = {confirm_registry}")
  case False
  then have "w' = w \<and> isl r" using assms
    by (auto simp: publish_images_def bnd_run lift_sum_def io_run Let_def split: sum.splits prod.splits if_splits)
  then show ?thesis by (intro exI [of _ "[]"]) simp
next
  case True
  then obtain base derived hs where m: "image_mappings data = Inr (base, derived)"
    and hs: "registry_hosts (derived_images derived) = Inr hs" "set hs = {confirm_registry}" by blast
  let ?images = "derived_images derived" and ?engine = "container_engine data"
  let ?i = "inspect_command ?engine" and ?p = "push_command ?engine"
  have hosts: "registry_host img = Inr confirm_registry" if "img \<in> set ?images" for img
  proof -
    have "registry_host img \<in> set (map Inr hs)" using that registry_hosts_all [OF hs(1)] by (metis image_eqI set_map)
    with hs(2) show ?thesis by auto
  qed
  have run: "bnd (for_io ?images (\<lambda>img. run_cmd M (?i img))) (\<lambda>_.
      bnd (for_io ?images (\<lambda>img. run_cmd M (?p img))) (\<lambda>_.
      return_io [(''published_images'', PyList ?images)])) w = (r, w')"
    using assms m hs by (simp add: publish_images_def bnd_run lift_sum_def io_run Let_def)
  have "along (map (\<lambda>c. Ran c True) (map ?i ?images) @ map (\<lambda>c. Ran c True) (map ?p ?images) @ []) w r w'"
    by (rule along_bnd [OF run], simp add: comp_def, erule for_cmds_along, erule along_bnd)
      (simp add: comp_def, erule for_cmds_along, simp add: along_none io_run)
  then have "along (map (\<lambda>c. Ran c True) (map ?i ?images @ map ?p ?images)) w r w'" by simp
  then obtain ts where "sh_log w' = sh_log w @ ts"
    "kept_to (map (\<lambda>c. Ran c True) (map ?i ?images @ map ?p ?images)) ts (\<not> isl r)" unfolding along_def by blast
  then show ?thesis using m hosts by blast
qed

definition demo_base :: pyobj where
  "demo_base = map (\<lambda>s. (s, PyStr ''base'')) IMAGE_SERVICES"

definition demo_derived :: pyobj where
  "demo_derived = map (\<lambda>s. (s, PyStr (''reg:5000/'' @ s))) IMAGE_SERVICES"

definition demo_images :: pyobj where
  "demo_images = [(''powerops_base_images'', PyDict demo_base), (''powerops_derived_images'', PyDict demo_derived)]"

lemma demo_mappings:
  "image_mappings demo_images = Inr (demo_base, demo_derived)"
  "registry_hosts (derived_images demo_derived) = Inr (replicate 4 ''reg:5000'')"
  by code_simp+

definition demo_machine :: "unit machine" where
  "demo_machine = \<lparr>mc_run = (\<lambda>_ s. (Inr (), s)), mc_glob = (\<lambda>_ _ s. (Inr [(1, ''a.whl''), (2, ''b.whl'')], s)),
     mc_members = (\<lambda>_ s. (Inr [''x/entry_points.txt''], s)), mc_has_option = (\<lambda>_ _ _ _ s. (Inr True, s)),
     mc_mkdir = (\<lambda>_ s. (Inr (), s)), mc_copy = (\<lambda>_ _ s. (Inr (), s))\<rparr>"

theorem publish_confirmed_witness:
  "let ts = sh_log (snd (publish_images demo_machine demo_images ''reg:5000'' \<lparr>sh_state = (), sh_log = []\<rparr>))
   in length ts = 8 \<and> (\<exists>base derived ok. image_mappings demo_images = Inr (base, derived)
     \<and> kept_to (map (\<lambda>c. Ran c True) (map (inspect_command (container_engine demo_images)) (derived_images derived)
          @ map (push_command (container_engine demo_images)) (derived_images derived))) ts ok)"
proof -
  let ?w = "\<lparr>sh_state = (), sh_log = []\<rparr> :: unit shop"
  obtain r w' where run: "publish_images demo_machine demo_images ''reg:5000'' ?w = (r, w')" by fastforce
  have "length (sh_log (snd (publish_images demo_machine demo_images ''reg:5000'' ?w))) = 8"
    by (simp add: publish_images_def demo_mappings Let_def bnd_run lift_sum_def return_run run_cmd_def watch_def demo_machine_def)
      (simp add: derived_images_def IMAGE_SERVICES_def bnd_run return_run)
  then have eight: "length (sh_log w') = 8" by (simp add: run)
  then have "sh_log w' \<noteq> []" by auto
  with publish_confirmed [OF run] eight show ?thesis unfolding run Let_def snd_conv by fastforce
qed

section \<open>What is built\<close>

text \<open>
  The plan for a plugin, with the wheel that is found, the names in its archive, and the one entry
  points file among them.
\<close>

type_synonym wheel_found = "string \<times> string list \<times> string"

definition one_entry_file :: "wheel_found \<Rightarrow> bool" where
  "one_entry_file found = (case found of (wheel, names, member) \<Rightarrow> filter entry_file names = [member])"

definition plugin_events :: "string \<Rightarrow> string \<Rightarrow> plugin_build \<Rightarrow> wheel_found \<Rightarrow> image_event list" where
  "plugin_events py root build found =
     (case found of (wheel, names, member) \<Rightarrow>
      let package = slash root (pb_package build); path = slash (slash package ''dist'') wheel
      in [Ran (build_command py package) True, Members path names,
          HasOption path member (pb_entry_group build) (pb_entry_name build) True,
          Copied path (slash (slash (slash root (pb_context build)) ''dist'') wheel)])"

lemma built_wheel_log: "built_wheel M root build w = (r, w') \<Longrightarrow> sh_log w' = sh_log w"
  by (auto simp: built_wheel_def bnd_run io_run split: prod.splits sum.splits list.splits dest: use_log)

text \<open>A wheel whose archive is not read yet, or not to the end.\<close>

lemma some_entry_file: "one_entry_file (wheel, [''/entry_points.txt''], ''/entry_points.txt'')"
  by (simp add: one_entry_file_def entry_file_def)

lemma members_broke:
  "length (filter entry_file names) \<noteq> 1 \<Longrightarrow> sh_log w' = sh_log w @ [Members path names] \<Longrightarrow>
   along (Members path other # rest) w (Inl e) w'"
  unfolding along_def kept_to_def by (intro exI [of _ "[Members path names]"]) fastforce

lemma verify_along:
  assumes "verify_wheel_entrypoint M path g e w = (r, w')"
  shows "\<exists>names member. one_entry_file (wheel, names, member)
    \<and> along [Members path names, HasOption path member g e True] w r w'"
proof -
  let ?note = "\<lambda>r :: pyexn + string list. case r of Inl _ \<Rightarrow> [] | Inr names \<Rightarrow> [Members path names]"
  obtain b w1 where 1: "watch (mc_members M path) ?note w = (b, w1)" by fastforce
  note l1 = watch_log [OF 1]
  have entry: "suffix ''/entry_points.txt'' = entry_file" by (simp add: entry_file_def fun_eq_iff)
  show ?thesis
  proof (cases "\<exists>names member. b = Inr names \<and> filter entry_file names = [member]")
    case True
    then obtain names member where n: "b = Inr names" "filter entry_file names = [member]" by blast
    have "along ([Members path names] @ [HasOption path member g e True] @ []) w r w'"
    proof (rule along_append)
      show "along [Members path names] w (Inr ()) w1" using l1 n(1) by (simp add: along_def kept_to_def)
      have "bnd (watch (mc_has_option M path member g e)
              (\<lambda>r. case r of Inl _ \<Rightarrow> [] | Inr ok \<Rightarrow> [HasOption path member g e ok])) (\<lambda>ok.
            if ok then return_io () else raise_io ValueError) w1 = (r, w')"
        using assms 1 n unfolding verify_wheel_entrypoint_def entry by (simp add: bnd_run)
      then show "along ([HasOption path member g e True] @ []) w1 r w'"
        by (auto simp: bnd_run along_def kept_to_def return_run raise_run
            split: prod.splits sum.splits if_splits dest!: watch_log)
    qed
    with n(2) show ?thesis by (auto simp: one_entry_file_def)
  next
    case False
    then have stop: "isl r \<and> w' = w1" using assms 1 unfolding verify_wheel_entrypoint_def entry
      by (auto simp: bnd_run raise_run split: sum.splits list.splits)
    then obtain d where d: "r = Inl d" by (cases r) auto
    show ?thesis
    proof (cases b)
      case (Inl c)
      with l1 stop d show ?thesis using some_entry_file by (auto intro: along_none)
    next
      case (Inr names)
      with False have "length (filter entry_file names) \<noteq> 1" by (auto simp: length_Suc_conv)
      from members_broke [OF this] l1 Inr stop d show ?thesis using some_entry_file by fastforce
    qed
  qed
qed

lemma build_plugin_along:
  assumes "build_plugin M py root build w = (r, w')"
  shows "\<exists>found. one_entry_file found \<and> along (plugin_events py root build found) w r w'"
proof -
  let ?package = "slash root (pb_package build)"
  obtain b1 w1 where 1: "run_cmd M (build_command py ?package) w = (b1, w1)" by fastforce
  note l1 = run_cmd_along [OF 1]
  show ?thesis
  proof (cases "\<exists>wheel w2. b1 = Inr () \<and> built_wheel M root build w1 = (Inr wheel, w2)")
    case False
    obtain b2 w2 where 2: "built_wheel M root build w1 = (b2, w2)" by fastforce
    have "along ([Ran (build_command py ?package) True] @ rest) w r w'" for rest
      using assms 1 2 False l1 built_wheel_log [OF 2]
      by (cases b1; cases b2) (auto simp: build_plugin_def Let_def bnd_run intro: along_stop along_append along_none simp del: append.simps)
    then show ?thesis
      using some_entry_file by (intro exI [of _ "([], [''/entry_points.txt''], ''/entry_points.txt'')"]) (simp add: plugin_events_def Let_def)
  next
    case True
    then obtain wheel w2 where ok: "b1 = Inr ()" "built_wheel M root build w1 = (Inr wheel, w2)" by blast
    let ?path = "slash (slash ?package ''dist'') wheel"
    let ?target = "slash (slash root (pb_context build)) ''dist''"
    let ?copy = "watch (mc_copy M ?path (slash ?target wheel)) (\<lambda>r. if isl r then [] else [Copied ?path (slash ?target wheel)])"
    have rest: "bnd (verify_wheel_entrypoint M ?path (pb_entry_group build) (pb_entry_name build)) (\<lambda>_.
        bnd (use (mc_mkdir M ?target)) (\<lambda>_. ?copy)) w2 = (r, w')"
      using assms 1 ok by (simp add: build_plugin_def Let_def bnd_run)
    obtain b3 w3 where 3: "verify_wheel_entrypoint M ?path (pb_entry_group build) (pb_entry_name build) w2 = (b3, w3)"
      by fastforce
    from verify_along [OF 3] obtain names member where v: "one_entry_file (wheel, names, member)"
      "along [Members ?path names, HasOption ?path member (pb_entry_group build) (pb_entry_name build) True] w2 b3 w3" by blast
    have copy: "along ([] @ [Copied ?path (slash ?target wheel)]) v r w'"
      if "bnd (use (mc_mkdir M ?target)) (\<lambda>_. ?copy) v = (r, w')" for v
      using that by (rule along_bnd)
        (auto intro: along_none dest: use_log watch_log, auto simp: along_def kept_to_def split: if_splits dest!: watch_log)
    have "along ([Members ?path names, HasOption ?path member (pb_entry_group build) (pb_entry_name build) True]
        @ [] @ [Copied ?path (slash ?target wheel)]) w2 r w'"
      using rest by (rule along_bnd) (use 3 v(2) copy in auto)
    moreover have "sh_log w2 = sh_log w1" by (rule built_wheel_log [OF ok(2)])
    ultimately have "along (plugin_events py root build (wheel, names, member)) w r w'"
      using l1 ok(1) along_append [of "[Ran (build_command py ?package) True]" w "()" w1]
      by (simp add: plugin_events_def Let_def along_def [of _ w2] along_def [of _ w1])
    with v(1) show ?thesis by blast
  qed
qed

lemma for_plugins_along:
  "for_io builds (build_plugin M py root) w = (r, w') \<Longrightarrow>
   \<exists>founds. length founds = length builds \<and> list_all one_entry_file founds
     \<and> along (concat (map2 (plugin_events py root) builds founds)) w r w'"
proof (induction builds arbitrary: w)
  case Nil
  then show ?case by (auto simp: io_run along_none)
next
  case (Cons build builds)
  obtain b w1 where b: "build_plugin M py root build w = (b, w1)" by fastforce
  from build_plugin_along [OF b] obtain found where
    f: "one_entry_file found" "along (plugin_events py root build found) w b w1" by blast
  show ?case
  proof (cases b)
    case (Inl e)
    then have "r = Inl e" "w' = w1" using Cons.prems b by (auto simp: bnd_run)
    moreover have "list_all one_entry_file (replicate (length builds) found)" using f(1) by (simp add: list_all_length)
    ultimately show ?thesis using f Inl
      by (intro exI [of _ "found # replicate (length builds) found"]) (auto intro: along_stop)
  next
    case (Inr u)
    then have "for_io builds (build_plugin M py root) w1 = (r, w')" using Cons.prems b by (simp add: bnd_run)
    from Cons.IH [OF this] obtain founds where "length founds = length builds" "list_all one_entry_file founds"
      "along (concat (map2 (plugin_events py root) builds founds)) w1 r w'" by blast
    with f Inr show ?thesis
      by (intro exI [of _ "found # founds"]) (auto intro: along_append)
  qed
qed

text \<open>
  C23. Images are built from verified wheels.  What \<open>build_images\<close> does keeps to the plan: for each
  plugin build its wheel, read the names in the wheel's archive, of which one is an entry points
  file, find the plugin's entry point in that file and copy the wheel into the image's context;
  then build the four images in order.  So an image is built, and a wheel copied, only after all
  before it succeeded: after a command that fails, an archive without exactly one entry points
  file or a wheel without its entry point nothing else is done.  On success all of it was.
\<close>

theorem images_from_verified_wheels:
  assumes "build_images M py root data w = (r, w')"
  shows "\<exists>ts. sh_log w' = sh_log w @ ts \<and> (ts \<noteq> [] \<or> isl r = False \<longrightarrow>
    (\<exists>base derived founds. image_mappings data = Inr (base, derived)
      \<and> length founds = length PLUGIN_BUILDS \<and> list_all one_entry_file founds
      \<and> kept_to (concat (map2 (plugin_events py root) PLUGIN_BUILDS founds)
          @ map (\<lambda>s. Ran (image_command root (container_engine data) base derived s) True) IMAGE_SERVICES) ts (\<not> isl r)))"
proof (cases "image_mappings data")
  case (Inl e)
  then have "w' = w \<and> isl r" using assms by (auto simp: build_images_def bnd_run lift_sum_def io_run)
  then show ?thesis by (intro exI [of _ "[]"]) simp
next
  case (Inr p)
  then obtain base derived where m: "image_mappings data = Inr (base, derived)" by (cases p) auto
  let ?cmd = "\<lambda>s. image_command root (container_engine data) base derived s"
  let ?images = "map (\<lambda>s. Ran (?cmd s) True) IMAGE_SERVICES"
  have run: "bnd (for_io PLUGIN_BUILDS (build_plugin M py root)) (\<lambda>_.
      bnd (for_io IMAGE_SERVICES (\<lambda>s. run_cmd M (?cmd s))) (\<lambda>_.
      return_io [(''built_images'', PyList (derived_images derived))])) w = (r, w')"
    using assms m by (simp add: build_images_def bnd_run lift_sum_def io_run)
  obtain b w1 where b: "for_io PLUGIN_BUILDS (build_plugin M py root) w = (b, w1)" by fastforce
  from for_plugins_along [OF b] obtain founds where founds: "length founds = length PLUGIN_BUILDS"
    "list_all one_entry_file founds" "along (concat (map2 (plugin_events py root) PLUGIN_BUILDS founds)) w b w1" by blast
  have images: "along (?images @ []) v r w'"
    if "bnd (for_io IMAGE_SERVICES (\<lambda>s. run_cmd M (?cmd s))) (\<lambda>_.
      return_io [(''built_images'', PyList (derived_images derived))]) v = (r, w')" for v
    using that by (rule along_bnd) (erule for_cmds_along, simp add: along_none io_run)
  have "along (concat (map2 (plugin_events py root) PLUGIN_BUILDS founds) @ ?images @ []) w r w'"
    using run by (rule along_bnd) (use b founds(3) images in auto)
  then show ?thesis using m founds(1,2) unfolding along_def append_Nil2 by blast
qed

theorem images_from_verified_wheels_witness:
  "\<exists>founds. sh_log (snd (build_images demo_machine ''python'' ''/r'' demo_images \<lparr>sh_state = (), sh_log = []\<rparr>))
     = concat (map2 (plugin_events ''python'' ''/r'') PLUGIN_BUILDS founds)
         @ map (\<lambda>s. Ran (image_command ''/r'' (PyStr ''podman'') demo_base demo_derived s) True) IMAGE_SERVICES
     \<and> list_all one_entry_file founds"
proof -
  let ?w = "\<lparr>sh_state = (), sh_log = []\<rparr> :: unit shop"
  obtain r w' where run: "build_images demo_machine ''python'' ''/r'' demo_images ?w = (r, w')" by fastforce
  have e: "container_engine demo_images = PyStr ''podman''" by code_simp
  have "r = Inr [(''built_images'', PyList (derived_images demo_derived))]"
    using run
    by (simp add: build_images_def demo_mappings bnd_run lift_sum_def return_run run_cmd_def use_def watch_def
        demo_machine_def PLUGIN_BUILDS_def IMAGE_SERVICES_def build_plugin_def built_wheel_def
        verify_wheel_entrypoint_def Let_def suffix_def)
  then have ok: "isl r = False" by simp
  from images_from_verified_wheels [OF run] ok demo_mappings(1) show ?thesis
    unfolding run snd_conv by (auto simp: e kept_to_def)
qed

section \<open>The exit code\<close>

text \<open>A command ends with 0 or 2, or with an exception the program does not expect.\<close>

lemma cli_exit:
  assumes "cli_main (publish_images_command M document confirm_registry) w = (r, w')"
  shows "r = Inr 0 \<or> r = Inr 2 \<or> (\<exists>e. r = Inl e \<and> \<not> is_cli_error e)"
  using assms
  by (auto simp: cli_main_def catch_io_def publish_images_command_def bnd_run lift_sum_def io_run
      split: prod.splits sum.splits if_splits)

end
