(* ===== verification/PowerOpsReport.thy ===== *)
theory PowerOpsReport
  imports PowerOpsImages Paths
begin

text \<open>
  The report of the PowerOps command line on its inputs (\<open>tools/powerops_cli.py\<close>, \<open>build_report\<close>
  and the validate command).  Reading the two files, finding the container engine and writing the
  report are functions over the state of the machine; the world collects the reports written.
  A key of the report that is not a string appears as JSON writes it.
\<close>

section \<open>The report\<close>

definition LIVE_CHECKS :: "string list" where
  "LIVE_CHECKS =
     [''kolla_deploy'', ''derived_image_build'', ''derived_image_publish'', ''ironic_api_failover'',
      ''ironic_conductor_failover'', ''redfish_power'', ''ipmi_power'', ''masakari_fencing_and_evacuation'',
      ''mistral_planned_workflows'']"

definition POWEROPS_ACTIONS :: "string list" where
  "POWEROPS_ACTIONS = map (\<lambda>a. ''powerops.'' @ a)
     [''acquire_host_lock'', ''refresh_host_lock'', ''release_host_lock'', ''resolve_host'', ''set_nova_service'',
      ''set_masakari_maintenance'', ''drain_host'', ''assert_host_empty'', ''ironic_power'', ''wait_power'',
      ''wait_nova_service'', ''verify_host_return'', ''power_status'', ''audit_event'', ''fail_safe_host'']"

definition POWEROPS_WORKFLOWS :: "string list" where
  "POWEROPS_WORKFLOWS = [''planned_power_off'', ''planned_reboot'', ''power_on_and_return'', ''host_power_status'']"

definition NOT_RUN :: pyval where
  "NOT_RUN = PyStr ''not_run: No target deployment was authorized''"

text \<open>\<open>Counter\<close>: keys are compared as Python compares them, the first spelling is kept.\<close>

fun bump :: "pyval \<Rightarrow> (pyval \<times> int) list \<Rightarrow> (pyval \<times> int) list" where
  "bump k [] = [(k, 1)]"
| "bump k ((l, n) # tally) = (if py_eq l k then (l, n + 1) # tally else (l, n) # bump k tally)"

definition node_driver :: "pyobj \<Rightarrow> pyval" where
  "node_driver node = (case map_of node ''driver'' of None \<Rightarrow> PyStr ''unknown'' | Some v \<Rightarrow> v)"

fun dicts_of :: "pyval list \<Rightarrow> pyobj list" where
  "dicts_of [] = []"
| "dicts_of (PyDict d # xs) = d # dicts_of xs"
| "dicts_of (_ # xs) = dicts_of xs"

definition driver_counts :: "pyobj list \<Rightarrow> pyexn + (pyval \<times> int) list" where
  "driver_counts nodes =
     (if list_all (\<lambda>n. hashable (node_driver n)) nodes then Inr (fold (\<lambda>n. bump (node_driver n)) nodes [])
      else Inl TypeError)"

text \<open>\<open>sorted\<close> on pairs with different keys: strings or numbers, but not both, nor several others.\<close>

fun str_key :: "pyval \<Rightarrow> string option" where
  "str_key (PyStr s) = Some s"
| "str_key _ = None"

fun int_key :: "pyval \<Rightarrow> int option" where
  "int_key (PyInt i) = Some i"
| "int_key (PyBool b) = Some (if b then 1 else 0)"
| "int_key _ = None"

definition sorted_counts :: "(pyval \<times> int) list \<Rightarrow> pyexn + (pyval \<times> int) list" where
  "sorted_counts tally =
     (if length tally \<le> 1 then Inr tally
      else if list_all (\<lambda>c. str_key (fst c) \<noteq> None) tally then Inr (sort_key (\<lambda>c. the (str_key (fst c))) tally)
      else if list_all (\<lambda>c. int_key (fst c) \<noteq> None) tally then Inr (sort_key (\<lambda>c. the (int_key (fst c))) tally)
      else Inl TypeError)"

fun json_key :: "pyval \<Rightarrow> string" where
  "json_key (PyStr s) = s"
| "json_key PyNone = ''null''"
| "json_key (PyBool b) = (if b then ''true'' else ''false'')"
| "json_key v = py_str v"

definition port_count :: "pyobj list \<Rightarrow> pyexn + int" where
  "port_count nodes =
     fold (\<lambda>n r. case r of Inl e \<Rightarrow> Inl e
                 | Inr k \<Rightarrow> (if \<not> truthy (dget n ''ports'') then Inr k
                            else map_sum id (\<lambda>ps. k + int (length ps)) (val_iter (dget n ''ports'')))) nodes (Inr 0)"

definition live_validation :: "bool \<Rightarrow> pyval" where
  "live_validation engine_available =
     PyDict (map (\<lambda>name. (name,
       if \<not> engine_available \<and> name = ''derived_image_build''
       then PyStr ''not_run: configured container engine is unavailable''
       else if \<not> engine_available \<and> name = ''derived_image_publish''
       then PyStr ''not_run: derived images were not built''
       else NOT_RUN)) LIVE_CHECKS)"

definition build_report :: "pyobj \<Rightarrow> string list \<Rightarrow> pyexn + pyobj" where
  "build_report data errors =
     (case val_iter (config_nodes data) of Inl e \<Rightarrow> Inl e | Inr nodes \<Rightarrow>
     (case driver_counts (dicts_of nodes) of Inl e \<Rightarrow> Inl e | Inr tally \<Rightarrow>
     (case port_count (dicts_of nodes) of Inl e \<Rightarrow> Inl e | Inr ports \<Rightarrow>
     (case sorted_counts tally of Inl e \<Rightarrow> Inl e | Inr tally \<Rightarrow>
        Inr [(''local_validation'', PyDict
               [(''status'', PyStr (if errors \<noteq> [] then ''failed'' else ''passed'')),
                (''errors'', PyList (map PyStr errors))]),
             (''inventory'', PyDict
               [(''node_count'', PyInt (int (length nodes))), (''port_count'', PyInt ports),
                (''driver_counts'', PyDict (map (\<lambda>(k, n). (json_key k, PyInt n)) tally))]),
             (''automation'', PyDict
               [(''action_count'', PyInt (int (length POWEROPS_ACTIONS))),
                (''workflow_count'', PyInt (int (length POWEROPS_WORKFLOWS)))]),
             (''live_validation'', live_validation True)]))))"

section \<open>The command\<close>

record 's desk =
  dk_state :: 's
  dk_reports :: "pyobj list"

type_synonym ('s, 'a) desk_job = "('s desk, 'a) io"

text \<open>\<open>ds_which\<close> is \<open>shutil.which(engine) is not None\<close>; \<open>ds_write\<close> makes the directory and writes the file.\<close>

record 's desk_tools =
  ds_config :: "('s, pyval) tool"
  ds_inventory :: "('s, string) tool"
  ds_which :: "string \<Rightarrow> ('s, bool) tool"
  ds_write :: "pyobj \<Rightarrow> ('s, unit) tool"

definition at_desk :: "('s, 'a) tool \<Rightarrow> ('s, 'a) desk_job" where
  "at_desk f = (\<lambda>w. case f (dk_state w) of (r, s) \<Rightarrow> (r, w\<lparr>dk_state := s\<rparr>))"

definition write_report :: "'s desk_tools \<Rightarrow> pyobj \<Rightarrow> ('s, unit) desk_job" where
  "write_report T report =
     bnd (at_desk (ds_write T report)) (\<lambda>_. modify_io (\<lambda>w. w\<lparr>dk_reports := dk_reports w @ [report]\<rparr>))"

definition find_engine :: "'s desk_tools \<Rightarrow> pyval \<Rightarrow> ('s, bool) desk_job" where
  "find_engine T engine = (case engine of PyStr e \<Rightarrow> at_desk (ds_which T e) | _ \<Rightarrow> raise_io TypeError)"

definition validate_document :: "'s desk_tools \<Rightarrow> pyval \<Rightarrow> ('s, int) desk_job" where
  "validate_document T document =
     bnd (lift_sum (config_root document)) (\<lambda>data.
     bnd (at_desk (ds_inventory T)) (\<lambda>inventory_text.
     bnd (lift_sum (validate_config data inventory_text)) (\<lambda>errors.
     bnd (lift_sum (build_report data errors)) (\<lambda>report.
     bnd (find_engine T (container_engine data)) (\<lambda>available.
     bnd (write_report T (AList.update ''live_validation'' (live_validation available) report)) (\<lambda>_.
     return_io (if errors \<noteq> [] then 2 else 0)))))))"

definition validate_command :: "'s desk_tools \<Rightarrow> ('s, int) desk_job" where
  "validate_command T = bnd (at_desk (ds_config T)) (validate_document T)"

section \<open>What the report says\<close>

lemma at_desk_run: "at_desk f w = (case f (dk_state w) of (r, s) \<Rightarrow> (r, w\<lparr>dk_state := s\<rparr>))"
  by (simp add: at_desk_def)

lemma lift_sum_Inr: "lift_sum r w = (Inr a, w') \<longleftrightarrow> r = Inr a \<and> w' = w"
  by (auto simp: lift_sum_def io_run split: sum.splits)

lemma find_engine_reports: "find_engine T engine w = (r, w') \<Longrightarrow> dk_reports w' = dk_reports w"
  by (auto simp: find_engine_def at_desk_run io_run split: pyval.splits prod.splits)

lemma write_report_InrD: "write_report T report w = (Inr u, w') \<Longrightarrow> dk_reports w' = dk_reports w @ [report]"
  unfolding write_report_def by (erule bnd_InrD) (auto simp: at_desk_run modify_run split: prod.splits)

lemma build_report_sections:
  "build_report data errors = Inr report \<Longrightarrow>
     map_of report ''local_validation'' = Some (PyDict
       [(''status'', PyStr (if errors \<noteq> [] then ''failed'' else ''passed'')), (''errors'', PyList (map PyStr errors))])"
  by (auto simp: build_report_def split: sum.splits)

lemma live_not_run:
  "c \<in> set LIVE_CHECKS \<Longrightarrow>
     \<exists>s. val_path (live_validation available) [c] = Inr (PyStr s) \<and> prefix ''not_run'' s"
  unfolding LIVE_CHECKS_def by (cases available) (auto simp: live_validation_def LIVE_CHECKS_def NOT_RUN_def)

text \<open>
  A finished validation wrote one report.  It says \<open>passed\<close> exactly when there is no violation,
  and then the command ends with 0, otherwise with 2; it lists the violations and claims no check of
  the live deployment.
\<close>

lemma report_is_true:
  assumes "validate_document T document w = (Inr n, w')"
  shows "\<exists>data inventory_text errors report.
    config_root document = Inr data \<and> fst (ds_inventory T (dk_state w)) = Inr inventory_text
    \<and> validate_config data inventory_text = Inr errors \<and> dk_reports w' = dk_reports w @ [report]
    \<and> n = (if errors = [] then 0 else 2)
    \<and> val_path (PyDict report) [''local_validation'', ''status''] = Inr (PyStr (if errors = [] then ''passed'' else ''failed''))
    \<and> val_path (PyDict report) [''local_validation'', ''errors''] = Inr (PyList (map PyStr errors))
    \<and> (\<forall>c \<in> set LIVE_CHECKS. \<exists>s. val_path (PyDict report) [''live_validation'', c] = Inr (PyStr s) \<and> prefix ''not_run'' s)"
proof -
  from assms obtain data w1 where data: "lift_sum (config_root document) w = (Inr data, w1)"
    and r1: "bnd (at_desk (ds_inventory T)) (\<lambda>inventory_text.
       bnd (lift_sum (validate_config data inventory_text)) (\<lambda>errors.
       bnd (lift_sum (build_report data errors)) (\<lambda>report.
       bnd (find_engine T (container_engine data)) (\<lambda>available.
       bnd (write_report T (AList.update ''live_validation'' (live_validation available) report)) (\<lambda>_.
       return_io (if errors \<noteq> [] then 2 else 0)))))) w1 = (Inr n, w')"
    unfolding validate_document_def by (rule bnd_InrD)
  from r1 obtain inv w2 where inv: "at_desk (ds_inventory T) w1 = (Inr inv, w2)"
    and r2: "bnd (lift_sum (validate_config data inv)) (\<lambda>errors.
       bnd (lift_sum (build_report data errors)) (\<lambda>report.
       bnd (find_engine T (container_engine data)) (\<lambda>available.
       bnd (write_report T (AList.update ''live_validation'' (live_validation available) report)) (\<lambda>_.
       return_io (if errors \<noteq> [] then 2 else 0))))) w2 = (Inr n, w')"
    by (rule bnd_InrD)
  from r2 obtain errors w3 where errors: "lift_sum (validate_config data inv) w2 = (Inr errors, w3)"
    and r3: "bnd (lift_sum (build_report data errors)) (\<lambda>report.
       bnd (find_engine T (container_engine data)) (\<lambda>available.
       bnd (write_report T (AList.update ''live_validation'' (live_validation available) report)) (\<lambda>_.
       return_io (if errors \<noteq> [] then 2 else 0)))) w3 = (Inr n, w')"
    by (rule bnd_InrD)
  from r3 obtain report w4 where report: "lift_sum (build_report data errors) w3 = (Inr report, w4)"
    and r4: "bnd (find_engine T (container_engine data)) (\<lambda>available.
       bnd (write_report T (AList.update ''live_validation'' (live_validation available) report)) (\<lambda>_.
       return_io (if errors \<noteq> [] then 2 else 0))) w4 = (Inr n, w')"
    by (rule bnd_InrD)
  from r4 obtain available w5 where available: "find_engine T (container_engine data) w4 = (Inr available, w5)"
    and r5: "bnd (write_report T (AList.update ''live_validation'' (live_validation available) report)) (\<lambda>_.
       return_io (if errors \<noteq> [] then 2 else 0)) w5 = (Inr n, w')"
    by (rule bnd_InrD)
  have d: "config_root document = Inr data" "w1 = w" using data by (simp_all add: lift_sum_Inr)
  have i: "fst (ds_inventory T (dk_state w)) = Inr inv" "dk_reports w2 = dk_reports w" using inv d(2) by (auto simp: at_desk_run split: prod.splits)
  have e: "validate_config data inv = Inr errors" "w3 = w2" using errors by (simp_all add: lift_sum_Inr)
  have r: "build_report data errors = Inr report" "w4 = w3" using report by (simp_all add: lift_sum_Inr)
  have a: "dk_reports w5 = dk_reports w4" by (rule find_engine_reports [OF available])
  let ?report = "AList.update ''live_validation'' (live_validation available) report"
  from r5 obtain u w6 where w6: "write_report T ?report w5 = (Inr u, w6)"
    and out: "return_io (if errors \<noteq> [] then 2 else 0) w6 = (Inr n, w')"
    by (rule bnd_InrD)
  have w': "dk_reports w' = dk_reports w @ [?report]" and n: "n = (if errors = [] then 0 else 2)"
    using out write_report_InrD [OF w6] i(2) e(2) r(2) a by (simp_all add: return_run split: if_splits)
  have sections: "map_of report ''local_validation'' = Some (PyDict
       [(''status'', PyStr (if errors \<noteq> [] then ''failed'' else ''passed'')), (''errors'', PyList (map PyStr errors))])"
    by (rule build_report_sections [OF r(1)])
  have status: "val_path (PyDict ?report) [''local_validation'', ''status''] = Inr (PyStr (if errors = [] then ''passed'' else ''failed''))"
    and listed: "val_path (PyDict ?report) [''local_validation'', ''errors''] = Inr (PyList (map PyStr errors))"
    using sections by simp_all
  have "val_path (PyDict ?report) [''live_validation'', c] = val_path (live_validation available) [c]" for c
    by simp
  then have live: "\<forall>c \<in> set LIVE_CHECKS. \<exists>s. val_path (PyDict ?report) [''live_validation'', c] = Inr (PyStr s) \<and> prefix ''not_run'' s"
    using live_not_run by metis
  show ?thesis using d(1) i(1) e(1) w' n status listed live by blast
qed

section \<open>Credentials\<close>

lemma dicts_of_other: "dicts_of (map (other_node f) nodes)
    = map (map (\<lambda>(k, v). (k, if k = ''driver_info'' then other_info f v else v))) (dicts_of nodes)"
  by (induction nodes rule: dicts_of.induct) (auto simp: other_node_def)

lemma map_of_other_node:
  "k \<noteq> ''driver_info'' \<Longrightarrow> map_of (map (\<lambda>(k, v). (k, if k = ''driver_info'' then other_info f v else v)) d) k = map_of d k"
  by (induction d) auto

lemma fold_map_cong: "(\<And>x. x \<in> set xs \<Longrightarrow> g (h x) = g x) \<Longrightarrow> fold g (map h xs) a = fold g xs a"
  by (induction xs arbitrary: a) auto

lemma nodes_other:
  "driver_counts (dicts_of (map (other_node f) nodes)) = driver_counts (dicts_of nodes)"
  "port_count (dicts_of (map (other_node f) nodes)) = port_count (dicts_of nodes)"
proof -
  let ?other = "map (\<lambda>(k, v). (k, if k = ''driver_info'' then other_info f v else v))"
  have "dget (?other n) ''ports'' = dget n ''ports''" "node_driver (?other n) = node_driver n" for n
    by (simp_all add: dget_def node_driver_def map_of_other_node)
  then show "driver_counts (dicts_of (map (other_node f) nodes)) = driver_counts (dicts_of nodes)"
    "port_count (dicts_of (map (other_node f) nodes)) = port_count (dicts_of nodes)"
    by (simp_all only: driver_counts_def port_count_def dicts_of_other fold_map list_all_iff comp_def set_map ball_simps)
qed

lemma config_nodes_other:
  "config_nodes (other_credentials f data) = (case config_nodes data of PyList nodes \<Rightarrow> PyList (map (other_node f) nodes) | v \<Rightarrow> v)"
proof -
  let ?g = "\<lambda>k v. if k = ''powerops_ironic_nodes'' then (case v of PyList nodes \<Rightarrow> PyList (map (other_node f) nodes) | _ \<Rightarrow> v) else v"
  have "dget (other_credentials f data) ''powerops_ironic_nodes'' = (case map_of data ''powerops_ironic_nodes'' of
      None \<Rightarrow> PyNone | Some v \<Rightarrow> (case v of PyList nodes \<Rightarrow> PyList (map (other_node f) nodes) | _ \<Rightarrow> v))"
    by (simp add: other_credentials_def dget_map [where g = ?g] split: option.splits)
  then show ?thesis by (simp add: config_nodes_def dget_def split: option.splits pyval.splits)
qed

lemma build_report_other: "build_report (other_credentials f data) errors = build_report data errors"
  unfolding build_report_def config_nodes_other
  by (cases "config_nodes data") (simp_all only: pyval.case val_iter.simps nodes_other sum.case length_map)

text \<open>
  C14. The report reveals no credentials: with any other user names and passwords in the same
  places (none emptied, none filled in) the command behaves alike and writes the same report.
\<close>

theorem report_hides_credentials:
  assumes "\<And>v. truthy (f v) = truthy v"
  shows "validate_document T (PyDict (other_credentials f data)) w = validate_document T (PyDict data) w"
proof -
  let ?g = "\<lambda>k v. if k = ''powerops_ironic_nodes'' then (case v of PyList nodes \<Rightarrow> PyList (map (other_node f) nodes) | _ \<Rightarrow> v) else v"
  have root: "config_root (PyDict (other_credentials f d)) = Inr (other_credentials f d)" "config_root (PyDict d) = Inr d" for d
    by (simp_all add: config_root_def other_credentials_def)
  have "map_of (other_credentials f data) ''kolla_container_engine'' = map_of data ''kolla_container_engine''"
    unfolding other_credentials_def by (induction data) auto
  then have engine: "container_engine (other_credentials f data) = container_engine data"
    by (simp add: container_engine_def)
  show ?thesis
    unfolding validate_document_def root
    by (simp add: lift_sum_def io_run validation_hides_credentials [OF assms] build_report_other engine)
qed

definition demo_desk :: "unit desk_tools" where
  "demo_desk = \<lparr>ds_config = (\<lambda>s. (Inr (PyDict demo_config), s)), ds_inventory = (\<lambda>s. (Inr demo_inventory, s)),
     ds_which = (\<lambda>e s. (Inr False, s)), ds_write = (\<lambda>r s. (Inr (), s))\<rparr>"

theorem report_hides_credentials_witness:
  "validate_document demo_desk (PyDict (other_credentials (\<lambda>v. if truthy v then PyStr ''x'' else v) demo_config)) \<lparr>dk_state = (), dk_reports = []\<rparr>
     = validate_document demo_desk (PyDict demo_config) \<lparr>dk_state = (), dk_reports = []\<rparr>"
  by (rule report_hides_credentials) simp

lemma demo_report: "\<exists>w'. validate_document demo_desk (PyDict demo_config) \<lparr>dk_state = (), dk_reports = []\<rparr> = (Inr 0, w')"
proof -
  have "\<exists>report. build_report demo_config [] = Inr report"
    by (simp add: build_report_def config_nodes_def demo_config_def demo_config_node_def dget_def driver_counts_def
        port_count_def node_driver_def hashable_def sorted_counts_def REQUIRED_SERVICES_def)
  moreover have "config_root (PyDict demo_config) = Inr demo_config" by (simp add: config_root_def demo_config_def)
  moreover have "container_engine demo_config = PyStr ''podman''" by (simp add: container_engine_def demo_config_def REQUIRED_SERVICES_def)
  ultimately show ?thesis
    by (auto simp: validate_document_def demo_desk_def lift_sum_def io_run bnd_run at_desk_run demo_config_valid
        find_engine_def write_report_def modify_run)
qed

lemma report_is_true_witness:
  "\<exists>report errors. val_path (PyDict report) [''local_validation'', ''status''] = Inr (PyStr (if errors = [] then ''passed'' else ''failed''))
     \<and> validate_config demo_config demo_inventory = Inr errors \<and> (0 :: int) = (if errors = [] then 0 else 2)"
proof -
  obtain w' where run: "validate_document demo_desk (PyDict demo_config) \<lparr>dk_state = (), dk_reports = []\<rparr> = (Inr 0, w')"
    using demo_report by blast
  have "config_root (PyDict demo_config) = Inr demo_config" by (simp add: config_root_def demo_config_def)
  moreover have "fst (ds_inventory demo_desk ()) = Inr demo_inventory" by (simp add: demo_desk_def)
  ultimately show ?thesis using report_is_true [OF run] by fastforce
qed

section \<open>A report that is not written\<close>

lemma val_iter_TypeError: "map_sum id g (val_iter v) = Inl e \<Longrightarrow> e = TypeError"
  by (cases v) auto

text \<open>
  A node with an empty driver beside a good one is a violation to be reported, but the drivers
  cannot be sorted for the report: the command ends with a TypeError that \<open>main\<close> does not handle.
\<close>

lemma empty_driver_unreported:
  assumes "map_of n ''driver'' = Some PyNone" "map_of m ''driver'' = Some (PyStr ''redfish'')"
    and "config_nodes data = PyList [PyDict n, PyDict m]"
  shows "build_report data errors = Inl TypeError"
  using assms
  by (simp add: build_report_def driver_counts_def node_driver_def hashable_def sorted_counts_def
      split: sum.splits) (auto simp: port_count_def split: sum.splits dest!: val_iter_TypeError)

end
