(* ===== verification/PowerOpsCommands.thy ===== *)
theory PowerOpsCommands
  imports ArgParse PowerOpsImages PowerOpsReport
begin

text \<open>
  The command line of \<open>tools/powerops_cli.py\<close>: its parser with three subcommands, and a run
  from the words to the exit code.  \<open>root\<close> is the repository's directory.
\<close>

section \<open>The subcommands\<close>

definition cli_option :: "string list \<Rightarrow> string \<Rightarrow> pyval \<Rightarrow> bool \<Rightarrow> option_spec" where
  "cli_option names dest initial required =
     \<lparr>os_names = names, os_dest = dest, os_action = StoreWord, os_default = initial, os_required = required\<rparr>"

definition configdir_option :: "string \<Rightarrow> option_spec" where
  "configdir_option root = cli_option [''--configdir''] ''configdir'' (PyStr (slash root ''etc/kolla'')) False"

datatype powerops_command =
    Validate string "string option" string
  | BuildImages string
  | PublishImages string string

definition text_at :: "pyobj \<Rightarrow> string \<Rightarrow> string" where
  "text_at ns d = py_str (dget ns d)"

record subcommand =
  sc_options :: "option_spec list"
  sc_command :: "pyobj \<Rightarrow> powerops_command"

definition validate_subcommand :: "string \<Rightarrow> subcommand" where
  "validate_subcommand root =
     \<lparr>sc_options = [help_option, configdir_option root, cli_option [''--inventory''] ''inventory'' PyNone False,
        cli_option [''--report''] ''report'' (PyStr (slash root ''reports/powerops-validation.json'')) False],
      sc_command = (\<lambda>ns. Validate (text_at ns ''configdir'')
        (case dget ns ''inventory'' of PyStr s \<Rightarrow> Some s | _ \<Rightarrow> None) (text_at ns ''report''))\<rparr>"

definition build_subcommand :: "string \<Rightarrow> subcommand" where
  "build_subcommand root =
     \<lparr>sc_options = [help_option, configdir_option root], sc_command = (\<lambda>ns. BuildImages (text_at ns ''configdir''))\<rparr>"

definition publish_subcommand :: "string \<Rightarrow> subcommand" where
  "publish_subcommand root =
     \<lparr>sc_options = [help_option, configdir_option root, cli_option [''--confirm-registry''] ''confirm_registry'' PyNone True],
      sc_command = (\<lambda>ns. PublishImages (text_at ns ''configdir'') (text_at ns ''confirm_registry''))\<rparr>"

definition subcommands :: "string \<Rightarrow> (string \<times> subcommand) list" where
  "subcommands root =
     [(''validate'', validate_subcommand root), (''build-images'', build_subcommand root),
      (''publish-images'', publish_subcommand root)]"

section \<open>The parser\<close>

text \<open>
  The words up to the subcommand: options the main parser does not know are an error in the end,
  but the subcommand is parsed before.
\<close>

fun find_command :: "bool \<Rightarrow> string list \<Rightarrow> pyexn + (string \<times> string list \<times> bool)" where
  "find_command extras [] = usage_error"
| "find_command extras (arg # rest) =
     (if arg = ''--'' then usage_error
      else case read_arg [help_option] arg of
        Word \<Rightarrow> Inr (arg, rest, extras)
      | Hit sp name att \<Rightarrow>
          (case settle (option_names [help_option]) sp name att of
             Refused \<Rightarrow> usage_error
           | _ \<Rightarrow> Inl (usage_exit 0))
      | _ \<Rightarrow> find_command True rest)"

definition powerops_parse :: "string \<Rightarrow> string list \<Rightarrow> pyexn + powerops_command" where
  "powerops_parse root argv =
     (case find_command False argv of
        Inl e \<Rightarrow> Inl e
      | Inr (name, rest, extras) \<Rightarrow>
          (case map_of (subcommands root) name of
             None \<Rightarrow> usage_error
           | Some sc \<Rightarrow>
               (case parse_args (sc_options sc) rest of
                  Inl e \<Rightarrow> Inl e
                | Inr ns \<Rightarrow> if extras then usage_error else Inr (sc_command sc ns))))"

section \<open>A run\<close>

text \<open>
  The world of the image commands and that of the validation.  \<open>load\<close> reads the document of a
  configuration directory; \<open>desk\<close> gives the tools for its directory, inventory and report.
\<close>

record ('i, 'd) cli_world =
  cw_images :: 'i
  cw_desk :: 'd

definition at_images :: "('i, 'a) io \<Rightarrow> (('i, 'd) cli_world, 'a) io" where
  "at_images m = (\<lambda>w. case m (cw_images w) of (r, i) \<Rightarrow> (r, w\<lparr>cw_images := i\<rparr>))"

definition at_reports :: "('d, 'a) io \<Rightarrow> (('i, 'd) cli_world, 'a) io" where
  "at_reports m = (\<lambda>w. case m (cw_desk w) of (r, d) \<Rightarrow> (r, w\<lparr>cw_desk := d\<rparr>))"

definition run_subcommand ::
  "'s machine \<Rightarrow> string \<Rightarrow> string \<Rightarrow> (string \<Rightarrow> ('s, pyval) job) \<Rightarrow> (string \<Rightarrow> string option \<Rightarrow> string \<Rightarrow> ('d, int) desk_job)
    \<Rightarrow> powerops_command \<Rightarrow> (_, int) io" where
  "run_subcommand M py root load desk c =
     (case c of
        Validate configdir inventory report \<Rightarrow>
          at_reports (catch_io (desk configdir inventory report) is_cli_error (\<lambda>_. return_io 2))
      | BuildImages configdir \<Rightarrow> at_images (cli_main (bnd (load configdir) (build_images_command M py root)))
      | PublishImages configdir confirm_registry \<Rightarrow>
          at_images (cli_main (bnd (load configdir) (\<lambda>document. publish_images_command M document confirm_registry))))"

definition powerops_main ::
  "'s machine \<Rightarrow> string \<Rightarrow> string \<Rightarrow> (string \<Rightarrow> ('s, pyval) job) \<Rightarrow> (string \<Rightarrow> string option \<Rightarrow> string \<Rightarrow> ('d, int) desk_job)
    \<Rightarrow> string list \<Rightarrow> (_, int) io" where
  "powerops_main M py root load desk argv =
     bnd (lift_sum (powerops_parse root argv)) (run_subcommand M py root load desk)"

section \<open>What the parser lets through\<close>

lemma powerops_parse_exit: "powerops_parse root argv = Inl e \<Longrightarrow> e \<in> {usage_exit 0, usage_exit 2}"
proof -
  have "find_command b ws = Inl e' \<Longrightarrow> e' \<in> {usage_exit 0, usage_exit 2}" for b ws e'
    by (induction b ws rule: find_command.induct) (auto split: if_splits reading.splits settled.splits)
  then show "powerops_parse root argv = Inl e \<Longrightarrow> e \<in> {usage_exit 0, usage_exit 2}"
    by (auto simp: powerops_parse_def split: sum.splits option.splits if_splits dest: parse_args_exit)
qed

text \<open>Wrong words touch nothing: the program leaves with the usage status or after the help text.\<close>

lemma bad_words_do_nothing:
  "powerops_parse root argv = Inl e \<Longrightarrow>
     \<exists>n \<in> {0, 2}. powerops_main M py root load desk argv w = (Inl (usage_exit n), w)"
  using powerops_parse_exit [of root argv e] by (auto simp: powerops_main_def lift_sum_def raise_run)

text \<open>Publishing asks for the registry: it is never published without one on the command line.\<close>

lemma publish_without_registry:
  "powerops_parse root [''publish-images''] = usage_error"
  by (simp add: powerops_parse_def subcommands_def publish_subcommand_def read_arg_def parse_args_def cli_option_def)

lemma publish_words:
  assumes "registry = [] \<or> hd registry \<noteq> CHR ''-''"
  shows "powerops_parse root [''publish-images'', ''--confirm-registry'', registry]
    = Inr (PublishImages (slash root ''etc/kolla'') registry)"
proof -
  let ?specs = "sc_options (publish_subcommand root)"
  have r: "read_arg ?specs registry = Word" "registry \<noteq> ''--''" using assms by (auto simp: read_arg_def)
  have o: "read_arg ?specs ''--confirm-registry'' = Hit (cli_option [''--confirm-registry''] ''confirm_registry'' PyNone True)
      ''--confirm-registry'' Nothing"
    by (simp add: read_arg_def publish_subcommand_def option_names_def cli_option_def configdir_option_def help_option_def)
  show ?thesis
    by (simp add: powerops_parse_def subcommands_def read_arg_def [of "[help_option]"])
      (simp add: parse_args_def r o,
        simp add: publish_subcommand_def cli_option_def takes_value_def store_def option_defaults_def configdir_option_def
          help_option_def in_dict_def text_at_def dget_def)
qed

end
