(* ===== verification/MasakariSegment.thy ===== *)
theory MasakariSegment
  imports Reconcile
begin

text \<open>
  The module powerops_masakari_segment
  (\<open>ansible/roles/powerops/library/powerops_masakari_segment.py\<close>): the normalisation of the
  desired segment and its reconciliation.  Names of hosts in the API are strings.
\<close>

section \<open>The specification\<close>

record segment_spec =
  sg_name :: string
  sg_method :: string
  sg_description :: string
  sg_hosts :: "pyobj list"

definition normalize_host :: "string list \<Rightarrow> pyval \<Rightarrow> pyexn + pyobj" where
  "normalize_host names raw_host =
     (case raw_host of
        PyDict h \<Rightarrow>
          (let host_name = py_strip (str_or (dget h ''name'') []);
               control_attributes = py_strip (str_or (dget h ''control_attributes'') [])
           in if host_name = [] then reconciliation_error ''segment host name is required''
              else if host_name \<in> set names
              then reconciliation_error (''duplicate desired Masakari host '' @ host_name)
              else if py_upper (str_or (dget h ''type'') ''COMPUTE'') \<noteq> ''COMPUTE''
              then reconciliation_error ''host type must be COMPUTE''
              else if control_attributes = [] then reconciliation_error ''host control_attributes are required''
              else Inr [(''name'', PyStr host_name), (''type'', PyStr ''COMPUTE''),
                        (''control_attributes'', PyStr control_attributes),
                        (''reserved'', PyBool (truthy (dget h ''reserved''))),
                        (''on_maintenance'', PyBool (truthy (dget h ''on_maintenance'')))])
      | _ \<Rightarrow> reconciliation_error ''every segment host must be a mapping'')"

definition host_name_of :: "pyobj \<Rightarrow> string" where
  "host_name_of h = py_str (dget h ''name'')"

fun normalize_hosts :: "string list \<Rightarrow> pyval list \<Rightarrow> pyexn + pyobj list" where
  "normalize_hosts names [] = Inr []"
| "normalize_hosts names (raw # rest) =
     (case normalize_host names raw of
        Inl e \<Rightarrow> Inl e
      | Inr h \<Rightarrow>
          (case normalize_hosts (host_name_of h # names) rest of Inl e \<Rightarrow> Inl e | Inr hs \<Rightarrow> Inr (h # hs)))"

definition normalize_segment_spec :: "pyval \<Rightarrow> pyexn + segment_spec" where
  "normalize_segment_spec raw =
     (case raw of
        PyDict d \<Rightarrow>
          (let name = py_strip (str_or (dget d ''name'') []);
               recovery_method = py_lower (str_or (dget d ''recovery_method'') [])
           in if name = [] then reconciliation_error ''segment name is required''
              else if py_upper (str_or (dget d ''service_type'') []) \<noteq> ''COMPUTE''
              then reconciliation_error ''segment service_type must be COMPUTE''
              else if recovery_method \<notin> {''auto'', ''reserved_host''}
              then reconciliation_error ''recovery_method must be auto or reserved_host''
              else (case py_iter (dget d ''hosts'') of Inl e \<Rightarrow> Inl e | Inr raws \<Rightarrow>
                   (case normalize_hosts [] raws of
                      Inl e \<Rightarrow> Inl e
                    | Inr [] \<Rightarrow> reconciliation_error ''at least one segment host is required''
                    | Inr hosts \<Rightarrow>
                        Inr \<lparr>sg_name = name, sg_method = recovery_method,
                             sg_description = str_or (dget d ''description'') [], sg_hosts = hosts\<rparr>)))
      | _ \<Rightarrow> reconciliation_error ''segment specification must be a mapping'')"

section \<open>Reconciliation\<close>

record 's masakari =
  mk_segments :: "('s, pyobj list) acall"
  mk_create_segment :: "pyobj \<Rightarrow> ('s, pyobj) acall"
  mk_update_segment :: "pyobj \<Rightarrow> pyobj \<Rightarrow> ('s, pyobj) acall"
  mk_hosts :: "pyobj \<Rightarrow> ('s, pyobj list) acall"
  mk_create_host :: "pyobj \<Rightarrow> pyobj \<Rightarrow> ('s, unit) acall"
  mk_update_host :: "pyobj \<Rightarrow> pyval \<Rightarrow> pyobj \<Rightarrow> ('s, unit) acall"

definition segment_fields :: "segment_spec \<Rightarrow> pyobj" where
  "segment_fields spec = [(''recovery_method'', PyStr (sg_method spec)), (''description'', PyStr (sg_description spec))]"

fun index_hosts :: "pyobj list \<Rightarrow> (pyval, pyobj) pydict \<Rightarrow> pyexn + (pyval, pyobj) pydict" where
  "index_hosts [] existing = Inr existing"
| "index_hosts (host # hosts) existing =
     (if in_dict (dget host ''name'') existing
      then reconciliation_error (''duplicate existing Masakari host '' @ py_str (dget host ''name''))
      else index_hosts hosts (AList.update (dget host ''name'') host existing))"

text \<open>The loop over the desired hosts, with the number of hosts changed.\<close>

fun reconcile_hosts ::
  "'s masakari \<Rightarrow> bool \<Rightarrow> pyobj \<Rightarrow> (pyval, pyobj) pydict \<Rightarrow> pyobj list \<Rightarrow> nat \<Rightarrow> ('s, nat) api" where
  "reconcile_hosts C check segment existing [] n = return_io n"
| "reconcile_hosts C check segment existing (desired # rest) n =
     (case map_of existing (dget desired ''name'') of
        None \<Rightarrow>
          bnd (write_unless check ''create_host'' [segment, desired] (mk_create_host C segment desired) ()) (\<lambda>_.
          reconcile_hosts C check segment existing rest (n + 1))
      | Some host \<Rightarrow>
          (let updates = differing host (filter (\<lambda>kv. fst kv \<noteq> ''name'') desired)
           in if updates = [] then reconcile_hosts C check segment existing rest n
              else
                bnd (write_unless check ''update_host'' [host, updates]
                       (mk_update_host C host (dget segment ''id'') updates) ()) (\<lambda>_.
                reconcile_hosts C check segment existing rest (n + 1))))"

definition extra_hosts :: "(pyval, pyobj) pydict \<Rightarrow> pyobj list \<Rightarrow> pyval" where
  "extra_hosts existing desired =
     PyList (map PyStr (sort (map py_str
       (filter (\<lambda>k. k \<notin> (\<lambda>h. dget h ''name'') ` set desired) (dict_keys existing)))))"

definition segment_result :: "bool \<Rightarrow> string \<Rightarrow> pyval \<Rightarrow> nat \<Rightarrow> pyval \<Rightarrow> pyobj" where
  "segment_result changed name uuid n extra =
     [(''changed'', PyBool changed), (''segment'', PyStr name), (''segment_uuid'', uuid),
      (''hosts_changed'', PyInt (int n)), (''extra_hosts'', extra)]"

text \<open>From the segment on: its fields, then its hosts.\<close>

definition reconcile_existing ::
  "'s masakari \<Rightarrow> bool \<Rightarrow> segment_spec \<Rightarrow> bool \<Rightarrow> pyobj \<Rightarrow> ('s, pyobj) api" where
  "reconcile_existing C check spec created segment =
     (let updates = differing segment (segment_fields spec)
      in bnd (if updates = [] then return_io segment
              else write_unless check ''update_segment'' [segment, updates]
                     (mk_update_segment C segment updates) segment) (\<lambda>segment.
         bnd (fetch ''hosts'' (mk_hosts C segment)) (\<lambda>hosts.
         bnd (lift_sum (index_hosts hosts [])) (\<lambda>existing.
         bnd (reconcile_hosts C check segment existing (sg_hosts spec) 0) (\<lambda>n.
         return_io (segment_result (created \<or> updates \<noteq> [] \<or> n > 0) (sg_name spec)
           (case map_of segment ''uuid'' of None \<Rightarrow> dget segment ''id'' | Some v \<Rightarrow> v) n
           (extra_hosts existing (sg_hosts spec))))))))"

definition reconcile_segment :: "'s masakari \<Rightarrow> pyval \<Rightarrow> bool \<Rightarrow> ('s, pyobj) api" where
  "reconcile_segment C raw_spec check =
     bnd (lift_sum (normalize_segment_spec raw_spec)) (\<lambda>spec.
     bnd (fetch ''segments'' (mk_segments C)) (\<lambda>segments.
     case filter (\<lambda>s. value_is s ''name'' (PyStr (sg_name spec))) segments of
       [] \<Rightarrow>
         (if check then
            return_io (segment_result True (sg_name spec) PyNone (length (sg_hosts spec)) (PyList []))
          else
            bnd (put_call ''create_segment'' [segment_fields spec]
                   (mk_create_segment C ([(''name'', PyStr (sg_name spec)), (''service_type'', PyStr ''COMPUTE'')]
                      @ segment_fields spec))) (\<lambda>segment.
            reconcile_existing C check spec True segment))
     | [segment] \<Rightarrow>
         (if \<not> value_is segment ''service_type'' (PyStr ''COMPUTE'')
          then raise_io (ReconciliationError ''existing segment service_type is not COMPUTE'')
          else reconcile_existing C check spec False segment)
     | _ \<Rightarrow> raise_io (ReconciliationError (''expected exactly one Masakari segment named '' @ sg_name spec))))"

section \<open>What is reported is what was written\<close>

lemma reconcile_hosts_counts:
  "counts check (\<lambda>k m. n \<le> k \<and> (\<not> check \<longrightarrow> m = k - n)) (reconcile_hosts C check segment existing desired n)"
proof (induction desired arbitrary: n)
  case Nil
  show ?case by (simp add: counts_return)
next
  case (Cons d desired)
  have step: "counts check (\<lambda>k m. n \<le> k \<and> (\<not> check \<longrightarrow> m = k - n))
      (bnd (write_unless check m args f ()) (\<lambda>_. reconcile_hosts C check segment existing desired (n + 1)))" for m args f
    by (rule counts_bnd, rule counts_unless, rule counts_mono, rule Cons.IH) auto
  show ?case using Cons.IH step by (simp add: Let_def split: option.splits)
qed

lemma reconcile_existing_counts:
  "counts check (\<lambda>a m. (bool_field a ''changed'' \<longleftrightarrow>
        created \<or> differing segment (segment_fields spec) \<noteq> [] \<or> nat_field a ''hosts_changed'' > 0) \<and>
      (\<not> check \<longrightarrow> m = (if differing segment (segment_fields spec) \<noteq> [] then 1 else 0) + nat_field a ''hosts_changed''))
    (reconcile_existing C check spec created segment)"
  unfolding reconcile_existing_def Let_def
  by (rule counts_bnd, rule counts_unless_skip, rule counts_bnd, rule counts_fetch, rule counts_bnd, rule counts_lift,
        rule counts_bnd, rule reconcile_hosts_counts, rule counts_return)
    (auto simp: segment_result_def nat_field_def bool_field_def dget_def)

text \<open>
  The segment module reports what it wrote.  Whatever the API answers: in check mode nothing
  is written, even when the module fails; otherwise, when it succeeds, \<open>changed\<close> is reported
  exactly if at least one write was made, and \<open>hosts_changed\<close> of the writes were to hosts, the
  rest, at most two, to the segment.
\<close>

lemma segment_reports_writes:
  assumes "reconcile_segment C raw check w = (r, w')"
  shows "\<exists>m. wrote m w w' \<and> (check \<longrightarrow> m = 0) \<and>
    (\<forall>a. r = Inr a \<longrightarrow> \<not> check \<longrightarrow> (bool_field a ''changed'' \<longleftrightarrow> m > 0)
       \<and> nat_field a ''hosts_changed'' \<le> m \<and> m \<le> nat_field a ''hosts_changed'' + 2)"
proof -
  have "counts check (\<lambda>a m. \<not> check \<longrightarrow> (bool_field a ''changed'' \<longleftrightarrow> m > 0)
      \<and> nat_field a ''hosts_changed'' \<le> m \<and> m \<le> nat_field a ''hosts_changed'' + 2) (reconcile_segment C raw check)"
  proof (cases check)
    case True
    then show ?thesis
      unfolding reconcile_segment_def
      by (auto intro!: counts_bnd [OF counts_lift] counts_bnd [OF counts_fetch] counts_return counts_raise
          counts_mono [OF reconcile_existing_counts] split: list.split)
  next
    case False
    then show ?thesis
      unfolding reconcile_segment_def
      by (auto intro!: counts_bnd [OF counts_lift] counts_bnd [OF counts_fetch] counts_bnd [OF counts_put]
          counts_raise counts_mono [OF reconcile_existing_counts] split: list.split)
  qed
  then show ?thesis using assms by (rule countsD) blast
qed

text \<open>An API with one segment, whose host is as desired or not, that keeps no state.\<close>

definition demo_masakari :: "bool \<Rightarrow> unit masakari" where
  "demo_masakari reserved =
    \<lparr>mk_segments = (\<lambda>s. (Inr [[(''name'', PyStr ''seg''), (''id'', PyStr ''i1''), (''service_type'', PyStr ''COMPUTE''),
        (''recovery_method'', PyStr ''auto''), (''description'', PyStr [])]], s)),
     mk_create_segment = (\<lambda>a s. (Inr a, s)), mk_update_segment = (\<lambda>g u s. (Inr g, s)),
     mk_hosts = (\<lambda>g s. (Inr [[(''name'', PyStr ''c1''), (''type'', PyStr ''COMPUTE''), (''control_attributes'', PyStr ''ssh''),
        (''reserved'', PyBool reserved), (''on_maintenance'', PyBool False)]], s)),
     mk_create_host = (\<lambda>g a s. (Inr (), s)), mk_update_host = (\<lambda>h i u s. (Inr (), s))\<rparr>"

definition demo_segment :: pyval where
  "demo_segment = PyDict [(''name'', PyStr ''seg''), (''service_type'', PyStr ''compute''), (''recovery_method'', PyStr ''AUTO''),
     (''hosts'', PyList [PyDict [(''name'', PyStr ''c1''), (''control_attributes'', PyStr ''ssh'')]])]"

lemma segment_reports_writes_witness:
  "let w = \<lparr>ap_state = (), ap_log = []\<rparr>; run = (\<lambda>b. reconcile_segment (demo_masakari b) demo_segment False w)
   in (\<exists>a. fst (run False) = Inr a \<and> \<not> bool_field a ''changed'') \<and> wrote 0 w (snd (run False))
    \<and> (\<exists>a. fst (run True) = Inr a \<and> bool_field a ''changed'') \<and> \<not> wrote 0 w (snd (run True))"
proof -
  define w where "w = \<lparr>ap_state = (), ap_log = []\<rparr>"
  define run where "run b = reconcile_segment (demo_masakari b) demo_segment False w" for b
  have pair: "reconcile_segment (demo_masakari b) demo_segment False w = (fst (run b), snd (run b))" for b
    by (simp add: run_def)
  have "\<exists>a. fst (run b) = Inr a \<and> (bool_field a ''changed'' \<longleftrightarrow> b)" for b
  proof -
    have "case fst (run True) of Inr a \<Rightarrow> bool_field a ''changed'' | _ \<Rightarrow> False"
      "case fst (run False) of Inr a \<Rightarrow> \<not> bool_field a ''changed'' | _ \<Rightarrow> False"
      unfolding run_def w_def by code_simp+
    then have "case fst (run b) of Inr a \<Rightarrow> bool_field a ''changed'' = b | _ \<Rightarrow> False"
      by (cases b) (auto split: sum.splits)
    then show ?thesis by (cases "fst (run b)") auto
  qed
  moreover have "wrote 0 w (snd (run b)) \<longleftrightarrow> \<not> b" for b
    using segment_reports_writes [OF pair, of b] calculation [of b]
    by (auto simp: wrote_def)
  ultimately show ?thesis unfolding Let_def w_def [symmetric] run_def [symmetric] by blast
qed

end
