(* ===== verification/MistralWorkbook.thy ===== *)
theory MistralWorkbook
  imports Reconcile
begin

text \<open>
  The module powerops_mistral_workbook
  (\<open>ansible/roles/powerops/library/powerops_mistral_workbook.py\<close>): the normalisation of a
  workbook, its reconciliation, and the REST client.  YAML, SHA-256 and URL quoting are the
  record \<open>wb_lib\<close>; the session is a record of its three methods on URLs.
\<close>

section \<open>Libraries and the session\<close>

record wb_lib =
  yl_load :: "string \<Rightarrow> pyexn + pyval"
  yl_dump :: "pyval \<Rightarrow> string"
  yl_sha256 :: "string \<Rightarrow> string"
  yl_quote :: "string \<Rightarrow> string"

record 's session =
  ss_endpoint :: "string option"
  ss_get :: "string \<Rightarrow> ('s, pyobj) acall"
  ss_post :: "string \<Rightarrow> string \<Rightarrow> ('s, pyobj) acall"
  ss_put :: "string \<Rightarrow> string \<Rightarrow> ('s, pyobj) acall"

section \<open>The workbook\<close>

record workbook =
  wb_name :: string
  wb_definition :: string
  wb_sha256 :: string

definition normalize_workbook_yaml :: "wb_lib \<Rightarrow> string \<Rightarrow> pyexn + workbook" where
  "normalize_workbook_yaml L text =
     (case yl_load L text of
        Inl e \<Rightarrow> reconciliation_error ''invalid workbook YAML''
      | Inr (PyDict d) \<Rightarrow>
          (if py_str (dget d ''version'') \<noteq> ''2.0'' then reconciliation_error ''workbook must use Mistral DSL v2''
           else
             let name = py_strip (str_or (dget d ''name'') [])
             in if name = [] \<or> (case dget d ''workflows'' of PyDict workflows \<Rightarrow> workflows = [] | _ \<Rightarrow> True)
                then reconciliation_error ''workbook name and non-empty workflows mapping are required''
                else
                  let canonical = yl_dump L (PyDict d)
                  in Inr \<lparr>wb_name = name, wb_definition = canonical, wb_sha256 = yl_sha256 L canonical\<rparr>)
      | Inr _ \<Rightarrow> reconciliation_error ''workbook document must be a mapping'')"

section \<open>The REST client\<close>

definition rstrip_slash :: "string \<Rightarrow> string" where
  "rstrip_slash s = rev (dropWhile (\<lambda>c. c = CHR ''/'') (rev s))"

definition client_endpoint :: "'s session \<Rightarrow> pyexn + string" where
  "client_endpoint S =
     (if str_truthy (ss_endpoint S) then Inr (rstrip_slash (the (ss_endpoint S)))
      else reconciliation_error ''Mistral workflowv2 endpoint was not found'')"

text \<open>
  \<open>.get(key, [])\<close> of an answer, gone through: a resource that is no mapping has no fields, the
  characters of a string and the keys of a mapping are such resources, and anything else
  cannot be gone through.
\<close>

definition resources :: "pyobj \<Rightarrow> string \<Rightarrow> pyexn + pyobj list" where
  "resources answer key =
     (case map_of answer key of
        None \<Rightarrow> Inr []
      | Some (PyList xs) \<Rightarrow> Inr (map (\<lambda>x. case x of PyDict d \<Rightarrow> d | _ \<Rightarrow> []) xs)
      | Some (PyStr s) \<Rightarrow> Inr (map (\<lambda>_. []) s)
      | Some (PyDict d) \<Rightarrow> Inr (map (\<lambda>_. []) d)
      | Some _ \<Rightarrow> Inl TypeError)"

definition list_workbooks :: "'s session \<Rightarrow> string \<Rightarrow> ('s, pyobj list) api" where
  "list_workbooks S endpoint =
     bnd (fetch ''workbooks'' (ss_get S (endpoint @ ''/workbooks''))) (\<lambda>answer.
     lift_sum (resources answer ''workbooks''))"

definition get_workbook :: "wb_lib \<Rightarrow> 's session \<Rightarrow> string \<Rightarrow> string \<Rightarrow> ('s, pyobj) api" where
  "get_workbook L S endpoint name = fetch ''workbook'' (ss_get S (endpoint @ ''/workbooks/'' @ yl_quote L name))"

definition create_workbook :: "'s session \<Rightarrow> string \<Rightarrow> string \<Rightarrow> ('s, pyobj) api" where
  "create_workbook S endpoint text =
     put_call ''create_workbook'' [[(''definition'', PyStr text)]] (ss_post S (endpoint @ ''/workbooks'') text)"

definition update_workbook :: "'s session \<Rightarrow> string \<Rightarrow> string \<Rightarrow> ('s, pyobj) api" where
  "update_workbook S endpoint text =
     put_call ''update_workbook'' [[(''definition'', PyStr text)]] (ss_put S (endpoint @ ''/workbooks'') text)"

definition list_action_names :: "'s session \<Rightarrow> string \<Rightarrow> ('s, string list) api" where
  "list_action_names S endpoint =
     bnd (fetch ''actions'' (ss_get S (endpoint @ ''/actions''))) (\<lambda>answer.
     bnd (lift_sum (resources answer ''actions'')) (\<lambda>actions.
     return_io (map (\<lambda>a. py_str (dget a ''name'')) actions)))"

section \<open>Reconciliation\<close>

definition check_actions :: "'s session \<Rightarrow> string \<Rightarrow> string list \<Rightarrow> ('s, unit) api" where
  "check_actions S endpoint required_actions =
     (if required_actions = [] then return_io ()
      else
        bnd (list_action_names S endpoint) (\<lambda>available.
        let missing = sort (remdups (filter (\<lambda>a. a \<notin> set available) required_actions))
        in if missing = [] then return_io ()
           else raise_io (ReconciliationError (''required Mistral actions are missing: '' @ join_with '', '' missing))))"

text \<open>The definition the API holds, asked for again when the list leaves it out.\<close>

definition current_definition :: "wb_lib \<Rightarrow> 's session \<Rightarrow> string \<Rightarrow> string \<Rightarrow> pyobj \<Rightarrow> ('s, string) api" where
  "current_definition L S endpoint name current =
     bnd (if truthy (dget current ''definition'') then return_io (dget current ''definition'')
          else bnd (get_workbook L S endpoint name) (\<lambda>again. return_io (dget again ''definition''))) (\<lambda>v.
     if truthy v then return_io (py_str v)
     else raise_io (ReconciliationError ''Mistral API did not return the existing workbook definition''))"

definition workbook_result :: "bool \<Rightarrow> workbook \<Rightarrow> pyobj" where
  "workbook_result changed wb =
     [(''changed'', PyBool changed), (''workbook'', PyStr (wb_name wb)), (''definition_sha256'', PyStr (wb_sha256 wb))]"

text \<open>The workbook is created, or updated if its canonical form differs.\<close>

definition install_workbook ::
  "wb_lib \<Rightarrow> 's session \<Rightarrow> string \<Rightarrow> bool \<Rightarrow> workbook \<Rightarrow> pyobj list \<Rightarrow> ('s, pyobj) api" where
  "install_workbook L S endpoint check desired matches =
     (case matches of
        [] \<Rightarrow>
          bnd (if check then return_io [] else create_workbook S endpoint (wb_definition desired)) (\<lambda>_.
          return_io (workbook_result True desired))
      | [current] \<Rightarrow>
          bnd (current_definition L S endpoint (wb_name desired) current) (\<lambda>present.
          bnd (lift_sum (normalize_workbook_yaml L present)) (\<lambda>old.
          bnd (if wb_sha256 old \<noteq> wb_sha256 desired \<and> \<not> check
               then update_workbook S endpoint (wb_definition desired) else return_io []) (\<lambda>_.
          return_io (workbook_result (wb_sha256 old \<noteq> wb_sha256 desired) desired))))
      | _ \<Rightarrow> raise_io (ReconciliationError (''expected exactly one Mistral workbook named '' @ wb_name desired)))"

definition reconcile_workbook ::
  "wb_lib \<Rightarrow> 's session \<Rightarrow> string \<Rightarrow> string \<Rightarrow> bool \<Rightarrow> string list \<Rightarrow> ('s, pyobj) api" where
  "reconcile_workbook L S endpoint text check required_actions =
     bnd (lift_sum (normalize_workbook_yaml L text)) (\<lambda>desired.
     bnd (check_actions S endpoint required_actions) (\<lambda>_.
     bnd (list_workbooks S endpoint) (\<lambda>workbooks.
     install_workbook L S endpoint check desired
       (filter (\<lambda>wb. value_is wb ''name'' (PyStr (wb_name desired))) workbooks))))"

section \<open>What is reported is what was written\<close>

lemma list_workbooks_counts: "counts check (\<lambda>a k. k = 0) (list_workbooks S endpoint)"
  unfolding list_workbooks_def by (rule counts_bnd, rule counts_fetch, rule counts_mono [OF counts_lift]) simp

lemma check_actions_counts: "counts check (\<lambda>a k. k = 0) (check_actions S endpoint required)"
proof -
  have "counts check (\<lambda>a k. k = 0) (list_action_names S endpoint)"
    unfolding list_action_names_def
    by (rule counts_bnd, rule counts_fetch, rule counts_bnd [OF counts_lift], rule counts_return) simp
  then have "counts check (\<lambda>a k. k = 0) (bnd (list_action_names S endpoint) (\<lambda>available.
        let missing = sort (remdups (filter (\<lambda>a. a \<notin> set available) required))
        in if missing = [] then return_io ()
           else raise_io (ReconciliationError (''required Mistral actions are missing: '' @ join_with '', '' missing))))"
    unfolding Let_def by (rule counts_bnd) (auto intro!: counts_return counts_raise)
  then show ?thesis by (simp add: check_actions_def counts_return)
qed

lemma current_definition_counts: "counts check (\<lambda>a k. k = 0) (current_definition L S endpoint name current)"
proof -
  have "counts check (\<lambda>a k. k = 0) (if truthy (dget current ''definition'') then return_io (dget current ''definition'')
      else bnd (get_workbook L S endpoint name) (\<lambda>again. return_io (dget again ''definition'')))"
    by (auto simp: get_workbook_def intro!: counts_return counts_bnd [OF counts_fetch])
  then show ?thesis
    unfolding current_definition_def by (rule counts_bnd) (auto intro!: counts_return counts_raise)
qed

lemma write_when_counts:
  "counts check (\<lambda>a k. k = (if P \<and> \<not> check then 1 else 0))
     (if P \<and> \<not> check then put_call m args f else return_io x)"
  using counts_put by (cases "P \<and> \<not> check") (auto intro: counts_return)

text \<open>
  The workbook is written exactly when it differs.  Whatever the API answers: in check mode
  nothing is written; otherwise, on success, one write is made if \<open>changed\<close> is reported and
  none if it is not, so that a workbook whose canonical form Mistral already has is left alone.
\<close>

lemma workbook_reports_writes:
  assumes "reconcile_workbook L S endpoint text check required w = (r, w')"
  shows "\<exists>m. wrote m w w' \<and> (check \<longrightarrow> m = 0) \<and>
    (\<forall>a. r = Inr a \<longrightarrow> \<not> check \<longrightarrow> m = (if bool_field a ''changed'' then 1 else 0))"
proof -
  let ?P = "\<lambda>a m. \<not> check \<longrightarrow> m = (if bool_field a ''changed'' then 1 else 0 :: nat)"
  have result: "bool_field (workbook_result b wb) ''changed'' = b" for b wb
    by (simp add: workbook_result_def bool_field_def dget_def)
  have make: "counts check (\<lambda>a k. k = (if \<not> check then 1 else 0))
      (if check then return_io [] else create_workbook S endpoint d)" for d
    using counts_put by (cases check) (auto simp: create_workbook_def intro: counts_return)
  have new: "counts check ?P (bnd (if check then return_io [] else create_workbook S endpoint (wb_definition d))
      (\<lambda>_. return_io (workbook_result True d)))" for d
    by (rule counts_bnd [OF make], rule counts_return) (simp add: result)
  have old: "counts check ?P (bnd (current_definition L S endpoint (wb_name d) current) (\<lambda>present.
         bnd (lift_sum (normalize_workbook_yaml L present)) (\<lambda>old.
         bnd (if wb_sha256 old \<noteq> wb_sha256 d \<and> \<not> check
              then update_workbook S endpoint (wb_definition d) else return_io []) (\<lambda>_.
         return_io (workbook_result (wb_sha256 old \<noteq> wb_sha256 d) d)))))" for d current
    unfolding update_workbook_def
    by (rule counts_bnd [OF current_definition_counts], rule counts_bnd [OF counts_lift],
        rule counts_bnd [OF write_when_counts], rule counts_return) (simp add: result)
  have install: "counts check ?P (install_workbook L S endpoint check d matches)" for d matches
    unfolding install_workbook_def using new old by (auto intro: counts_raise split: list.split)
  have "counts check ?P (reconcile_workbook L S endpoint text check required)"
    unfolding reconcile_workbook_def
    by (rule counts_bnd [OF counts_lift], rule counts_bnd [OF check_actions_counts],
        rule counts_bnd [OF list_workbooks_counts], rule counts_mono [OF install]) auto
  then show ?thesis using assms by (rule countsD) blast
qed

end
