(* ===== verification/PowerModules.thy ===== *)
theory PowerModules
  imports MasakariSegment IronicNode MistralWorkbook
begin

text \<open>
  The three Ansible modules of the powerops role from end to end: the \<open>_connection\<close> and \<open>main\<close> of
  \<open>powerops_ironic_node.py\<close>, \<open>powerops_masakari_segment.py\<close> and \<open>powerops_mistral_workbook.py\<close>.
  \<open>connect\<close> is the SDK's constructor applied to its keyword arguments; AnsibleModule has checked
  the parameters against the argument specification (\<open>auth\<close> is a dict).  \<open>exit_json\<close> with the result
  is the value of the run, \<open>fail_json\<close> the error \<open>FailJson\<close>.
\<close>

section \<open>The connection\<close>

record module_params =
  mp_auth :: pyobj
  mp_region_name :: string
  mp_interface :: string
  mp_validate_certs :: bool
  mp_cacert :: "string option"

definition verify_of :: "module_params \<Rightarrow> pyval" where
  "verify_of p =
     (if mp_validate_certs p \<and> str_truthy (mp_cacert p) then PyStr (the (mp_cacert p)) else PyBool (mp_validate_certs p))"

text \<open>\<open>Connection(**auth, region_name=..., interface=..., verify=...)\<close>.\<close>

definition connection_args :: "module_params \<Rightarrow> pyexn + pyobj" where
  "connection_args p =
     (if list_ex (\<lambda>k. in_dict k (mp_auth p)) [''region_name'', ''interface'', ''verify''] then Inl TypeError
      else Inr (mp_auth p @ [(''region_name'', PyStr (mp_region_name p)), (''interface'', PyStr (mp_interface p)),
        (''verify'', verify_of p)]))"

definition connection :: "(pyobj \<Rightarrow> pyexn + 'c) \<Rightarrow> module_params \<Rightarrow> pyexn + 'c" where
  "connection connect p = (case connection_args p of Inl e \<Rightarrow> Inl e | Inr kwargs \<Rightarrow> connect kwargs)"

text \<open>
  The certificates are checked exactly when the task asks for it, whatever is among the
  authentication data.
\<close>

lemma connection_verifies:
  "connection_args p = Inr kwargs \<Longrightarrow> truthy (dget kwargs ''verify'') = mp_validate_certs p"
  by (auto simp: connection_args_def dget_def in_dict_iff map_add_def verify_of_def str_truthy_def
      split: if_splits option.splits)

section \<open>The runs\<close>

text \<open>\<open>try: connection, work, exit_json; except Exception: fail_json\<close>.\<close>

definition run_module :: "(string \<Rightarrow> string) \<Rightarrow> (pyexn \<Rightarrow> string) \<Rightarrow> pyexn + 'c \<Rightarrow> ('c \<Rightarrow> ('s, pyobj) api) \<Rightarrow> ('s, pyobj) api" where
  "run_module hide T conn work =
     catch_io (bnd (lift_sum conn) work) (\<lambda>_. True) (\<lambda>e. raise_io (FailJson (hide (exn_text T e))))"

definition node_module ::
  "(pyexn \<Rightarrow> string) \<Rightarrow> (pyobj \<Rightarrow> pyexn + 's ironic) \<Rightarrow> module_params \<Rightarrow> pyval \<Rightarrow> int \<Rightarrow> bool \<Rightarrow> ('s, pyobj) api" where
  "node_module T connect p node timeout check =
     run_module (\<lambda>m. redact m (secret_values node)) T (connection connect p)
       (\<lambda>C. reconcile_node T C node check timeout)"

definition segment_module ::
  "(pyexn \<Rightarrow> string) \<Rightarrow> (pyobj \<Rightarrow> pyexn + 's masakari) \<Rightarrow> module_params \<Rightarrow> pyval \<Rightarrow> bool \<Rightarrow> ('s, pyobj) api" where
  "segment_module T connect p segment check =
     run_module id T (connection connect p) (\<lambda>C. reconcile_segment C segment check)"

text \<open>The client finds its endpoint, and the workbook is read from its file.\<close>

definition workbook_work ::
  "wb_lib \<Rightarrow> (string \<Rightarrow> pyexn + string) \<Rightarrow> string \<Rightarrow> string list \<Rightarrow> bool \<Rightarrow> 's session \<Rightarrow> ('s, pyobj) api" where
  "workbook_work L read_file path required_actions check S =
     bnd (lift_sum (client_endpoint S)) (\<lambda>endpoint.
     bnd (lift_sum (read_file path)) (\<lambda>content.
     reconcile_workbook L S endpoint content check required_actions))"

definition workbook_module ::
  "(pyexn \<Rightarrow> string) \<Rightarrow> wb_lib \<Rightarrow> (string \<Rightarrow> pyexn + string) \<Rightarrow> (pyobj \<Rightarrow> pyexn + 's session) \<Rightarrow> module_params
    \<Rightarrow> string \<Rightarrow> string list \<Rightarrow> bool \<Rightarrow> ('s, pyobj) api" where
  "workbook_module T L read_file connect p path required_actions check =
     run_module id T (connection connect p) (workbook_work L read_file path required_actions check)"

section \<open>What every module promises\<close>

definition honest :: "bool \<Rightarrow> ('s, pyobj) api \<Rightarrow> bool" where
  "honest check m \<longleftrightarrow>
     (\<forall>w r w'. m w = (r, w') \<longrightarrow> (\<exists>n. wrote n w w' \<and> (check \<longrightarrow> n = 0)
       \<and> (\<forall>a. r = Inr a \<longrightarrow> \<not> check \<longrightarrow> (bool_field a ''changed'' \<longleftrightarrow> n > 0))))"

definition ends_properly :: "('s, pyobj) api \<Rightarrow> bool" where
  "ends_properly m \<longleftrightarrow>
     (\<forall>w r w'. m w = (r, w') \<longrightarrow> (\<exists>result. r = Inr result) \<or> (\<exists>message. r = Inl (FailJson message)))"

text \<open>
  The contract of the work of a module: whatever client it is given, it writes nothing in check
  mode and reports a change exactly when it wrote.  The run around it then ends with a result or
  with \<open>fail_json\<close>, and keeps the promise.
\<close>

locale honest_work =
  fixes work :: "bool \<Rightarrow> 'c \<Rightarrow> ('s, pyobj) api"
  assumes work_honest: "honest check (work check C)"
begin

lemma run_ends: "ends_properly (run_module hide T conn (work check))"
  by (auto simp: ends_properly_def run_module_def catch_io_def raise_run split: prod.splits sum.splits)

lemma run_honest: "honest check (run_module hide T conn (work check))"
  unfolding honest_def
proof (intro allI impI)
  fix w r w' assume run: "run_module hide T conn (work check) w = (r, w')"
  show "\<exists>n. wrote n w w' \<and> (check \<longrightarrow> n = 0) \<and> (\<forall>a. r = Inr a \<longrightarrow> \<not> check \<longrightarrow> (bool_field a ''changed'' \<longleftrightarrow> n > 0))"
  proof (cases conn)
    case (Inl e)
    then have "w' = w \<and> (\<forall>a. r \<noteq> Inr a)"
      using run by (auto simp: run_module_def catch_io_def bnd_run lift_sum_def raise_run)
    then show ?thesis by (intro exI [of _ 0]) simp
  next
    case (Inr C)
    obtain q v where q: "work check C w = (q, v)" by fastforce
    have "w' = v \<and> (\<forall>a. r = Inr a \<longrightarrow> q = Inr a)"
      using run Inr q by (cases q) (auto simp: run_module_def catch_io_def bnd_run lift_sum_def return_run raise_run)
    then show ?thesis using work_honest [of check C, unfolded honest_def, rule_format, OF q] by auto
  qed
qed

end

interpretation node_work: honest_work "\<lambda>check C. reconcile_node T C node check timeout" for T node timeout
  by unfold_locales (use reconcile_node_guarded in \<open>fastforce simp: honest_def\<close>)

interpretation segment_work: honest_work "\<lambda>check C. reconcile_segment C segment check" for segment
  by unfold_locales (use segment_reports_writes in \<open>fastforce simp: honest_def\<close>)

interpretation workbook_work: honest_work "workbook_work L read_file path required_actions" for L read_file path required_actions
proof unfold_locales
  fix check and S :: "'b session"
  show "honest check (workbook_work L read_file path required_actions check S)"
    unfolding honest_def
  proof (intro allI impI)
    fix w r w' assume run: "workbook_work L read_file path required_actions check S w = (r, w')"
    show "\<exists>n. wrote n w w' \<and> (check \<longrightarrow> n = 0) \<and> (\<forall>a. r = Inr a \<longrightarrow> \<not> check \<longrightarrow> (bool_field a ''changed'' \<longleftrightarrow> n > 0))"
    proof (cases "\<exists>endpoint content. client_endpoint S = Inr endpoint \<and> read_file path = Inr content")
      case True
      then obtain endpoint content where "reconcile_workbook L S endpoint content check required_actions w = (r, w')"
        using run by (auto simp: workbook_work_def lift_sum_def)
      from workbook_reports_writes [OF this] obtain n where "wrote n w w'" "check \<longrightarrow> n = 0"
          "\<forall>a. r = Inr a \<longrightarrow> \<not> check \<longrightarrow> n = (if bool_field a ''changed'' then 1 else 0)" by blast
      then show ?thesis by (intro exI [of _ n]) simp
    next
      case False
      then have "w' = w \<and> isl r"
        using run by (cases "client_endpoint S"; cases "read_file path")
          (auto simp: workbook_work_def lift_sum_def raise_run bnd_run return_run)
      then show ?thesis by (intro exI [of _ 0]) auto
    qed
  qed
qed

text \<open>
  C18. The three modules end with a result or through \<open>fail_json\<close>, never with another exception,
  whatever the connection and the service do; in check mode they write nothing, and a result
  otherwise reports a change exactly when something was written.
\<close>

theorem modules_report_honestly:
  assumes "m \<in> {node_module T connect_node p spec timeout check, segment_module T connect_segment p spec check,
      workbook_module T L read_file connect_session p path required_actions check}"
    and "m w = (r, w')"
  shows "((\<exists>result. r = Inr result) \<or> (\<exists>message. r = Inl (FailJson message)))
    \<and> (\<exists>n. wrote n w w' \<and> (check \<longrightarrow> n = 0) \<and> (\<forall>a. r = Inr a \<longrightarrow> \<not> check \<longrightarrow> (bool_field a ''changed'' \<longleftrightarrow> n > 0)))"
proof -
  have "honest check m \<and> ends_properly m"
    using assms(1) unfolding node_module_def segment_module_def workbook_module_def
    by (elim insertE emptyE)
      (simp_all only: node_work.run_honest segment_work.run_honest workbook_work.run_honest
        node_work.run_ends segment_work.run_ends workbook_work.run_ends)
  then show ?thesis
    unfolding honest_def ends_properly_def using assms(2) by (elim conjE allE impE) (assumption | rule conjI)+
qed

definition demo_params :: module_params where
  "demo_params = \<lparr>mp_auth = [(''auth_url'', PyStr ''http://keystone'')], mp_region_name = ''RegionOne'',
     mp_interface = ''internal'', mp_validate_certs = True, mp_cacert = None\<rparr>"

lemma modules_report_honestly_witness:
  "\<exists>r w'. segment_module show_other (\<lambda>_. Inr (demo_masakari True)) demo_params demo_segment False \<lparr>ap_state = (), ap_log = []\<rparr> = (r, w')
    \<and> ((\<exists>result. r = Inr result) \<or> (\<exists>message. r = Inl (FailJson message)))
    \<and> (\<exists>n. wrote n \<lparr>ap_state = (), ap_log = []\<rparr> w' \<and> (\<forall>a. r = Inr a \<longrightarrow> (bool_field a ''changed'' \<longleftrightarrow> n > 0)))"
proof -
  let ?m = "segment_module show_other (\<lambda>_. Inr (demo_masakari True)) demo_params demo_segment False"
  obtain r w' where run: "?m \<lparr>ap_state = (), ap_log = []\<rparr> = (r, w')" by fastforce
  have "?m \<in> {node_module show_other (\<lambda>_. Inl TypeError) demo_params demo_segment 300 False, ?m,
      workbook_module show_other L (\<lambda>_. Inl TypeError) (\<lambda>_. Inl TypeError) demo_params [] [] False}" for L by simp
  from modules_report_honestly [OF this run] run show ?thesis by auto
qed

end
