(* ===== verification/PowerOperations.thy ===== *)
theory PowerOperations
  imports PyVal
begin

text \<open>
  \<open>PowerOperations\<close> of the Mistral plugin
  (\<open>plugins/mistral_power_actions/src/openstack_power_actions/operations.py\<close>), every method.

  The OpenStack connection is the record \<open>conn\<close>: one field per call of the SDK the code makes,
  each from its arguments and the state of the cloud (an arbitrary type) to an answer or an
  exception and the next state; \<open>cn_sleep\<close> is how the cloud moves on while the program sleeps.
  The world of the methods adds a ghost log of what was asked for and observed, which no
  definition reads.  Timeouts and intervals are integers.
\<close>

section \<open>Exceptions\<close>

definition MappingError :: pyexn where "MappingError = OtherError ''MappingError''"
definition HostNotEmpty :: pyexn where "HostNotEmpty = OtherError ''HostNotEmpty''"
definition PowerTimeout :: pyexn where "PowerTimeout = OtherError ''PowerTimeout''"
definition UnsupportedPowerTarget :: pyexn where "UnsupportedPowerTarget = OtherError ''UnsupportedPowerTarget''"
definition UnsupportedInstancePolicy :: pyexn where
  "UnsupportedInstancePolicy = OtherError ''UnsupportedInstancePolicy''"
definition HostReturnNotSafe :: pyexn where "HostReturnNotSafe = OtherError ''HostReturnNotSafe''"

definition is_power_error :: "pyexn \<Rightarrow> bool" where
  "is_power_error e \<longleftrightarrow> e \<in> {MappingError, HostNotEmpty, PowerTimeout, UnsupportedPowerTarget,
     UnsupportedInstancePolicy, HostReturnNotSafe}"

lemmas power_errors = MappingError_def HostNotEmpty_def PowerTimeout_def UnsupportedPowerTarget_def
  UnsupportedInstancePolicy_def HostReturnNotSafe_def

section \<open>The cloud\<close>

record ironic_node =
  nd_id :: string
  nd_name :: "string option"
  nd_power_state :: "string option"
  nd_target :: "string option"
  nd_last_error :: "string option"

record nova_service =
  ns_id :: string
  ns_host :: "string option"
  ns_binary :: "string option"
  ns_status :: "string option"
  ns_state :: "string option"

record masakari_item =
  mk_id :: string
  mk_name :: "string option"
  mk_on_maintenance :: bool

record server =
  sv_id :: string
  sv_name :: "string option"
  sv_status :: "string option"
  sv_hypervisor :: "string option"
  sv_ext_host :: "string option"

record agent =
  ag_binary :: "string option"
  ag_alive :: bool

datatype cloud_event =
    Observed ironic_node
  | Listed "server list"
  | SetPower string string
  | Enabled string
  | Disabled string string
  | Maintenance string bool
  | Migrated string
  | Stopped string
  | Waited int

record 'c world =
  cloud :: 'c
  log :: "cloud_event list"

type_synonym ('c, 'a) call = "'c \<Rightarrow> (pyexn + 'a) \<times> 'c"
type_synonym ('c, 'a) op = "('c world, 'a) io"

record 'c conn =
  cn_nodes :: "('c, ironic_node list) call"
  cn_get_node :: "ironic_node \<Rightarrow> ('c, ironic_node) call"
  cn_set_power :: "ironic_node \<Rightarrow> string \<Rightarrow> ('c, unit) call"
  cn_services :: "string \<Rightarrow> ('c, nova_service list) call"
  cn_enable :: "nova_service \<Rightarrow> ('c, unit) call"
  cn_disable :: "nova_service \<Rightarrow> string \<Rightarrow> ('c, unit) call"
  cn_segments :: "('c, string list) call"
  cn_hosts :: "string \<Rightarrow> ('c, masakari_item list) call"
  cn_update_host :: "masakari_item \<Rightarrow> string \<Rightarrow> bool \<Rightarrow> ('c, unit) call"
  cn_servers :: "string \<Rightarrow> ('c, server list) call"
  cn_migrate :: "server \<Rightarrow> ('c, unit) call"
  cn_stop :: "server \<Rightarrow> ('c, unit) call"
  cn_agents :: "string \<Rightarrow> ('c, agent list) call"
  cn_sleep :: "int \<Rightarrow> 'c \<Rightarrow> 'c"

text \<open>A call, what it adds to the log when it answers, and a call that is a request.\<close>

definition ask :: "('c, 'a) call \<Rightarrow> ('a \<Rightarrow> cloud_event list) \<Rightarrow> ('c, 'a) op" where
  "ask f note = (\<lambda>w. case f (cloud w) of
      (Inl e, c) \<Rightarrow> (Inl e, w\<lparr>cloud := c\<rparr>)
    | (Inr a, c) \<Rightarrow> (Inr a, w\<lparr>cloud := c, log := log w @ note a\<rparr>))"

definition request :: "('c, unit) call \<Rightarrow> cloud_event \<Rightarrow> ('c, unit) op" where
  "request f e = (\<lambda>w. case f (cloud w) of (r, c) \<Rightarrow> (r, w\<lparr>cloud := c, log := log w @ [e]\<rparr>))"

definition pause :: "'c conn \<Rightarrow> int \<Rightarrow> ('c, unit) op" where
  "pause C n = modify_io (\<lambda>w. w\<lparr>cloud := cn_sleep C n (cloud w), log := log w @ [Waited n]\<rparr>)"

section \<open>Finding the resources of a host\<close>

definition exactly_one :: "'a list \<Rightarrow> pyexn + 'a" where
  "exactly_one resources = (case resources of [r] \<Rightarrow> Inr r | _ \<Rightarrow> Inl MappingError)"

definition ironic_node_of :: "'c conn \<Rightarrow> string \<Rightarrow> ('c, ironic_node) op" where
  "ironic_node_of C host =
     bnd (ask (cn_nodes C) (\<lambda>_. [])) (\<lambda>nodes.
     lift_sum (exactly_one (filter (\<lambda>node. nd_name node = Some host) nodes)))"

definition nova_service_of :: "'c conn \<Rightarrow> string \<Rightarrow> ('c, nova_service) op" where
  "nova_service_of C host =
     bnd (ask (cn_services C host) (\<lambda>_. [])) (\<lambda>services.
     lift_sum (exactly_one (filter (\<lambda>s. ns_host s = Some host \<and> ns_binary s = Some ''nova-compute'') services)))"

fun masakari_matches :: "'c conn \<Rightarrow> string \<Rightarrow> string list \<Rightarrow> ('c, (string \<times> masakari_item) list) op" where
  "masakari_matches C host [] = return_io []"
| "masakari_matches C host (segment # segments) =
     bnd (ask (cn_hosts C segment) (\<lambda>_. [])) (\<lambda>items.
     bnd (masakari_matches C host segments) (\<lambda>others.
     return_io (map (\<lambda>item. (segment, item)) (filter (\<lambda>item. mk_name item = Some host) items) @ others)))"

definition masakari_host_of :: "'c conn \<Rightarrow> string \<Rightarrow> ('c, string \<times> masakari_item) op" where
  "masakari_host_of C host =
     bnd (ask (cn_segments C) (\<lambda>_. [])) (\<lambda>segments.
     bnd (masakari_matches C host segments) (\<lambda>matches.
     lift_sum (exactly_one matches)))"

definition resolve_host :: "'c conn \<Rightarrow> string \<Rightarrow> ('c, pyobj) op" where
  "resolve_host C host =
     bnd (nova_service_of C host) (\<lambda>nova.
     bnd (ironic_node_of C host) (\<lambda>ironic.
     bnd (masakari_host_of C host) (\<lambda>(segment, masakari).
     return_io [(''host'', PyStr host), (''nova_service_id'', PyStr (ns_id nova)),
                (''ironic_node_id'', PyStr (nd_id ironic)), (''masakari_segment_id'', PyStr segment),
                (''masakari_host_id'', PyStr (mk_id masakari))])))"

definition set_nova_service :: "'c conn \<Rightarrow> string \<Rightarrow> bool \<Rightarrow> string \<Rightarrow> ('c, pyobj) op" where
  "set_nova_service C host enabled reason =
     bnd (nova_service_of C host) (\<lambda>service.
     bnd (if enabled
          then when_io (ns_status service \<noteq> Some ''enabled'')
                 (request (cn_enable C service) (Enabled (ns_id service)))
          else when_io (ns_status service \<noteq> Some ''disabled'')
                 (request (cn_disable C service reason) (Disabled (ns_id service) reason))) (\<lambda>_.
     return_io [(''host'', PyStr host), (''enabled'', PyBool enabled)]))"

definition set_masakari_maintenance :: "'c conn \<Rightarrow> string \<Rightarrow> bool \<Rightarrow> ('c, pyobj) op" where
  "set_masakari_maintenance C host enabled =
     bnd (masakari_host_of C host) (\<lambda>(segment, item).
     bnd (when_io (mk_on_maintenance item \<noteq> enabled)
            (request (cn_update_host C item segment enabled) (Maintenance (mk_id item) enabled))) (\<lambda>_.
     return_io [(''host'', PyStr host), (''on_maintenance'', PyBool enabled)]))"

section \<open>Servers\<close>

definition server_host :: "server \<Rightarrow> string option" where
  "server_host s = (if str_truthy (sv_hypervisor s) then sv_hypervisor s else sv_ext_host s)"

definition status_of :: "server \<Rightarrow> string" where
  "status_of s = (case sv_status s of None \<Rightarrow> ''UNKNOWN'' | Some t \<Rightarrow> t)"

definition servers_on_host :: "'c conn \<Rightarrow> string \<Rightarrow> ('c, server list) op" where
  "servers_on_host C host =
     bnd (ask (cn_servers C host) (\<lambda>ss. [Listed (filter (\<lambda>s. server_host s = Some host) ss)])) (\<lambda>servers.
     return_io (filter (\<lambda>s. server_host s = Some host) servers))"

definition list_servers :: "'c conn \<Rightarrow> string \<Rightarrow> ('c, pyobj list) op" where
  "list_servers C host =
     bnd (servers_on_host C host) (\<lambda>servers.
     return_io (map (\<lambda>s. [(''id'', PyStr (sv_id s)),
        (''name'', PyStr (case sv_name s of None \<Rightarrow> sv_id s | Some n \<Rightarrow> n)),
        (''status'', PyStr (status_of s))]) servers))"

text \<open>\<open>max(1, ceil(timeout / interval) + 1)\<close>.\<close>

definition attempts :: "int \<Rightarrow> int \<Rightarrow> pyexn + nat" where
  "attempts timeout interval =
     (if timeout \<le> 0 \<or> interval \<le> 0 then Inl ValueError
      else Inr (nat (max 1 ((timeout + interval - 1) div interval + 1))))"

text \<open>
  \<open>for attempt in range(n)\<close> with a sleep between two attempts: the body answers with the
  method's result or with the loop variables of the next attempt; after the last one the
  method raises.
\<close>

fun poll :: "'c conn \<Rightarrow> int \<Rightarrow> pyexn \<Rightarrow> ('s \<Rightarrow> ('c, 'a + 's) op) \<Rightarrow> nat \<Rightarrow> 's \<Rightarrow> ('c, 'a) op" where
  "poll C interval e body 0 s = raise_io e"
| "poll C interval e body (Suc n) s =
     bnd (body s) (\<lambda>r. case r of
        Inl a \<Rightarrow> return_io a
      | Inr s' \<Rightarrow> bnd (when_io (n > 0) (pause C interval)) (\<lambda>_. poll C interval e body n s'))"

section \<open>Draining\<close>

definition INSTANCE_POLICIES :: "string set" where
  "INSTANCE_POLICIES = {''require_empty'', ''live_migrate'', ''stop''}"

definition pv_opt :: "string option \<Rightarrow> pyval" where
  "pv_opt x = (case x of None \<Rightarrow> PyNone | Some s \<Rightarrow> PyStr s)"

definition migrated_check :: "'c conn \<Rightarrow> string \<Rightarrow> unit \<Rightarrow> ('c, pyobj + unit) op" where
  "migrated_check C host _ =
     bnd (servers_on_host C host) (\<lambda>remaining.
     if remaining = [] then return_io (Inl [(''host'', PyStr host), (''servers_on_source'', PyList [])])
     else if list_ex (\<lambda>s. sv_status s = Some ''ERROR'') remaining then raise_io HostNotEmpty
     else return_io (Inr ()))"

definition remaining_statuses :: "string \<Rightarrow> server list \<Rightarrow> pyobj" where
  "remaining_statuses host servers =
     [(''host'', PyStr host), (''remaining_statuses'', PyList (map (\<lambda>s. PyStr (status_of s)) servers))]"

definition stopped_check :: "'c conn \<Rightarrow> string \<Rightarrow> unit \<Rightarrow> ('c, pyobj + unit) op" where
  "stopped_check C host _ =
     bnd (servers_on_host C host) (\<lambda>remaining.
     if list_all (\<lambda>s. status_of s = ''SHUTOFF'') remaining
     then return_io (Inl (remaining_statuses host remaining))
     else if list_ex (\<lambda>s. status_of s = ''ERROR'') remaining then raise_io HostNotEmpty
     else return_io (Inr ()))"

definition drain_host :: "'c conn \<Rightarrow> string \<Rightarrow> string \<Rightarrow> int \<Rightarrow> int \<Rightarrow> ('c, pyobj) op" where
  "drain_host C host policy timeout interval =
     (if policy \<notin> INSTANCE_POLICIES then raise_io UnsupportedInstancePolicy
      else
        bnd (servers_on_host C host) (\<lambda>initial.
        if policy = ''require_empty'' then
          (if initial \<noteq> [] then raise_io HostNotEmpty
           else return_io [(''host'', PyStr host), (''servers_on_source'', PyList [])])
        else if policy = ''live_migrate'' then
          bnd (for_io initial (\<lambda>item. request (cn_migrate C item) (Migrated (sv_id item)))) (\<lambda>_.
          bnd (lift_sum (attempts timeout interval)) (\<lambda>n.
          poll C interval HostNotEmpty (migrated_check C host) n ()))
        else
          bnd (for_io initial (\<lambda>item. request (cn_stop C item) (Stopped (sv_id item)))) (\<lambda>_.
          bnd (lift_sum (attempts timeout interval)) (\<lambda>n.
          poll C interval HostNotEmpty (stopped_check C host) n ()))))"

definition assert_host_empty :: "'c conn \<Rightarrow> string \<Rightarrow> bool \<Rightarrow> ('c, pyobj) op" where
  "assert_host_empty C host allow_shutoff =
     bnd (servers_on_host C host) (\<lambda>servers.
     if servers \<noteq> [] \<and> \<not> (allow_shutoff \<and> list_all (\<lambda>s. status_of s = ''SHUTOFF'') servers)
     then raise_io HostNotEmpty
     else return_io (remaining_statuses host servers))"

section \<open>Power\<close>

definition POWER_TARGETS :: "string set" where
  "POWER_TARGETS = {''power on'', ''power off'', ''rebooting'', ''soft power off'', ''soft rebooting''}"

definition effective_target :: "string \<Rightarrow> bool \<Rightarrow> string" where
  "effective_target target soft =
     (if soft \<and> target = ''power off'' then ''soft power off''
      else if soft \<and> target = ''rebooting'' then ''soft rebooting'' else target)"

definition power_answer :: "string \<Rightarrow> string option \<Rightarrow> string option \<Rightarrow> pyobj" where
  "power_answer host current pending =
     [(''host'', PyStr host), (''power_state'', pv_opt current), (''target_power_state'', pv_opt pending)]"

definition request_power :: "'c conn \<Rightarrow> string \<Rightarrow> string \<Rightarrow> bool \<Rightarrow> ('c, pyobj) op" where
  "request_power C host target soft =
     (if target \<notin> POWER_TARGETS then raise_io UnsupportedPowerTarget
      else
        bnd (ironic_node_of C host) (\<lambda>node.
        let current = nd_power_state node; pending = nd_target node; goal = effective_target target soft
        in if current = Some target \<or> pending = Some goal then return_io (power_answer host current pending)
           else if str_truthy pending \<and> pending \<noteq> Some goal then raise_io PowerTimeout
           else bnd (request (cn_set_power C node goal) (SetPower (nd_id node) goal)) (\<lambda>_.
                return_io (power_answer host current (Some goal)))))"

definition compatible_pending :: "string \<Rightarrow> string set" where
  "compatible_pending target =
     insert target (if target = ''power off'' then {''soft power off''}
                    else if target = ''rebooting'' then {''soft rebooting''} else {})"

text \<open>
  One round of watching a node: the fence task has the same loop, with its own exception,
  pending targets and answer, so these are arguments.
\<close>

definition observe_power :: "'c conn \<Rightarrow> string set \<Rightarrow> pyexn \<Rightarrow> (ironic_node \<Rightarrow> int \<Rightarrow> pyobj) \<Rightarrow> string \<Rightarrow> int
    \<Rightarrow> ironic_node \<times> int \<Rightarrow> ('c, pyobj + ironic_node \<times> int) op" where
  "observe_power C compatible e answer target required watched =
     (case watched of (old, steady) \<Rightarrow>
        bnd (ask (cn_get_node C old) (\<lambda>n. [Observed n])) (\<lambda>node.
        let current = nd_power_state node; pending = nd_target node
        in if str_truthy (nd_last_error node) then raise_io e
           else if str_truthy pending \<and> the pending \<notin> compatible \<and> current \<noteq> Some target
           then raise_io e
           else (let steady' = (if current = Some target then steady + 1 else 0)
                 in if steady' \<ge> required then return_io (Inl (answer node steady'))
                    else return_io (Inr (node, steady')))))"

definition wait_power :: "'c conn \<Rightarrow> string \<Rightarrow> string \<Rightarrow> int \<Rightarrow> int \<Rightarrow> int \<Rightarrow> ('c, pyobj) op" where
  "wait_power C host target timeout interval stable_observations =
     (if stable_observations < 2 then raise_io ValueError
      else
        bnd (ironic_node_of C host) (\<lambda>node.
        bnd (lift_sum (attempts timeout interval)) (\<lambda>n.
        poll C interval PowerTimeout
          (observe_power C (compatible_pending target) PowerTimeout
            (\<lambda>node steady. power_answer host (nd_power_state node) (nd_target node))
            target stable_observations) n (node, 0))))"

section \<open>Services and the return of a host\<close>

definition nova_up_check :: "'c conn \<Rightarrow> string \<Rightarrow> unit \<Rightarrow> ('c, pyobj + unit) op" where
  "nova_up_check C host _ =
     bnd (nova_service_of C host) (\<lambda>service.
     if ns_state service = Some ''up'' then return_io (Inl [(''host'', PyStr host), (''state'', PyStr ''up'')])
     else return_io (Inr ()))"

definition wait_nova_service :: "'c conn \<Rightarrow> string \<Rightarrow> int \<Rightarrow> int \<Rightarrow> ('c, pyobj) op" where
  "wait_nova_service C host timeout interval =
     bnd (lift_sum (attempts timeout interval)) (\<lambda>n.
     poll C interval HostReturnNotSafe (nova_up_check C host) n ())"

definition agent_healthy :: "agent list \<Rightarrow> string \<Rightarrow> bool" where
  "agent_healthy agents binary \<longleftrightarrow>
     (case filter (\<lambda>a. ag_binary a = Some binary) agents of [a] \<Rightarrow> ag_alive a | _ \<Rightarrow> False)"

definition verify_host_return :: "'c conn \<Rightarrow> string list \<Rightarrow> string \<Rightarrow> bool \<Rightarrow> ('c, pyobj) op" where
  "verify_host_return C required_network_agents host stale_domains_checked =
     (if \<not> stale_domains_checked then raise_io HostReturnNotSafe
      else
        bnd (ironic_node_of C host) (\<lambda>found.
        bnd (ask (cn_get_node C found) (\<lambda>n. [Observed n])) (\<lambda>node.
        if nd_power_state node \<noteq> Some ''power on'' then raise_io HostReturnNotSafe
        else
          bnd (nova_service_of C host) (\<lambda>service.
          if ns_state service \<noteq> Some ''up'' then raise_io HostReturnNotSafe
          else
            bnd (ask (cn_agents C host) (\<lambda>_. [])) (\<lambda>agents.
            if list_all (agent_healthy agents) required_network_agents
            then return_io [(''host'', PyStr host), (''ready'', PyBool True), (''stale_domains_checked'', PyBool True)]
            else raise_io HostReturnNotSafe)))))"

definition fail_safe_host :: "'c conn \<Rightarrow> string \<Rightarrow> ('c, pyobj) op" where
  "fail_safe_host C host =
     bnd (set_nova_service C host False ''PowerOps fail-safe'') (\<lambda>_.
     bnd (set_masakari_maintenance C host True) (\<lambda>_.
     return_io [(''host'', PyStr host), (''nova_enabled'', PyBool False), (''on_maintenance'', PyBool True)]))"

definition host_status :: "'c conn \<Rightarrow> string \<Rightarrow> ('c, pyobj) op" where
  "host_status C host =
     bnd (nova_service_of C host) (\<lambda>service.
     bnd (ironic_node_of C host) (\<lambda>node.
     bnd (masakari_host_of C host) (\<lambda>(segment, masakari).
     return_io [(''host'', PyStr host), (''nova_status'', pv_opt (ns_status service)),
       (''nova_state'', pv_opt (ns_state service)), (''power_state'', pv_opt (nd_power_state node)),
       (''target_power_state'', pv_opt (nd_target node)),
       (''masakari_on_maintenance'', PyBool (mk_on_maintenance masakari))])))"

end
