(* ===== verification/PowerSafety.thy ===== *)
theory PowerSafety
  imports PowerOperations
begin

text \<open>
  The properties of \<open>PowerOperations\<close>: what its methods ask the cloud for, what their results
  rest on, and that their loops end.  The log of a run is framed by the locale
  \<open>effect_frame\<close>, interpreted on the events a method may add.
\<close>

section \<open>Frames\<close>

text \<open>The log grows, by events of kind \<open>P\<close> only.\<close>

definition logs_only :: "(cloud_event \<Rightarrow> bool) \<Rightarrow> 'c world \<Rightarrow> 'c world \<Rightarrow> bool" where
  "logs_only P w w' \<longleftrightarrow> (\<exists>ts. log w' = log w @ ts \<and> list_all P ts)"

interpretation lo: effect_frame "logs_only P" for P :: "cloud_event \<Rightarrow> bool"
  by unfold_locales (auto simp: logs_only_def)

lemma logs_only_mono: "keeps (logs_only P) m \<Longrightarrow> (\<And>e. P e \<Longrightarrow> Q e) \<Longrightarrow> keeps (logs_only Q) m"
  unfolding keeps_def logs_only_def list_all_iff by blast

lemma ask_logs: "(\<And>a. list_all P (note a)) \<Longrightarrow> keeps (logs_only P) (ask f note)"
  by (auto simp: keeps_def ask_def logs_only_def split: prod.splits sum.splits)

lemma request_logs: "P e \<Longrightarrow> keeps (logs_only P) (request f e)"
  by (simp add: keeps_def request_def logs_only_def split: prod.splits)

lemma pause_logs: "P (Waited n) \<Longrightarrow> keeps (logs_only P) (pause C n)"
  by (simp add: keeps_def pause_def io_run logs_only_def)

lemma poll_logs:
  "P (Waited interval) \<Longrightarrow> (\<And>s. keeps (logs_only P) (body s)) \<Longrightarrow> keeps (logs_only P) (poll C interval e body n s)"
proof (induction n arbitrary: s)
  case (Suc n)
  have "keeps (logs_only P) (case r of Inl a \<Rightarrow> return_io a
      | Inr s' \<Rightarrow> bnd (when_io (n > 0) (pause C interval)) (\<lambda>_. poll C interval e body n s'))" for r
    using Suc by (cases r) (auto intro!: lo.keeps_rules pause_logs)
  then show ?case using Suc.prems(2) by (simp add: lo.keeps_bnd)
qed (simp add: lo.keeps_raise)

lemma lookup_logs:
  "keeps (logs_only P) (ironic_node_of C host)" "keeps (logs_only P) (nova_service_of C host)"
  "keeps (logs_only P) (masakari_host_of C host)"
proof -
  have m: "keeps (logs_only P) (masakari_matches C host segments)" for segments
    by (induction segments) (auto intro!: lo.keeps_rules ask_logs)
  show "keeps (logs_only P) (ironic_node_of C host)" "keeps (logs_only P) (nova_service_of C host)"
    "keeps (logs_only P) (masakari_host_of C host)"
    unfolding ironic_node_of_def nova_service_of_def masakari_host_of_def
    by (intro lo.keeps_rules ask_logs m; simp)+
qed

fun is_watch :: "cloud_event \<Rightarrow> bool" where
  "is_watch (Observed _) = True"
| "is_watch (Waited _) = True"
| "is_watch _ = False"

lemma observe_power_logs: "keeps (logs_only is_watch) (observe_power C ok e answer target k s)"
  unfolding observe_power_def Let_def by (intro lo.keeps_rules ask_logs) simp

section \<open>Watching the power state\<close>

fun observed :: "cloud_event list \<Rightarrow> ironic_node list" where
  "observed [] = []"
| "observed (Observed n # es) = n # observed es"
| "observed (_ # es) = observed es"

lemma observed_append [simp]: "observed (es @ fs) = observed es @ observed fs"
  by (induction es rule: observed.induct) simp_all

definition confirms :: "string \<Rightarrow> ironic_node \<Rightarrow> bool" where
  "confirms target node \<longleftrightarrow> nd_power_state node = Some target \<and> \<not> str_truthy (nd_last_error node)"

lemma observe_power_cases:
  assumes "observe_power C ok e answer target k (old, steady) w = (r, w')"
  shows "(\<exists>x. r = Inl x \<and> (log w' = log w \<or> (\<exists>node. log w' = log w @ [Observed node])))
    \<or> (\<exists>node. log w' = log w @ [Observed node] \<and> \<not> str_truthy (nd_last_error node)
        \<and> (let steady' = (if nd_power_state node = Some target then steady + 1 else 0)
           in if steady' \<ge> k then r = Inr (Inl (answer node steady')) else r = Inr (Inr (node, steady'))))"
  using assms
  by (cases "cn_get_node C old (cloud w)")
    (auto simp: observe_power_def ask_def bnd_run io_run Let_def split: sum.splits if_splits)

text \<open>What a run of the watching loop has seen, given the confirming observations \<open>h\<close> before it.\<close>

definition watched :: "string \<Rightarrow> (ironic_node \<Rightarrow> int \<Rightarrow> pyobj) \<Rightarrow> int \<Rightarrow> ironic_node list \<Rightarrow> pyexn + pyobj
    \<Rightarrow> ironic_node list \<Rightarrow> bool" where
  "watched target answer k h r obs \<longleftrightarrow>
     (\<forall>a. r = Inr a \<longrightarrow> (\<exists>pre last_ones. h @ obs = pre @ last_ones \<and> obs \<noteq> [] \<and> k \<le> int (length last_ones)
        \<and> list_all (confirms target) last_ones \<and> a = answer (last obs) (int (length last_ones))))"

lemma watched_Cons:
  assumes "h @ [seen] = pre @ h'" and "watched target answer k h' r obs"
  shows "watched target answer k h r (seen # obs)"
  unfolding watched_def
proof (intro allI impI)
  fix a assume "r = Inr a"
  with assms(2) obtain pre' last_ones where l: "h' @ obs = pre' @ last_ones" "obs \<noteq> []"
    "k \<le> int (length last_ones)" "list_all (confirms target) last_ones"
    "a = answer (last obs) (int (length last_ones))" unfolding watched_def by blast
  have "h @ seen # obs = (pre @ h') @ obs" by (simp flip: assms(1))
  then have "h @ seen # obs = (pre @ pre') @ last_ones" using l(1) by simp
  with l show "\<exists>pre last_ones. h @ seen # obs = pre @ last_ones \<and> seen # obs \<noteq> []
      \<and> k \<le> int (length last_ones) \<and> list_all (confirms target) last_ones
      \<and> a = answer (last (seen # obs)) (int (length last_ones))"
    by (intro exI [of _ "pre @ pre'"] exI [of _ last_ones]) simp
qed

lemma watch_confirms:
  assumes "poll C i e (observe_power C ok e answer target k) n (node, int (length h)) w = (r, w')"
    and "list_all (confirms target) h" and "1 \<le> k"
  shows "\<exists>ts. log w' = log w @ ts \<and> list_all is_watch ts \<and> length (observed ts) \<le> n
    \<and> watched target answer k h r (observed ts)"
  using assms
proof (induction n arbitrary: node h w)
  case 0
  then show ?case by (auto simp: raise_run watched_def)
next
  case (Suc n)
  let ?body = "observe_power C ok e answer target k"
  obtain b w1 where b: "?body (node, int (length h)) w = (b, w1)" by fastforce
  show ?case
  proof (cases "\<exists>x. b = Inl x")
    case True
    then show ?thesis using Suc.prems(1) b observe_power_cases [OF b]
      by (auto simp: bnd_run watched_def intro: exI [of _ "[]"])
  next
    case False
    with observe_power_cases [OF b] obtain seen where seen: "log w1 = log w @ [Observed seen]"
      "\<not> str_truthy (nd_last_error seen)"
      "let s = (if nd_power_state seen = Some target then int (length h) + 1 else 0)
       in if s \<ge> k then b = Inr (Inl (answer seen s)) else b = Inr (Inr (seen, s))" by auto
    define h' where "h' = (if nd_power_state seen = Some target then h @ [seen] else [])"
    have "confirms target seen \<longleftrightarrow> nd_power_state seen = Some target"
      using seen(2) by (simp add: confirms_def)
    then have h': "list_all (confirms target) h'" "\<exists>pre. h @ [seen] = pre @ h'"
      using Suc.prems(2) by (auto simp: h'_def)
    have s: "if int (length h') \<ge> k then b = Inr (Inl (answer seen (int (length h'))))
        else b = Inr (Inr (seen, int (length h')))"
      using seen(3) by (auto simp: h'_def Let_def add.commute)
    show ?thesis
    proof (cases "int (length h') \<ge> k")
      case True
      with s b Suc.prems(1) have "r = Inr (answer seen (int (length h')))" "w' = w1"
        by (simp_all add: bnd_run return_run)
      with h' seen(1) True show ?thesis
        by (intro exI [of _ "[Observed seen]"]) (auto simp: watched_def)
    next
      case False
      let ?w2 = "if n > 0 then snd (pause C i w1) else w1"
      let ?ts = "if n > 0 then [Waited i] else []"
      have "poll C i e ?body n (seen, int (length h')) ?w2 = (r, w')"
        using Suc.prems(1) b s False by (auto simp: bnd_run when_io_def pause_def io_run)
      from Suc.IH [OF this h'(1) Suc.prems(3)] obtain us where us: "log w' = log ?w2 @ us"
        "list_all is_watch us" "length (observed us) \<le> n" "watched target answer k h' r (observed us)" by blast
      have "log ?w2 = log w1 @ ?ts" by (simp add: pause_def modify_run)
      moreover have "watched target answer k h r (seen # observed us)"
        using h'(2) us(4) watched_Cons by blast
      ultimately show ?thesis using us(1-3) seen(1)
        by (intro exI [of _ "Observed seen # ?ts @ us"]) auto
    qed
  qed
qed

text \<open>
  C2. A confirmed power state was seen.  \<open>wait_power\<close> always comes to an end and asks for nothing;
  it looks at the node at most \<open>attempts\<close> times, and when it returns, its last observations, at
  least as many as required, all showed the wanted state and no error of the BMC.
\<close>

theorem wait_power_confirmed:
  assumes "wait_power C host target timeout interval k w = (r, w')"
  shows "\<exists>ts. log w' = log w @ ts \<and> list_all is_watch ts
    \<and> (\<forall>n. attempts timeout interval = Inr n \<longrightarrow> length (observed ts) \<le> n)
    \<and> (\<forall>a. r = Inr a \<longrightarrow> 2 \<le> k \<and> (\<exists>pre last_ones. observed ts = pre @ last_ones
         \<and> k \<le> int (length last_ones) \<and> list_all (confirms target) last_ones
         \<and> a = power_answer host (Some target) (nd_target (last last_ones))))"
proof -
  obtain rn w1 where n: "ironic_node_of C host w = (rn, w1)" by fastforce
  have "logs_only (\<lambda>_. False) w w1" by (rule keepsD [OF lookup_logs(1) n])
  then have l: "log w1 = log w" by (auto simp: logs_only_def list_all_iff)
  show ?thesis
  proof (cases "k < 2 \<or> isl rn \<or> isl (attempts timeout interval)")
    case True
    then have "log w' = log w \<and> (\<exists>e. r = Inl e)"
      using assms n l
      by (cases rn; cases "attempts timeout interval")
        (auto simp: wait_power_def bnd_run lift_sum_def io_run split: if_splits)
    then show ?thesis by (auto intro: exI [of _ "[]"])
  next
    case False
    then obtain node m where ok: "rn = Inr node" "attempts timeout interval = Inr m" "2 \<le> k"
      by (auto simp: isl_def not_less) (metis old.sum.exhaust)
    let ?ans = "\<lambda>node steady. power_answer host (nd_power_state node) (nd_target node)"
    have "poll C interval PowerTimeout (observe_power C (compatible_pending target) PowerTimeout ?ans target k)
        m (node, int (length [])) w1 = (r, w')"
      using assms n ok by (simp add: wait_power_def bnd_run lift_sum_def io_run)
    from watch_confirms [OF this] ok obtain ts where ts: "log w' = log w1 @ ts" "list_all is_watch ts"
      "length (observed ts) \<le> m" "watched target ?ans k [] r (observed ts)" by auto
    have "\<exists>pre last_ones. observed ts = pre @ last_ones \<and> k \<le> int (length last_ones)
         \<and> list_all (confirms target) last_ones \<and> a = power_answer host (Some target) (nd_target (last last_ones))"
      if a: "r = Inr a" for a
    proof -
      obtain pre last_ones where w: "observed ts = pre @ last_ones" "k \<le> int (length last_ones)"
        "list_all (confirms target) last_ones" "a = ?ans (last (observed ts)) (int (length last_ones))"
        using ts(4) a by (auto simp: watched_def)
      then have "last_ones \<noteq> []" using ok(3) by auto
      then have "last (observed ts) = last last_ones" "confirms target (last last_ones)"
        using w by (auto simp: list_all_iff)
      with w show ?thesis by (auto simp: confirms_def)
    qed
    with ts ok l show ?thesis by auto
  qed
qed

text \<open>A cloud with one node, which reaches its target while the program sleeps.\<close>

definition settle :: "ironic_node \<Rightarrow> ironic_node" where
  "settle n = (case nd_target n of None \<Rightarrow> n
     | Some t \<Rightarrow> n\<lparr>nd_power_state := Some (if t = ''power on'' then t else ''power off''), nd_target := None\<rparr>)"

definition demo_conn :: "ironic_node conn" where
  "demo_conn = \<lparr>cn_nodes = (\<lambda>n. (Inr [n], n)), cn_get_node = (\<lambda>_ n. (Inr n, n)),
     cn_set_power = (\<lambda>_ t n. (Inr (), n\<lparr>nd_target := Some t\<rparr>)),
     cn_services = (\<lambda>h n. (Inr [\<lparr>ns_id = ''s'', ns_host = Some h, ns_binary = Some ''nova-compute'',
        ns_status = Some ''enabled'', ns_state = Some ''up''\<rparr>], n)),
     cn_enable = (\<lambda>_ n. (Inr (), n)), cn_disable = (\<lambda>_ _ n. (Inr (), n)),
     cn_segments = (\<lambda>n. (Inr [''seg''], n)), cn_hosts = (\<lambda>_ n. (Inr [\<lparr>mk_id = ''m'', mk_name = Some ''n1'',
        mk_on_maintenance = False\<rparr>], n)), cn_update_host = (\<lambda>_ _ _ n. (Inr (), n)),
     cn_servers = (\<lambda>_ n. (Inr [], n)), cn_migrate = (\<lambda>_ n. (Inr (), n)), cn_stop = (\<lambda>_ n. (Inr (), n)),
     cn_agents = (\<lambda>_ n. (Inr [], n)), cn_sleep = (\<lambda>_. settle)\<rparr>"

definition demo_node :: "string \<Rightarrow> ironic_node" where
  "demo_node s = \<lparr>nd_id = ''u1'', nd_name = Some ''n1'', nd_power_state = Some s, nd_target = None,
     nd_last_error = None\<rparr>"

definition demo_world :: "string \<Rightarrow> ironic_node world" where
  "demo_world s = \<lparr>cloud = demo_node s, log = []\<rparr>"

theorem wait_power_confirmed_witness:
  "\<exists>a. fst (wait_power demo_conn ''n1'' ''power off'' 20 5 3 ((demo_world ''power on'')\<lparr>cloud :=
       (demo_node ''power on'')\<lparr>nd_target := Some ''power off''\<rparr>\<rparr>)) = Inr a
     \<and> a = power_answer ''n1'' (Some ''power off'') None"
proof -
  let ?w = "(demo_world ''power on'')\<lparr>cloud := (demo_node ''power on'')\<lparr>nd_target := Some ''power off''\<rparr>\<rparr>"
  let ?r = "wait_power demo_conn ''n1'' ''power off'' 20 5 3 ?w"
  have a: "fst ?r = Inr [(''host'', PyStr ''n1''), (''power_state'', PyStr ''power off''), (''target_power_state'', PyNone)]"
    by code_simp
  from wait_power_confirmed [of demo_conn "''n1''" "''power off''" 20 5 3 ?w "fst ?r" "snd ?r"] a
  show ?thesis by (auto simp: power_answer_def pv_opt_def split: option.splits)
qed

lemma watch_steady:
  assumes "\<And>old c. \<exists>node c'. cn_get_node C old c = (Inr node, c') \<and> confirms target node"
    and "steady < k" and "nat (k - steady) \<le> n"
  shows "\<exists>ts a w'. poll C i e (observe_power C ok e answer target k) n (node, steady) w = (Inr a, w')
    \<and> log w' = log w @ ts \<and> length (observed ts) = nat (k - steady)"
  using assms(2,3)
proof (induction n arbitrary: node steady w)
  case (Suc n)
  obtain seen c where g: "cn_get_node C node (cloud w) = (Inr seen, c)" "confirms target seen"
    using assms(1) by blast
  let ?w1 = "w\<lparr>cloud := c, log := log w @ [Observed seen]\<rparr>"
  have b: "observe_power C ok e answer target k (node, steady) w =
      (Inr (if steady + 1 \<ge> k then Inl (answer seen (steady + 1)) else Inr (seen, steady + 1)), ?w1)"
    using g by (simp add: observe_power_def ask_def bnd_run io_run Let_def confirms_def)
  show ?case
  proof (cases "steady + 1 \<ge> k")
    case True
    with Suc.prems(1) have "nat (k - steady) = 1" by simp
    with b True show ?thesis by (simp add: bnd_run return_run)
  next
    case False
    then have n: "0 < n" "nat (k - steady) = Suc (nat (k - (steady + 1)))" using Suc.prems by simp_all
    from Suc.IH [of "steady + 1" seen "snd (pause C i ?w1)"] False Suc.prems n
    obtain ts a w' where "poll C i e (observe_power C ok e answer target k) n (seen, steady + 1) (snd (pause C i ?w1)) = (Inr a, w')"
      "log w' = log (snd (pause C i ?w1)) @ ts" "length (observed ts) = nat (k - (steady + 1))" by auto
    with b False n show ?thesis
      by (intro exI [of _ "[Observed seen, Waited i] @ ts"] exI [of _ a] exI [of _ w'])
        (simp add: bnd_run when_io_def pause_def modify_run)
  qed
qed simp

text \<open>
  C39. A steady node is confirmed.  If the host has one node, every look at it shows the wanted
  state and no error, and the attempts suffice, \<open>wait_power\<close> returns after exactly the required
  number of observations; a target still pending in Ironic, even the opposite one, does not
  matter.
\<close>

theorem wait_power_steady:
  assumes "cn_nodes C (cloud w) = (Inr nodes, c)" and "filter (\<lambda>n. nd_name n = Some host) nodes = [node]"
    and "\<And>old c. \<exists>node c'. cn_get_node C old c = (Inr node, c') \<and> confirms target node"
    and "2 \<le> k" and "attempts timeout interval = Inr n" and "k \<le> int n"
  shows "\<exists>a w' ts. wait_power C host target timeout interval k w = (Inr a, w')
    \<and> log w' = log w @ ts \<and> length (observed ts) = nat k"
proof -
  have "ironic_node_of C host w = (Inr node, w\<lparr>cloud := c\<rparr>)"
    using assms(1,2) by (simp add: ironic_node_of_def ask_def bnd_run exactly_one_def lift_sum_def io_run)
  then show ?thesis
    using watch_steady [OF assms(3), of 0 k n interval PowerTimeout "compatible_pending target"
        "\<lambda>node steady. power_answer host (nd_power_state node) (nd_target node)" node "w\<lparr>cloud := c\<rparr>"] assms(4-)
    by (simp add: wait_power_def bnd_run lift_sum_def io_run nat_le_iff) blast
qed

theorem wait_power_steady_witness:
  "\<exists>a w'. wait_power (demo_conn\<lparr>cn_get_node := \<lambda>_ n. (Inr ((demo_node ''power off'')\<lparr>nd_target := Some ''power on''\<rparr>), n)\<rparr>)
      ''n1'' ''power off'' 30 5 3 (demo_world ''power off'') = (Inr a, w') \<and> length (observed (log w')) = 3"
proof -
  let ?n = "(demo_node ''power off'')\<lparr>nd_target := Some ''power on''\<rparr>"
  let ?C = "demo_conn\<lparr>cn_get_node := \<lambda>_ n. (Inr ?n, n)\<rparr>"
  have "confirms ''power off'' ?n" by (simp add: confirms_def demo_node_def str_truthy_def)
  then have "\<exists>node c'. cn_get_node ?C old c = (Inr node, c') \<and> confirms ''power off'' node" for old c by simp
  moreover have "cn_nodes ?C (cloud (demo_world ''power off'')) = (Inr [demo_node ''power off''], demo_node ''power off'')"
    by (simp add: demo_conn_def demo_world_def)
  moreover have "attempts 30 5 = Inr 7" by code_simp
  ultimately show ?thesis
    using wait_power_steady [of ?C "demo_world ''power off''" "[demo_node ''power off'']" "demo_node ''power off''"
        "''n1''" "demo_node ''power off''" "''power off''" 3 30 5 7]
    by (auto simp: demo_node_def demo_world_def)
qed

section \<open>Requests\<close>

text \<open>
  Power is asked for one idle node only.  Whatever the cloud answers, \<open>request_power\<close> makes
  no request, or exactly one: for a supported target, to the only node of that name, which has
  no target pending and is not in the wanted state; a soft request stays soft.
\<close>

lemma request_power_idle:
  assumes "request_power C host target soft w = (r, w')"
  shows "log w' = log w \<or>
    (\<exists>nodes c node. cn_nodes C (cloud w) = (Inr nodes, c)
       \<and> filter (\<lambda>n. nd_name n = Some host) nodes = [node]
       \<and> \<not> str_truthy (nd_target node) \<and> nd_power_state node \<noteq> Some target
       \<and> target \<in> POWER_TARGETS \<and> effective_target target soft \<in> POWER_TARGETS
       \<and> log w' = log w @ [SetPower (nd_id node) (effective_target target soft)])"
proof -
  have eff: "target \<in> POWER_TARGETS \<Longrightarrow> effective_target target soft \<in> POWER_TARGETS"
    by (auto simp: POWER_TARGETS_def effective_target_def)
  obtain rn w1 where n: "ironic_node_of C host w = (rn, w1)" by fastforce
  have "logs_only (\<lambda>_. False) w w1" by (rule keepsD [OF lookup_logs(1) n])
  then have l: "log w1 = log w" by (auto simp: logs_only_def list_all_iff)
  show ?thesis
  proof (cases "target \<in> POWER_TARGETS \<and> \<not> isl rn")
    case True
    then obtain node where rn: "rn = Inr node" by (cases rn) auto
    obtain nodes c where q: "cn_nodes C (cloud w) = (Inr nodes, c)"
      "filter (\<lambda>n. nd_name n = Some host) nodes = [node]"
      using n rn by (auto simp: ironic_node_of_def ask_def bnd_run exactly_one_def lift_sum_def io_run
          split: prod.splits sum.splits list.splits)
    show ?thesis
      using assms n rn l q eff True
      by (auto simp: request_power_def bnd_run return_run raise_run request_def Let_def
          split: if_splits prod.splits sum.splits)
  next
    case False
    with assms n l show ?thesis
      by (cases rn) (auto simp: request_power_def bnd_run io_run split: if_splits)
  qed
qed

lemma request_power_idle_witness:
  "log (snd (request_power demo_conn ''n1'' ''power off'' True (demo_world ''power on'')))
     = [SetPower ''u1'' ''soft power off'']"
proof -
  let ?w = "demo_world ''power on''"
  let ?r = "request_power demo_conn ''n1'' ''power off'' True ?w"
  have "log (snd ?r) \<noteq> []" by code_simp
  moreover have "log ?w = []" "cn_nodes demo_conn (cloud ?w) = (Inr [demo_node ''power on''], demo_node ''power on'')"
    "nd_id (demo_node ''power on'') = ''u1''"
    by (simp_all add: demo_world_def demo_conn_def demo_node_def)
  ultimately show ?thesis
    using request_power_idle [of demo_conn "''n1''" "''power off''" True ?w "fst ?r" "snd ?r"]
    by (auto simp: effective_target_def split: if_splits)
qed

section \<open>Draining a host\<close>

fun last_listed :: "cloud_event list \<Rightarrow> server list option" where
  "last_listed [] = None"
| "last_listed (Listed ss # es) = (case last_listed es of None \<Rightarrow> Some ss | Some l \<Rightarrow> Some l)"
| "last_listed (_ # es) = last_listed es"

lemma last_listed_append:
  "last_listed (es @ fs) = (case last_listed fs of None \<Rightarrow> last_listed es | Some l \<Rightarrow> Some l)"
  by (induction es rule: last_listed.induct) (auto split: option.splits)

fun is_listing :: "cloud_event \<Rightarrow> bool" where
  "is_listing (Listed _) = True"
| "is_listing (Waited _) = True"
| "is_listing _ = False"

text \<open>A run that made only listings, and whose result was granted on the last one.\<close>

definition granted :: "(server list \<Rightarrow> bool) \<Rightarrow> 'c world \<Rightarrow> pyexn + 'a \<Rightarrow> 'c world \<Rightarrow> bool" where
  "granted good w r w' \<longleftrightarrow> (\<exists>ts. log w' = log w @ ts \<and> list_all is_listing ts
     \<and> (\<forall>a. r = Inr a \<longrightarrow> (\<exists>l. last_listed ts = Some l \<and> good l)))"

lemma servers_on_host_run:
  assumes "servers_on_host C host w = (r, w')"
  shows "(\<exists>e. r = Inl e \<and> log w' = log w) \<or> (\<exists>l. r = Inr l \<and> log w' = log w @ [Listed l])"
  using assms by (auto simp: servers_on_host_def ask_def bnd_run return_run split: prod.splits sum.splits)

lemma poll_granted:
  assumes body: "\<And>w r w'. body () w = (r, w') \<Longrightarrow>
      (\<exists>ts. log w' = log w @ ts \<and> list_all is_listing ts
        \<and> (\<forall>a. r = Inr (Inl a) \<longrightarrow> (\<exists>l. last_listed ts = Some l \<and> good l)))"
  shows "granted good w (fst (poll C i e body n () w)) (snd (poll C i e body n () w))"
proof (induction n arbitrary: w)
  case (Suc n)
  obtain b w1 where b: "body () w = (b, w1)" by fastforce
  from body [OF b] obtain ts where ts: "log w1 = log w @ ts" "list_all is_listing ts"
    "\<forall>a. b = Inr (Inl a) \<longrightarrow> (\<exists>l. last_listed ts = Some l \<and> good l)" by blast
  show ?case
  proof (cases "b = Inr (Inr ())")
    case False
    then show ?thesis using b ts
      by (cases b) (auto simp: bnd_run io_run granted_def split: sum.splits)
  next
    case True
    let ?w2 = "if n > 0 then snd (pause C i w1) else w1"
    have "poll C i e body (Suc n) () w = poll C i e body n () ?w2"
      using b True by (simp add: bnd_run when_io_def pause_def io_run)
    moreover have "log ?w2 = log w @ ts @ (if n > 0 then [Waited i] else [])"
      using ts(1) by (simp add: pause_def modify_run)
    ultimately show ?thesis using Suc.IH [of ?w2] ts(2)
      by (auto simp: granted_def last_listed_append split: option.splits
          intro!: exI [of _ "ts @ (if n > 0 then [Waited i] else []) @ _"])
  qed
qed (auto simp: granted_def raise_run intro: exI [of _ "[]"])

lemma for_requests:
  "for_io xs (\<lambda>x. request (f x) (e x)) w = (Inr u, w') \<Longrightarrow> log w' = log w @ map e xs"
proof (induction xs arbitrary: w)
  case (Cons x xs)
  from Cons.prems obtain w1 where "request (f x) (e x) w = (Inr (), w1)"
    "for_io xs (\<lambda>x. request (f x) (e x)) w1 = (Inr u, w')"
    by (auto elim!: bnd_InrD)
  with Cons.IH show ?case by (auto simp: request_def split: prod.splits)
qed (simp add: return_run)

lemma listing_then:
  assumes "bnd (servers_on_host C host) f w = (r, w')"
    and "\<And>l v. snd (f l v) = v" and "\<And>l v a. fst (f l v) = Inr (Inl a) \<Longrightarrow> good l"
  shows "\<exists>ts. log w' = log w @ ts \<and> list_all is_listing ts
    \<and> (\<forall>a. r = Inr (Inl a) \<longrightarrow> (\<exists>l. last_listed ts = Some l \<and> good l))"
proof -
  obtain rs w1 where s: "servers_on_host C host w = (rs, w1)" by fastforce
  from servers_on_host_run [OF s] show ?thesis
  proof (elim disjE exE conjE)
    fix e assume "rs = Inl e" "log w1 = log w"
    with s assms(1) show ?thesis by (auto simp: bnd_run intro: exI [of _ "[]"])
  next
    fix l assume l: "rs = Inr l" "log w1 = log w @ [Listed l]"
    then have "f l w1 = (r, w')" using s assms(1) by (simp add: bnd_run)
    then have "w' = w1" "r = fst (f l w1)" using assms(2) [of l w1] by simp_all
    with l assms(3) show ?thesis by (auto intro!: exI [of _ "[Listed l]"])
  qed
qed

lemma drain_checks_granted:
  "granted (\<lambda>l. l = []) w (fst (poll C i HostNotEmpty (migrated_check C host) n () w))
     (snd (poll C i HostNotEmpty (migrated_check C host) n () w))"
  "granted (list_all (\<lambda>s. status_of s = ''SHUTOFF'')) w (fst (poll C i HostNotEmpty (stopped_check C host) n () w))
     (snd (poll C i HostNotEmpty (stopped_check C host) n () w))"
  by (rule poll_granted, unfold migrated_check_def stopped_check_def, erule listing_then;
      simp add: io_run split: if_splits)+

text \<open>
  C7. A drained host is drained.  When \<open>drain_host\<close> returns, then: under \<open>require_empty\<close> the host
  had no servers and nothing was asked for; under \<open>live_migrate\<close> every server found at the start
  was asked to migrate, once and in order, and the last listing was empty; under \<open>stop\<close> every
  one was asked to stop, and in the last listing all were shut off.
\<close>

theorem drain_host_done:
  assumes "drain_host C host policy timeout interval w = (Inr a, w')"
  shows "\<exists>initial ts. log w' = log w @ Listed initial # ts \<and> policy \<in> INSTANCE_POLICIES
    \<and> (policy = ''require_empty'' \<longrightarrow> initial = [] \<and> ts = [])
    \<and> (policy = ''live_migrate'' \<longrightarrow> (\<exists>us. ts = map (\<lambda>s. Migrated (sv_id s)) initial @ us
         \<and> list_all is_listing us \<and> last_listed us = Some []))
    \<and> (policy = ''stop'' \<longrightarrow> (\<exists>us l. ts = map (\<lambda>s. Stopped (sv_id s)) initial @ us
         \<and> list_all is_listing us \<and> last_listed us = Some l \<and> list_all (\<lambda>s. status_of s = ''SHUTOFF'') l))"
proof -
  have p: "policy \<in> INSTANCE_POLICIES"
    using assms by (auto simp: drain_host_def io_run split: if_splits)
  obtain initial w1 where i: "servers_on_host C host w = (Inr initial, w1)"
    using assms p by (auto simp: drain_host_def elim!: bnd_InrD)
  then have l1: "log w1 = log w @ [Listed initial]" using servers_on_host_run [OF i] by auto
  consider (empty) "policy = ''require_empty''" | (migrate) "policy = ''live_migrate''" | (stop) "policy = ''stop''"
    using p by (auto simp: INSTANCE_POLICIES_def)
  then show ?thesis
  proof cases
    case empty
    then show ?thesis using assms i p l1
      by (auto simp: drain_host_def bnd_run io_run split: if_splits)
  next
    case migrate
    with assms i p obtain w2 n where m: "for_io initial (\<lambda>item. request (cn_migrate C item) (Migrated (sv_id item))) w1 = (Inr (), w2)"
      "poll C interval HostNotEmpty (migrated_check C host) n () w2 = (Inr a, w')"
      by (auto simp: drain_host_def bnd_run lift_sum_def io_run split: prod.splits sum.splits)
    with drain_checks_granted(1) [where w = w2 and C = C and i = interval and host = host and n = n]
      for_requests [OF m(1)] l1 p migrate show ?thesis
      by (auto simp: granted_def)
  next
    case stop
    with assms i p obtain w2 n where m: "for_io initial (\<lambda>item. request (cn_stop C item) (Stopped (sv_id item))) w1 = (Inr (), w2)"
      "poll C interval HostNotEmpty (stopped_check C host) n () w2 = (Inr a, w')"
      by (auto simp: drain_host_def bnd_run lift_sum_def io_run split: prod.splits sum.splits)
    with drain_checks_granted(2) [where w = w2 and C = C and i = interval and host = host and n = n]
      for_requests [OF m(1)] l1 p stop show ?thesis
      by (auto simp: granted_def)
  qed
qed

text \<open>A cloud that counts the sleeps and empties the host at the first.\<close>

definition draining_conn :: "nat conn" where
  "draining_conn = \<lparr>cn_nodes = (\<lambda>n. (Inr [], n)), cn_get_node = (\<lambda>o' n. (Inr o', n)),
     cn_set_power = (\<lambda>_ t n. (Inr (), n)), cn_services = (\<lambda>h n. (Inr [], n)),
     cn_enable = (\<lambda>_ n. (Inr (), n)), cn_disable = (\<lambda>_ _ n. (Inr (), n)),
     cn_segments = (\<lambda>n. (Inr [], n)), cn_hosts = (\<lambda>_ n. (Inr [], n)), cn_update_host = (\<lambda>_ _ _ n. (Inr (), n)),
     cn_servers = (\<lambda>h n. (Inr (if n = 0 then [\<lparr>sv_id = ''vm'', sv_name = None, sv_status = Some ''ACTIVE'',
        sv_hypervisor = Some h, sv_ext_host = None\<rparr>] else []), n)),
     cn_migrate = (\<lambda>_ n. (Inr (), n)), cn_stop = (\<lambda>_ n. (Inr (), n)), cn_agents = (\<lambda>_ n. (Inr [], n)),
     cn_sleep = (\<lambda>_. Suc)\<rparr>"

theorem drain_host_done_witness:
  "\<exists>us. log (snd (drain_host draining_conn ''n1'' ''live_migrate'' 20 5 \<lparr>cloud = 0, log = []\<rparr>))
     = Listed [\<lparr>sv_id = ''vm'', sv_name = None, sv_status = Some ''ACTIVE'', sv_hypervisor = Some ''n1'', sv_ext_host = None\<rparr>]
       # Migrated ''vm'' # us \<and> last_listed us = Some []"
proof -
  let ?w = "\<lparr>cloud = 0, log = []\<rparr> :: nat world"
  let ?r = "drain_host draining_conn ''n1'' ''live_migrate'' 20 5 ?w"
  let ?vm = "\<lparr>sv_id = ''vm'', sv_name = None, sv_status = Some ''ACTIVE'', sv_hypervisor = Some ''n1'', sv_ext_host = None\<rparr>"
  have "fst ?r = Inr [(''host'', PyStr ''n1''), (''servers_on_source'', PyList [])]" by code_simp
  then have r: "?r = (Inr [(''host'', PyStr ''n1''), (''servers_on_source'', PyList [])], snd ?r)"
    by (simp only: prod_eq_iff fst_conv snd_conv)
  have first: "hd (log (snd ?r)) = Listed [?vm]" by code_simp
  from drain_host_done [OF r] obtain initial us where "log (snd ?r) = Listed initial # map (\<lambda>s. Migrated (sv_id s)) initial @ us"
    "last_listed us = Some []" by auto
  with first show ?thesis by auto
qed

section \<open>The return of a host, and its fail-safe\<close>

text \<open>What the answer of the Nova service list is for a host.\<close>

definition nova_answer :: "nova_service list \<Rightarrow> string \<Rightarrow> nova_service list" where
  "nova_answer services host =
     filter (\<lambda>s. ns_host s = Some host \<and> ns_binary s = Some ''nova-compute'') services"

lemma nova_service_of_InrD:
  assumes "nova_service_of C host w = (Inr s, w')"
  obtains services where "cn_services C host (cloud w) = (Inr services, cloud w')" "nova_answer services host = [s]"
    "log w' = log w"
  using assms
  by (auto simp: nova_service_of_def nova_answer_def ask_def bnd_run lift_sum_def exactly_one_def io_run
      split: prod.splits sum.splits list.splits)

lemma ask_InrD:
  assumes "ask f note w = (Inr a, w')"
  obtains "f (cloud w) = (Inr a, cloud w')" "log w' = log w @ note a"
  using assms by (auto simp: ask_def split: prod.splits sum.splits)

lemma ironic_node_of_InrD:
  assumes "ironic_node_of C host w = (Inr found, w')"
  obtains nodes where "cn_nodes C (cloud w) = (Inr nodes, cloud w')"
    "filter (\<lambda>n. nd_name n = Some host) nodes = [found]" "log w' = log w"
  using assms
  by (auto simp: ironic_node_of_def ask_def bnd_run lift_sum_def exactly_one_def io_run
      split: prod.splits sum.splits list.splits)

lemma agent_healthy_iff:
  "agent_healthy agents b \<longleftrightarrow> (\<exists>a. filter (\<lambda>a. ag_binary a = Some b) agents = [a] \<and> ag_alive a)"
  unfolding agent_healthy_def
  by (cases "filter (\<lambda>a. ag_binary a = Some b) agents"; cases "tl (filter (\<lambda>a. ag_binary a = Some b) agents)") simp_all

text \<open>
  C15. A host is declared ready only if it is.  When \<open>verify_host_return\<close> returns, the stale
  domains were checked; the one node that bears the host's name was then read and was powered
  on; in the state of the cloud after that, the host had one nova-compute service, and it was up;
  and in the next one each required agent was listed for the host exactly once, and alive.  It
  asks for nothing, whatever happens.
\<close>

theorem verify_host_return_safe:
  assumes "verify_host_return C required host checked w = (r, w')"
  shows "logs_only is_watch w w' \<and> (\<forall>a. r = Inr a \<longrightarrow> checked
    \<and> (\<exists>nodes found c1 node c2 services s c3 agents.
         cn_nodes C (cloud w) = (Inr nodes, c1) \<and> filter (\<lambda>n. nd_name n = Some host) nodes = [found]
       \<and> cn_get_node C found c1 = (Inr node, c2) \<and> nd_power_state node = Some ''power on''
       \<and> log w' = log w @ [Observed node]
       \<and> cn_services C host c2 = (Inr services, c3) \<and> nova_answer services host = [s] \<and> ns_state s = Some ''up''
       \<and> cn_agents C host c3 = (Inr agents, cloud w')
       \<and> (\<forall>b \<in> set required. \<exists>a. filter (\<lambda>a. ag_binary a = Some b) agents = [a] \<and> ag_alive a)))"
proof -
  have "keeps (logs_only is_watch) (verify_host_return C required host checked)"
    unfolding verify_host_return_def by (intro lo.keeps_rules lookup_logs ask_logs) simp_all
  then have "logs_only is_watch w w'" using assms by (rule keepsD)
  moreover have "checked
    \<and> (\<exists>nodes found c1 node c2 services s c3 agents.
         cn_nodes C (cloud w) = (Inr nodes, c1) \<and> filter (\<lambda>n. nd_name n = Some host) nodes = [found]
       \<and> cn_get_node C found c1 = (Inr node, c2) \<and> nd_power_state node = Some ''power on''
       \<and> log w' = log w @ [Observed node]
       \<and> cn_services C host c2 = (Inr services, c3) \<and> nova_answer services host = [s] \<and> ns_state s = Some ''up''
       \<and> cn_agents C host c3 = (Inr agents, cloud w')
       \<and> (\<forall>b \<in> set required. \<exists>a. filter (\<lambda>a. ag_binary a = Some b) agents = [a] \<and> ag_alive a))"
    if a: "r = Inr a" for a
  proof -
    have c: checked using assms a by (auto simp: verify_host_return_def io_run split: if_splits)
    with assms a obtain found w1 node w2 s w3 agents where run:
      "ironic_node_of C host w = (Inr found, w1)"
      "ask (cn_get_node C found) (\<lambda>n. [Observed n]) w1 = (Inr node, w2)" "nd_power_state node = Some ''power on''"
      "nova_service_of C host w2 = (Inr s, w3)" "ns_state s = Some ''up''"
      "ask (cn_agents C host) (\<lambda>_. []) w3 = (Inr agents, w')" "list_all (agent_healthy agents) required"
      by (auto simp: verify_host_return_def io_run elim!: bnd_InrD split: if_splits)
    obtain nodes where n: "cn_nodes C (cloud w) = (Inr nodes, cloud w1)"
      "filter (\<lambda>n. nd_name n = Some host) nodes = [found]" "log w1 = log w" using run(1) by (rule ironic_node_of_InrD)
    moreover have "cn_get_node C found (cloud w1) = (Inr node, cloud w2)" "log w2 = log w1 @ [Observed node]"
      using run(2) by (auto elim: ask_InrD)
    moreover obtain services where "cn_services C host (cloud w2) = (Inr services, cloud w3)"
      "nova_answer services host = [s]" "log w3 = log w2" using run(4) by (auto elim: nova_service_of_InrD)
    moreover have "cn_agents C host (cloud w3) = (Inr agents, cloud w')" "log w' = log w3"
      using run(6) by (auto elim: ask_InrD)
    moreover have "\<forall>b \<in> set required. \<exists>a. filter (\<lambda>a. ag_binary a = Some b) agents = [a] \<and> ag_alive a"
      using run(7) by (simp add: list_all_iff agent_healthy_iff)
    ultimately show ?thesis using c run(3,5) by auto
  qed
  ultimately show ?thesis by blast
qed

text \<open>A cloud whose network agents of a host are the given ones.\<close>

definition agents_conn :: "agent list \<Rightarrow> ironic_node conn" where
  "agents_conn agents = demo_conn\<lparr>cn_agents := (\<lambda>h n. (Inr agents, n))\<rparr>"

theorem verify_host_return_safe_witness:
  "(\<forall>a. fst (verify_host_return (agents_conn [\<lparr>ag_binary = Some ''ovs'', ag_alive = False\<rparr>]) [''ovs''] ''n1'' True
        (demo_world ''power on'')) \<noteq> Inr a)
   \<and> fst (verify_host_return (agents_conn [\<lparr>ag_binary = Some ''ovs'', ag_alive = True\<rparr>]) [''ovs''] ''n1'' True
        (demo_world ''power on''))
       = Inr [(''host'', PyStr ''n1''), (''ready'', PyBool True), (''stale_domains_checked'', PyBool True)]"
proof -
  let ?C = "agents_conn [\<lparr>ag_binary = Some ''ovs'', ag_alive = False\<rparr>]"
  obtain r w' where run: "verify_host_return ?C [''ovs''] ''n1'' True (demo_world ''power on'') = (r, w')" by fastforce
  have "r \<noteq> Inr a" for a
  proof
    assume "r = Inr a"
    with verify_host_return_safe [OF run] obtain c3 agents x where "cn_agents ?C ''n1'' c3 = (Inr agents, cloud w')"
      "filter (\<lambda>a. ag_binary a = Some ''ovs'') agents = [x]" "ag_alive x" by auto
    then show False by (auto simp: agents_conn_def)
  qed
  moreover have "fst (verify_host_return (agents_conn [\<lparr>ag_binary = Some ''ovs'', ag_alive = True\<rparr>]) [''ovs''] ''n1'' True
        (demo_world ''power on''))
       = Inr [(''host'', PyStr ''n1''), (''ready'', PyBool True), (''stale_domains_checked'', PyBool True)]"
    by code_simp
  ultimately show ?thesis using run by simp
qed

lemma set_masakari_log:
  assumes "set_masakari_maintenance C host True w = (Inr y, w')"
  shows "\<exists>m :: masakari_item. log w' = log w @ (if mk_on_maintenance m then [] else [Maintenance (mk_id m) True])"
proof -
  obtain seg m v where m: "masakari_host_of C host w = (Inr (seg, m), v)"
    using assms by (auto simp: set_masakari_maintenance_def elim!: bnd_InrD)
  have "logs_only (\<lambda>_. False) w v" by (rule keepsD [OF lookup_logs(3) m])
  then have "log v = log w" by (auto simp: logs_only_def list_all_iff)
  then have "log w' = log w @ (if mk_on_maintenance m then [] else [Maintenance (mk_id m) True])"
    using assms m by (auto simp: set_masakari_maintenance_def bnd_run when_io_def io_run request_def
        split: if_splits prod.splits sum.splits)
  then show ?thesis by blast
qed

text \<open>
  The fail-safe depends on Nova.  When \<open>fail_safe_host\<close> returns, the service was already
  disabled or its disabling was asked for with the fail-safe reason, and then the maintenance
  of the host was on or asked for; but if Nova does not know exactly one service for the host,
  it raises and the Masakari maintenance is never set.
\<close>

lemma fail_safe_host_order:
  assumes "cn_services C host (cloud w) = (Inr services, c)" and "fail_safe_host C host w = (r, w')"
  shows "(length (nova_answer services host) \<noteq> 1 \<longrightarrow> r = Inl MappingError \<and> log w' = log w)
    \<and> (\<forall>a. r = Inr a \<longrightarrow> (\<exists>s (m :: masakari_item). nova_answer services host = [s]
         \<and> log w' = log w @ (if ns_status s = Some ''disabled'' then [] else [Disabled (ns_id s) ''PowerOps fail-safe''])
              @ (if mk_on_maintenance m then [] else [Maintenance (mk_id m) True])))"
proof -
  let ?w1 = "w\<lparr>cloud := c\<rparr>"
  have find: "nova_service_of C host w = (exactly_one (nova_answer services host), ?w1)"
    using assms(1)
    by (cases "exactly_one (nova_answer services host)")
      (simp_all add: nova_service_of_def nova_answer_def [symmetric] ask_def bnd_run lift_sum_def io_run)
  show ?thesis
  proof (cases "length (nova_answer services host) = 1")
    case False
    then have "exactly_one (nova_answer services host) = Inl MappingError"
      by (auto simp: exactly_one_def split: list.splits)
    with False show ?thesis using assms(2) find
      by (auto simp: fail_safe_host_def set_nova_service_def bnd_run)
  next
    case True
    then obtain s where s: "nova_answer services host = [s]" by (cases "nova_answer services host") auto
    then have f: "nova_service_of C host w = (Inr s, ?w1)" using find by (simp add: exactly_one_def)
    have "\<exists>m :: masakari_item. log w' = log w @ (if ns_status s = Some ''disabled'' then [] else [Disabled (ns_id s) ''PowerOps fail-safe''])
              @ (if mk_on_maintenance m then [] else [Maintenance (mk_id m) True])" if a: "r = Inr a" for a
    proof -
      from assms(2) a obtain x w2 y w3 where run: "set_nova_service C host False ''PowerOps fail-safe'' w = (Inr x, w2)"
        "set_masakari_maintenance C host True w2 = (Inr y, w3)" "w' = w3"
        by (auto simp: fail_safe_host_def io_run elim!: bnd_InrD)
      have "log w2 = log w @ (if ns_status s = Some ''disabled'' then [] else [Disabled (ns_id s) ''PowerOps fail-safe''])"
        using run(1) f by (auto simp: set_nova_service_def bnd_run when_io_def io_run request_def
            split: if_splits prod.splits sum.splits)
      moreover obtain m :: masakari_item where "log w3 = log w2 @ (if mk_on_maintenance m then [] else [Maintenance (mk_id m) True])"
        using set_masakari_log [OF run(2)] by blast
      ultimately have "log w' = log w
          @ (if ns_status s = Some ''disabled'' then [] else [Disabled (ns_id s) ''PowerOps fail-safe''])
          @ (if mk_on_maintenance m then [] else [Maintenance (mk_id m) True])"
        using run(3) by (simp only: append_assoc)
      then show ?thesis by blast
    qed
    with s show ?thesis by auto
  qed
qed

lemma fail_safe_host_order_witness:
  "log (snd (fail_safe_host demo_conn ''n1'' (demo_world ''power on'')))
     = [Disabled ''s'' ''PowerOps fail-safe'', Maintenance ''m'' True]
   \<and> log (snd (fail_safe_host (demo_conn\<lparr>cn_services := \<lambda>h n. (Inr [], n)\<rparr>) ''n1'' (demo_world ''power on''))) = []"
proof -
  let ?C = "demo_conn\<lparr>cn_services := \<lambda>h n. (Inr [], n)\<rparr>"
  let ?w = "demo_world ''power on''"
  obtain r w' where f: "fail_safe_host ?C ''n1'' ?w = (r, w')" by fastforce
  have "cn_services ?C ''n1'' (cloud ?w) = (Inr [], cloud ?w)" by simp
  from fail_safe_host_order [OF this f] have "log w' = []"
    by (simp add: nova_answer_def demo_world_def)
  then have "log (snd (fail_safe_host ?C ''n1'' ?w)) = []" by (simp add: f)
  moreover have "log (snd (fail_safe_host demo_conn ''n1'' ?w)) = [Disabled ''s'' ''PowerOps fail-safe'', Maintenance ''m'' True]"
    by code_simp
  ultimately show ?thesis by blast
qed

end
