(* ===== verification/Locks.thy ===== *)
theory Locks
  imports Prelude
begin

text \<open>
  The host locks of the Mistral plugin
  (\<open>plugins/mistral_power_actions/src/openstack_power_actions/locks.py\<close>): \<open>RedisHostLock\<close> and
  its two scripts.

  Redis is the parameter \<open>redis\<close>: the four commands used, on an arbitrary state.  What the
  code relies on of them is the predicate \<open>redis_laws\<close>, the documented behaviour of \<open>GET\<close>,
  \<open>SET NX PX\<close>, \<open>PEXPIRE\<close> and \<open>DEL\<close>; scripts run atomically.  Time is a step of the
  environment in which a key expires.
\<close>

record 's redis =
  rd_get :: "string \<Rightarrow> 's \<Rightarrow> string option"
  rd_set_nx_px :: "string \<Rightarrow> string \<Rightarrow> int \<Rightarrow> 's \<Rightarrow> bool \<times> 's"
  rd_pexpire :: "string \<Rightarrow> int \<Rightarrow> 's \<Rightarrow> int \<times> 's"
  rd_del :: "string \<Rightarrow> 's \<Rightarrow> int \<times> 's"

section \<open>The lock object\<close>

record host_lock =
  hl_key :: string
  hl_ttl_ms :: int
  hl_owner :: string

definition lock_key :: "string \<Rightarrow> string" where
  "lock_key host = ''powerops:host:'' @ host"

definition redis_host_lock :: "string \<Rightarrow> int \<Rightarrow> string \<Rightarrow> pyexn + host_lock" where
  "redis_host_lock host ttl_seconds owner =
     (if host = [] \<or> owner = [] then Inl ValueError
      else if ttl_seconds \<le> 0 then Inl ValueError
      else Inr \<lparr>hl_key = lock_key host, hl_ttl_ms = ttl_seconds * 1000, hl_owner = owner\<rparr>)"

definition refresh_script :: "'s redis \<Rightarrow> string \<Rightarrow> string \<Rightarrow> int \<Rightarrow> 's \<Rightarrow> int \<times> 's" where
  "refresh_script R key owner ttl s =
     (if rd_get R key s = Some owner then rd_pexpire R key ttl s else (0, s))"

definition release_script :: "'s redis \<Rightarrow> string \<Rightarrow> string \<Rightarrow> 's \<Rightarrow> int \<times> 's" where
  "release_script R key owner s =
     (if rd_get R key s = Some owner then rd_del R key s else (0, s))"

definition lock_acquire :: "'s redis \<Rightarrow> host_lock \<Rightarrow> 's \<Rightarrow> bool \<times> 's" where
  "lock_acquire R l s = rd_set_nx_px R (hl_key l) (hl_owner l) (hl_ttl_ms l) s"

definition lock_refresh :: "'s redis \<Rightarrow> host_lock \<Rightarrow> 's \<Rightarrow> bool \<times> 's" where
  "lock_refresh R l s =
     (case refresh_script R (hl_key l) (hl_owner l) (hl_ttl_ms l) s of (n, s') \<Rightarrow> (n \<noteq> 0, s'))"

definition lock_release :: "'s redis \<Rightarrow> host_lock \<Rightarrow> 's \<Rightarrow> bool \<times> 's" where
  "lock_release R l s =
     (case release_script R (hl_key l) (hl_owner l) s of (n, s') \<Rightarrow> (n \<noteq> 0, s'))"

section \<open>The commands of Redis\<close>

definition others_kept :: "'s redis \<Rightarrow> string \<Rightarrow> 's \<Rightarrow> 's \<Rightarrow> bool" where
  "others_kept R k s s' \<longleftrightarrow> (\<forall>k'. k' \<noteq> k \<longrightarrow> rd_get R k' s' = rd_get R k' s)"

definition redis_laws :: "'s redis \<Rightarrow> bool" where
  "redis_laws R \<longleftrightarrow>
     (\<forall>k v t s b s'. rd_set_nx_px R k v t s = (b, s') \<longrightarrow> others_kept R k s s' \<and>
        (case rd_get R k s of None \<Rightarrow> b \<and> rd_get R k s' = Some v
         | Some w \<Rightarrow> \<not> b \<and> rd_get R k s' = Some w)) \<and>
     (\<forall>k t s n s'. rd_pexpire R k t s = (n, s') \<longrightarrow> others_kept R k s s' \<and>
        rd_get R k s' = rd_get R k s \<and> n = (if rd_get R k s = None then 0 else 1)) \<and>
     (\<forall>k s n s'. rd_del R k s = (n, s') \<longrightarrow> others_kept R k s s' \<and>
        rd_get R k s' = None \<and> n = (if rd_get R k s = None then 0 else 1))"

text \<open>A Redis that forgets nothing by itself, as an association list.\<close>

definition demo_redis :: "(string, string) pydict redis" where
  "demo_redis =
    \<lparr>rd_get = (\<lambda>k s. map_of s k),
     rd_set_nx_px = (\<lambda>k v t s. if map_of s k = None then (True, AList.update k v s) else (False, s)),
     rd_pexpire = (\<lambda>k t s. (if map_of s k = None then 0 else 1, s)),
     rd_del = (\<lambda>k s. (if map_of s k = None then 0 else 1, AList.delete k s))\<rparr>"

lemma demo_redis_laws: "redis_laws demo_redis"
  by (auto simp: redis_laws_def demo_redis_def others_kept_def delete_conv' split: option.splits if_splits)

section \<open>Runs of many owners\<close>

text \<open>
  What happens to the locks in the order it happens: attempts of any owner at any host, with
  their answers, and keys expiring.
\<close>

datatype lock_event =
    Acquire host_lock bool
  | Refresh host_lock bool
  | Release host_lock bool
  | Expire string

inductive lock_run :: "'s redis \<Rightarrow> 's \<Rightarrow> lock_event list \<Rightarrow> 's \<Rightarrow> bool" for R s where
  start: "lock_run R s [] s"
| acquire: "lock_run R s es t \<Longrightarrow> lock_acquire R l t = (b, u) \<Longrightarrow> lock_run R s (es @ [Acquire l b]) u"
| refresh: "lock_run R s es t \<Longrightarrow> lock_refresh R l t = (b, u) \<Longrightarrow> lock_run R s (es @ [Refresh l b]) u"
| release: "lock_run R s es t \<Longrightarrow> lock_release R l t = (b, u) \<Longrightarrow> lock_run R s (es @ [Release l b]) u"
| expire: "lock_run R s es t \<Longrightarrow> rd_get R k u = None \<Longrightarrow> others_kept R k t u \<Longrightarrow>
    lock_run R s (es @ [Expire k]) u"

text \<open>
  The abstract lock table: who holds which key, how an event changes it, and which answer it
  must have.
\<close>

type_synonym lock_table = "string \<Rightarrow> string option"

fun table_step :: "lock_event \<Rightarrow> lock_table \<Rightarrow> lock_table" where
  "table_step (Acquire l b) T = (if b then T(hl_key l \<mapsto> hl_owner l) else T)"
| "table_step (Refresh l b) T = T"
| "table_step (Release l b) T = (if b then T(hl_key l := None) else T)"
| "table_step (Expire k) T = T(k := None)"

fun answered :: "lock_table \<Rightarrow> lock_event \<Rightarrow> bool" where
  "answered T (Acquire l b) = (b = (T (hl_key l) = None))"
| "answered T (Refresh l b) = (b = (T (hl_key l) = Some (hl_owner l)))"
| "answered T (Release l b) = (b = (T (hl_key l) = Some (hl_owner l)))"
| "answered T (Expire k) = True"

fun lawful :: "lock_table \<Rightarrow> lock_event list \<Rightarrow> bool" where
  "lawful T [] = True"
| "lawful T (e # es) = (answered T e \<and> lawful (table_step e T) es)"

definition table_of :: "'s redis \<Rightarrow> 's \<Rightarrow> lock_table" where
  "table_of R s = (\<lambda>k. rd_get R k s)"

lemma lawful_snoc: "lawful T (es @ [e]) \<longleftrightarrow> lawful T es \<and> answered (fold table_step es T) e"
  by (induction es arbitrary: T) auto

lemma table_of_update: "others_kept R k s s' \<Longrightarrow> table_of R s' = (table_of R s)(k := rd_get R k s')"
  by (auto simp: others_kept_def table_of_def fun_eq_iff)

lemma table_of_get: "table_of R s k = rd_get R k s"
  by (simp add: table_of_def)

lemma table_same: "T k = v \<Longrightarrow> T(k := v) = T"
  by (simp add: fun_eq_iff)

lemma lock_steps:
  assumes "redis_laws R"
  shows "lock_acquire R l t = (b, u) \<Longrightarrow>
      answered (table_of R t) (Acquire l b) \<and> table_of R u = table_step (Acquire l b) (table_of R t)"
    and "lock_refresh R l t = (b, u) \<Longrightarrow>
      answered (table_of R t) (Refresh l b) \<and> table_of R u = table_step (Refresh l b) (table_of R t)"
    and "lock_release R l t = (b, u) \<Longrightarrow>
      answered (table_of R t) (Release l b) \<and> table_of R u = table_step (Release l b) (table_of R t)"
proof -
  have set: "others_kept R k s s' \<and> (case rd_get R k s of None \<Rightarrow> b \<and> rd_get R k s' = Some v
         | Some w \<Rightarrow> \<not> b \<and> rd_get R k s' = Some w)" if "rd_set_nx_px R k v t s = (b, s')" for k v t s b s'
    using assms that unfolding redis_laws_def by blast
  have px: "others_kept R k s s' \<and> rd_get R k s' = rd_get R k s \<and> n = (if rd_get R k s = None then 0 else 1)"
    if "rd_pexpire R k t s = (n, s')" for k t s n s'
    using assms that unfolding redis_laws_def by blast
  have del: "others_kept R k s s' \<and> rd_get R k s' = None \<and> n = (if rd_get R k s = None then 0 else 1)"
    if "rd_del R k s = (n, s')" for k s n s'
    using assms that unfolding redis_laws_def by blast
  show "answered (table_of R t) (Acquire l b) \<and> table_of R u = table_step (Acquire l b) (table_of R t)"
    if "lock_acquire R l t = (b, u)"
    using set [OF that [unfolded lock_acquire_def]]
    by (auto simp: table_of_update table_of_get table_same split: option.splits)
  show "answered (table_of R t) (Refresh l b) \<and> table_of R u = table_step (Refresh l b) (table_of R t)"
    if "lock_refresh R l t = (b, u)"
    using that by (auto simp: lock_refresh_def refresh_script_def table_of_get table_same
        split: prod.splits if_splits dest!: px table_of_update)
  show "answered (table_of R t) (Release l b) \<and> table_of R u = table_step (Release l b) (table_of R t)"
    if "lock_release R l t = (b, u)"
    using that by (auto simp: lock_release_def release_script_def table_of_get
        split: prod.splits if_splits dest!: del table_of_update)
qed

lemma lock_run_table:
  assumes "redis_laws R" and "lock_run R s es t"
  shows "table_of R t = fold table_step es (table_of R s) \<and> lawful (table_of R s) es"
  using assms(2)
proof (induction rule: lock_run.induct)
  case start
  then show ?case by simp
next
  case (acquire es t l b u)
  with lock_steps(1) [OF assms(1) acquire.hyps(2)] show ?case
    by (simp add: lawful_snoc del: table_step.simps answered.simps)
next
  case (refresh es t l b u)
  with lock_steps(2) [OF assms(1) refresh.hyps(2)] show ?case
    by (simp add: lawful_snoc del: table_step.simps answered.simps)
next
  case (release es t l b u)
  with lock_steps(3) [OF assms(1) release.hyps(2)] show ?case
    by (simp add: lawful_snoc del: table_step.simps answered.simps)
next
  case (expire es t k u)
  then show ?case by (simp add: lawful_snoc table_of_update)
qed

text \<open>
  C12. The locks refine a lock table.  Under the documented commands of Redis, every run of
  acquisitions, refreshes, releases and expiries by any owners keeps Redis in step with the
  table of holders, and every answer is the one the table demands: an acquisition succeeds
  exactly on a free key (for its own holder too it fails), a refresh or release exactly for
  the holder.
\<close>

theorem locks_refine_table:
  assumes "redis_laws R" and "lock_run R s es t"
  shows "table_of R t = fold table_step es (table_of R s) \<and> lawful (table_of R s) es"
  by (rule lock_run_table [OF assms])

theorem locks_refine_table_witness:
  "let l = \<lparr>hl_key = lock_key ''c1'', hl_ttl_ms = 900000, hl_owner = ''wf1''\<rparr>
   in lock_run demo_redis [] [Acquire l True, Acquire l False, Release (l\<lparr>hl_owner := ''wf2''\<rparr>) False, Release l True] []
      \<and> lawful (table_of demo_redis []) [Acquire l True, Acquire l False, Release (l\<lparr>hl_owner := ''wf2''\<rparr>) False, Release l True]"
proof -
  define l where "l = \<lparr>hl_key = lock_key ''c1'', hl_ttl_ms = 900000, hl_owner = ''wf1''\<rparr>"
  let ?s = "[(lock_key ''c1'', ''wf1'')] :: (string, string) pydict"
  have "lock_run demo_redis [] [] []" by (rule lock_run.start)
  then have "lock_run demo_redis [] ([] @ [Acquire l True]) ?s"
    by (rule lock_run.acquire) (simp add: lock_acquire_def demo_redis_def l_def)
  then have "lock_run demo_redis [] (([] @ [Acquire l True]) @ [Acquire l False]) ?s"
    by (rule lock_run.acquire) (simp add: lock_acquire_def demo_redis_def l_def)
  then have "lock_run demo_redis [] ((([] @ [Acquire l True]) @ [Acquire l False])
      @ [Release (l\<lparr>hl_owner := ''wf2''\<rparr>) False]) ?s"
    by (rule lock_run.release) (simp add: lock_release_def release_script_def demo_redis_def l_def)
  then have "lock_run demo_redis [] (((([] @ [Acquire l True]) @ [Acquire l False])
      @ [Release (l\<lparr>hl_owner := ''wf2''\<rparr>) False]) @ [Release l True]) []"
    by (rule lock_run.release) (simp add: lock_release_def release_script_def demo_redis_def l_def)
  then have run: "lock_run demo_redis [] [Acquire l True, Acquire l False, Release (l\<lparr>hl_owner := ''wf2''\<rparr>) False, Release l True] []"
    by (simp only: append.simps)
  with locks_refine_table [OF demo_redis_laws run] show ?thesis unfolding Let_def l_def by (rule_tac conjI) blast+
qed

section \<open>Mutual exclusion\<close>

text \<open>Losing a key: its holder releases it, or it expires.\<close>

definition loses :: "string \<Rightarrow> string \<Rightarrow> lock_event \<Rightarrow> bool" where
  "loses k owner e \<longleftrightarrow> e = Expire k \<or> (\<exists>l. e = Release l True \<and> hl_key l = k \<and> hl_owner l = owner)"

lemma table_held:
  "lawful T es \<Longrightarrow> T k = Some owner \<Longrightarrow> \<not> list_ex (loses k owner) es \<Longrightarrow> fold table_step es T k = Some owner"
proof (induction es arbitrary: T)
  case (Cons e es)
  have "table_step e T k = Some owner"
    using Cons.prems by (cases e) (auto simp: loses_def split: if_splits)
  with Cons show ?case by simp
qed simp

lemma lawful_append: "lawful T (es @ fs) \<longleftrightarrow> lawful T es \<and> lawful (fold table_step es T) fs"
  by (induction es arbitrary: T) auto

text \<open>
  C3. Two operations never hold a host at once.  Between two successful acquisitions of the same
  host's lock, by whichever owners, the first owner has released it or it has expired; the
  release or refresh of anyone else does not free it.
\<close>

theorem locks_exclude:
  assumes "redis_laws R"
    and "lock_run R s (before @ [Acquire l True] @ between @ [Acquire m True] @ after) t"
    and "hl_key m = hl_key l"
  shows "list_ex (loses (hl_key l) (hl_owner l)) between"
proof (rule ccontr)
  assume not_lost: "\<not> list_ex (loses (hl_key l) (hl_owner l)) between"
  let ?T = "table_step (Acquire l True) (fold table_step before (table_of R s))"
  have "lawful ?T (between @ [Acquire m True] @ after)"
    using lock_run_table [OF assms(1,2)] by (simp add: lawful_append)
  then have l: "lawful ?T between" "fold table_step between ?T (hl_key m) = None"
    by (simp_all add: lawful_append)
  have "fold table_step between ?T (hl_key l) = Some (hl_owner l)"
    by (rule table_held [OF l(1) _ not_lost]) simp
  with l(2) assms(3) show False by simp
qed

theorem locks_exclude_witness:
  "let l = \<lparr>hl_key = lock_key ''c1'', hl_ttl_ms = 900000, hl_owner = ''wf1''\<rparr>; m = l\<lparr>hl_owner := ''wf2''\<rparr>
   in lock_run demo_redis [] ([] @ [Acquire l True] @ [Acquire m False, Expire (lock_key ''c1'')] @ [Acquire m True] @ [])
        [(lock_key ''c1'', ''wf2'')]
      \<and> list_ex (loses (hl_key l) (hl_owner l)) [Acquire m False, Expire (lock_key ''c1'')]"
proof -
  define l where "l = \<lparr>hl_key = lock_key ''c1'', hl_ttl_ms = 900000, hl_owner = ''wf1''\<rparr>"
  define m where "m = l\<lparr>hl_owner := ''wf2''\<rparr>"
  let ?s = "[(lock_key ''c1'', ''wf1'')] :: (string, string) pydict"
  have "lock_run demo_redis [] [] []" by (rule lock_run.start)
  then have "lock_run demo_redis [] ([] @ [Acquire l True]) ?s"
    by (rule lock_run.acquire) (simp add: lock_acquire_def demo_redis_def l_def)
  then have "lock_run demo_redis [] (([] @ [Acquire l True]) @ [Acquire m False]) ?s"
    by (rule lock_run.acquire) (simp add: lock_acquire_def demo_redis_def l_def m_def)
  then have "lock_run demo_redis [] ((([] @ [Acquire l True]) @ [Acquire m False]) @ [Expire (lock_key ''c1'')]) []"
    by (rule lock_run.expire) (simp_all add: demo_redis_def others_kept_def)
  then have "lock_run demo_redis [] (((([] @ [Acquire l True]) @ [Acquire m False]) @ [Expire (lock_key ''c1'')])
      @ [Acquire m True]) [(lock_key ''c1'', ''wf2'')]"
    by (rule lock_run.acquire) (simp add: lock_acquire_def demo_redis_def l_def m_def)
  then have run: "lock_run demo_redis [] ([] @ [Acquire l True] @ [Acquire m False, Expire (lock_key ''c1'')]
      @ [Acquire m True] @ []) [(lock_key ''c1'', ''wf2'')]"
    by (simp only: append.simps)
  have "hl_key m = hl_key l" by (simp add: m_def)
  from locks_exclude [OF demo_redis_laws run this] run show ?thesis
    unfolding Let_def m_def l_def by (rule_tac conjI)
qed

end
