(* ===== verification/PowerActions.thy ===== *)
theory PowerActions
  imports PowerSafety Locks
begin

text \<open>
  The Mistral actions
  (\<open>plugins/mistral_power_actions/src/openstack_power_actions/actions.py\<close>): the fifteen action
  classes as the datatype \<open>power_action\<close>, their \<open>run\<close> methods, the lock owner, and the
  containment of expected errors in a Mistral result.  The world of an action is the cloud's
  and Redis's.  The configuration is a record; \<open>cf_endpoint\<close> is the host name and port
  urllib finds in a Sentinel endpoint.  The messages of the errors are not modelled.
\<close>

section \<open>The world and the configuration\<close>

record ('c, 's) plugin =
  pg_world :: "'c world"
  pg_redis :: 's

definition on_cloud :: "('c, 'a) op \<Rightarrow> (('c, 's) plugin, 'a) io" where
  "on_cloud m = (\<lambda>w. case m (pg_world w) of (r, v) \<Rightarrow> (r, w\<lparr>pg_world := v\<rparr>))"

definition on_redis :: "('s \<Rightarrow> 'a \<times> 's) \<Rightarrow> (('c, 's) plugin, 'a) io" where
  "on_redis f = (\<lambda>w. case f (pg_redis w) of (a, s) \<Rightarrow> (Inr a, w\<lparr>pg_redis := s\<rparr>))"

record powerops_conf =
  cf_sentinels :: "string list"
  cf_endpoint :: "string \<Rightarrow> (string \<times> int) option"
  cf_redis_url :: "string option"
  cf_lock_ttl :: int
  cf_drain_timeout :: int
  cf_power_timeout :: int
  cf_poll_interval :: int
  cf_stable_observations :: int

text \<open>The context Mistral passes: a dict or an object with the two identifiers, or None.\<close>

record action_ctx =
  ax_workflow :: "string option"
  ax_execution :: "string option"

definition owner_of :: "action_ctx \<Rightarrow> pyexn + string" where
  "owner_of ctx =
     (if str_truthy (ax_workflow ctx) then Inr (the (ax_workflow ctx))
      else if str_truthy (ax_execution ctx) then Inr (the (ax_execution ctx))
      else Inl ValueError)"

text \<open>
  \<open>_redis_client\<close>: what it may raise before there is a client.  An endpoint without a host
  name or port is a ValueError, and so is a configuration with neither Sentinels nor URL.
\<close>

definition redis_client :: "powerops_conf \<Rightarrow> pyexn + unit" where
  "redis_client cf =
     (if cf_sentinels cf \<noteq> []
      then (if list_all (\<lambda>v. cf_endpoint cf v \<noteq> None) (cf_sentinels cf) then Inr () else Inl ValueError)
      else if \<not> str_truthy (cf_redis_url cf) then Inl ValueError else Inr ())"

definition host_lock_of :: "powerops_conf \<Rightarrow> string \<Rightarrow> string \<Rightarrow> int option \<Rightarrow> pyexn + host_lock" where
  "host_lock_of cf host owner ttl =
     (case redis_client cf of
        Inl e \<Rightarrow> Inl e
      | Inr _ \<Rightarrow> redis_host_lock host (case ttl of None \<Rightarrow> cf_lock_ttl cf | Some t \<Rightarrow> t) owner)"

section \<open>The actions\<close>

datatype action_result = Value pyobj | Error_result pyexn

definition expected :: "('w, pyobj) io \<Rightarrow> ('w, action_result) io" where
  "expected m =
     catch_io (bnd m (\<lambda>d. return_io (Value d))) (\<lambda>e. is_power_error e \<or> e = ValueError)
       (\<lambda>e. return_io (Error_result e))"

text \<open>\<open>x or default\<close> on a number that may be None.\<close>

definition or_default :: "int option \<Rightarrow> int \<Rightarrow> int" where
  "or_default x d = (case x of None \<Rightarrow> d | Some n \<Rightarrow> if n = 0 then d else n)"

datatype power_action =
    AcquireHostLock string "int option"
  | RefreshHostLock string "int option"
  | ReleaseHostLock string "int option"
  | ResolveHost string
  | SetNovaService string bool string
  | SetMasakariMaintenance string bool
  | DrainHost string string "int option" "int option"
  | AssertHostEmpty string bool
  | IronicPower string string bool
  | WaitPower string string "int option" "int option" "int option"
  | WaitNovaService string "int option" "int option"
  | VerifyHostReturn string bool
  | PowerStatus string
  | AuditEvent string string string
  | FailSafeHost string

definition with_lock ::
  "'s redis \<Rightarrow> powerops_conf \<Rightarrow> action_ctx \<Rightarrow> string \<Rightarrow> int option \<Rightarrow> (host_lock \<Rightarrow> 's \<Rightarrow> bool \<times> 's)
    \<Rightarrow> pyobj \<Rightarrow> (('c, 's) plugin, pyobj) io" where
  "with_lock R cf ctx host ttl attempt extra =
     bnd (lift_sum (owner_of ctx)) (\<lambda>owner.
     bnd (lift_sum (host_lock_of cf host owner ttl)) (\<lambda>l.
     bnd (on_redis (attempt l)) (\<lambda>ok.
     if ok then return_io ([(''host'', PyStr host), (''lock_owner'', PyStr owner)] @ extra)
     else raise_io ValueError)))"

text \<open>An audit event is only logged and answered; \<open>uuid\<close> is the identifier drawn for it.\<close>

definition audit_event :: "string \<Rightarrow> string \<Rightarrow> string \<Rightarrow> string \<Rightarrow> pyobj" where
  "audit_event uuid host event outcome =
     [(''event_id'', PyStr uuid), (''host'', PyStr host), (''event'', PyStr event), (''outcome'', PyStr outcome)]"

text \<open>\<open>_operations()\<close> gives no required network agents.\<close>

fun run_action :: "'c conn \<Rightarrow> 's redis \<Rightarrow> powerops_conf \<Rightarrow> string \<Rightarrow> action_ctx \<Rightarrow> power_action
    \<Rightarrow> (('c, 's) plugin, action_result) io" where
  "run_action C R cf uuid ctx (AcquireHostLock host ttl) =
     expected (with_lock R cf ctx host ttl (lock_acquire R) [])"
| "run_action C R cf uuid ctx (RefreshHostLock host ttl) =
     expected (with_lock R cf ctx host ttl (lock_refresh R) [(''refreshed'', PyBool True)])"
| "run_action C R cf uuid ctx (ReleaseHostLock host ttl) =
     expected (with_lock R cf ctx host ttl (lock_release R) [(''released'', PyBool True)])"
| "run_action C R cf uuid ctx (ResolveHost host) = expected (on_cloud (resolve_host C host))"
| "run_action C R cf uuid ctx (SetNovaService host enabled reason) =
     expected (on_cloud (set_nova_service C host enabled reason))"
| "run_action C R cf uuid ctx (SetMasakariMaintenance host enabled) =
     expected (on_cloud (set_masakari_maintenance C host enabled))"
| "run_action C R cf uuid ctx (DrainHost host policy timeout interval) =
     expected (on_cloud (drain_host C host policy (or_default timeout (cf_drain_timeout cf))
       (or_default interval (cf_poll_interval cf))))"
| "run_action C R cf uuid ctx (AssertHostEmpty host allow_shutoff) =
     expected (on_cloud (assert_host_empty C host allow_shutoff))"
| "run_action C R cf uuid ctx (IronicPower host target soft) =
     expected (on_cloud (request_power C host target soft))"
| "run_action C R cf uuid ctx (WaitPower host target timeout interval observations) =
     expected (on_cloud (wait_power C host target (or_default timeout (cf_power_timeout cf))
       (or_default interval (cf_poll_interval cf)) (or_default observations (cf_stable_observations cf))))"
| "run_action C R cf uuid ctx (WaitNovaService host timeout interval) =
     expected (on_cloud (wait_nova_service C host (or_default timeout (cf_power_timeout cf))
       (or_default interval (cf_poll_interval cf))))"
| "run_action C R cf uuid ctx (VerifyHostReturn host checked) =
     expected (on_cloud (verify_host_return C [] host checked))"
| "run_action C R cf uuid ctx (PowerStatus host) = expected (on_cloud (host_status C host))"
| "run_action C R cf uuid ctx (AuditEvent host event outcome) =
     return_io (Value (audit_event uuid host event outcome))"
| "run_action C R cf uuid ctx (FailSafeHost host) = expected (on_cloud (fail_safe_host C host))"

section \<open>Locking through the actions\<close>

definition lock_answer :: "string \<Rightarrow> string \<Rightarrow> pyobj \<Rightarrow> action_result" where
  "lock_answer host owner extra =
     Value ([(''host'', PyStr host), (''lock_owner'', PyStr owner)] @ extra)"

lemma with_lock_run:
  assumes "owner_of ctx = Inr owner" and "host_lock_of cf host owner ttl = Inr l" and "attempt l (pg_redis w) = (b, s)"
  shows "expected (with_lock R cf ctx host ttl attempt extra) w =
    (Inr (if b then lock_answer host owner extra else Error_result ValueError), w\<lparr>pg_redis := s\<rparr>)"
  using assms
  by (simp add: expected_def with_lock_def on_redis_def lift_sum_def catch_io_def bnd_run io_run lock_answer_def)

lemma lock_action_run:
  assumes "owner_of ctx = Inr owner" and "host_lock_of cf host owner ttl = Inr l"
  shows "lock_acquire R l (pg_redis w) = (b, s) \<Longrightarrow> run_action C R cf uuid ctx (AcquireHostLock host ttl) w =
      (Inr (if b then lock_answer host owner [] else Error_result ValueError), w\<lparr>pg_redis := s\<rparr>)"
    and "lock_refresh R l (pg_redis w) = (b, s) \<Longrightarrow> run_action C R cf uuid ctx (RefreshHostLock host ttl) w =
      (Inr (if b then lock_answer host owner [(''refreshed'', PyBool True)] else Error_result ValueError),
       w\<lparr>pg_redis := s\<rparr>)"
    and "lock_release R l (pg_redis w) = (b, s) \<Longrightarrow> run_action C R cf uuid ctx (ReleaseHostLock host ttl) w =
      (Inr (if b then lock_answer host owner [(''released'', PyBool True)] else Error_result ValueError),
       w\<lparr>pg_redis := s\<rparr>)"
  by (simp_all add: with_lock_run [OF assms])

text \<open>
  The lock actions speak for their workflow.  On a free host the first workflow acquires the
  lock; then the other's attempt to acquire, refresh or release it is an error result that
  leaves Redis's holder in place, the first may refresh it, and after its release the other
  can acquire it.
\<close>

lemma lock_actions_lifecycle:
  assumes "redis_laws R" and "owner_of ctx1 = Inr o1" and "owner_of ctx2 = Inr o2" and "o1 \<noteq> o2"
    and "host_lock_of cf host o1 ttl = Inr l1" and "host_lock_of cf host o2 ttl = Inr l2"
    and "rd_get R (lock_key host) (pg_redis w) = None"
    and "run_action C R cf uuid ctx1 (AcquireHostLock host ttl) w = (r1, w1)"
    and "run_action C R cf uuid ctx2 a w1 = (r2, w2)"
    and "a \<in> {AcquireHostLock host ttl, RefreshHostLock host ttl, ReleaseHostLock host ttl}"
    and "run_action C R cf uuid ctx1 (ReleaseHostLock host ttl) w2 = (r3, w3)"
    and "run_action C R cf uuid ctx2 (AcquireHostLock host ttl) w3 = (r4, w4)"
  shows "r1 = Inr (lock_answer host o1 []) \<and> r2 = Inr (Error_result ValueError)
    \<and> rd_get R (lock_key host) (pg_redis w2) = Some o1
    \<and> r3 = Inr (lock_answer host o1 [(''released'', PyBool True)])
    \<and> r4 = Inr (lock_answer host o2 []) \<and> rd_get R (lock_key host) (pg_redis w4) = Some o2"
proof -
  have l: "hl_key l1 = lock_key host" "hl_owner l1 = o1" "hl_key l2 = lock_key host" "hl_owner l2 = o2"
    using assms(5,6) by (auto simp: host_lock_of_def redis_host_lock_def split: sum.splits if_splits)
  note steps = lock_steps [OF assms(1)]
  obtain b1 s1 where 1: "lock_acquire R l1 (pg_redis w) = (b1, s1)" by fastforce
  with steps(1) [OF 1] assms(7) l have b1: "b1" "table_of R s1 (lock_key host) = Some o1"
    by (simp_all add: table_of_get)
  have w1: "r1 = Inr (lock_answer host o1 [])" "pg_redis w1 = s1"
    using assms(8) lock_action_run(1) [OF assms(2,5) 1] b1(1) by simp_all
  have 2: "r2 = Inr (Error_result ValueError) \<and> table_of R (pg_redis w2) (lock_key host) = Some o1"
  proof -
    have "\<not> b \<and> table_of R s (lock_key host) = Some o1"
      if "lock_acquire R l2 s1 = (b, s) \<or> lock_refresh R l2 s1 = (b, s) \<or> lock_release R l2 s1 = (b, s)" for b s
      using that steps [where t = s1 and l = l2 and b = b and u = s] b1 l assms(4) by auto
    moreover obtain x xs y ys z zs where runs: "lock_acquire R l2 s1 = (x, xs)"
      "lock_refresh R l2 s1 = (y, ys)" "lock_release R l2 s1 = (z, zs)" by (metis surj_pair)
    ultimately have "\<not> x" "\<not> y" "\<not> z" "table_of R xs (lock_key host) = Some o1"
      "table_of R ys (lock_key host) = Some o1" "table_of R zs (lock_key host) = Some o1" by blast+
    then show ?thesis
      using assms(9,10) runs lock_action_run [OF assms(3,6), of R w1, unfolded w1(2)] by auto
  qed
  obtain b3 s3 where 3: "lock_release R l1 (pg_redis w2) = (b3, s3)" by fastforce
  with steps(3) [OF 3] 2 l have b3: "b3" "table_of R s3 (lock_key host) = None" by auto
  have w3: "r3 = Inr (lock_answer host o1 [(''released'', PyBool True)])" "pg_redis w3 = s3"
    using assms(11) lock_action_run(3) [OF assms(2,5) 3] b3(1) by simp_all
  obtain b4 s4 where 4: "lock_acquire R l2 (pg_redis w3) = (b4, s4)" by fastforce
  with steps(1) [OF 4] b3(2) w3(2) l have b4: "b4" "table_of R s4 (lock_key host) = Some o2" by auto
  have "r4 = Inr (lock_answer host o2 [])" "pg_redis w4 = s4"
    using assms(12) lock_action_run(1) [OF assms(3,6) 4] b4(1) by simp_all
  with w1 2 w3 b4(2) show ?thesis by (simp add: table_of_get)
qed

definition demo_conf :: powerops_conf where
  "demo_conf = \<lparr>cf_sentinels = [], cf_endpoint = (\<lambda>v. None), cf_redis_url = Some ''redis://r'',
     cf_lock_ttl = 900, cf_drain_timeout = 600, cf_power_timeout = 180, cf_poll_interval = 5,
     cf_stable_observations = 3\<rparr>"

definition demo_plugin :: "string \<Rightarrow> (ironic_node, (string, string) pydict) plugin" where
  "demo_plugin p = \<lparr>pg_world = demo_world p, pg_redis = []\<rparr>"

definition workflow :: "string \<Rightarrow> action_ctx" where
  "workflow i = \<lparr>ax_workflow = Some i, ax_execution = None\<rparr>"

lemma lock_actions_lifecycle_witness:
  "\<exists>w1 w2. run_action demo_conn demo_redis demo_conf ''u'' (workflow ''wf1'') (AcquireHostLock ''c1'' None)
       (demo_plugin ''power on'') = (Inr (lock_answer ''c1'' ''wf1'' []), w1)
     \<and> run_action demo_conn demo_redis demo_conf ''u'' (workflow ''wf2'') (ReleaseHostLock ''c1'' None) w1
       = (Inr (Error_result ValueError), w2)"
proof -
  have o': "owner_of (workflow i) = Inr i" if "i \<noteq> []" for i
    using that by (simp add: owner_of_def workflow_def str_truthy_def)
  have l: "host_lock_of demo_conf ''c1'' i None = Inr \<lparr>hl_key = lock_key ''c1'', hl_ttl_ms = 900000, hl_owner = i\<rparr>"
    if "i \<noteq> []" for i
    using that by (simp add: host_lock_of_def redis_client_def redis_host_lock_def demo_conf_def str_truthy_def)
  have free: "rd_get demo_redis (lock_key ''c1'') (pg_redis (demo_plugin ''power on'')) = None"
    by (simp add: demo_redis_def demo_plugin_def)
  let ?a1 = "run_action demo_conn demo_redis demo_conf ''u'' (workflow ''wf1'')"
  let ?a2 = "run_action demo_conn demo_redis demo_conf ''u'' (workflow ''wf2'')"
  obtain r1 w1 where 1: "?a1 (AcquireHostLock ''c1'' None) (demo_plugin ''power on'') = (r1, w1)" by fastforce
  obtain r2 w2 where 2: "?a2 (ReleaseHostLock ''c1'' None) w1 = (r2, w2)" by fastforce
  obtain r3 w3 where 3: "?a1 (ReleaseHostLock ''c1'' None) w2 = (r3, w3)" by fastforce
  obtain r4 w4 where 4: "?a2 (AcquireHostLock ''c1'' None) w3 = (r4, w4)" by fastforce
  from lock_actions_lifecycle [OF demo_redis_laws o' o' _ l l free 1 2 _ 3 4] have
    "r1 = Inr (lock_answer ''c1'' ''wf1'' [])" "r2 = Inr (Error_result ValueError)" by simp_all
  with 1 2 show ?thesis by blast
qed

section \<open>Verifying the return through the action\<close>

text \<open>
  The action does not verify the network agents.  Run as a Mistral action,
  \<open>verify_host_return\<close> declares a host ready that is powered on with its Nova service up, even
  if every network agent of the host is dead: the action requires none.
\<close>

lemma verify_action_ignores_agents:
  assumes "cn_nodes C (cloud w) = (Inr nodes, c1)" and "filter (\<lambda>n. nd_name n = Some host) nodes = [found]"
    and "cn_get_node C found c1 = (Inr node, c2)" and "nd_power_state node = Some ''power on''"
    and "cn_services C host c2 = (Inr services, c3)" and "nova_answer services host = [s]"
    and "ns_state s = Some ''up''" and "cn_agents C host c3 = (Inr agents, c4)"
  shows "fst (run_action C R cf uuid ctx (VerifyHostReturn host True) \<lparr>pg_world = w, pg_redis = q\<rparr>) =
     Inr (Value [(''host'', PyStr host), (''ready'', PyBool True), (''stale_domains_checked'', PyBool True)])"
  using assms
  by (simp add: expected_def on_cloud_def verify_host_return_def ironic_node_of_def nova_service_of_def
      ask_def bnd_run exactly_one_def lift_sum_def io_run catch_io_def nova_answer_def)

lemma verify_action_ignores_agents_witness:
  "fst (run_action (demo_conn\<lparr>cn_agents := \<lambda>h n. (Inr [\<lparr>ag_binary = Some ''neutron-openvswitch-agent'', ag_alive = False\<rparr>], n)\<rparr>)
      demo_redis demo_conf ''u'' (workflow ''wf1'') (VerifyHostReturn ''n1'' True) (demo_plugin ''power on''))
   = Inr (Value [(''host'', PyStr ''n1''), (''ready'', PyBool True), (''stale_domains_checked'', PyBool True)])"
proof -
  let ?n = "demo_node ''power on''"
  let ?s = "\<lparr>ns_id = ''s'', ns_host = Some ''n1'', ns_binary = Some ''nova-compute'',
        ns_status = Some ''enabled'', ns_state = Some ''up''\<rparr>"
  show ?thesis
    unfolding demo_plugin_def
    by (rule verify_action_ignores_agents [where nodes = "[?n]" and found = ?n and node = ?n
          and services = "[?s]" and s = ?s])
      (simp_all add: demo_conn_def demo_world_def demo_node_def nova_answer_def)
qed

end
