(* ===== verification/IronicFence.thy ===== *)
theory IronicFence
  imports PowerSafety
begin

text \<open>
  The Masakari fencing task
  (\<open>plugins/masakari_ironic_fence/src/masakari_ironic_fence/task.py\<close>): \<open>execute\<close> and \<open>revert\<close>.
  The connection is the same record of SDK calls as for the power operations; the loop over
  the attempts is the one modelled there.
\<close>

section \<open>The task\<close>

record fence_options =
  fo_power_timeout :: int
  fo_poll_interval :: int
  fo_stable_off_observations :: int

definition HostRecoveryFailure :: pyexn where
  "HostRecoveryFailure = OtherError ''HostRecoveryFailureException''"

definition exact_node :: "'c conn \<Rightarrow> string \<Rightarrow> ('c, ironic_node) op" where
  "exact_node C host_name =
     bnd (ask (cn_nodes C) (\<lambda>_. [])) (\<lambda>nodes.
     case filter (\<lambda>node. nd_name node = Some host_name) nodes of
       [node] \<Rightarrow> return_io node
     | _ \<Rightarrow> raise_io HostRecoveryFailure)"

text \<open>
  \<open>max(1, int(math.ceil(float(power_timeout) / poll_interval)) + 1)\<close>, without a check of the
  options: an interval of zero is a ZeroDivisionError.
\<close>

definition fence_attempts :: "fence_options \<Rightarrow> pyexn + nat" where
  "fence_attempts fo =
     (if fo_poll_interval fo = 0 then Inl ZeroDivisionError
      else Inr (nat (max 1 (- ((- fo_power_timeout fo) div fo_poll_interval fo) + 1))))"

definition fence_answer :: "string \<Rightarrow> ironic_node \<Rightarrow> int \<Rightarrow> pyobj" where
  "fence_answer host_name node steady =
     [(''host'', PyStr host_name), (''node_uuid'', PyStr (nd_id node)),
      (''power_state'', PyStr ''power off''), (''stable_observations'', PyInt steady)]"

definition fence_execute :: "'c conn \<Rightarrow> fence_options \<Rightarrow> string \<Rightarrow> ('c, pyobj) op" where
  "fence_execute C fo host_name =
     bnd (exact_node C host_name) (\<lambda>node.
     let current = nd_power_state node; pending = nd_target node
     in if str_truthy pending \<and> pending \<noteq> Some ''power off'' \<and> current \<noteq> Some ''power off''
        then raise_io HostRecoveryFailure
        else
          bnd (when_io (current \<noteq> Some ''power off'' \<and> pending \<noteq> Some ''power off'')
                 (request (cn_set_power C node ''power off'') (SetPower (nd_id node) ''power off''))) (\<lambda>_.
          bnd (lift_sum (fence_attempts fo)) (\<lambda>n.
          poll C (fo_poll_interval fo) HostRecoveryFailure
            (observe_power C {''power off''} HostRecoveryFailure (fence_answer host_name) ''power off''
               (fo_stable_off_observations fo)) n (node, 0))))"

text \<open>\<open>revert\<close> logs that powering on is forbidden and does nothing.\<close>

definition fence_revert :: "string \<Rightarrow> ('c, unit) op" where
  "fence_revert host_name = return_io ()"

section \<open>Safety of the fence\<close>

text \<open>The only request of the task is to power off, and the rest of its log is watching.\<close>

fun powers_off :: "cloud_event \<Rightarrow> bool" where
  "powers_off (SetPower _ t) = (t = ''power off'')"
| "powers_off e = is_watch e"

lemma watch_powers_off: "is_watch e \<Longrightarrow> powers_off e"
  by (cases e) auto

lemma exact_node_run:
  assumes "exact_node C host w = (r, w1)"
  shows "log w1 = log w \<and> (case r of Inl e \<Rightarrow> True | Inr node \<Rightarrow>
     \<exists>nodes c. cn_nodes C (cloud w) = (Inr nodes, c) \<and> filter (\<lambda>n. nd_name n = Some host) nodes = [node])"
  using assms
  by (auto simp: exact_node_def ask_def bnd_run io_run split: prod.splits sum.splits list.splits)

text \<open>No request, or one: to power off the only node of the name, which is not off yet.\<close>

definition off_request :: "'c conn \<Rightarrow> string \<Rightarrow> 'c world \<Rightarrow> cloud_event list \<Rightarrow> bool" where
  "off_request C host w req \<longleftrightarrow> req = [] \<or>
     (\<exists>node nodes c. cn_nodes C (cloud w) = (Inr nodes, c) \<and> filter (\<lambda>n. nd_name n = Some host) nodes = [node]
        \<and> nd_power_state node \<noteq> Some ''power off'' \<and> req = [SetPower (nd_id node) ''power off''])"

text \<open>The run of the task after the node was found, as a case distinction.\<close>

lemma fence_execute_run:
  assumes "exact_node C host w = (Inr node, w1)" and "fence_execute C fo host w = (r, w')"
  obtains req w2 where "log w2 = log w @ req" "off_request C host w req"
    and "(\<exists>e. r = Inl e) \<and> (w' = w1 \<or> w' = w2) \<or>
      (\<exists>n. fence_attempts fo = Inr n \<and> poll C (fo_poll_interval fo) HostRecoveryFailure
         (observe_power C {''power off''} HostRecoveryFailure (fence_answer host) ''power off''
           (fo_stable_off_observations fo)) n (node, 0) w2 = (r, w'))"
proof -
  let ?asks = "nd_power_state node \<noteq> Some ''power off'' \<and> nd_target node \<noteq> Some ''power off''"
  define m where "m = when_io ?asks (request (cn_set_power C node ''power off'') (SetPower (nd_id node) ''power off''))"
  define req where "req = (if ?asks then [SetPower (nd_id node) ''power off''] else [])"
  obtain rm w2 where rm: "m w1 = (rm, w2)" by fastforce
  note found = exact_node_run [OF assms(1)]
  then have "log w2 = log w @ req" using rm
    by (auto simp: m_def req_def when_io_def return_run request_def split: prod.splits if_splits)
  moreover have "off_request C host w req" using found by (auto simp: off_request_def req_def)
  moreover have "(\<exists>e. r = Inl e) \<and> (w' = w1 \<or> w' = w2) \<or>
      (\<exists>n. fence_attempts fo = Inr n \<and> poll C (fo_poll_interval fo) HostRecoveryFailure
         (observe_power C {''power off''} HostRecoveryFailure (fence_answer host) ''power off''
           (fo_stable_off_observations fo)) n (node, 0) w2 = (r, w'))"
    using assms rm unfolding fence_execute_def m_def [symmetric] Let_def
    by (cases rm; cases "fence_attempts fo") (auto simp: bnd_run raise_run lift_sum_def return_run m_def split: if_splits)
  ultimately show thesis using that by blast
qed

text \<open>
  C5. A fenced host was seen off.  The task never asks for anything but powering off, and for
  that at most once and only the node of that name; it always ends, within its number of
  attempts; and when it returns, the last observations, as many as it reports and at least as
  many as required, all showed the node powered off without an error.
\<close>

theorem fence_confirms_off:
  assumes "fence_execute C fo host w = (r, w')" and "1 \<le> fo_stable_off_observations fo"
  shows "\<exists>req ts. log w' = log w @ req @ ts \<and> off_request C host w req \<and> list_all is_watch ts
    \<and> (\<forall>n. fence_attempts fo = Inr n \<longrightarrow> length (observed ts) \<le> n)
    \<and> (\<forall>a. r = Inr a \<longrightarrow> (\<exists>pre last_ones. observed ts = pre @ last_ones
         \<and> fo_stable_off_observations fo \<le> int (length last_ones)
         \<and> list_all (confirms ''power off'') last_ones
         \<and> a = fence_answer host (last (observed ts)) (int (length last_ones))))"
proof -
  have none: "off_request C host w []" by (simp add: off_request_def)
  obtain rn w1 where n: "exact_node C host w = (rn, w1)" by fastforce
  then have l1: "log w1 = log w" using exact_node_run by blast
  show ?thesis
  proof (cases rn)
    case (Inl e)
    with assms(1) n have "r = Inl e" "w' = w1" by (simp_all add: fence_execute_def bnd_run)
    with l1 none show ?thesis by (intro exI [of _ "[]"]) simp
  next
    case (Inr node)
    obtain req w2 where
      req: "log w2 = log w @ req" "off_request C host w req" and
      run: "(\<exists>e. r = Inl e) \<and> (w' = w1 \<or> w' = w2) \<or>
        (\<exists>n. fence_attempts fo = Inr n \<and> poll C (fo_poll_interval fo) HostRecoveryFailure
           (observe_power C {''power off''} HostRecoveryFailure (fence_answer host) ''power off''
             (fo_stable_off_observations fo)) n (node, 0) w2 = (r, w'))"
      by (rule fence_execute_run [OF n [unfolded Inr] assms(1)])
    from run show ?thesis
    proof
      assume "(\<exists>e. r = Inl e) \<and> (w' = w1 \<or> w' = w2)"
      then obtain e where e: "r = Inl e" "w' = w1 \<or> w' = w2" by (elim conjE exE)
      define q where "q = (if w' = w1 then [] else req)"
      have "log w' = log w @ q @ []" using l1 req(1) e(2) by (auto simp: q_def)
      moreover have "off_request C host w q" using none req(2) by (simp add: q_def)
      ultimately show ?thesis using e(1) by (intro exI [of _ q] exI [of _ "[]"]) simp
    next
      assume "\<exists>n. fence_attempts fo = Inr n \<and> poll C (fo_poll_interval fo) HostRecoveryFailure
           (observe_power C {''power off''} HostRecoveryFailure (fence_answer host) ''power off''
             (fo_stable_off_observations fo)) n (node, 0) w2 = (r, w')"
      then obtain n where a: "fence_attempts fo = Inr n" and "poll C (fo_poll_interval fo) HostRecoveryFailure
           (observe_power C {''power off''} HostRecoveryFailure (fence_answer host) ''power off''
             (fo_stable_off_observations fo)) n (node, int (length ([] :: ironic_node list))) w2 = (r, w')" by auto
      from watch_confirms [OF this(2) _ assms(2)] obtain ts where "log w' = log w2 @ ts" "list_all is_watch ts"
        "length (observed ts) \<le> n" "watched ''power off'' (fence_answer host) (fo_stable_off_observations fo) [] r (observed ts)"
        by auto
      with a req show ?thesis by (intro exI [of _ req] exI [of _ ts]) (fastforce simp: watched_def)
    qed
  qed
qed

theorem fence_confirms_off_witness:
  "\<exists>ts. log (snd (fence_execute demo_conn
       \<lparr>fo_power_timeout = 30, fo_poll_interval = 5, fo_stable_off_observations = 3\<rparr> ''n1'' (demo_world ''power on'')))
     = SetPower ''u1'' ''power off'' # ts \<and> length (observed ts) \<le> 7 \<and> list_all is_watch ts"
proof -
  let ?fo = "\<lparr>fo_power_timeout = 30, fo_poll_interval = 5, fo_stable_off_observations = 3\<rparr>"
  let ?r = "fence_execute demo_conn ?fo ''n1'' (demo_world ''power on'')"
  have a: "fence_attempts ?fo = Inr 7" by code_simp
  have h: "\<exists>e es. log (snd ?r) = e # es \<and> \<not> is_watch e"
  proof -
    have "log (snd ?r) \<noteq> [] \<and> \<not> is_watch (hd (log (snd ?r)))" by code_simp
    then show ?thesis by (cases "log (snd ?r)") auto
  qed
  from fence_confirms_off [of demo_conn ?fo "''n1''" "demo_world ''power on''" "fst ?r" "snd ?r"] a
  obtain req ts where r: "log (snd ?r) = req @ ts" "off_request demo_conn ''n1'' (demo_world ''power on'') req"
    "list_all is_watch ts" "length (observed ts) \<le> 7" by (auto simp: demo_world_def)
  with h have "req = [SetPower ''u1'' ''power off'']"
    by (auto simp: off_request_def demo_conn_def demo_world_def demo_node_def split: if_splits)
  with r show ?thesis by auto
qed

end
