(* ===== verification/PluginConfig.thy ===== *)
theory PluginConfig
  imports PowerActions IronicFence
begin

text \<open>
  The configuration of the two plugins: the options of
  \<open>openstack_power_actions/clients.py\<close> and \<open>masakari_ironic_fence/config.py\<close>, their registration,
  and the arguments of the SDK connection.  oslo.config refuses a value below an option's minimum.
\<close>

section \<open>Options\<close>

text \<open>The default of an option; the one fractional option counts in tenths of a second.\<close>

datatype option_value = Unset | Text string | Number int | Tenths int | Switch bool | Words "string list"

record conf_option =
  co_name :: string
  co_default :: option_value
  co_min :: "option_value option"

definition plain_opt :: "string \<Rightarrow> option_value \<Rightarrow> conf_option" where
  "plain_opt name initial = \<lparr>co_name = name, co_default = initial, co_min = None\<rparr>"

definition bounded_opt :: "string \<Rightarrow> int \<Rightarrow> int \<Rightarrow> conf_option" where
  "bounded_opt name initial least = \<lparr>co_name = name, co_default = Number initial, co_min = Some (Number least)\<rparr>"

definition POWEROPS_OPTS :: "conf_option list" where
  "POWEROPS_OPTS =
     [plain_opt ''redis_url'' Unset,
      plain_opt ''redis_sentinel_hosts'' (Words []),
      \<lparr>co_name = ''redis_sentinel_socket_timeout'', co_default = Tenths 50, co_min = Some (Tenths 1)\<rparr>,
      plain_opt ''redis_master_name'' (Text ''kolla''),
      plain_opt ''redis_password'' Unset,
      bounded_opt ''redis_db'' 4 0,
      plain_opt ''region_name'' (Text ''RegionOne''),
      plain_opt ''interface'' (Text ''internal''),
      plain_opt ''verify'' (Switch True),
      bounded_opt ''lock_ttl'' 900 60,
      bounded_opt ''drain_timeout'' 600 30,
      bounded_opt ''power_timeout'' 180 30,
      bounded_opt ''poll_interval'' 5 1,
      bounded_opt ''stable_observations'' 3 2]"

definition POWEROPS_IRONIC_OPTS :: "conf_option list" where
  "POWEROPS_IRONIC_OPTS =
     [bounded_opt ''power_timeout'' 180 30, bounded_opt ''poll_interval'' 5 1, bounded_opt ''stable_off_observations'' 3 2]"

section \<open>Registration\<close>

text \<open>
  The registered options by group and name.  A group or an option that is there already stays: the
  DuplicateOptError of oslo.config is ignored.
\<close>

type_synonym conf_registry = "(string, (string, conf_option) pydict) pydict"

definition register_group :: "string \<Rightarrow> conf_registry \<Rightarrow> conf_registry" where
  "register_group g conf = (if in_dict g conf then conf else conf @ [(g, [])])"

definition register_opt :: "string \<Rightarrow> conf_option \<Rightarrow> conf_registry \<Rightarrow> conf_registry" where
  "register_opt g opt conf =
     (case map_of conf g of
        None \<Rightarrow> conf @ [(g, [(co_name opt, opt)])]
      | Some opts \<Rightarrow> if in_dict (co_name opt) opts then conf else AList.update g (opts @ [(co_name opt, opt)]) conf)"

definition register_all :: "string \<Rightarrow> conf_option list \<Rightarrow> conf_registry \<Rightarrow> conf_registry" where
  "register_all g opts conf = fold (register_opt g) opts (register_group g conf)"

definition register_powerops_opts :: "conf_registry \<Rightarrow> conf_registry" where
  "register_powerops_opts conf = register_all ''powerops'' POWEROPS_OPTS conf"

definition register_fence_opts :: "conf_registry \<Rightarrow> conf_registry" where
  "register_fence_opts conf = register_all ''powerops_ironic'' POWEROPS_IRONIC_OPTS conf"

definition registered :: "conf_registry \<Rightarrow> string \<Rightarrow> string \<Rightarrow> conf_option option" where
  "registered conf g name = (case map_of conf g of None \<Rightarrow> None | Some opts \<Rightarrow> map_of opts name)"

lemma registered_group: "registered (register_group g conf) h name = registered conf h name"
  by (auto simp: registered_def register_group_def in_dict_iff map_add_def split: option.splits)

lemma registered_opt:
  "registered (register_opt g opt conf) h name =
     (case registered conf h name of
        Some x \<Rightarrow> Some x
      | None \<Rightarrow> if h = g \<and> name = co_name opt then Some opt else None)"
  by (auto simp: registered_def register_opt_def in_dict_iff map_add_def split: option.splits)

lemma registered_fold:
  "registered (fold (register_opt g) opts conf) h name =
     (case registered conf h name of
        Some x \<Rightarrow> Some x
      | None \<Rightarrow> if h = g then find (\<lambda>opt. co_name opt = name) opts else None)"
  by (induction opts arbitrary: conf) (auto simp: registered_opt split: option.splits)

text \<open>What was registered before stays, what is new is there afterwards, and doing it again changes nothing.\<close>

lemma register_all_get:
  "registered (register_all g opts conf) h name =
     (case registered conf h name of
        Some x \<Rightarrow> Some x
      | None \<Rightarrow> if h = g then find (\<lambda>opt. co_name opt = name) opts else None)"
  by (simp add: register_all_def registered_fold registered_group)

lemma register_again: "registered (register_all g opts (register_all g opts conf)) = registered (register_all g opts conf)"
  by (intro ext) (auto simp: register_all_get split: option.splits)

section \<open>Connections\<close>

record auth_conf =
  au_url :: string
  au_username :: string
  au_password :: string
  au_project_name :: string
  au_user_domain_name :: string
  au_project_domain_name :: string

definition auth_args :: "auth_conf \<Rightarrow> pyobj" where
  "auth_args au =
     [(''auth_url'', PyStr (au_url au)), (''username'', PyStr (au_username au)), (''password'', PyStr (au_password au)),
      (''project_name'', PyStr (au_project_name au)), (''user_domain_name'', PyStr (au_user_domain_name au)),
      (''project_domain_name'', PyStr (au_project_domain_name au))]"

text \<open>\<open>clients.connection_from_conf\<close>: the credentials of keystone_authtoken.\<close>

definition powerops_connection_args :: "auth_conf \<Rightarrow> string \<Rightarrow> string \<Rightarrow> bool \<Rightarrow> pyobj" where
  "powerops_connection_args au region_name interface verify =
     auth_args au @ [(''region_name'', PyStr region_name), (''interface'', PyStr interface), (''verify'', PyBool verify)]"

text \<open>\<open>config.connection_from_conf\<close>: the privileged user of Masakari.\<close>

definition fence_verify :: "bool \<Rightarrow> string option \<Rightarrow> pyval" where
  "fence_verify nova_api_insecure ca_file =
     (if nova_api_insecure then PyBool False else if str_truthy ca_file then PyStr (the ca_file) else PyBool True)"

definition fence_connection_args :: "auth_conf \<Rightarrow> string \<Rightarrow> bool \<Rightarrow> string option \<Rightarrow> pyobj" where
  "fence_connection_args au region_name nova_api_insecure ca_file =
     auth_args au @ [(''region_name'', PyStr region_name), (''interface'', PyStr ''internal''),
       (''verify'', fence_verify nova_api_insecure ca_file)]"

lemma connections_verify:
  "truthy (dget (powerops_connection_args au region interface verify) ''verify'') = verify"
  "truthy (dget (fence_connection_args au region insecure ca) ''verify'') = (\<not> insecure)"
  by (simp_all add: powerops_connection_args_def fence_connection_args_def auth_args_def dget_def fence_verify_def str_truthy_def
      split: option.splits)

section \<open>Bounds\<close>

text \<open>The integer options within their minima, and the configuration of a plugin with the defaults.\<close>

fun within :: "option_value \<Rightarrow> option_value option \<Rightarrow> bool" where
  "within (Number n) (Some (Number least)) = (least \<le> n)"
| "within (Tenths n) (Some (Tenths least)) = (least \<le> n)"
| "within v m = (m = None)"

lemma defaults_within: "list_all (\<lambda>opt. within (co_default opt) (co_min opt)) (POWEROPS_OPTS @ POWEROPS_IRONIC_OPTS)"
  by (simp add: POWEROPS_OPTS_def POWEROPS_IRONIC_OPTS_def plain_opt_def bounded_opt_def)

text \<open>
  With the minima, the loop of the fencing task has at least two turns and never divides by zero;
  the defaults give it 37 turns for the three observations it wants.  But the minima do not fit
  together: 30 seconds in steps of 60 are two turns, too few for three observations.
\<close>

lemma fence_attempts_bounded:
  assumes "fo_power_timeout fo \<ge> 30" and "fo_poll_interval fo \<ge> 1"
  shows "\<exists>n. fence_attempts fo = Inr n \<and> n \<ge> 2"
proof -
  have "(- fo_power_timeout fo) div fo_poll_interval fo < 0"
    using assms by (simp add: div_neg_pos_less0)
  then show ?thesis using assms by (auto simp: fence_attempts_def)
qed

lemma fence_attempts_default:
  "fence_attempts \<lparr>fo_power_timeout = 180, fo_poll_interval = 5, fo_stable_off_observations = 3\<rparr> = Inr 37"
  by (simp add: fence_attempts_def)

lemma fence_bounds_clash:
  "fence_attempts \<lparr>fo_power_timeout = 30, fo_poll_interval = 60, fo_stable_off_observations = 3\<rparr> = Inr 2"
  by (simp add: fence_attempts_def)

end
