(* ===== verification/ServiceFilters.thy ===== *)
theory ServiceFilters
  imports PyVal
begin

text \<open>
  The service filters (\<open>kolla_ansible/filters.py\<close>, \<open>helpers.py\<close>) and the database shards
  filter (\<open>kolla_ansible/database_shards.py\<close>).  Ansible's \<open>bool\<close> filter, called through the
  Jinja environment, is the parameter \<open>B\<close>.  A service definition is a dict; its \<open>haproxy\<close> entry,
  when it is not falsy, is a dict as well (a list of pairs, which \<open>dict.update\<close> would accept
  too, is not modelled).
\<close>

section \<open>Services\<close>

definition FilterError :: pyexn where
  "FilterError = OtherError ''FilterError''"

type_synonym bool_filter = "pyval \<Rightarrow> pyexn + bool"

type_synonym services = "(string, pyobj) pydict"

definition service_enabled :: "bool_filter \<Rightarrow> pyobj \<Rightarrow> pyexn + bool" where
  "service_enabled B service =
     (if dget service ''enabled'' = PyNone then Inl FilterError else B (dget service ''enabled''))"

text \<open>The loop of \<open>extract_haproxy_services\<close>, with the dict built so far.\<close>

fun haproxy_loop :: "bool_filter \<Rightarrow> services \<Rightarrow> pyobj \<Rightarrow> pyexn + pyobj" where
  "haproxy_loop B [] haproxy = Inr haproxy"
| "haproxy_loop B ((key, service) # rest) haproxy =
     (case service_enabled B service of
        Inl e \<Rightarrow> Inl e
      | Inr enabled \<Rightarrow>
          (if enabled \<and> truthy (dget service ''haproxy'') then
             (case dget service ''haproxy'' of
                PyDict d \<Rightarrow>
                  (if list_ex (\<lambda>k. in_dict k haproxy) (dict_keys d) then Inl FilterError
                   else haproxy_loop B rest (dict_update haproxy d))
              | PyStr _ \<Rightarrow> Inl ValueError
              | _ \<Rightarrow> Inl TypeError)
           else haproxy_loop B rest haproxy))"

definition extract_haproxy_services :: "bool_filter \<Rightarrow> services \<Rightarrow> pyexn + pyobj" where
  "extract_haproxy_services B services = haproxy_loop B services []"

definition service_mapped_to_host :: "bool_filter \<Rightarrow> string list \<Rightarrow> pyobj \<Rightarrow> pyexn + bool" where
  "service_mapped_to_host B group_names service =
     (if dget service ''host_in_groups'' \<noteq> PyNone then B (dget service ''host_in_groups'')
      else if dget service ''group'' \<noteq> PyNone then
        Inr (dget service ''group'' \<in> PyStr ` set group_names \<or> dget service ''group'' = PyStr ''all'')
      else Inl FilterError)"

definition service_enabled_and_mapped_to_host ::
  "bool_filter \<Rightarrow> string list \<Rightarrow> pyobj \<Rightarrow> pyexn + bool" where
  "service_enabled_and_mapped_to_host B group_names service =
     (case service_enabled B service of
        Inl e \<Rightarrow> Inl e
      | Inr False \<Rightarrow> Inr False
      | Inr True \<Rightarrow> service_mapped_to_host B group_names service)"

text \<open>The dict comprehension, left at the first error.\<close>

fun select_services_enabled_and_mapped_to_host ::
  "bool_filter \<Rightarrow> string list \<Rightarrow> services \<Rightarrow> pyexn + services" where
  "select_services_enabled_and_mapped_to_host B group_names [] = Inr []"
| "select_services_enabled_and_mapped_to_host B group_names ((name, service) # rest) =
     (case service_enabled_and_mapped_to_host B group_names service of
        Inl e \<Rightarrow> Inl e
      | Inr keep \<Rightarrow>
          (case select_services_enabled_and_mapped_to_host B group_names rest of
             Inl e \<Rightarrow> Inl e
           | Inr selected \<Rightarrow> Inr (if keep then (name, service) # selected else selected)))"

lemma select_services_filter:
  "select_services_enabled_and_mapped_to_host B gs services = Inr d \<longleftrightarrow>
     (\<forall>(n, s) \<in> set services. \<exists>b. service_enabled_and_mapped_to_host B gs s = Inr b) \<and>
     d = filter (\<lambda>(n, s). service_enabled_and_mapped_to_host B gs s = Inr True) services"
proof (induction services arbitrary: d)
  case (Cons ns services)
  obtain n s where ns: "ns = (n, s)" by fastforce
  let ?ok = "\<lambda>ss. \<forall>(n, s) \<in> set ss. \<exists>b. service_enabled_and_mapped_to_host B gs s = Inr b"
  let ?sel = "select_services_enabled_and_mapped_to_host B gs services"
  have ok: "?ok (ns # services) \<longleftrightarrow> (\<exists>b. service_enabled_and_mapped_to_host B gs s = Inr b) \<and> ?ok services"
    by (simp add: ns)
  show ?case
  proof (cases "service_enabled_and_mapped_to_host B gs s")
    case (Inr b)
    show ?thesis
    proof (cases ?sel)
      case (Inl e)
      then have "\<not> ?ok services" using Cons.IH by auto
      then show ?thesis using Inl Inr unfolding ok by (simp add: ns)
    next
      case (Inr d')
      then have "?ok services" "d' = filter (\<lambda>(n, s). service_enabled_and_mapped_to_host B gs s = Inr True) services"
        using Cons.IH [of d'] by auto
      then show ?thesis using Inr \<open>service_enabled_and_mapped_to_host B gs s = Inr b\<close> unfolding ok
        by (auto simp: ns)
    qed
  qed (simp add: ns)
qed auto

section \<open>HAProxy sections of the enabled services\<close>

definition haproxy_of :: "bool_filter \<Rightarrow> pyobj \<Rightarrow> pyobj" where
  "haproxy_of B service =
     (if service_enabled B service = Inr True
      then (case dget service ''haproxy'' of PyDict d \<Rightarrow> d | _ \<Rightarrow> []) else [])"

text \<open>The definitions are well formed: dicts without repeated keys, and their enabled flag is readable.\<close>

definition good_service :: "bool_filter \<Rightarrow> pyobj \<Rightarrow> bool" where
  "good_service B service \<longleftrightarrow>
     (\<exists>b. service_enabled B service = Inr b) \<and>
     (case dget service ''haproxy'' of PyDict d \<Rightarrow> wf_dict d | v \<Rightarrow> \<not> truthy v)"

lemma dict_update_disjoint:
  assumes "wf_dict d" "\<not> list_ex (\<lambda>k. in_dict k h) (dict_keys d)"
  shows "dict_update h d = h @ d"
proof -
  have "wf_dict d \<Longrightarrow> set (map fst d) \<inter> set (map fst h) = {} \<Longrightarrow> dict_update h d = h @ d" for h
  proof (induction d arbitrary: h)
    case (Cons kv d)
    obtain k v where kv: "kv = (k, v)" by fastforce
    have "AList.update k v h = h @ [(k, v)]"
      using Cons.prems(2) kv by (induction h) auto
    moreover have "set (map fst d) \<inter> set (map fst (h @ [(k, v)])) = {}"
      using Cons.prems kv by auto
    ultimately show ?case
      using Cons.IH [of "h @ [(k, v)]"] Cons.prems(1) by (simp add: dict_update_def kv)
  qed (simp add: dict_update_def)
  moreover have "set (map fst d) \<inter> set (map fst h) = {}"
    using assms(2) by (auto simp: list_ex_iff dict_keys_def in_dict_def)
  ultimately show ?thesis using assms(1) by blast
qed

lemma haproxy_loop_spec:
  assumes "list_all (\<lambda>ns. good_service B (snd ns)) services" and "wf_dict h"
  shows "haproxy_loop B services h =
    (let all = h @ concat (map (\<lambda>ns. haproxy_of B (snd ns)) services)
     in if wf_dict all then Inr all else Inl FilterError)"
  using assms
proof (induction services arbitrary: h)
  case (Cons ns services)
  obtain n s where ns: "ns = (n, s)" by fastforce
  obtain b where b: "service_enabled B s = Inr b" using Cons.prems(1) by (auto simp: ns good_service_def)
  show ?case
  proof (cases "b \<and> truthy (dget s ''haproxy'')")
    case False
    then have "haproxy_of B s = []"
      using b by (auto simp: haproxy_of_def split: pyval.splits)
    then show ?thesis using Cons False b by (cases b) (simp_all add: ns)
  next
    case True
    then obtain d where d: "dget s ''haproxy'' = PyDict d" "wf_dict d"
      using Cons.prems(1) by (auto simp: ns good_service_def split: pyval.splits)
    then have of: "haproxy_of B s = d" using True b by (simp add: haproxy_of_def)
    show ?thesis
    proof (cases "list_ex (\<lambda>k. in_dict k h) (dict_keys d)")
      case True
      then have "\<not> wf_dict (h @ d @ r)" for r
        by (auto simp: wf_dict_def list_ex_iff dict_keys_def in_dict_def)
      with True \<open>b \<and> _\<close> show ?thesis by (simp add: ns b d of Let_def)
    next
      case disjoint: False
      then have "wf_dict (h @ d)"
        using Cons.prems(2) d(2)
        unfolding wf_dict_def list_ex_iff dict_keys_def in_dict_def map_append distinct_append by blast
      then show ?thesis
        using Cons.IH [of "h @ d"] Cons.prems(1) True disjoint
        by (simp add: ns b d of dict_update_disjoint)
    qed
  qed
qed simp

text \<open>
  HAProxy sections are collected without loss.  On well-formed service definitions the
  filter returns the sections of the enabled services in order, all of them, and it raises
  \<open>FilterError\<close> exactly when two of them have the same name; disabled services play no part.
\<close>

lemma extract_haproxy_spec:
  assumes "list_all (\<lambda>ns. good_service B (snd ns)) services"
  shows "extract_haproxy_services B services =
    (let all = concat (map (\<lambda>ns. haproxy_of B (snd ns)) services)
     in if wf_dict all then Inr all else Inl FilterError)"
  unfolding extract_haproxy_services_def using haproxy_loop_spec [OF assms, of "[]"] by simp

lemma extract_haproxy_spec_witness:
  "let B = (\<lambda>v. Inr (truthy v));
       svc = (\<lambda>b name. [(''enabled'', PyBool b), (''haproxy'', PyDict [(name, PyDict [])])])
   in extract_haproxy_services B [(''a'', svc True ''x''), (''b'', svc False ''x''), (''c'', svc True ''y'')]
        = Inr [(''x'', PyDict []), (''y'', PyDict [])]
    \<and> extract_haproxy_services B [(''a'', svc True ''x''), (''c'', svc True ''x'')] = Inl FilterError"
proof -
  define B :: bool_filter where "B = (\<lambda>v. Inr (truthy v))"
  define svc where "svc b name = [(''enabled'', PyBool b), (''haproxy'', PyDict [(name, PyDict [])])]" for b and name :: string
  have g: "good_service B (svc b n)" "haproxy_of B (svc b n) = (if b then [(n, PyDict [])] else [])" for b n
    by (simp_all add: good_service_def haproxy_of_def service_enabled_def svc_def B_def dget_def)
  show ?thesis
    unfolding Let_def B_def [symmetric] svc_def [symmetric]
    by (subst extract_haproxy_spec, simp add: g, simp add: g)+
qed

end
