(* ===== verification/IpAddress.thy ===== *)
theory IpAddress
  imports PyVal
begin

text \<open>
  What the address filters use of Python's \<open>ipaddress\<close> (as of Python 3.10 to 3.12): parsing
  (\<open>ip_address\<close>), the version, \<open>exploded\<close>, and \<open>str\<close> with its compression of the longest run of
  zeros.  An IPv4 address is its four octets, an IPv6 address its eight hextets and an optional
  scope.  \<open>ip_address_wf\<close> and \<open>ip_address_str\<close>: what is parsed is well formed, and every well
  formed address is read back from its text.
\<close>

section \<open>Hexadecimal numerals\<close>

definition hex_char :: "nat \<Rightarrow> char" where
  "hex_char d = (if d < 10 then digit_char d else char_of (87 + d))"

definition is_hex_digit :: "char \<Rightarrow> bool" where
  "is_hex_digit c \<longleftrightarrow> is_digit c \<or> lower_char c \<in> set ''abcdef''"

definition hex_val :: "char \<Rightarrow> nat" where
  "hex_val c = (if is_digit c then digit_val c else of_char (lower_char c) - 87)"

fun hex_of :: "nat \<Rightarrow> string" where
  "hex_of n = (if n < 16 then [hex_char n] else hex_of (n div 16) @ [hex_char (n mod 16)])"

declare hex_of.simps [simp del]

definition parse_hex :: "string \<Rightarrow> nat" where
  "parse_hex s = foldl (\<lambda>a c. a * 16 + hex_val c) 0 s"

section \<open>Addresses\<close>

datatype ip =
    V4 "nat list"
  | V6 "nat list" "string option"

fun ip_version :: "ip \<Rightarrow> int" where
  "ip_version (V4 _) = 4"
| "ip_version (V6 _ _) = 6"

text \<open>One part, and all of them.\<close>

definition parse_octet :: "string \<Rightarrow> nat option" where
  "parse_octet s =
     (if s = [] \<or> \<not> list_all is_digit s \<or> length s > 3 \<or> (s \<noteq> ''0'' \<and> hd s = CHR ''0'') then None
      else let n = foldl (\<lambda>a c. a * 10 + digit_val c) 0 s in if n > 255 then None else Some n)"

definition parse_hextet :: "string \<Rightarrow> nat option" where
  "parse_hextet s = (if s = [] \<or> \<not> list_all is_hex_digit s \<or> length s > 4 then None else Some (parse_hex s))"

fun all_some :: "'a option list \<Rightarrow> 'a list option" where
  "all_some [] = Some []"
| "all_some (None # xs) = None"
| "all_some (Some x # xs) = map_option (Cons x) (all_some xs)"

definition parse_v4 :: "string \<Rightarrow> nat list option" where
  "parse_v4 s =
     (let octets = py_split (CHR ''.'') s in if length octets \<noteq> 4 then None else all_some (map parse_octet octets))"

text \<open>An IPv4 address in the last part stands for two hextets.\<close>

definition expand_v4 :: "string list \<Rightarrow> string list option" where
  "expand_v4 parts =
     (if CHR ''.'' \<notin> set (last parts) then Some parts
      else case parse_v4 (last parts) of
        Some [a, b, c, d] \<Rightarrow> Some (butlast parts @ [hex_of (a * 256 + b), hex_of (c * 256 + d)])
      | _ \<Rightarrow> None)"

text \<open>The positions, but the first and the last, of empty parts: the double colon.\<close>

definition skips :: "string list \<Rightarrow> nat list" where
  "skips parts = filter (\<lambda>i. parts ! i = []) [1..<length parts - 1]"

definition parse_parts :: "string list \<Rightarrow> nat list option" where
  "parse_parts parts =
     (case skips parts of
        [] \<Rightarrow>
          (if length parts \<noteq> 8 \<or> hd parts = [] \<or> last parts = [] then None else all_some (map parse_hextet parts))
      | [k] \<Rightarrow>
          (let hi = (if hd parts = [] then k - 1 else k);
               lo = (if last parts = [] then length parts - k - 2 else length parts - k - 1)
           in if (hd parts = [] \<and> hi \<noteq> 0) \<or> (last parts = [] \<and> lo \<noteq> 0) \<or> hi + lo > 7 then None
              else case (all_some (map parse_hextet (take hi parts)),
                         all_some (map parse_hextet (drop (length parts - lo) parts))) of
                (Some a, Some b) \<Rightarrow> Some (a @ replicate (8 - (hi + lo)) 0 @ b)
              | _ \<Rightarrow> None)
      | _ \<Rightarrow> None)"

definition parse_v6 :: "string \<Rightarrow> nat list option" where
  "parse_v6 s =
     (let parts = py_split (CHR '':'') s
      in if length parts < 3 then None
         else case expand_v4 parts of None \<Rightarrow> None
              | Some parts \<Rightarrow> (if length parts > 9 then None else parse_parts parts))"

definition split_scope :: "string \<Rightarrow> (string \<times> string option) option" where
  "split_scope s =
     (case split_once (CHR ''%'') s of
        None \<Rightarrow> Some (s, None)
      | Some (addr, scope) \<Rightarrow> (if scope = [] \<or> CHR ''%'' \<in> set scope then None else Some (addr, Some scope)))"

definition ip_address :: "string \<Rightarrow> pyexn + ip" where
  "ip_address s =
     (if CHR ''/'' \<in> set s then Inl ValueError
      else case parse_v4 s of
        Some octets \<Rightarrow> Inr (V4 octets)
      | None \<Rightarrow>
          (case split_scope s of
             None \<Rightarrow> Inl ValueError
           | Some (addr, scope) \<Rightarrow>
               (case parse_v6 addr of None \<Rightarrow> Inl ValueError | Some hs \<Rightarrow> Inr (V6 hs scope))))"

section \<open>Text\<close>

text \<open>
  The longest run of zeros, the first of the longest: \<open>run_from i best cur hs\<close> with the best
  run and the current one as a start and a length.
\<close>

fun best_run :: "nat \<Rightarrow> nat \<times> nat \<Rightarrow> nat \<times> nat \<Rightarrow> nat list \<Rightarrow> nat \<times> nat" where
  "best_run i best cur [] = best"
| "best_run i best cur (h # hs) =
     (if h = 0 then
        (let cur' = (if snd cur = 0 then (i, 1) else (fst cur, snd cur + 1))
         in best_run (Suc i) (if snd best < snd cur' then cur' else best) cur' hs)
      else best_run (Suc i) best (0, 0) hs)"

definition compress_hextets :: "nat list \<Rightarrow> string list" where
  "compress_hextets hs =
     (case best_run 0 (0, 0) (0, 0) hs of (start, len) \<Rightarrow>
        if len > 1 then
          (if start = 0 then [[]] else map hex_of (take start hs)) @ [[]]
          @ (if start + len = length hs then [[]] else map hex_of (drop (start + len) hs))
        else map hex_of hs)"

definition v6_str :: "nat list \<Rightarrow> string" where
  "v6_str hs = join_with '':'' (compress_hextets hs)"

fun ip_str :: "ip \<Rightarrow> string" where
  "ip_str (V4 octets) = join_with ''.'' (map str_of_nat octets)"
| "ip_str (V6 hs scope) = v6_str hs @ (case scope of None \<Rightarrow> [] | Some s \<Rightarrow> CHR ''%'' # s)"

text \<open>\<open>exploded\<close> reads the text again, and an address with a scope does not survive that.\<close>

definition hex4 :: "nat \<Rightarrow> string" where
  "hex4 n = replicate (4 - length (hex_of n)) (CHR ''0'') @ hex_of n"

definition v6_exploded :: "ip \<Rightarrow> pyexn + string" where
  "v6_exploded a =
     (case a of
        V6 hs None \<Rightarrow> (case parse_v6 (v6_str hs) of None \<Rightarrow> Inl ValueError | Some hs \<Rightarrow> Inr (join_with '':'' (map hex4 hs)))
      | _ \<Rightarrow> Inl ValueError)"

fun wf_ip :: "ip \<Rightarrow> bool" where
  "wf_ip (V4 octets) = (length octets = 4 \<and> list_all (\<lambda>n. n < 256) octets)"
| "wf_ip (V6 hs scope) = (length hs = 8 \<and> list_all (\<lambda>n. n < 65536) hs
     \<and> (case scope of None \<Rightarrow> True | Some s \<Rightarrow> s \<noteq> [] \<and> CHR ''%'' \<notin> set s \<and> CHR ''/'' \<notin> set s))"

section \<open>What is parsed is well formed\<close>

lemma all_some_Some: "all_some xs = Some ys \<longleftrightarrow> xs = map Some ys"
proof (induction xs arbitrary: ys)
  case (Cons x xs)
  then show ?case by (cases x; cases ys) auto
qed auto

lemma parse_octet_bound: "parse_octet s = Some n \<Longrightarrow> n < 256"
  by (auto simp: parse_octet_def Let_def split: if_splits)

lemma hex_digit_bound: "is_hex_digit c \<Longrightarrow> hex_val c < 16"
proof -
  assume "is_hex_digit c"
  moreover have "hex_val c < 16" if "is_digit c" using that by (auto simp: hex_val_def digit_val_def is_digit_def)
  moreover have "hex_val c < 16" if "lower_char c \<in> set ''abcdef''" "\<not> is_digit c"
    using that by (auto simp: hex_val_def)
  ultimately show ?thesis by (auto simp: is_hex_digit_def)
qed

lemma parse_hex_bound:
  "list_all is_hex_digit s \<Longrightarrow> foldl (\<lambda>a c. a * 16 + hex_val c) m s < (m + 1) * 16 ^ length s"
proof (induction s arbitrary: m)
  case (Cons c s)
  then have "foldl (\<lambda>a c. a * 16 + hex_val c) (m * 16 + hex_val c) s < (m * 16 + hex_val c + 1) * 16 ^ length s" by simp
  also have "\<dots> \<le> ((m + 1) * 16) * 16 ^ length s"
    using hex_digit_bound [of c] Cons.prems by (intro mult_right_mono) auto
  finally show ?case by (simp add: algebra_simps)
qed simp

lemma parse_hextet_bound: "parse_hextet s = Some n \<Longrightarrow> n < 65536"
proof -
  assume s: "parse_hextet s = Some n"
  then have "n < 16 ^ length s" using parse_hex_bound [of s 0] by (auto simp: parse_hextet_def parse_hex_def split: if_splits)
  also have "\<dots> \<le> 16 ^ 4" using s by (intro power_increasing) (auto simp: parse_hextet_def split: if_splits)
  finally show ?thesis by simp
qed

lemma all_some_bound:
  assumes "all_some (map f xs) = Some ys" and "\<And>x y. f x = Some y \<Longrightarrow> P y"
  shows "list_all P ys \<and> length ys = length xs"
proof -
  have "map f xs = map Some ys" using assms(1) by (simp add: all_some_Some)
  then show ?thesis using assms(2) by (metis (no_types, lifting) in_set_conv_nth length_map list_all_length nth_map)
qed

lemma skips_bound: "skips parts = [k] \<Longrightarrow> 0 < k \<and> k < length parts - 1"
proof -
  assume "skips parts = [k]"
  then have "k \<in> set (filter (\<lambda>i. parts ! i = []) [1..<length parts - 1])" by (simp add: skips_def)
  then show ?thesis by auto
qed

lemma parse_parts_wf: "parse_parts parts = Some hs \<Longrightarrow> length hs = 8 \<and> list_all (\<lambda>n. n < 65536) hs"
  by (auto simp: parse_parts_def Let_def list_all_iff split: list.splits if_splits option.splits
      dest!: all_some_bound [OF _ parse_hextet_bound] dest: skips_bound)

lemma parse_v6_wf: "parse_v6 s = Some hs \<Longrightarrow> length hs = 8 \<and> list_all (\<lambda>n. n < 65536) hs"
  by (auto simp: parse_v6_def Let_def split: if_splits option.splits dest: parse_parts_wf)

section \<open>An address is read back from its text\<close>

lemma hex_digit_char:
  assumes "d < 16"
  shows "is_hex_digit (hex_char d)" "hex_val (hex_char d) = d"
    "hex_char d \<noteq> CHR '':''" "hex_char d \<noteq> CHR ''.''" "hex_char d \<noteq> CHR ''%''" "hex_char d \<noteq> CHR ''/''"
proof -
  have "d = 0 \<or> d = 1 \<or> d = 2 \<or> d = 3 \<or> d = 4 \<or> d = 5 \<or> d = 6 \<or> d = 7 \<or> d = 8 \<or> d = 9 \<or> d = 10 \<or> d = 11
      \<or> d = 12 \<or> d = 13 \<or> d = 14 \<or> d = 15"
    using assms by arith
  then have *: "is_hex_digit (hex_char d) \<and> hex_val (hex_char d) = d \<and> hex_char d \<notin> set '':.%/''"
    by (elim disjE) (simp_all add: hex_char_def is_hex_digit_def hex_val_def digit_char_def is_digit_def digit_val_def
        lower_char_def char_of_def bit_iff_odd)
  from * show "is_hex_digit (hex_char d)" "hex_val (hex_char d) = d" by simp_all
  from * show "hex_char d \<noteq> CHR '':''" "hex_char d \<noteq> CHR ''.''" "hex_char d \<noteq> CHR ''%''" "hex_char d \<noteq> CHR ''/''"
    by simp_all
qed

lemma hex_of_chars:
  "x \<in> set (hex_of n) \<Longrightarrow> is_hex_digit x \<and> x \<noteq> CHR '':'' \<and> x \<noteq> CHR ''.'' \<and> x \<noteq> CHR ''%'' \<and> x \<noteq> CHR ''/''"
proof (induction n rule: hex_of.induct)
  case (1 n)
  show ?case
  proof (cases "n < 16")
    case True
    then show ?thesis using 1 hex_digit_char [of n] by (auto simp: hex_of.simps [of n])
  next
    case False
    then show ?thesis using 1 hex_digit_char [of "n mod 16"] by (auto simp: hex_of.simps [of n])
  qed
qed

lemma hex_of_nonempty [simp]: "hex_of n \<noteq> []"
  by (subst hex_of.simps) simp

lemma parse_hex_of: "parse_hex (hex_of n) = n"
proof (induction n rule: hex_of.induct)
  case (1 n)
  then show ?case
    by (cases "n < 16") (simp_all add: hex_of.simps [of n] parse_hex_def hex_digit_char)
qed

lemma length_hex_of: "n < 16 ^ Suc k \<Longrightarrow> length (hex_of n) \<le> Suc k"
proof (induction k arbitrary: n)
  case (Suc k)
  then have "n div 16 < 16 ^ Suc k" by (simp add: less_mult_imp_div_less mult.commute)
  then show ?case using Suc.IH [of "n div 16"] by (cases "n < 16") (simp_all add: hex_of.simps [of n])
qed (simp add: hex_of.simps)

lemma parse_hextet_hex_of: "n < 65536 \<Longrightarrow> parse_hextet (hex_of n) = Some n"
  using length_hex_of [of n 3] hex_of_chars [of _ n]
  by (auto simp: parse_hextet_def parse_hex_of list_all_iff)

lemma split_join:
  "xs \<noteq> [] \<Longrightarrow> list_all (\<lambda>x. c \<notin> set x) xs \<Longrightarrow> py_split c (join_with [c] xs) = xs"
proof (induction xs rule: induct_list012)
  case (3 x y xs)
  then show ?case using py_split_append [of c x "join_with [c] (y # xs)"] by simp
qed (simp_all add: py_split_no_sep)

lemma set_join_with: "set (join_with sep xs) \<subseteq> set sep \<union> \<Union> (set ` set xs)"
  by (induction sep xs rule: join_with.induct) auto

lemma length_str_of_nat: "n < 10 ^ Suc k \<Longrightarrow> length (str_of_nat n) \<le> Suc k"
proof (induction k arbitrary: n)
  case (Suc k)
  then have "n div 10 < 10 ^ Suc k" by (simp add: less_mult_imp_div_less mult.commute)
  then show ?case using Suc.IH [of "n div 10"] by (cases "n < 10") (simp_all add: str_of_nat.simps [of n])
qed (simp add: str_of_nat.simps)

lemma str_of_nat_head: "n \<noteq> 0 \<Longrightarrow> hd (str_of_nat n) \<noteq> CHR ''0''"
proof (induction n rule: str_of_nat.induct)
  case (1 n)
  show ?case
  proof (cases "n < 10")
    case True
    have "of_char (digit_char n) \<noteq> (of_char (CHR ''0'') :: nat)"
      using 1 True by (simp add: digit_char_def of_char_of)
    then show ?thesis using True by (auto simp: str_of_nat.simps [of n])
  next
    case False
    then have "n div 10 \<noteq> 0" by auto
    then show ?thesis using 1 False by (simp add: str_of_nat.simps [of n])
  qed
qed

lemma parse_octet_str_of_nat: "n < 256 \<Longrightarrow> parse_octet (str_of_nat n) = Some n"
proof -
  assume n: "n < 256"
  have "str_of_nat n = ''0'' \<or> hd (str_of_nat n) \<noteq> CHR ''0''"
    by (cases "n = 0") (simp_all add: str_of_nat_head str_of_nat.simps [of 0] digit_char_def char_of_def bit_iff_odd)
  then show ?thesis
    using n length_str_of_nat [of n 2] str_of_nat_set [of _ n]
    by (auto simp: parse_octet_def Let_def fold_digits_str list_all_iff)
qed

lemma all_some_map: "list_all (\<lambda>x. f (g x) = Some x) xs \<Longrightarrow> all_some (map f (map g xs)) = Some xs"
  by (induction xs) auto

lemma dot_not_digit: "\<not> is_digit CHR ''.''" "\<not> is_digit CHR '':''" "\<not> is_digit CHR ''/''"
  by (simp_all add: is_digit_def)

lemma parse_v4_str:
  assumes "length ns = 4" "list_all (\<lambda>n. n < 256) ns"
  shows "parse_v4 (join_with ''.'' (map str_of_nat ns)) = Some ns"
proof -
  have "list_all (\<lambda>x. CHR ''.'' \<notin> set x) (map str_of_nat ns)"
    using str_of_nat_set dot_not_digit by (fastforce simp: list_all_iff)
  then have "py_split (CHR ''.'') (join_with ''.'' (map str_of_nat ns)) = map str_of_nat ns"
    using assms(1) by (intro split_join) auto
  moreover have "all_some (map parse_octet (map str_of_nat ns)) = Some ns"
    using assms(2) by (intro all_some_map) (auto simp: list_all_iff parse_octet_str_of_nat)
  ultimately show ?thesis using assms(1) unfolding parse_v4_def by simp
qed

text \<open>The best run lies in the list and holds only zeros.\<close>

definition zero_run :: "nat list \<Rightarrow> nat \<times> nat \<Rightarrow> bool" where
  "zero_run hs r \<longleftrightarrow> fst r + snd r \<le> length hs \<and> (\<forall>j. fst r \<le> j \<and> j < fst r + snd r \<longrightarrow> hs ! j = 0)"

lemma zero_run_append: "zero_run ps r \<Longrightarrow> zero_run (ps @ hs) r"
  by (auto simp: zero_run_def nth_append)

lemma zero_run_extend:
  "zero_run ps (s, n) \<Longrightarrow> s + n = length ps \<Longrightarrow> zero_run (ps @ [0]) (s, Suc n)"
  by (auto simp: zero_run_def nth_append less_Suc_eq)

lemma best_run_zero_run:
  assumes "length ps = i" "zero_run ps best" "zero_run ps cur" "snd cur = 0 \<or> fst cur + snd cur = i"
  shows "zero_run (ps @ hs) (best_run i best cur hs)"
  using assms
proof (induction hs arbitrary: ps i best cur)
  case (Cons h hs)
  have one: "zero_run (ps @ [0]) (i, 1)" using Cons.prems by (auto simp: zero_run_def nth_append)
  have none: "zero_run (ps @ [h]) (0, 0)" by (simp add: zero_run_def)
  let ?cur = "if snd cur = 0 then (i, 1) else (fst cur, snd cur + 1)"
  have cur: "zero_run (ps @ [0]) ?cur" "fst ?cur + snd ?cur = Suc i"
    using Cons.prems one zero_run_extend [of ps "fst cur" "snd cur"] by auto
  have best: "zero_run (ps @ [h]) best" using Cons.prems by (simp add: zero_run_append)
  show ?case
  proof (cases "h = 0")
    case True
    let ?best = "if snd best < snd ?cur then ?cur else best"
    have "zero_run (ps @ [0]) ?best" using cur best True by simp
    then have "zero_run ((ps @ [0]) @ hs) (best_run (Suc i) ?best ?cur hs)"
      using Cons.prems(1) cur by (intro Cons.IH) simp_all
    then show ?thesis using True by (simp add: Let_def)
  next
    case False
    then show ?thesis using Cons.IH [of "ps @ [h]" "Suc i" best "(0, 0)"] Cons.prems(1) best none by simp
  qed
qed simp

lemma zero_run_split:
  assumes "zero_run hs (s, n)"
  shows "hs = take s hs @ replicate n 0 @ drop (s + n) hs"
proof -
  have "take n (drop s hs) = replicate n 0"
    using assms by (intro nth_equalityI) (auto simp: zero_run_def)
  then show ?thesis by (metis append_take_drop_id drop_drop add.commute)
qed

lemma skips_one:
  assumes "xs \<noteq> []" "ys \<noteq> []" "[] \<notin> set (tl xs)" "[] \<notin> set (butlast ys)"
  shows "skips (xs @ [[]] @ ys) = [length xs]"
proof -
  let ?p = "xs @ [[]] @ ys"
  have range: "[1..<length ?p - 1] = [1..<length xs] @ length xs # [Suc (length xs)..<length xs + length ys]"
  proof -
    have "[1..<length xs + length ys] = [1..<length xs] @ [length xs..<length xs + length ys]"
      using assms(1) by (intro upt_add_eq_append) (simp add: Suc_leI)
    then show ?thesis using assms(2) by (simp add: upt_conv_Cons)
  qed
  have left: "?p ! i \<noteq> []" if "i \<in> set [1..<length xs]" for i
  proof -
    have "?p ! i = tl xs ! (i - 1)" "i - 1 < length (tl xs)" using that by (auto simp: nth_append nth_tl)
    then show ?thesis using assms(3) nth_mem by metis
  qed
  have right: "?p ! i \<noteq> []" if "i \<in> set [Suc (length xs)..<length xs + length ys]" for i
  proof -
    let ?j = "i - Suc (length xs)"
    have j: "?j < length (butlast ys)" using that by auto
    have "?p ! i = ys ! ?j" using that by (auto simp: nth_append)
    also have "\<dots> = butlast ys ! ?j" using j by (simp add: nth_butlast)
    finally show ?thesis using j assms(4) nth_mem [OF j] by metis
  qed
  show ?thesis unfolding skips_def range using left right by (simp add: filter_empty_conv nth_append)
qed

text \<open>Parsing a text with a double colon.\<close>

lemma parse_parts_skip:
  assumes "length hs = 8" "list_all (\<lambda>n. n < 65536) hs" "zero_run hs (s, n)" "1 < n"
  defines "xs \<equiv> (if s = 0 then [[]] else map hex_of (take s hs))"
    and "ys \<equiv> (if s + n = 8 then [[]] else map hex_of (drop (s + n) hs))"
  shows "parse_parts (xs @ [[]] @ ys) = Some hs" and "length (xs @ [[]] @ ys) \<le> 9"
    and "3 \<le> length (xs @ [[]] @ ys)"
proof -
  have sn: "s + n \<le> 8" using assms(1,3) by (simp add: zero_run_def)
  have lx: "length xs = (if s = 0 then 1 else s)" and ly: "length ys = (if s + n = 8 then 1 else 8 - (s + n))"
    using assms(1) sn by (auto simp: xs_def ys_def)
  have ne: "xs \<noteq> []" "ys \<noteq> []" using lx ly sn by (auto split: if_splits)
  have hex: "[] \<notin> set (map hex_of ns)" for ns
    by (metis (no_types, lifting) hex_of_nonempty in_set_conv_nth length_map nth_map)
  have tl: "[] \<notin> set (tl (map hex_of ns))" for ns using hex [of "tl ns"] by (simp add: map_tl)
  have skips: "skips (xs @ [[]] @ ys) = [length xs]"
    using ne hex tl by (intro skips_one) (auto simp: xs_def ys_def dest: in_set_butlastD split: if_splits)
  have hd: "hd (xs @ [[]] @ ys) = [] \<longleftrightarrow> s = 0" and last: "last (xs @ [[]] @ ys) = [] \<longleftrightarrow> s + n = 8"
    using ne sn assms(1) by (auto simp: xs_def ys_def hd_map last_map last_append split: if_splits)
  have ok: "list_all (\<lambda>x. parse_hextet (hex_of x) = Some x) (take k hs)"
    "list_all (\<lambda>x. parse_hextet (hex_of x) = Some x) (drop k hs)" for k
    using assms(2) by (auto simp: list_all_iff parse_hextet_hex_of dest: in_set_takeD in_set_dropD)
  have left: "take s (xs @ [[]] @ ys) = map hex_of (take s hs)" using sn assms(1) by (simp add: xs_def)
  have right: "drop (length (xs @ [[]] @ ys) - (8 - (s + n))) (xs @ [[]] @ ys) = map hex_of (drop (s + n) hs)"
    using sn assms(1) ly by (cases "s + n = 8") (simp_all add: ys_def)
  have "s + n = 8 \<Longrightarrow> 8 - s = n" by simp
  then show "parse_parts (xs @ [[]] @ ys) = Some hs"
    using sn lx ly assms(4) left right skips hd last all_some_map [of parse_hextet hex_of, OF ok(1)] all_some_map [of parse_hextet hex_of, OF ok(2)]
      zero_run_split [OF assms(3)]
    unfolding parse_parts_def by (cases "s = 0"; cases "s + n = 8") (simp_all add: Let_def)
  show "length (xs @ [[]] @ ys) \<le> 9" "3 \<le> length (xs @ [[]] @ ys)"
    using lx ly sn assms(4) by (auto split: if_splits)
qed

lemma skips_none: "[] \<notin> set ps \<Longrightarrow> skips ps = []"
proof -
  assume "[] \<notin> set ps"
  then have "ps ! i \<noteq> []" if "i < length ps" for i using that nth_mem by metis
  then show ?thesis by (auto simp: skips_def filter_empty_conv)
qed

lemma parse_compressed:
  assumes "length hs = 8" "list_all (\<lambda>n. n < 65536) hs"
  shows "parse_parts (compress_hextets hs) = Some hs \<and> length (compress_hextets hs) \<le> 9
    \<and> 3 \<le> length (compress_hextets hs)"
proof -
  obtain s n where r: "best_run 0 (0, 0) (0, 0) hs = (s, n)" by fastforce
  have "zero_run ([] @ hs) (best_run 0 (0, 0) (0, 0) hs)"
    by (intro best_run_zero_run) (simp_all add: zero_run_def)
  then have z: "zero_run hs (s, n)" by (simp add: r)
  show ?thesis
  proof (cases "1 < n")
    case True
    then show ?thesis using parse_parts_skip [OF assms z] assms(1) r by (simp add: compress_hextets_def)
  next
    case False
    have parts: "compress_hextets hs = map hex_of hs" using False r by (simp add: compress_hextets_def)
    have ne: "[] \<notin> set (map hex_of hs)" by (metis (no_types, lifting) hex_of_nonempty in_set_conv_nth length_map nth_map)
    have "all_some (map parse_hextet (map hex_of hs)) = Some hs"
      using assms(2) by (intro all_some_map) (auto simp: list_all_iff parse_hextet_hex_of)
    moreover have "hs \<noteq> []" using assms(1) by auto
    ultimately show ?thesis
      using assms(1) ne by (simp add: parts parse_parts_def skips_none hd_map last_map)
  qed
qed

lemma compress_chars:
  "p \<in> set (compress_hextets hs) \<Longrightarrow> CHR '':'' \<notin> set p \<and> CHR ''.'' \<notin> set p \<and> CHR ''%'' \<notin> set p \<and> CHR ''/'' \<notin> set p"
  using hex_of_chars by (auto simp: compress_hextets_def split: if_splits prod.splits dest!: in_set_takeD in_set_dropD)

lemma parse_v6_str:
  assumes "length hs = 8" "list_all (\<lambda>n. n < 65536) hs"
  shows "parse_v6 (v6_str hs) = Some hs"
proof -
  let ?c = "compress_hextets hs"
  note c = parse_compressed [OF assms]
  then have ne: "?c \<noteq> []" by auto
  then have split: "py_split (CHR '':'') (v6_str hs) = ?c"
    unfolding v6_str_def using compress_chars by (intro split_join) (auto simp: list_all_iff)
  have "CHR ''.'' \<notin> set (last ?c)" using compress_chars [OF last_in_set [OF ne]] by simp
  then show ?thesis using c split by (simp add: parse_v6_def expand_v4_def Let_def)
qed

lemma v6_str_chars: "CHR ''.'' \<notin> set (v6_str hs)" "CHR ''%'' \<notin> set (v6_str hs)" "CHR ''/'' \<notin> set (v6_str hs)"
proof -
  have "set (v6_str hs) \<subseteq> {CHR '':''} \<union> \<Union> (set ` set (compress_hextets hs))"
    unfolding v6_str_def using set_join_with [of "'':''"] by simp
  then show "CHR ''.'' \<notin> set (v6_str hs)" "CHR ''%'' \<notin> set (v6_str hs)" "CHR ''/'' \<notin> set (v6_str hs)"
    using compress_chars [of _ hs] by auto
qed

lemma set_py_split: "set s \<subseteq> insert c (\<Union> (set ` set (py_split c s)))"
proof (induction s)
  case (Cons x s)
  then show ?case by (cases "py_split c s") auto
qed simp

lemma parse_v4_chars: "parse_v4 s = Some ns \<Longrightarrow> CHR '':'' \<notin> set s \<and> CHR ''/'' \<notin> set s"
proof -
  assume "parse_v4 s = Some ns"
  then have parts: "map parse_octet (py_split (CHR ''.'') s) = map Some ns"
    by (auto simp: parse_v4_def Let_def all_some_Some split: if_splits)
  have "x = CHR ''.'' \<or> is_digit x" if x: "x \<in> set s" for x
  proof (cases "x = CHR ''.''")
    case False
    then obtain p where p: "p \<in> set (py_split (CHR ''.'') s)" "x \<in> set p" using x set_py_split [of s "CHR ''.''"] by blast
    then have "parse_octet p \<in> set (map Some ns)" by (metis parts imageI list.set_map)
    then show ?thesis using p(2) by (auto simp: parse_octet_def list_all_iff split: if_splits)
  qed simp
  then show ?thesis using dot_not_digit by fastforce
qed

lemma join_has_sep: "2 \<le> length xs \<Longrightarrow> c \<in> set (join_with [c] xs)"
  by (cases xs rule: remdups_adj.cases) auto

lemma v6_str_colon: "length hs = 8 \<Longrightarrow> list_all (\<lambda>n. n < 65536) hs \<Longrightarrow> CHR '':'' \<in> set (v6_str hs)"
  unfolding v6_str_def using parse_compressed [of hs] by (intro join_has_sep) auto

lemma ip_address_wf: "ip_address s = Inr a \<Longrightarrow> wf_ip a"
proof -
  assume a: "ip_address s = Inr a"
  then have slash: "CHR ''/'' \<notin> set s" by (auto simp: ip_address_def split: if_splits)
  show ?thesis
  proof (cases "parse_v4 s")
    case (Some ns)
    then have "length ns = 4 \<and> list_all (\<lambda>n. n < 256) ns"
      by (auto simp: parse_v4_def Let_def split: if_splits dest!: all_some_bound [OF _ parse_octet_bound])
    then show ?thesis using a slash Some by (auto simp: ip_address_def)
  next
    case None
    then obtain addr scope hs where s: "split_scope s = Some (addr, scope)" "parse_v6 addr = Some hs" "a = V6 hs scope"
      using a slash by (auto simp: ip_address_def split: option.splits)
    have "case scope of None \<Rightarrow> True | Some s \<Rightarrow> s \<noteq> [] \<and> CHR ''%'' \<notin> set s \<and> CHR ''/'' \<notin> set s"
      using s(1) slash by (auto simp: split_scope_def split: option.splits if_splits dest!: split_once_SomeD)
    then show ?thesis using s parse_v6_wf [OF s(2)] by simp
  qed
qed

lemma ip_address_str: "wf_ip a \<Longrightarrow> ip_address (ip_str a) = Inr a"
proof (cases a)
  case (V4 ns)
  moreover assume "wf_ip a"
  ultimately have p: "parse_v4 (ip_str a) = Some ns" using parse_v4_str by simp
  then show ?thesis using parse_v4_chars [OF p] V4 by (simp add: ip_address_def)
next
  case (V6 hs scope)
  moreover assume "wf_ip a"
  ultimately have wf: "length hs = 8" "list_all (\<lambda>n. n < 65536) hs"
    "case scope of None \<Rightarrow> True | Some s \<Rightarrow> s \<noteq> [] \<and> CHR ''%'' \<notin> set s \<and> CHR ''/'' \<notin> set s"
    by simp_all
  have colon: "CHR '':'' \<in> set (ip_str a)" using v6_str_colon [OF wf(1,2)] V6 by simp
  then have v4: "parse_v4 (ip_str a) = None" using parse_v4_chars by (cases "parse_v4 (ip_str a)") auto
  have slash: "CHR ''/'' \<notin> set (ip_str a)" using V6 wf(3) v6_str_chars by (auto split: option.splits)
  have "split_scope (ip_str a) = Some (v6_str hs, scope)"
  proof (cases scope)
    case None
    then show ?thesis using V6 v6_str_chars(2) [of hs] split_once_None_iff [of "CHR ''%''" "v6_str hs"]
      by (simp add: split_scope_def)
  next
    case (Some sc)
    then show ?thesis using V6 wf(3) split_once_append [OF v6_str_chars(2) [of hs], of sc] by (simp add: split_scope_def)
  qed
  then show ?thesis using V6 slash v4 parse_v6_str [OF wf(1,2)] by (simp add: ip_address_def)
qed

definition ip_of_text :: "string \<Rightarrow> ip option" where
  "ip_of_text s = (case ip_address s of Inl _ \<Rightarrow> None | Inr a \<Rightarrow> Some a)"

interpretation ip_text: text_codec ip_str ip_of_text wf_ip
  by unfold_locales (auto simp: ip_of_text_def ip_address_str intro: ip_address_wf split: sum.splits)

lemma ip_of_text_Some: "ip_of_text s = Some a \<longleftrightarrow> ip_address s = Inr a"
  by (simp add: ip_of_text_def split: sum.splits)

text \<open>Two texts of addresses are written alike exactly when they mean the same address.\<close>

lemma ip_str_same:
  "ip_address s = Inr a \<Longrightarrow> ip_address t = Inr b \<Longrightarrow> ip_str a = ip_str b \<longleftrightarrow> ip_address s = ip_address t"
  using ip_text.same_text [of s a t b] by (simp add: ip_of_text_def)

lemma v6_exploded_wf: "wf_ip (V6 hs None) \<Longrightarrow> v6_exploded (V6 hs None) = Inr (join_with '':'' (map hex4 hs))"
  using parse_v6_str by (simp add: v6_exploded_def)

end
