(* ===== verification/Addresses.thy ===== *)
theory Addresses
  imports ServiceFilters IpAddress
begin

text \<open>
  The address filters: \<open>put_address_in_context.py\<close>, \<open>kolla_url.py\<close> and \<open>kolla_address.py\<close> under
  \<open>kolla_ansible/\<close>.  The text of an error is not modelled.
\<close>

section \<open>An address in its context\<close>

text \<open>\<open>'16#%x' % int(x, 16)\<close> of every hextet of the exploded address.\<close>

definition erlang_hextet :: "string \<Rightarrow> string" where
  "erlang_hextet x = ''16#'' @ hex_of (parse_hex x)"

definition put_address_in_context :: "string \<Rightarrow> string \<Rightarrow> pyexn + string" where
  "put_address_in_context address context =
     (if context \<notin> {''url'', ''memcache'', ''rabbitmq''} then Inl FilterError
      else if CHR '':'' \<notin> set address \<and> context \<noteq> ''rabbitmq'' then Inr address
      else if context = ''url'' then Inr (''['' @ address @ '']'')
      else if context = ''memcache'' then Inr (''inet6:['' @ address @ '']'')
      else case ip_address address of
        Inl e \<Rightarrow> Inl e
      | Inr a \<Rightarrow>
          (if ip_version a = 6 then
             (case v6_exploded a of
                Inl e \<Rightarrow> Inl e
              | Inr s \<Rightarrow> Inr (join_with '','' (map erlang_hextet (py_split (CHR '':'') s))))
           else Inr (replace_char (CHR ''.'') (CHR '','') address)))"

section \<open>URLs\<close>

definition default_port :: "string \<Rightarrow> int \<Rightarrow> bool" where
  "default_port protocol port \<longleftrightarrow>
     (protocol = ''http'' \<and> port = 80) \<or> (protocol = ''https'' \<and> port = 443) \<or>
     (protocol = ''ws'' \<and> port = 80) \<or> (protocol = ''wss'' \<and> port = 443)"

definition kolla_url :: "string \<Rightarrow> string \<Rightarrow> pyval \<Rightarrow> string \<Rightarrow> string \<Rightarrow> pyexn + string" where
  "kolla_url fqdn protocol port path context =
     (case put_address_in_context fqdn context of
        Inl e \<Rightarrow> Inl e
      | Inr fqdn \<Rightarrow>
          (case py_int port of
             Inl e \<Rightarrow> Inl e
           | Inr port \<Rightarrow>
               (if default_port protocol port then Inr (protocol @ ''://'' @ fqdn @ path)
                else Inr (protocol @ ''://'' @ fqdn @ '':'' @ str_of_int port @ path))))"

section \<open>The address of a host on a network\<close>

text \<open>
  What the filter asks the Jinja context.  None stands for Undefined (and for a hostvars that is
  None, which is treated alike); the variables of a host behave as a dict.
\<close>

record jinja_context =
  cx_inventory_hostname :: "pyval option"
  cx_hostvars :: "(pyval \<Rightarrow> pyobj option) option"

text \<open>\<open>ipaddress.ip_address\<close> of any value: integers are addresses, everything else is read as text.\<close>

definition ip_of_int :: "int \<Rightarrow> pyexn + ip" where
  "ip_of_int i =
     (if 0 \<le> i \<and> i < 2 ^ 32 then Inr (V4 (map (\<lambda>k. nat (i div 256 ^ k mod 256)) [3, 2, 1, 0]))
      else if 0 \<le> i \<and> i < 2 ^ 128 then Inr (V6 (map (\<lambda>k. nat (i div 65536 ^ k mod 65536)) [7, 6, 5, 4, 3, 2, 1, 0]) None)
      else Inl ValueError)"

fun ip_of_val :: "pyval \<Rightarrow> pyexn + ip" where
  "ip_of_val (PyInt i) = ip_of_int i"
| "ip_of_val (PyBool b) = ip_of_int (if b then 1 else 0)"
| "ip_of_val v = ip_address (py_str v)"

text \<open>The comprehension over the addresses of an interface.\<close>

fun global_ipv6_addresses :: "pyval list \<Rightarrow> pyval list \<Rightarrow> pyexn + pyval list" where
  "global_ipv6_addresses vips [] = Inr []"
| "global_ipv6_addresses vips (x # xs) =
     (case val_item x ''scope'' of
        Inl e \<Rightarrow> Inl e
      | Inr scope \<Rightarrow>
          (case (if py_eq scope (PyStr ''global'') then map_sum id (\<lambda>a. \<not> list_ex (py_eq a) vips) (val_item x ''address'')
                 else Inr False) of
             Inl e \<Rightarrow> Inl e
           | Inr keep \<Rightarrow> map_sum id (\<lambda>ys. if keep then x # ys else ys) (global_ipv6_addresses vips xs)))"

definition vip_addresses :: "bool_filter \<Rightarrow> pyobj \<Rightarrow> pyexn + pyval list" where
  "vip_addresses B host =
     (if dget host ''enable_haproxy'' = PyNone then Inl FilterError
      else case B (dget host ''enable_haproxy'') of
        Inl e \<Rightarrow> Inl e
      | Inr True \<Rightarrow> Inr [dget host ''kolla_internal_vip_address'', dget host ''kolla_external_vip_address'']
      | Inr False \<Rightarrow> Inr [])"

definition ipv6_address :: "bool_filter \<Rightarrow> pyobj \<Rightarrow> pyval \<Rightarrow> pyexn + pyval" where
  "ipv6_address B host af_interface =
     (case vip_addresses B host of
        Inl e \<Rightarrow> Inl e
      | Inr vips \<Rightarrow>
          (case val_iter af_interface of
             Inl e \<Rightarrow> Inl e
           | Inr xs \<Rightarrow>
               (case global_ipv6_addresses vips xs of
                  Inl e \<Rightarrow> Inl e
                | Inr [] \<Rightarrow> Inr PyNone
                | Inr (x # _) \<Rightarrow> val_item x ''address'')))"

text \<open>From the interface of the network to its address.\<close>

definition interface_address :: "bool_filter \<Rightarrow> pyobj \<Rightarrow> string \<Rightarrow> string \<Rightarrow> pyexn + pyval" where
  "interface_address B host interface_name address_family =
     (case map_of host ''ansible_facts'' of
        None \<Rightarrow> Inl KeyError
      | Some facts \<Rightarrow>
          (case val_get facts (replace_char (CHR ''-'') (CHR ''_'') interface_name) of
             Inl e \<Rightarrow> Inl e
           | Inr interface \<Rightarrow>
               (if interface = PyNone then Inl FilterError
                else case val_get interface address_family of
                  Inl e \<Rightarrow> Inl e
                | Inr af_interface \<Rightarrow>
                    (if af_interface = PyNone then Inl FilterError
                     else case (if address_family = ''ipv4'' then val_get af_interface ''address''
                                else ipv6_address B host af_interface) of
                       Inl e \<Rightarrow> Inl e
                     | Inr address \<Rightarrow> (if address = PyNone then Inl FilterError else Inr address)))))"

definition network_address :: "bool_filter \<Rightarrow> pyobj \<Rightarrow> string \<Rightarrow> pyexn + pyval" where
  "network_address B host network_name =
     (case dget host (network_name @ ''_interface'') of
        PyNone \<Rightarrow> Inl FilterError
      | interface_name \<Rightarrow>
          (case dget host (network_name @ ''_address_family'') of
             PyNone \<Rightarrow> Inl FilterError
           | PyStr family \<Rightarrow>
               (if py_lower family \<notin> {''ipv4'', ''ipv6''} then Inl FilterError
                else case interface_name of
                  PyStr name \<Rightarrow> interface_address B host name (py_lower family)
                | _ \<Rightarrow> Inl AttributeError)
           | _ \<Rightarrow> Inl AttributeError))"

definition override_address :: "pyobj \<Rightarrow> string option \<Rightarrow> (pyexn + string) option" where
  "override_address host override_var =
     (case override_var of
        None \<Rightarrow> None
      | Some var \<Rightarrow>
          (case map_of host var of
             None \<Rightarrow> None
           | Some v \<Rightarrow> Some (case ip_of_val v of Inr ip \<Rightarrow> Inr (ip_str ip) | Inl _ \<Rightarrow> Inl FilterError)))"

definition host_of_context :: "jinja_context \<Rightarrow> pyval option \<Rightarrow> pyexn + pyobj" where
  "host_of_context C hostname =
     (case (case hostname of None \<Rightarrow> cx_inventory_hostname C | Some h \<Rightarrow> Some h) of
        None \<Rightarrow> Inl FilterError
      | Some h \<Rightarrow>
          (case cx_hostvars C of
             None \<Rightarrow> Inl FilterError
           | Some get \<Rightarrow> (case get h of None \<Rightarrow> Inl FilterError | Some host \<Rightarrow> Inr host)))"

definition kolla_address ::
  "bool_filter \<Rightarrow> jinja_context \<Rightarrow> string \<Rightarrow> pyval option \<Rightarrow> string option \<Rightarrow> pyexn + pyval" where
  "kolla_address B C network_name hostname override_var =
     (case host_of_context C hostname of
        Inl e \<Rightarrow> Inl e
      | Inr host \<Rightarrow>
          (case override_address host override_var of
             Some (Inl e) \<Rightarrow> Inl e
           | Some (Inr ip) \<Rightarrow> Inr (PyStr ip)
           | None \<Rightarrow> network_address B host network_name))"

section \<open>RabbitMQ's spelling depends on the address only\<close>

lemma length_hex_of_16: "n < 65536 \<Longrightarrow> length (hex_of n) \<le> 4"
  using length_hex_of [of n 3] by simp

lemma parse_hex4: "parse_hex (hex4 n) = n"
proof -
  have zeros: "foldl (\<lambda>a c. a * 16 + hex_val c) 0 (replicate k (CHR ''0'') @ s) = foldl (\<lambda>a c. a * 16 + hex_val c) 0 s" for k s
    by (induction k) (simp_all add: hex_val_def is_digit_def digit_val_def)
  show ?thesis using parse_hex_of [of n] unfolding parse_hex_def hex4_def zeros .
qed

lemma hex4_no_colon: "CHR '':'' \<notin> set (hex4 n)"
  using hex_of_chars [of "CHR '':''" n] by (auto simp: hex4_def)

text \<open>
  For RabbitMQ an IPv6 address is written as its eight hextets in Erlang's syntax, whichever
  of its spellings the filter is given.
\<close>

lemma rabbitmq_spelling:
  assumes "ip_address s = Inr (V6 hs None)"
  shows "put_address_in_context s ''rabbitmq'' = Inr (join_with '','' (map (\<lambda>h. ''16#'' @ hex_of h) hs)) \<and> length hs = 8"
proof -
  have wf: "wf_ip (V6 hs None)" by (rule ip_address_wf [OF assms])
  then have ne: "map hex4 hs \<noteq> []" by auto
  have "py_split (CHR '':'') (join_with '':'' (map hex4 hs)) = map hex4 hs"
    using ne hex4_no_colon by (intro split_join) (auto simp: list_all_iff)
  moreover have "erlang_hextet \<circ> hex4 = (\<lambda>h. ''16#'' @ hex_of h)"
    by (simp add: fun_eq_iff erlang_hextet_def parse_hex4)
  ultimately show ?thesis
    using assms wf v6_exploded_wf [OF wf] unfolding put_address_in_context_def by simp
qed

lemma rabbitmq_spelling_witness:
  "put_address_in_context ''fd00::1f'' ''rabbitmq'' = Inr ''16#fd00,16#0,16#0,16#0,16#0,16#0,16#0,16#1f''"
proof -
  let ?hs = "[0xfd00, 0, 0, 0, 0, 0, 0, 0x1f] :: nat list"
  have hex: "hex_of 0xfd00 = ''fd00''" "hex_of 0x1f = ''1f''" "hex_of 0 = ''0''"
    by (simp_all add: hex_of.simps hex_char_def digit_char_def char_of_def bit_iff_odd)
  have "ip_str (V6 ?hs None) = ''fd00::1f''" by (simp add: v6_str_def compress_hextets_def hex)
  moreover have "ip_address (ip_str (V6 ?hs None)) = Inr (V6 ?hs None)" by (rule ip_address_str) simp
  ultimately have "ip_address ''fd00::1f'' = Inr (V6 ?hs None)" by simp
  from rabbitmq_spelling [OF this] show ?thesis by (simp add: hex)
qed

section \<open>A URL is taken apart again\<close>

text \<open>A reader of URLs: the protocol, the host without its brackets, the port if there is one, the path.\<close>

definition split_port :: "string \<Rightarrow> string \<Rightarrow> string \<Rightarrow> (string \<times> string \<times> int option \<times> string) option" where
  "split_port protocol host rest =
     (let (port, path) = (takeWhile (\<lambda>c. c \<noteq> CHR ''/'') rest, dropWhile (\<lambda>c. c \<noteq> CHR ''/'') rest)
      in case port of
        [] \<Rightarrow> Some (protocol, host, None, path)
      | c # digits \<Rightarrow>
          (if c = CHR '':'' then map_option (\<lambda>p. (protocol, host, Some p, path)) (int_of_str digits) else None))"

definition split_authority :: "string \<Rightarrow> string \<Rightarrow> (string \<times> string \<times> int option \<times> string) option" where
  "split_authority protocol rest =
     (if prefix ''['' rest then
        (case split_once (CHR '']'') (tl rest) of Some (host, rest) \<Rightarrow> split_port protocol host rest | None \<Rightarrow> None)
      else split_port protocol (takeWhile (\<lambda>c. c \<noteq> CHR '':'' \<and> c \<noteq> CHR ''/'') rest)
             (dropWhile (\<lambda>c. c \<noteq> CHR '':'' \<and> c \<noteq> CHR ''/'') rest))"

definition split_url :: "string \<Rightarrow> (string \<times> string \<times> int option \<times> string) option" where
  "split_url u =
     (case split_once (CHR '':'') u of
        Some (protocol, rest) \<Rightarrow> (if prefix ''//'' rest then split_authority protocol (drop 2 rest) else None)
      | None \<Rightarrow> None)"

definition is_path :: "string \<Rightarrow> bool" where
  "is_path path \<longleftrightarrow> path = [] \<or> hd path = CHR ''/''"

lemma takeWhile_sep: "list_all P a \<Longrightarrow> b = [] \<or> \<not> P (hd b) \<Longrightarrow> takeWhile P (a @ b) = a \<and> dropWhile P (a @ b) = b"
  by (induction a) (cases b; auto)+

lemma str_of_int_no_slash: "CHR ''/'' \<notin> set (str_of_int i)"
  using str_of_nat_set [of "CHR ''/''"] by (auto simp: str_of_int_def is_digit_def)

lemma split_port_written:
  assumes "is_path path"
  shows "split_port protocol host path = Some (protocol, host, None, path)"
    and "split_port protocol host ('':'' @ str_of_int i @ path) = Some (protocol, host, Some i, path)"
proof -
  have "takeWhile (\<lambda>c. c \<noteq> CHR ''/'') ([] @ path) = [] \<and> dropWhile (\<lambda>c. c \<noteq> CHR ''/'') ([] @ path) = path"
    using assms by (intro takeWhile_sep) (auto simp: is_path_def)
  then show "split_port protocol host path = Some (protocol, host, None, path)" by (simp add: split_port_def)
  have "takeWhile (\<lambda>c. c \<noteq> CHR ''/'') (('':'' @ str_of_int i) @ path) = '':'' @ str_of_int i
      \<and> dropWhile (\<lambda>c. c \<noteq> CHR ''/'') (('':'' @ str_of_int i) @ path) = path"
    using assms str_of_int_no_slash [of i] by (intro takeWhile_sep) (auto simp: is_path_def list_all_iff)
  then show "split_port protocol host ('':'' @ str_of_int i @ path) = Some (protocol, host, Some i, path)"
    by (simp add: split_port_def)
qed

definition url_rest :: "string \<Rightarrow> int \<Rightarrow> string \<Rightarrow> string" where
  "url_rest protocol port path = (if default_port protocol port then path else '':'' @ str_of_int port @ path)"

lemma split_port_rest:
  "is_path path \<Longrightarrow> split_port protocol host (url_rest protocol port path)
     = Some (protocol, host, if default_port protocol port then None else Some port, path)"
  using split_port_written [of path] by (simp add: url_rest_def)

lemma url_rest_start: "is_path path \<Longrightarrow> url_rest protocol port path = [] \<or> hd (url_rest protocol port path) \<in> set '':/''"
  by (auto simp: url_rest_def is_path_def)

text \<open>
  The filter's URL can be taken apart again: the protocol, the host (whether it was bracketed
  as an IPv6 address or not), the port unless it is the protocol's default, and the path.
\<close>

lemma kolla_url_readable:
  assumes "kolla_url fqdn protocol port path ''url'' = Inr u" and "py_int port = Inr n"
    and "CHR '':'' \<notin> set protocol" and "is_path path"
    and "fqdn \<noteq> []" and "set fqdn \<inter> set ''/[]'' = {}"
  shows "split_url u = Some (protocol, fqdn, if default_port protocol n then None else Some n, path)"
proof (cases "CHR '':'' \<in> set fqdn")
  case True
  then have "u = protocol @ CHR '':'' # ''//['' @ fqdn @ CHR '']'' # url_rest protocol n path"
    using assms(1,2) by (auto simp: kolla_url_def put_address_in_context_def url_rest_def)
  moreover have "split_once (CHR '']'') (fqdn @ CHR '']'' # url_rest protocol n path) = Some (fqdn, url_rest protocol n path)"
    using assms(6) by (intro split_once_append) auto
  ultimately show ?thesis
    using assms(3,4) split_once_append [of "CHR '':''" protocol]
    by (simp add: split_url_def split_authority_def split_port_rest)
next
  case False
  let ?rest = "fqdn @ url_rest protocol n path"
  let ?P = "\<lambda>c. c \<noteq> CHR '':'' \<and> c \<noteq> CHR ''/''"
  have u: "u = protocol @ CHR '':'' # ''//'' @ ?rest"
    using False assms(1,2) by (auto simp: kolla_url_def put_address_in_context_def url_rest_def)
  have "takeWhile ?P ?rest = fqdn \<and> dropWhile ?P ?rest = url_rest protocol n path"
    using False assms(6) url_rest_start [OF assms(4), of protocol n] by (intro takeWhile_sep) (auto simp: list_all_iff)
  moreover have "\<not> prefix ''['' ?rest" using assms(5,6) by (cases fqdn) auto
  ultimately have "split_authority protocol ?rest = split_port protocol fqdn (url_rest protocol n path)"
    by (simp only: split_authority_def if_False)
  then show ?thesis using split_once_append [OF assms(3)] by (simp add: split_url_def u split_port_rest assms(4))
qed

lemma kolla_url_readable_witness:
  "split_url ''https://[fd00::1]:8774/v2.1'' = Some (''https'', ''fd00::1'', Some 8774, ''/v2.1'')"
proof -
  have p: "int_of_str ''8774'' = Some 8774"
    by (simp add: int_of_str_def py_strip_def is_space_def is_digit_def digit_val_def)
  have n: "str_of_int 8774 = ''8774''" by (simp add: str_of_int_def str_of_nat.simps digit_char_def char_of_def bit_iff_odd)
  have "kolla_url ''fd00::1'' ''https'' (PyStr ''8774'') ''/v2.1'' ''url'' = Inr ''https://[fd00::1]:8774/v2.1''"
    by (simp add: kolla_url_def put_address_in_context_def default_port_def p n)
  from kolla_url_readable [OF this, of 8774] show ?thesis by (simp add: p default_port_def is_path_def)
qed

section \<open>Addresses of hosts\<close>

lemma ip_of_int_wf: "ip_of_int i = Inr a \<Longrightarrow> wf_ip a"
  by (auto simp: ip_of_int_def nat_less_iff split: if_splits)

lemma ip_of_val_wf: "ip_of_val v = Inr a \<Longrightarrow> wf_ip a"
  by (cases v) (auto intro: ip_of_int_wf ip_address_wf simp del: py_repr.simps ip_of_int_def)

text \<open>
  C27. An override variable that is set decides: the answer is the text of a well formed address,
  the one the variable means, or an error; and it is canonical, so that overriding with the answer
  gives the answer again.
\<close>

theorem override_canonical:
  assumes "kolla_address B C network hostname (Some var) = Inr r"
    and "host_of_context C hostname = Inr host" and "map_of host var = Some v"
  shows "\<exists>ip. wf_ip ip \<and> ip_of_val v = Inr ip \<and> r = PyStr (ip_str ip) \<and> ip_of_val r = Inr ip"
  using assms ip_of_val_wf [of v] ip_text.reads_render
  by (auto simp: kolla_address_def override_address_def ip_of_text_Some split: sum.splits)

declare py_eq_PyStr [simp]

lemma global_ipv6_In:
  "global_ipv6_addresses vips xs = Inr ys \<Longrightarrow> y \<in> set ys \<Longrightarrow>
     y \<in> set xs \<and> (\<exists>d a. y = PyDict d \<and> map_of d ''scope'' = Some (PyStr ''global'') \<and> map_of d ''address'' = Some a
       \<and> \<not> list_ex (py_eq a) vips)"
proof (induction xs arbitrary: ys)
  case (Cons x xs)
  obtain zs where zs: "global_ipv6_addresses vips xs = Inr zs"
    using Cons.prems(1) by (cases "global_ipv6_addresses vips xs") (auto split: sum.splits)
  show ?case
  proof (cases "y \<in> set zs")
    case True
    then show ?thesis using Cons.IH [OF zs] by auto
  next
    case False
    obtain scope where scope: "val_item x ''scope'' = Inr scope" using Cons.prems(1) by (auto split: sum.splits)
    have "y = x" using Cons.prems False zs scope by (auto split: sum.splits if_splits)
    obtain d where d: "x = PyDict d" using scope by (cases x) auto
    show ?thesis using Cons.prems False zs \<open>y = x\<close> d
      by (auto split: sum.splits if_splits option.splits)
  qed
qed simp

text \<open>The entry of an interface for a family, and what an answer taken from it has to be.\<close>

definition af_entry :: "pyobj \<Rightarrow> string \<Rightarrow> string \<Rightarrow> pyval option" where
  "af_entry host name family =
     (case map_of host ''ansible_facts'' of
        Some (PyDict facts) \<Rightarrow>
          (case dget facts (replace_char (CHR ''-'') (CHR ''_'') name) of
             PyDict interface \<Rightarrow> map_of interface family
           | _ \<Rightarrow> None)
      | _ \<Rightarrow> None)"

definition is_vip :: "pyobj \<Rightarrow> pyval \<Rightarrow> bool" where
  "is_vip host a \<longleftrightarrow> py_eq a (dget host ''kolla_internal_vip_address'') \<or> py_eq a (dget host ''kolla_external_vip_address'')"

definition address_of_entry :: "bool_filter \<Rightarrow> pyobj \<Rightarrow> string \<Rightarrow> pyval \<Rightarrow> pyval \<Rightarrow> bool" where
  "address_of_entry B host family entry a \<longleftrightarrow>
     (if family = ''ipv4'' then (\<exists>d. entry = PyDict d \<and> map_of d ''address'' = Some a)
      else (\<exists>xs d. entry = PyList xs \<and> PyDict d \<in> set xs \<and> map_of d ''scope'' = Some (PyStr ''global'')
              \<and> map_of d ''address'' = Some a)
        \<and> (\<exists>b. B (dget host ''enable_haproxy'') = Inr b \<and> (b \<longrightarrow> \<not> is_vip host a)))"

lemma vip_addresses_InrD:
  "vip_addresses B host = Inr vips \<Longrightarrow> \<exists>b. B (dget host ''enable_haproxy'') = Inr b
     \<and> (b \<longrightarrow> (\<forall>a. list_ex (py_eq a) vips \<longleftrightarrow> is_vip host a))"
  by (auto simp: vip_addresses_def is_vip_def split: sum.splits if_splits bool.splits)

lemma ipv6_address_InrD:
  assumes "ipv6_address B host entry = Inr a" "a \<noteq> PyNone"
  shows "address_of_entry B host ''ipv6'' entry a"
proof -
  obtain vips xs x ys where v: "vip_addresses B host = Inr vips" and xs: "val_iter entry = Inr xs"
    and ys: "global_ipv6_addresses vips xs = Inr (x # ys)" and a: "val_item x ''address'' = Inr a"
    using assms by (auto simp: ipv6_address_def split: sum.splits list.splits)
  obtain d b where d: "x \<in> set xs" "x = PyDict d" "map_of d ''scope'' = Some (PyStr ''global'')"
      "map_of d ''address'' = Some b" "\<not> list_ex (py_eq b) vips"
    using global_ipv6_In [OF ys, of x] by auto
  have "b = a" using a d by simp
  moreover have "entry = PyList xs" using xs d(1,2) by (cases entry) auto
  ultimately show ?thesis using d vip_addresses_InrD [OF v] by (auto simp: address_of_entry_def)
qed

lemma interface_address_InrD:
  assumes "interface_address B host name family = Inr a" "family \<in> {''ipv4'', ''ipv6''}"
  shows "\<exists>entry. af_entry host name family = Some entry \<and> address_of_entry B host family entry a \<and> a \<noteq> PyNone"
proof -
  obtain facts where facts: "map_of host ''ansible_facts'' = Some (PyDict facts)"
    using assms(1) by (auto simp: interface_address_def elim!: val_get_InrE split: option.splits sum.splits)
  let ?i = "dget facts (replace_char (CHR ''-'') (CHR ''_'') name)"
  obtain interface where i: "?i = PyDict interface"
    using assms(1) facts by (auto simp: interface_address_def elim!: val_get_InrE split: sum.splits if_splits)
  have "dget interface family \<noteq> PyNone" using assms(1) facts i by (auto simp: interface_address_def split: if_splits)
  then obtain e where e: "map_of interface family = Some e" by (auto simp: dget_def split: option.splits)
  then have d: "dget interface family = e" by simp
  have a: "a \<noteq> PyNone" "(if family = ''ipv4'' then val_get e ''address'' else ipv6_address B host e) = Inr a"
    using assms(1) facts i d by (auto simp: interface_address_def simp del: dget_Some split: sum.splits if_splits)
  have "address_of_entry B host family e a"
  proof (cases "family = ''ipv4''")
    case True
    then obtain d where "e = PyDict d" "dget d ''address'' = a" using a by (cases e) auto
    then show ?thesis using True a(1) by (auto simp: address_of_entry_def dget_def split: option.splits)
  next
    case False
    then show ?thesis using a assms(2) ipv6_address_InrD [of B host e a] by auto
  qed
  then show ?thesis using facts i e a(1) by (auto simp: af_entry_def)
qed

text \<open>
  C26. Without an override, an answer is an address of the network's interface in the facts of the
  host, in the family the network asks for; with HAProxy enabled, an IPv6 answer is never one of
  the virtual addresses.
\<close>

theorem address_from_facts:
  assumes "kolla_address B C network hostname None = Inr a"
  shows "\<exists>host name family entry. host_of_context C hostname = Inr host
    \<and> dget host (network @ ''_interface'') = PyStr name
    \<and> dget host (network @ ''_address_family'') = PyStr family \<and> py_lower family \<in> {''ipv4'', ''ipv6''}
    \<and> af_entry host name (py_lower family) = Some entry
    \<and> address_of_entry B host (py_lower family) entry a \<and> a \<noteq> PyNone"
proof -
  obtain host where host: "host_of_context C hostname = Inr host" "network_address B host network = Inr a"
    using assms by (auto simp: kolla_address_def override_address_def split: sum.splits)
  then obtain name family where n: "dget host (network @ ''_interface'') = PyStr name"
      "dget host (network @ ''_address_family'') = PyStr family" "py_lower family \<in> {''ipv4'', ''ipv6''}"
      "interface_address B host name (py_lower family) = Inr a"
    by (auto simp: network_address_def split: pyval.splits if_splits)
  then show ?thesis using host(1) interface_address_InrD [OF n(4,3)] by blast
qed

section \<open>A concrete host\<close>

definition demo_bool :: bool_filter where
  "demo_bool v = (case v of PyBool b \<Rightarrow> Inr b | _ \<Rightarrow> Inl TypeError)"

definition demo_entry :: pyval where
  "demo_entry = PyList
     [PyDict [(''address'', PyStr ''fd00::ff''), (''scope'', PyStr ''global'')],
      PyDict [(''address'', PyStr ''fe80::5''), (''scope'', PyStr ''link'')],
      PyDict [(''address'', PyStr ''fd00::5''), (''scope'', PyStr ''global'')]]"

definition demo_host :: pyobj where
  "demo_host =
     [(''api_interface'', PyStr ''br-ex''), (''api_address_family'', PyStr ''IPv6''),
      (''enable_haproxy'', PyBool True), (''kolla_internal_vip_address'', PyStr ''fd00::ff''),
      (''api_ip'', PyStr ''192.0.2.7''),
      (''ansible_facts'', PyDict [(''br_ex'', PyDict [(''ipv6'', demo_entry)])])]"

definition demo_jinja :: jinja_context where
  "demo_jinja = \<lparr>cx_inventory_hostname = Some (PyStr ''ctl1''),
     cx_hostvars = Some (\<lambda>h. if h = PyStr ''ctl1'' then Some demo_host else None)\<rparr>"

lemma demo_host_of: "host_of_context demo_jinja None = Inr demo_host"
  by (simp add: host_of_context_def demo_jinja_def)

lemma demo_lower: "py_lower ''IPv6'' = ''ipv6''"
  by (simp add: py_lower_def lower_char_def char_of_def bit_iff_odd)

lemma demo_address: "kolla_address demo_bool demo_jinja ''api'' None None = Inr (PyStr ''fd00::5'')"
  by (simp add: kolla_address_def demo_host_of override_address_def network_address_def interface_address_def
      ipv6_address_def vip_addresses_def demo_host_def demo_entry_def dget_def demo_bool_def demo_lower replace_char_def)

theorem address_from_facts_witness:
  "\<exists>entry. af_entry demo_host ''br-ex'' ''ipv6'' = Some entry
    \<and> address_of_entry demo_bool demo_host ''ipv6'' entry (PyStr ''fd00::5'') \<and> \<not> is_vip demo_host (PyStr ''fd00::5'')"
proof -
  have B: "demo_bool (dget demo_host ''enable_haproxy'') = Inr True" by (simp add: demo_bool_def demo_host_def)
  have host: "dget demo_host ''api_interface'' = PyStr ''br-ex''" "dget demo_host ''api_address_family'' = PyStr ''IPv6''"
    by (simp_all add: demo_host_def)
  show ?thesis
    using address_from_facts [OF demo_address] B
    by (auto simp: demo_host_of host demo_lower address_of_entry_def [of _ _ "''ipv6''"])
qed

theorem override_canonical_witness:
  "\<exists>ip. wf_ip ip \<and> ip_of_val (PyStr ''192.0.2.7'') = Inr ip \<and> ''192.0.2.7'' = ip_str ip"
proof -
  have n: "str_of_nat 192 = ''192''" "str_of_nat 0 = ''0''" "str_of_nat 2 = ''2''" "str_of_nat 7 = ''7''"
    by (simp_all add: str_of_nat.simps digit_char_def char_of_def bit_iff_odd)
  have "ip_str (V4 [192, 0, 2, 7]) = ''192.0.2.7''"
    by (simp only: ip_str.simps list.map join_with.simps n) simp
  moreover have "ip_address (ip_str (V4 [192, 0, 2, 7])) = Inr (V4 [192, 0, 2, 7])" by (rule ip_address_str) simp
  ultimately have ip: "ip_address ''192.0.2.7'' = Inr (V4 [192, 0, 2, 7])" "ip_str (V4 [192, 0, 2, 7]) = ''192.0.2.7''"
    by simp_all
  have v: "map_of demo_host ''api_ip'' = Some (PyStr ''192.0.2.7'')" by (simp add: demo_host_def)
  have "kolla_address demo_bool demo_jinja ''api'' None (Some ''api_ip'') = Inr (PyStr ''192.0.2.7'')"
    unfolding kolla_address_def demo_host_of override_address_def by (simp add: v ip del: ip_str.simps)
  from override_canonical [OF this demo_host_of v] show ?thesis by (auto simp del: ip_str.simps)
qed

end
