(* ===== verification/RepoChecks.thy ===== *)
theory RepoChecks
  imports Addresses Paths
begin

text \<open>
  The checks of the repository, \<open>tools/validate-all-file.py\<close>: every text file ends with a newline,
  every JSON template renders to JSON, and every task that uses a container module becomes root.
  The tree is walked as \<open>os.walk\<close> does, without following links; a file holds its text, or the
  error of reading it.  Jinja2, JSON and YAML are parameters.
\<close>

section \<open>The tree\<close>

datatype 'c dir = Dir "(string \<times> 'c) list" "(string \<times> 'c dir) list"

type_synonym 'c entry = "string \<times> string \<times> 'c"

text \<open>The root, the name and the content of every file, with the directories that match pruned.\<close>

fun walk :: "(string \<Rightarrow> bool) \<Rightarrow> string \<Rightarrow> 'c dir \<Rightarrow> 'c entry list" where
  "walk excluded root (Dir files dirs) =
     map (\<lambda>(name, c). (root, name, c)) files
     @ concat (map (\<lambda>(name, d). if excluded name then [] else walk excluded (path_join root name) d) dirs)"

text \<open>\<open>fnmatch\<close> patterns of stars, question marks and plain characters, matched against the whole name.\<close>

fun glob :: "string \<Rightarrow> string \<Rightarrow> bool" where
  "glob [] s = (s = [])"
| "glob (c # p) [] = (c = CHR ''*'' \<and> glob p [])"
| "glob (c # p) (x # s) =
     (if c = CHR ''*'' then glob p (x # s) \<or> glob (c # p) s
      else (c = CHR ''?'' \<or> c = x) \<and> glob p s)"

definition matches :: "string list \<Rightarrow> string \<Rightarrow> bool" where
  "matches patterns name = list_ex (\<lambda>p. glob p name) patterns"

definition NEWLINE_EOF_INCLUDE_PATTERNS :: "string list" where
  "NEWLINE_EOF_INCLUDE_PATTERNS = [''*.j2'', ''*.yml'', ''*.py'', ''*.sh'']"

definition NEWLINE_EOF_EXCLUDE_PATTERNS :: "string list" where
  "NEWLINE_EOF_EXCLUDE_PATTERNS = [''.tox'', ''.testrepository'', ''.git'']"

definition JSON_J2_INCLUDE_PATTERNS :: "string list" where
  "JSON_J2_INCLUDE_PATTERNS = [''*.json.j2'', ''*.json'']"

definition JSON_J2_EXCLUDE_PATTERNS :: "string list" where
  "JSON_J2_EXCLUDE_PATTERNS = [''.tox'', ''.testrepository'', ''.git'']"

definition YAML_INCLUDE_PATTERNS :: "string list" where
  "YAML_INCLUDE_PATTERNS = [''*.yml'']"

definition YAML_EXCLUDE_PATTERNS :: "string list" where
  "YAML_EXCLUDE_PATTERNS = [''.tox'', ''.testrepository'', ''.git'', ''defaults'', ''templates'', ''vars'']"

definition KOLLA_NETWORKS :: "string list" where
  "KOLLA_NETWORKS = [''api'', ''storage'', ''migration'', ''tunnel'', ''octavia_network'', ''bifrost_network'', ''dns'']"

section \<open>Checks over the files\<close>

text \<open>What is logged: a file without a newline, a template in error, a task without become.\<close>

datatype lint_event =
    NoNewline string
  | FileError string
  | ModuleWithoutBecome string pyval string
  | EngineWithoutBecome string pyval string

type_synonym 'a lint = "(lint_event list, 'a) io"

definition log_error :: "lint_event \<Rightarrow> unit lint" where
  "log_error e = modify_io (\<lambda>l. l @ [e])"

definition complain :: "lint_event \<Rightarrow> bool lint" where
  "complain e = bnd (log_error e) (\<lambda>_. return_io True)"

text \<open>The disjunction of all checks; none is skipped.\<close>

fun any_bad :: "bool lint list \<Rightarrow> bool lint" where
  "any_bad [] = return_io False"
| "any_bad (m # ms) = bnd m (\<lambda>b. bnd (any_bad ms) (\<lambda>c. return_io (b \<or> c)))"

text \<open>The return code of a check of every selected file.\<close>

definition selected :: "string list \<Rightarrow> string list \<Rightarrow> string \<Rightarrow> 'c dir \<Rightarrow> 'c entry list" where
  "selected includes excludes root tree =
     filter (\<lambda>(r, name, c). \<not> matches excludes name \<and> matches includes name) (walk (matches excludes) root tree)"

definition check_files :: "('c entry \<Rightarrow> bool lint) \<Rightarrow> 'c entry list \<Rightarrow> int lint" where
  "check_files check es = bnd (any_bad (map check es)) (\<lambda>bad. return_io (if bad then 1 else 0))"

section \<open>Newlines\<close>

type_synonym text_tree = "(pyexn + string) dir"

definition has_newline_eof :: "string \<Rightarrow> bool" where
  "has_newline_eof data \<longleftrightarrow> data = [] \<or> last data = CHR 0x0A"

fun newline_bad :: "(pyexn + string) entry \<Rightarrow> bool lint" where
  "newline_bad (root, name, content) =
     bnd (lift_sum content) (\<lambda>data.
     if has_newline_eof data then return_io False else complain (NoNewline (path_join root name)))"

definition check_newline_eof :: "string \<Rightarrow> text_tree \<Rightarrow> int lint" where
  "check_newline_eof project_root tree =
     check_files newline_bad (selected NEWLINE_EOF_INCLUDE_PATTERNS NEWLINE_EOF_EXCLUDE_PATTERNS project_root tree)"

section \<open>JSON templates\<close>

text \<open>The mocks: any host variable is a mapping of the same kind, and any group is empty.\<close>

datatype template_value = Hostvars | Groups | Plain pyval

fun mock_item :: "template_value \<Rightarrow> string \<Rightarrow> pyexn + template_value" where
  "mock_item Hostvars key = Inr Hostvars"
| "mock_item Groups key = Inr (Plain (PyList []))"
| "mock_item (Plain v) key = (case val_item v key of Inl e \<Rightarrow> Inl e | Inr w \<Rightarrow> Inr (Plain w))"

definition mock_context :: "(string \<times> template_value) list" where
  "mock_context =
     [(''hostvars'', Hostvars), (''groups'', Groups), (''inventory_hostname'', Plain (PyStr ''hostname'')),
      (''api_interface_address'', Plain (PyStr [])), (''kolla_internal_fqdn'', Plain (PyStr [])),
      (''octavia_provider_drivers'', Plain (PyStr [])),
      (''ovn_sb_db_relay_active_inactivity_probe'', Plain (PyInt 120000)),
      (''ovn_sb_db_relay_passive_inactivity_probe'', Plain (PyInt 60000)),
      (''ovn_sb_db_relay_max_backoff'', Plain (PyInt 60000)), (''rabbitmq_ha_replica_count'', Plain (PyInt 2)),
      (''rabbitmq_message_ttl_ms'', Plain (PyInt 600000)), (''rabbitmq_queue_expiry_ms'', Plain (PyInt 3600000))]"

definition bool_filter :: "pyval \<Rightarrow> bool" where
  "bool_filter v = True"

definition basename_filter :: "string \<Rightarrow> string" where
  "basename_filter text = last (py_split (CHR 0x5C) text)"

definition kolla_address_filter_mock :: "string \<Rightarrow> pyexn + string" where
  "kolla_address_filter_mock network_name = (if network_name \<notin> set KOLLA_NETWORKS then Inl ValueError else Inr ''127.0.0.1'')"

record jinja_filters =
  jf_bool :: "pyval \<Rightarrow> bool"
  jf_basename :: "string \<Rightarrow> string"
  jf_kolla_address :: "string \<Rightarrow> pyexn + string"
  jf_put_address :: "string \<Rightarrow> string \<Rightarrow> pyexn + string"

definition mock_filters :: jinja_filters where
  "mock_filters = \<lparr>jf_bool = bool_filter, jf_basename = basename_filter,
     jf_kolla_address = kolla_address_filter_mock, jf_put_address = put_address_in_context\<rparr>"

record template_lib =
  tl_render :: "jinja_filters \<Rightarrow> (string \<times> template_value) list \<Rightarrow> string \<Rightarrow> string \<Rightarrow> pyexn + string"
  tl_json :: "string \<Rightarrow> pyexn + pyval"
  tl_yaml :: "string \<Rightarrow> pyexn + pyval"
  tl_template_error :: "pyexn \<Rightarrow> bool"

definition validate_json_j2 :: "template_lib \<Rightarrow> string \<Rightarrow> string \<Rightarrow> pyexn + unit" where
  "validate_json_j2 L root name =
     (case tl_render L mock_filters mock_context root name of
        Inl e \<Rightarrow> Inl e
      | Inr data \<Rightarrow> (case tl_json L data of Inl e \<Rightarrow> Inl e | Inr _ \<Rightarrow> Inr ()))"

fun json_bad :: "template_lib \<Rightarrow> (pyexn + string) entry \<Rightarrow> bool lint" where
  "json_bad L (root, name, content) =
     catch_io (bnd (lift_sum (validate_json_j2 L root name)) (\<lambda>_. return_io False))
       (\<lambda>e. e = ValueError \<or> tl_template_error L e) (\<lambda>_. complain (FileError (path_join root name)))"

definition check_json_j2 :: "template_lib \<Rightarrow> string \<Rightarrow> text_tree \<Rightarrow> int lint" where
  "check_json_j2 L project_root tree =
     check_files (json_bad L) (selected JSON_J2_INCLUDE_PATTERNS JSON_J2_EXCLUDE_PATTERNS project_root tree)"

section \<open>Tasks\<close>

definition CE_MODULES :: "string list" where
  "CE_MODULES = [''kolla_container'', ''kolla_container_facts'', ''kolla_toolbox'']"

definition CMD_MODULES :: "string list" where
  "CMD_MODULES = [''command'', ''shell'']"

text \<open>\<open>word in v\<close>.\<close>

fun val_in :: "string \<Rightarrow> pyval \<Rightarrow> pyexn + bool" where
  "val_in word (PyDict d) = Inr (in_dict word d)"
| "val_in word (PyList vs) = Inr (list_ex (\<lambda>v. v = PyStr word) vs)"
| "val_in word (PyStr s) = Inr (sublist word s)"
| "val_in word _ = Inl TypeError"

text \<open>\<open>v.startswith('docker') or v.startswith('podman')\<close>.\<close>

fun calls_engine :: "pyval \<Rightarrow> pyexn + bool" where
  "calls_engine (PyStr s) = Inr (prefix ''docker'' s \<or> prefix ''podman'' s)"
| "calls_engine _ = Inl AttributeError"

text \<open>What runs when the block does not become either; a task outside a block has the empty string for one.\<close>

definition unless_block_becomes :: "pyval \<Rightarrow> pyval \<Rightarrow> (pyval \<Rightarrow> lint_event) \<Rightarrow> bool lint" where
  "unless_block_becomes block task event =
     bnd (lift_sum (val_get block ''become'')) (\<lambda>become.
     if truthy become then return_io False
     else bnd (lift_sum (val_item task ''name'')) (\<lambda>name. complain (event name)))"

text \<open>\<open>module in task and not task.get('become')\<close>, then the rest.\<close>

definition used_without_become :: "string \<Rightarrow> pyval \<Rightarrow> bool lint \<Rightarrow> bool lint" where
  "used_without_become module task rest =
     bnd (lift_sum (val_in module task)) (\<lambda>used.
     if \<not> used then return_io False
     else bnd (lift_sum (val_get task ''become'')) (\<lambda>become. if truthy become then return_io False else rest))"

definition ce_bad :: "string \<Rightarrow> pyval \<Rightarrow> pyval \<Rightarrow> string \<Rightarrow> bool lint" where
  "ce_bad fullpath task block module =
     used_without_become module task
       (unless_block_becomes block task (\<lambda>name. ModuleWithoutBecome module name fullpath))"

definition cmd_bad :: "string \<Rightarrow> pyval \<Rightarrow> pyval \<Rightarrow> string \<Rightarrow> bool lint" where
  "cmd_bad fullpath task block module =
     used_without_become module task
       (bnd (lift_sum (val_item task module)) (\<lambda>v.
        bnd (lift_sum (case v of
               PyStr _ \<Rightarrow> calls_engine v
             | PyDict _ \<Rightarrow> (case val_item v ''cmd'' of Inl e \<Rightarrow> Inl e | Inr cmd \<Rightarrow> calls_engine cmd)
             | _ \<Rightarrow> Inr False)) (\<lambda>engine.
        if engine then unless_block_becomes block task (\<lambda>name. EngineWithoutBecome module name fullpath)
        else return_io False)))"

definition check_container_become :: "string \<Rightarrow> pyval \<Rightarrow> pyval \<Rightarrow> bool lint" where
  "check_container_become fullpath task block =
     any_bad (map (ce_bad fullpath task block) CE_MODULES @ map (cmd_bad fullpath task block) CMD_MODULES)"

definition task_bad :: "string \<Rightarrow> pyval \<Rightarrow> bool lint" where
  "task_bad fullpath task =
     bnd (lift_sum (val_get task ''block'')) (\<lambda>block.
     if truthy block then
       bnd (lift_sum (val_iter block)) (\<lambda>inner. any_bad (map (\<lambda>t. check_container_become fullpath t task) inner))
     else check_container_become fullpath task (PyStr []))"

fun tasks_bad :: "template_lib \<Rightarrow> (pyexn + string) entry \<Rightarrow> bool lint" where
  "tasks_bad L (root, name, content) =
     bnd (lift_sum content) (\<lambda>text.
     bnd (lift_sum (tl_yaml L text)) (\<lambda>tasks.
     bnd (lift_sum (val_iter (if truthy tasks then tasks else PyList []))) (\<lambda>ts.
     any_bad (map (task_bad (path_join root name)) ts))))"

text \<open>The files under \<open>ansible/roles\<close>; a directory that is not there has none.\<close>

definition subdir :: "string \<Rightarrow> 'c dir \<Rightarrow> 'c dir" where
  "subdir name d = (case d of Dir files dirs \<Rightarrow> (case map_of dirs name of None \<Rightarrow> Dir [] [] | Some e \<Rightarrow> e))"

definition role_files :: "string \<Rightarrow> text_tree \<Rightarrow> (pyexn + string) entry list" where
  "role_files project_root tree =
     selected YAML_INCLUDE_PATTERNS YAML_EXCLUDE_PATTERNS
       (path_join (path_join project_root ''ansible'') ''roles'') (subdir ''roles'' (subdir ''ansible'' tree))"

definition check_task_contents :: "template_lib \<Rightarrow> string \<Rightarrow> text_tree \<Rightarrow> int lint" where
  "check_task_contents L project_root tree = check_files (tasks_bad L) (role_files project_root tree)"

text \<open>The status of the program.\<close>

definition validate_all :: "template_lib \<Rightarrow> string \<Rightarrow> text_tree \<Rightarrow> int lint" where
  "validate_all L project_root tree =
     bnd (check_newline_eof project_root tree) (\<lambda>a.
     bnd (check_json_j2 L project_root tree) (\<lambda>b.
     bnd (check_task_contents L project_root tree) (\<lambda>c. return_io (a + b + c))))"

text \<open>
  \<open>tools/validate-yaml.py\<close> on the files of its command line, each with its content or the error of
  opening it.
\<close>

definition yaml_bad :: "template_lib \<Rightarrow> (pyexn \<Rightarrow> bool) \<Rightarrow> string \<times> (pyexn + string) \<Rightarrow> bool lint" where
  "yaml_bad L yaml_error file =
     bnd (lift_sum (snd file)) (\<lambda>text.
     catch_io (bnd (lift_sum (tl_yaml L text)) (\<lambda>_. return_io False)) yaml_error
       (\<lambda>_. complain (FileError (fst file))))"

definition validate_yaml :: "template_lib \<Rightarrow> (pyexn \<Rightarrow> bool) \<Rightarrow> (string \<times> (pyexn + string)) list \<Rightarrow> int lint" where
  "validate_yaml L yaml_error files =
     bnd (any_bad (map (yaml_bad L yaml_error) files)) (\<lambda>bad. return_io (if bad then 1 else 0))"

section \<open>The walk\<close>

text \<open>A file lies in a tree behind a path of directories.\<close>

inductive lies_in :: "string list \<Rightarrow> string \<Rightarrow> 'c \<Rightarrow> 'c dir \<Rightarrow> bool" where
  here: "(name, c) \<in> set files \<Longrightarrow> lies_in [] name c (Dir files dirs)"
| below: "(d, t) \<in> set dirs \<Longrightarrow> lies_in ds name c t \<Longrightarrow> lies_in (d # ds) name c (Dir files dirs)"

inductive_cases lies_inE: "lies_in ds name c (Dir files dirs)"

lemma walk_here: "(name, c) \<in> set files \<Longrightarrow> (root, name, c) \<in> set (walk excluded root (Dir files dirs))"
  unfolding walk.simps set_append by (rule UnI1) force

lemma walk_below:
  "(d, t) \<in> set dirs \<Longrightarrow> \<not> excluded d \<Longrightarrow> x \<in> set (walk excluded (path_join root d) t) \<Longrightarrow>
     x \<in> set (walk excluded root (Dir files dirs))"
  unfolding walk.simps set_append by (rule UnI2) (auto intro: rev_bexI)

lemma walk_iff:
  "(r, name, c) \<in> set (walk excluded root t) \<longleftrightarrow>
     (\<exists>ds. lies_in ds name c t \<and> list_all (\<lambda>d. \<not> excluded d) ds \<and> r = foldl path_join root ds)"
proof (induction excluded root t arbitrary: r rule: walk.induct)
  case (1 excluded root files dirs)
  note IH = "1.IH" [OF _ refl]
  show ?case (is "?walked \<longleftrightarrow> ?lies")
  proof
    assume ?walked
    then consider "(name, c) \<in> set files" "r = root"
      | d t where "(d, t) \<in> set dirs" "\<not> excluded d" "(r, name, c) \<in> set (walk excluded (path_join root d) t)"
      by (auto split: if_splits)
    then show ?lies
    proof cases
      case 1
      then show ?thesis by (intro exI [of _ "[]"]) (auto intro: here)
    next
      case 2
      with IH [OF 2(1,2)] obtain ds where "lies_in ds name c t" "list_all (\<lambda>d. \<not> excluded d) ds"
          "r = foldl path_join (path_join root d) ds" by auto
      with 2 show ?thesis by (intro exI [of _ "d # ds"]) (auto intro: below)
    qed
  next
    assume ?lies
    then obtain ds where ds: "lies_in ds name c (Dir files dirs)" "list_all (\<lambda>d. \<not> excluded d) ds"
        "r = foldl path_join root ds" by blast
    from ds(1) show ?walked
    proof (rule lies_inE)
      assume "ds = []" "(name, c) \<in> set files"
      then show ?thesis using ds(3) by (simp only: foldl.simps walk_here)
    next
      fix d t ds'
      assume below: "ds = d # ds'" "(d, t) \<in> set dirs" "lies_in ds' name c t"
      then have "\<not> excluded d" "list_all (\<lambda>d. \<not> excluded d) ds'" "r = foldl path_join (path_join root d) ds'"
        using ds(2,3) by simp_all
      then have "(r, name, c) \<in> set (walk excluded (path_join root d) t)" using IH [OF below(2)] below(3) by blast
      with below(2) \<open>\<not> excluded d\<close> show ?thesis by (intro walk_below)
    qed
  qed
qed

section \<open>What a check says\<close>

text \<open>A run of all checks that returns ran each of them; if it says no, so did each.\<close>

lemma any_bad_ran:
  "any_bad ms l = (Inr b, l') \<Longrightarrow> m \<in> set ms \<Longrightarrow> \<exists>l1 l2 c. m l1 = (Inr c, l2) \<and> (c \<longrightarrow> b)"
proof (induction ms arbitrary: l b)
  case (Cons n ms)
  from Cons.prems(1) obtain c1 l1 c2 where "n l = (Inr c1, l1)" "any_bad ms l1 = (Inr c2, l')" "b = (c1 \<or> c2)"
    by (auto simp: return_run elim!: bnd_InrD)
  with Cons show ?case by (metis set_ConsD)
qed simp

lemma any_bad_False: "any_bad ms l = (Inr False, l') \<Longrightarrow> m \<in> set ms \<Longrightarrow> \<exists>l1 l2. m l1 = (Inr False, l2)"
  using any_bad_ran by fastforce

lemma check_files_code:
  "check_files check es l = (Inr n, l') \<Longrightarrow> \<exists>b. any_bad (map check es) l = (Inr b, l') \<and> n = (if b then 1 else 0)"
  unfolding check_files_def by (elim bnd_InrD) (auto simp: return_run)

lemma passed_all:
  assumes "validate_all L root tree l = (Inr 0, l')"
  shows "\<exists>l1 l2. check_newline_eof root tree l = (Inr 0, l1) \<and> check_json_j2 L root tree l1 = (Inr 0, l2)
    \<and> check_task_contents L root tree l2 = (Inr 0, l')"
proof -
  obtain a l1 b l2 c where run: "check_newline_eof root tree l = (Inr a, l1)"
      "check_json_j2 L root tree l1 = (Inr b, l2)" "check_task_contents L root tree l2 = (Inr c, l')" "a + b + c = 0"
    using assms unfolding validate_all_def by (elim bnd_InrD) (simp add: return_run)
  then have "a \<ge> 0" "b \<ge> 0" "c \<ge> 0"
    by (auto simp: check_newline_eof_def check_json_j2_def check_task_contents_def dest!: check_files_code)
  with run show ?thesis by auto
qed

subsection \<open>Newlines\<close>

lemma newline_run:
  assumes "list_all (\<lambda>(r, name, c). \<not> isl c) es"
  shows "any_bad (map newline_bad es) l =
    (Inr (list_ex (\<lambda>(r, name, c). \<not> has_newline_eof (projr c)) es),
     l @ map (\<lambda>(r, name, c). NoNewline (path_join r name)) (filter (\<lambda>(r, name, c). \<not> has_newline_eof (projr c)) es))"
  using assms
proof (induction es arbitrary: l)
  case (Cons e es)
  obtain r name data where e: "e = (r, name, Inr data)"
    using Cons.prems by (cases e; cases "snd (snd e)") auto
  with Cons show ?case
    by (simp add: bnd_run lift_sum_def return_run complain_def log_error_def modify_run)
qed (simp add: return_run)

subsection \<open>Tasks\<close>

definition becomes :: "pyval \<Rightarrow> bool" where
  "becomes v \<longleftrightarrow> (case val_get v ''become'' of Inl _ \<Rightarrow> False | Inr b \<Rightarrow> truthy b)"

text \<open>The tasks the check looks at, each with its block; the empty string where there is none.\<close>

definition looked_at :: "pyval \<Rightarrow> (pyval \<times> pyval) list" where
  "looked_at task =
     (case val_get task ''block'' of
        Inl _ \<Rightarrow> []
      | Inr block \<Rightarrow>
          if truthy block then (case val_iter block of Inl _ \<Rightarrow> [] | Inr inner \<Rightarrow> map (\<lambda>t. (t, task)) inner)
          else [(task, PyStr [])])"

text \<open>A container module, or the command line of an engine.\<close>

definition engine_line :: "pyval \<Rightarrow> bool" where
  "engine_line v \<longleftrightarrow>
     (case v of
        PyStr s \<Rightarrow> prefix ''docker'' s \<or> prefix ''podman'' s
      | PyDict d \<Rightarrow> (case dget d ''cmd'' of PyStr s \<Rightarrow> prefix ''docker'' s \<or> prefix ''podman'' s | _ \<Rightarrow> False)
      | _ \<Rightarrow> False)"

definition needs_root :: "pyval \<Rightarrow> bool" where
  "needs_root task \<longleftrightarrow>
     (\<exists>m \<in> set CE_MODULES. val_in m task = Inr True)
     \<or> (\<exists>m \<in> set CMD_MODULES. val_in m task = Inr True \<and> (\<exists>v. val_item task m = Inr v \<and> engine_line v))"

lemma used_without_become_False:
  assumes "used_without_become module task rest l = (Inr False, l')" and "val_in module task = Inr True" and "\<not> becomes task"
  shows "\<exists>l1. rest l1 = (Inr False, l')"
  using assms unfolding used_without_become_def becomes_def
  by (auto simp: lift_sum_def return_run raise_run bnd_run split: sum.splits if_splits prod.splits)

lemma unless_block_becomes_False:
  "unless_block_becomes block task event l = (Inr False, l') \<Longrightarrow> becomes block"
  unfolding unless_block_becomes_def becomes_def complain_def log_error_def
  by (auto simp: lift_sum_def return_run raise_run bnd_run modify_run split: sum.splits if_splits prod.splits)

lemma check_container_become_False:
  assumes "check_container_become path task block l = (Inr False, l')" and "needs_root task"
  shows "becomes task \<or> becomes block"
proof (rule ccontr)
  assume not: "\<not> ?thesis"
  note ran = any_bad_False [OF assms(1) [unfolded check_container_become_def]]
  from assms(2) consider m where "m \<in> set CE_MODULES" "val_in m task = Inr True"
    | m v where "m \<in> set CMD_MODULES" "val_in m task = Inr True" "val_item task m = Inr v" "engine_line v"
    by (auto simp: needs_root_def)
  then show False
  proof cases
    case 1
    then obtain l1 l2 where "ce_bad path task block m l1 = (Inr False, l2)"
      using ran [of "ce_bad path task block m"] by auto
    with used_without_become_False [OF _ 1(2)] not show False
      unfolding ce_bad_def using unless_block_becomes_False by blast
  next
    case 2
    then obtain l1 l2 where "cmd_bad path task block m l1 = (Inr False, l2)"
      using ran [of "cmd_bad path task block m"] by auto
    with used_without_become_False [OF _ 2(2)] not obtain l3 where
      rest: "bnd (lift_sum (val_item task m)) (\<lambda>v.
        bnd (lift_sum (case v of
               PyStr _ \<Rightarrow> calls_engine v
             | PyDict _ \<Rightarrow> (case val_item v ''cmd'' of Inl e \<Rightarrow> Inl e | Inr cmd \<Rightarrow> calls_engine cmd)
             | _ \<Rightarrow> Inr False)) (\<lambda>engine.
        if engine then unless_block_becomes block task (\<lambda>name. EngineWithoutBecome m name path)
        else return_io False)) l3 = (Inr False, l2)"
      unfolding cmd_bad_def by blast
    from 2(4) have "(case v of PyStr _ \<Rightarrow> calls_engine v
             | PyDict _ \<Rightarrow> (case val_item v ''cmd'' of Inl e \<Rightarrow> Inl e | Inr cmd \<Rightarrow> calls_engine cmd)
             | _ \<Rightarrow> Inr False) = Inr True"
      by (auto simp: engine_line_def dget_def split: pyval.splits option.splits)
    with rest 2(3) have "unless_block_becomes block task (\<lambda>name. EngineWithoutBecome m name path) l3 = (Inr False, l2)"
      by (simp add: lift_sum_def)
    then show False using unless_block_becomes_False not by blast
  qed
qed

lemma task_bad_False:
  assumes "task_bad path t l = (Inr False, l')" and "(u, b) \<in> set (looked_at t)"
  shows "\<exists>l1 l2. check_container_become path u b l1 = (Inr False, l2)"
proof -
  obtain block where block: "val_get t ''block'' = Inr block"
    using assms(2) by (cases "val_get t ''block''") (auto simp: looked_at_def)
  show ?thesis
  proof (cases "truthy block")
    case True
    with assms(2) block obtain inner where inner: "val_iter block = Inr inner" "u \<in> set inner" "b = t"
      by (cases "val_iter block") (auto simp: looked_at_def)
    with assms(1) block True have "any_bad (map (\<lambda>t'. check_container_become path t' t) inner) l = (Inr False, l')"
      by (simp add: task_bad_def lift_sum_def)
    from any_bad_False [OF this] inner(2,3) show ?thesis by auto
  next
    case False
    with assms block show ?thesis by (auto simp: task_bad_def lift_sum_def looked_at_def)
  qed
qed

lemma tasks_bad_False:
  assumes "tasks_bad L (r, name, Inr text) l = (Inr False, l')" and "tl_yaml L text = Inr tasks"
    and "val_iter tasks = Inr ts" and "t \<in> set ts"
  shows "\<exists>l1 l2. task_bad (path_join r name) t l1 = (Inr False, l2)"
proof -
  have "tasks \<noteq> PyDict []" "tasks \<noteq> PyList []" "tasks \<noteq> PyStr []" using assms(3,4) by auto
  with assms(3) have "truthy tasks" by (cases tasks) auto
  with assms have "any_bad (map (task_bad (path_join r name)) ts) l = (Inr False, l')"
    by (simp add: lift_sum_def)
  from any_bad_False [OF this] assms(4) show ?thesis by auto
qed

text \<open>And the other way round: what a check that says yes has found.\<close>

lemma any_bad_True: "any_bad ms l = (Inr True, l') \<Longrightarrow> \<exists>m \<in> set ms. \<exists>l1 l2. m l1 = (Inr True, l2)"
proof (induction ms arbitrary: l)
  case (Cons m ms)
  from Cons.prems obtain b l1 c where run: "m l = (Inr b, l1)" "any_bad ms l1 = (Inr c, l')" "b \<or> c"
    by (auto simp: return_run elim!: bnd_InrD)
  then show ?case using Cons.IH [of l1] by (cases b) auto
qed (simp add: return_run)

lemma used_without_become_True:
  assumes "used_without_become module task rest l = (Inr True, l')"
  shows "val_in module task = Inr True \<and> \<not> becomes task \<and> (\<exists>l1. rest l1 = (Inr True, l'))"
  using assms unfolding used_without_become_def becomes_def
  by (auto simp: lift_sum_def return_run raise_run bnd_run split: sum.splits if_splits prod.splits)

lemma unless_block_becomes_True:
  "unless_block_becomes block task event l = (Inr True, l') \<Longrightarrow> \<not> becomes block"
  unfolding unless_block_becomes_def becomes_def
  by (auto simp: lift_sum_def return_run raise_run bnd_run split: sum.splits if_splits prod.splits)

lemma check_container_become_True:
  assumes "check_container_become path task block l = (Inr True, l')"
  shows "needs_root task \<and> \<not> becomes task \<and> \<not> becomes block"
proof -
  from any_bad_True [OF assms [unfolded check_container_become_def]] consider
    m l1 l2 where "m \<in> set CE_MODULES" "ce_bad path task block m l1 = (Inr True, l2)"
  | m l1 l2 where "m \<in> set CMD_MODULES" "cmd_bad path task block m l1 = (Inr True, l2)" by auto
  then show ?thesis
  proof cases
    case 1
    from used_without_become_True [OF 1(2) [unfolded ce_bad_def]] unless_block_becomes_True 1(1) show ?thesis
      by (auto simp: needs_root_def)
  next
    case 2
    from used_without_become_True [OF 2(2) [unfolded cmd_bad_def]] obtain l3 where
      u: "val_in m task = Inr True" "\<not> becomes task"
      "bnd (lift_sum (val_item task m)) (\<lambda>v.
        bnd (lift_sum (case v of
               PyStr _ \<Rightarrow> calls_engine v
             | PyDict _ \<Rightarrow> (case val_item v ''cmd'' of Inl e \<Rightarrow> Inl e | Inr cmd \<Rightarrow> calls_engine cmd)
             | _ \<Rightarrow> Inr False)) (\<lambda>engine.
        if engine then unless_block_becomes block task (\<lambda>name. EngineWithoutBecome m name path)
        else return_io False)) l3 = (Inr True, l2)" by blast
    then obtain v l4 where v: "val_item task m = Inr v" "(case v of
               PyStr _ \<Rightarrow> calls_engine v
             | PyDict _ \<Rightarrow> (case val_item v ''cmd'' of Inl e \<Rightarrow> Inl e | Inr cmd \<Rightarrow> calls_engine cmd)
             | _ \<Rightarrow> Inr False) = Inr True"
      "unless_block_becomes block task (\<lambda>name. EngineWithoutBecome m name path) l4 = (Inr True, l2)"
      by (auto simp: lift_sum_def return_run raise_run elim!: bnd_InrD split: sum.splits if_splits)
    from v(2) have "engine_line v"
      by (auto simp: engine_line_def dget_def elim!: calls_engine.elims split: pyval.splits option.splits sum.splits)
    with u v(1) 2(1) unless_block_becomes_True [OF v(3)] show ?thesis by (auto simp: needs_root_def)
  qed
qed

lemma task_bad_True:
  assumes "task_bad path t l = (Inr True, l')"
  shows "\<exists>u b. (u, b) \<in> set (looked_at t) \<and> needs_root u \<and> \<not> becomes u \<and> \<not> becomes b"
proof -
  obtain block where block: "val_get t ''block'' = Inr block"
    using assms by (cases "val_get t ''block''") (auto simp: task_bad_def lift_sum_def bnd_run raise_run)
  show ?thesis
  proof (cases "truthy block")
    case True
    with assms block obtain inner where inner: "val_iter block = Inr inner"
      "any_bad (map (\<lambda>u. check_container_become path u t) inner) l = (Inr True, l')"
      by (cases "val_iter block") (auto simp: task_bad_def lift_sum_def raise_run return_run bnd_run)
    from any_bad_True [OF inner(2)] obtain u l1 l2 where "u \<in> set inner" "check_container_become path u t l1 = (Inr True, l2)"
      by auto
    moreover from this(1) have "(u, t) \<in> set (looked_at t)" using inner(1) True block by (simp add: looked_at_def)
    ultimately show ?thesis using check_container_become_True by blast
  next
    case False
    with assms block have "check_container_become path t (PyStr []) l = (Inr True, l')"
      by (simp add: task_bad_def lift_sum_def bnd_run return_run)
    moreover have "(t, PyStr []) \<in> set (looked_at t)" using False block by (simp add: looked_at_def)
    ultimately show ?thesis using check_container_become_True by blast
  qed
qed

text \<open>
  A task that the check looks at, with its block: it stands in a YAML file of the roles outside the
  directories \<open>defaults\<close>, \<open>templates\<close> and \<open>vars\<close>, at the top level or directly in the \<open>block\<close> of a
  task at the top level.
\<close>

definition role_task :: "template_lib \<Rightarrow> text_tree \<Rightarrow> pyval \<Rightarrow> pyval \<Rightarrow> bool" where
  "role_task L tree u b \<longleftrightarrow> (\<exists>ds name data tasks ts t.
     lies_in ds name (Inr data) (subdir ''roles'' (subdir ''ansible'' tree))
     \<and> list_all (\<lambda>d. \<not> matches YAML_EXCLUDE_PATTERNS d) (name # ds) \<and> matches YAML_INCLUDE_PATTERNS name
     \<and> tl_yaml L data = Inr tasks \<and> val_iter tasks = Inr ts \<and> t \<in> set ts \<and> (u, b) \<in> set (looked_at t))"

definition roles_root :: "string \<Rightarrow> string" where
  "roles_root root = path_join (path_join root ''ansible'') ''roles''"

lemma role_files_iff:
  "(r, name, c) \<in> set (role_files root tree) \<longleftrightarrow> (\<exists>ds. r = foldl path_join (roles_root root) ds
     \<and> lies_in ds name c (subdir ''roles'' (subdir ''ansible'' tree))
     \<and> list_all (\<lambda>d. \<not> matches YAML_EXCLUDE_PATTERNS d) (name # ds) \<and> matches YAML_INCLUDE_PATTERNS name)"
  by (auto simp: role_files_def selected_def walk_iff roles_root_def)

lemma tasks_bad_True:
  assumes "tasks_bad L (r, name, content) l = (Inr True, l')"
  shows "\<exists>data tasks ts t u b. content = Inr data \<and> tl_yaml L data = Inr tasks \<and> val_iter tasks = Inr ts \<and> t \<in> set ts
    \<and> (u, b) \<in> set (looked_at t) \<and> needs_root u \<and> \<not> becomes u \<and> \<not> becomes b"
proof -
  obtain data where c: "content = Inr data" using assms by (cases content) (auto simp: lift_sum_def bnd_run raise_run)
  obtain tasks where y: "tl_yaml L data = Inr tasks"
    using assms c by (cases "tl_yaml L data") (auto simp: lift_sum_def bnd_run raise_run return_run)
  obtain ts where ts: "val_iter (if truthy tasks then tasks else PyList []) = Inr ts"
    using assms c y by (cases "val_iter (if truthy tasks then tasks else PyList [])") (auto simp: lift_sum_def bnd_run raise_run return_run)
  have "any_bad (map (task_bad (path_join r name)) ts) l = (Inr True, l')"
    using assms c y ts by (simp add: lift_sum_def bnd_run return_run)
  from any_bad_True [OF this] obtain t l1 l2 where t: "t \<in> set ts" "task_bad (path_join r name) t l1 = (Inr True, l2)" by auto
  then have "truthy tasks" using ts by (auto split: if_splits)
  with ts have "val_iter tasks = Inr ts" by simp
  with c y t(1) task_bad_True [OF t(2)] show ?thesis by blast
qed

lemma role_files_checked:
  assumes run: "any_bad (map (tasks_bad L) (role_files root tree)) l = (Inr bad, l')"
  shows "bad \<longleftrightarrow> (\<exists>u b. role_task L tree u b \<and> needs_root u \<and> \<not> becomes u \<and> \<not> becomes b)"
proof
  assume bad
  with run have "any_bad (map (tasks_bad L) (role_files root tree)) l = (Inr True, l')" by simp
  from any_bad_True [OF this] obtain e l1 l2 where "e \<in> set (role_files root tree)" "tasks_bad L e l1 = (Inr True, l2)"
    by auto
  then obtain r name c where f: "(r, name, c) \<in> set (role_files root tree)" "tasks_bad L (r, name, c) l1 = (Inr True, l2)"
    by (metis prod.collapse)
  from tasks_bad_True [OF f(2)] f(1) show "\<exists>u b. role_task L tree u b \<and> needs_root u \<and> \<not> becomes u \<and> \<not> becomes b"
    unfolding role_files_iff role_task_def by blast
next
  assume "\<exists>u b. role_task L tree u b \<and> needs_root u \<and> \<not> becomes u \<and> \<not> becomes b"
  then obtain u b r name data tasks ts t where f: "(r, name, Inr data) \<in> set (role_files root tree)"
    and y: "tl_yaml L data = Inr tasks" "val_iter tasks = Inr ts" "t \<in> set ts" and u: "(u, b) \<in> set (looked_at t)"
    and n: "needs_root u" "\<not> becomes u" "\<not> becomes b"
    unfolding role_task_def role_files_iff by blast
  show bad
  proof (rule ccontr)
    assume "\<not> bad"
    with run have "any_bad (map (tasks_bad L) (role_files root tree)) l = (Inr False, l')" by simp
    moreover have "tasks_bad L (r, name, Inr data) \<in> set (map (tasks_bad L) (role_files root tree))"
      unfolding set_map using f by (rule imageI)
    ultimately obtain l1 l2 where "tasks_bad L (r, name, Inr data) l1 = (Inr False, l2)" using any_bad_False by blast
    from tasks_bad_False [OF this y] task_bad_False [OF _ u] check_container_become_False [OF _ n(1)] n(2,3)
    show False by blast
  qed
qed

text \<open>
  C20. The task check is exact for the tasks it looks at.  These are the tasks at the top level of
  the YAML files of the roles (outside the directories \<open>defaults\<close>, \<open>templates\<close> and \<open>vars\<close>) and, in
  place of one that has a block, the tasks directly in its block; tasks under \<open>rescue\<close> or \<open>always\<close>
  or in a block within a block are not among them.  When the check ends, its result is 0 if
  each of these tasks that uses a container module, or starts docker or podman in a command,
  becomes root, by itself or by its block, and 1 otherwise.
\<close>

theorem task_check_exact:
  assumes "check_task_contents L root tree l = (Inr n, l')"
  shows "n = (if \<forall>u b. role_task L tree u b \<and> needs_root u \<longrightarrow> becomes u \<or> becomes b then 0 else 1)"
proof -
  from check_files_code [OF assms [unfolded check_task_contents_def]] obtain bad where
    "any_bad (map (tasks_bad L) (role_files root tree)) l = (Inr bad, l')" and n: "n = (if bad then 1 else 0)" by blast
  from role_files_checked [OF this(1)] n show ?thesis by auto
qed

text \<open>So these tasks become root in a repository for which the program exits with status 0.\<close>

lemma passed_tasks_become:
  assumes "validate_all L root tree l = (Inr 0, l')" and "role_task L tree u b" and "needs_root u"
  shows "becomes u \<or> becomes b"
proof -
  obtain l2 where "check_task_contents L root tree l2 = (Inr 0, l')" using passed_all [OF assms(1)] by blast
  then have "any_bad (map (tasks_bad L) (role_files root tree)) l2 = (Inr False, l')"
    by (auto simp: check_task_contents_def dest!: check_files_code split: if_splits)
  from role_files_checked [OF this] assms(2,3) show ?thesis by blast
qed

text \<open>
  When the files can be read, the newline check logs exactly the files that do not end with a
  newline, among those that match the patterns and lie in no excluded directory, and fails if
  there is one.
\<close>

lemma newline_check_exact:
  assumes "list_all (\<lambda>(r, name, c). \<not> isl c)
    (selected NEWLINE_EOF_INCLUDE_PATTERNS NEWLINE_EOF_EXCLUDE_PATTERNS root tree)"
  shows "\<exists>bad. check_newline_eof root tree l = (Inr (if bad = [] then 0 else 1), l @ map NoNewline bad) \<and>
    (\<forall>p. p \<in> set bad \<longleftrightarrow>
      (\<exists>ds name data. lies_in ds name (Inr data) tree \<and> p = path_join (foldl path_join root ds) name
        \<and> list_all (\<lambda>d. \<not> matches NEWLINE_EOF_EXCLUDE_PATTERNS d) (name # ds)
        \<and> matches NEWLINE_EOF_INCLUDE_PATTERNS name \<and> \<not> has_newline_eof data))"
proof -
  let ?es = "selected NEWLINE_EOF_INCLUDE_PATTERNS NEWLINE_EOF_EXCLUDE_PATTERNS root tree"
  let ?bad = "map (\<lambda>(r, name, c). path_join r name) (filter (\<lambda>(r, name, c). \<not> has_newline_eof (projr c)) ?es)"
  have "check_newline_eof root tree l = (Inr (if ?bad = [] then 0 else 1), l @ map NoNewline ?bad)"
    using newline_run [OF assms, of l]
    by (auto simp: check_newline_eof_def check_files_def io_run comp_def case_prod_unfold filter_empty_conv list_ex_iff)
  moreover have "(r, name, c) \<in> set ?es \<Longrightarrow> \<exists>data. c = Inr data" for r name c
    using assms by (cases c) (auto simp: list_all_iff)
  then have "p \<in> set ?bad \<longleftrightarrow> (\<exists>r name data. (r, name, Inr data) \<in> set ?es \<and> p = path_join r name \<and> \<not> has_newline_eof data)" for p
    by (force simp: image_iff)
  then have "\<forall>p. p \<in> set ?bad \<longleftrightarrow>
      (\<exists>ds name data. lies_in ds name (Inr data) tree \<and> p = path_join (foldl path_join root ds) name
        \<and> list_all (\<lambda>d. \<not> matches NEWLINE_EOF_EXCLUDE_PATTERNS d) (name # ds)
        \<and> matches NEWLINE_EOF_INCLUDE_PATTERNS name \<and> \<not> has_newline_eof data)"
    unfolding selected_def by (auto simp: walk_iff)
  ultimately show ?thesis by blast
qed

text \<open>A tree with one file of tasks and one without a newline, and a task in a block.\<close>

definition demo_task :: pyval where
  "demo_task = PyDict [(''name'', PyStr ''run''), (''kolla_container'', PyDict [])]"

definition demo_block :: pyval where
  "demo_block = PyDict [(''block'', PyList [demo_task]), (''become'', PyBool True)]"

definition demo_roles :: text_tree where
  "demo_roles = Dir [] [(''r'', Dir [(''main.yml'', Inr [CHR ''-'', CHR 0x0A])] [])]"

definition demo_tree :: "(string \<times> (pyexn + string)) list \<Rightarrow> text_tree" where
  "demo_tree files = Dir files [(''ansible'', Dir [] [(''roles'', demo_roles)])]"

definition demo_lib :: "pyval list \<Rightarrow> template_lib" where
  "demo_lib tasks = \<lparr>tl_render = (\<lambda>_ _ _ _. Inr []), tl_json = (\<lambda>_. Inr PyNone), tl_yaml = (\<lambda>_. Inr (PyList tasks)),
     tl_template_error = (\<lambda>_. False)\<rparr>"

lemmas check_defs = validate_all_def check_newline_eof_def check_json_j2_def check_task_contents_def check_files_def
  selected_def role_files_def subdir_def matches_def NEWLINE_EOF_INCLUDE_PATTERNS_def NEWLINE_EOF_EXCLUDE_PATTERNS_def
  JSON_J2_INCLUDE_PATTERNS_def JSON_J2_EXCLUDE_PATTERNS_def YAML_INCLUDE_PATTERNS_def YAML_EXCLUDE_PATTERNS_def
  task_bad_def check_container_become_def ce_bad_def cmd_bad_def used_without_become_def unless_block_becomes_def
  CE_MODULES_def CMD_MODULES_def path_join_def in_dict_def

definition plain_block :: pyval where
  "plain_block = PyDict [(''block'', PyList [demo_task])]"

lemma demo_checks:
  "check_task_contents (demo_lib [demo_block]) ''/src'' (demo_tree []) [] = (Inr 0, [])"
  "fst (check_task_contents (demo_lib [plain_block]) ''/src'' (demo_tree []) []) = Inr 1"
  by (simp_all add: check_defs demo_tree_def demo_roles_def demo_lib_def demo_block_def plain_block_def demo_task_def
      bnd_run return_run lift_sum_def dget_def complain_def log_error_def modify_run)

theorem task_check_exact_witness:
  "\<not> (\<exists>u b. role_task (demo_lib [demo_block]) (demo_tree []) u b \<and> needs_root u \<and> \<not> becomes u \<and> \<not> becomes b)
   \<and> (\<exists>u b. role_task (demo_lib [plain_block]) (demo_tree []) u b \<and> needs_root u \<and> \<not> becomes u \<and> \<not> becomes b)"
proof
  show "\<not> (\<exists>u b. role_task (demo_lib [demo_block]) (demo_tree []) u b \<and> needs_root u \<and> \<not> becomes u \<and> \<not> becomes b)"
    using task_check_exact [OF demo_checks(1)] by (metis zero_neq_one)
  obtain l where "check_task_contents (demo_lib [plain_block]) ''/src'' (demo_tree []) [] = (Inr 1, l)"
    using demo_checks(2) by (metis prod.collapse)
  from task_check_exact [OF this]
  show "\<exists>u b. role_task (demo_lib [plain_block]) (demo_tree []) u b \<and> needs_root u \<and> \<not> becomes u \<and> \<not> becomes b"
    by (metis zero_neq_one)
qed

lemma newline_check_exact_witness:
  "\<exists>bad. check_newline_eof ''/src'' (demo_tree [(''a.py'', Inr ''x'')]) [] = (Inr (if bad = [] then 0 else 1), map NoNewline bad)
    \<and> ''/src/a.py'' \<in> set bad"
proof -
  let ?t = "demo_tree [(''a.py'', Inr ''x'')]"
  have "list_all (\<lambda>(r, name, c). \<not> isl c)
      (selected NEWLINE_EOF_INCLUDE_PATTERNS NEWLINE_EOF_EXCLUDE_PATTERNS ''/src'' ?t)"
    by (simp add: check_defs demo_tree_def demo_roles_def)
  from newline_check_exact [OF this, of "[]"] obtain bad where
    bad: "check_newline_eof ''/src'' ?t [] = (Inr (if bad = [] then 0 else 1), map NoNewline bad)"
    "\<And>p. p \<in> set bad \<longleftrightarrow> (\<exists>ds name data. lies_in ds name (Inr data) ?t \<and> p = path_join (foldl path_join ''/src'' ds) name
        \<and> list_all (\<lambda>d. \<not> matches NEWLINE_EOF_EXCLUDE_PATTERNS d) (name # ds)
        \<and> matches NEWLINE_EOF_INCLUDE_PATTERNS name \<and> \<not> has_newline_eof data)" by auto
  have "lies_in [] ''a.py'' (Inr ''x'') ?t" by (simp add: demo_tree_def lies_in.here)
  then have "''/src/a.py'' \<in> set bad"
    unfolding bad(2) by (intro exI [of _ "[]"] exI [of _ "''a.py''"] exI [of _ "''x''"])
      (simp add: check_defs has_newline_eof_def)
  with bad(1) show ?thesis by blast
qed

text \<open>
  A task outside a block that uses a container module and does not become root is not reported: the
  empty string stands for its block and has no \<open>get\<close>, so the program dies of an AttributeError.
\<close>

lemma plain_task_crashes:
  assumes "in_dict ''kolla_container'' d" and "\<not> truthy (dget d ''block'')" and "\<not> truthy (dget d ''become'')"
  shows "task_bad path (PyDict d) l = (Inl AttributeError, l)"
  using assms by (simp add: task_bad_def check_container_become_def CE_MODULES_def ce_bad_def used_without_become_def
      unless_block_becomes_def lift_sum_def bnd_run return_run raise_run)

text \<open>A task in the \<open>rescue\<close> part of a block, or in a block within a block, is not looked at.\<close>

lemma rescue_unchecked:
  "task_bad path (PyDict [(''block'', PyList [PyDict [(''block'', PyList [demo_task])]]), (''rescue'', PyList [demo_task])]) l
     = (Inr False, l)"
  by (simp add: check_defs demo_task_def bnd_run return_run lift_sum_def dget_def)

text \<open>When every file can be read, \<open>validate-yaml\<close> names the files in error and fails if there is one.\<close>

lemma validate_yaml_run:
  assumes "\<forall>f \<in> set files. \<exists>text. snd f = Inr text \<and> (\<forall>e. tl_yaml L text = Inl e \<longrightarrow> yaml_error e)"
  shows "validate_yaml L yaml_error files l =
    (let bad = filter (\<lambda>f. isl (tl_yaml L (projr (snd f)))) files
     in (Inr (if bad = [] then 0 else 1), l @ map (\<lambda>f. FileError (fst f)) bad))"
proof -
  have "any_bad (map (yaml_bad L yaml_error) files) l =
      (Inr (list_ex (\<lambda>f. isl (tl_yaml L (projr (snd f)))) files),
       l @ map (\<lambda>f. FileError (fst f)) (filter (\<lambda>f. isl (tl_yaml L (projr (snd f)))) files))"
    using assms
  proof (induction files arbitrary: l)
    case (Cons f files)
    then obtain data where "snd f = Inr data" "\<And>e. tl_yaml L data = Inl e \<Longrightarrow> yaml_error e" by auto
    with Cons show ?case
      by (cases "tl_yaml L data")
        (simp_all add: yaml_bad_def bnd_run lift_sum_def return_run raise_run catch_io_def complain_def log_error_def modify_run)
  qed (simp add: return_run)
  then show ?thesis
    by (auto simp: validate_yaml_def bnd_run return_run Let_def filter_empty_conv list_ex_iff)
qed

end
