(* ===== verification/DhcpLease.thy ===== *)
theory DhcpLease
  imports PyVal
begin

text \<open>
  The development helper \<open>contrib/dev/vagrant/newest_dhcp_lease.py\<close>: the address of a virtual
  machine from libvirt's leases.  Libvirt, the domain's XML as its interfaces, and the rows of the
  lease file are parameters.
\<close>

text \<open>An interface: its source's network (None without a source), and its MAC address.\<close>

record interface =
  if_source :: "string option option"
  if_mac :: "string option option"

record lease =
  ls_mac :: string
  ls_expirytime :: int
  ls_ipaddr :: string

record libvirt =
  lv_version :: int
  lv_interfaces :: "string \<Rightarrow> pyexn + interface list"
  lv_leases :: "pyexn + lease list"
  lv_lease_rows :: "pyexn + string list list"

definition NoPrivateDHCPInterface :: pyexn where
  "NoPrivateDHCPInterface = OtherError ''NoPrivateDHCPInterfaceException''"

definition NoDHCPLease :: pyexn where
  "NoDHCPLease = OtherError ''NoDHCPLeaseException''"

text \<open>The address of the first interface in the private network; it may have no address attribute.\<close>

fun mac_of :: "interface list \<Rightarrow> pyexn + string option" where
  "mac_of [] = Inl NoPrivateDHCPInterface"
| "mac_of (i # is) =
     (if if_source i \<noteq> Some (Some ''vagrant-private-dhcp'') then mac_of is
      else case if_mac i of None \<Rightarrow> Inl AttributeError | Some address \<Rightarrow> Inr address)"

definition get_mac_address :: "libvirt \<Rightarrow> string \<Rightarrow> pyexn + string option" where
  "get_mac_address V domain_name =
     (case lv_interfaces V domain_name of Inl e \<Rightarrow> Inl e | Inr interfaces \<Rightarrow> mac_of interfaces)"

text \<open>\<open>sorted(..., reverse=True)\<close> keeps the order of equal keys.\<close>

definition sorted_reverse :: "lease list \<Rightarrow> lease list" where
  "sorted_reverse ls = rev (sort_key ls_expirytime (rev ls))"

definition get_vir_network_dhcp_lease :: "libvirt \<Rightarrow> string \<Rightarrow> pyexn + string" where
  "get_vir_network_dhcp_lease V vm_name =
     (case get_mac_address V (''vagrant_'' @ vm_name) of Inl e \<Rightarrow> Inl e | Inr mac_address \<Rightarrow>
      case lv_leases V of Inl e \<Rightarrow> Inl e | Inr leases \<Rightarrow>
      case sorted_reverse (filter (\<lambda>l. Some (ls_mac l) = mac_address) leases) of
        [] \<Rightarrow> Inl IndexError
      | l # _ \<Rightarrow> Inr (ls_ipaddr l))"

text \<open>The columns 1 to 3 of a row are the MAC address, the IP address and the name.\<close>

fun lease_of_rows :: "string option \<Rightarrow> string \<Rightarrow> string list list \<Rightarrow> pyexn + string" where
  "lease_of_rows mac_address vm_name [] = Inl NoDHCPLease"
| "lease_of_rows mac_address vm_name (row # rows) =
     (case take 3 (drop 1 row) of
        [lease_mac, lease_ip, lease_vm_name] \<Rightarrow>
          if Some lease_mac = mac_address \<and> lease_vm_name = vm_name then Inr lease_ip
          else lease_of_rows mac_address vm_name rows
      | _ \<Rightarrow> Inl ValueError)"

definition get_dnsmasq_dhcp_lease :: "libvirt \<Rightarrow> string \<Rightarrow> pyexn + string" where
  "get_dnsmasq_dhcp_lease V vm_name =
     (case get_mac_address V (''vagrant_'' @ vm_name) of Inl e \<Rightarrow> Inl e | Inr mac_address \<Rightarrow>
      case lv_lease_rows V of Inl e \<Rightarrow> Inl e | Inr rows \<Rightarrow> lease_of_rows mac_address vm_name rows)"

definition newest_dhcp_lease :: "libvirt \<Rightarrow> string \<Rightarrow> pyexn + string" where
  "newest_dhcp_lease V vm_name =
     (if lv_version V \<ge> 1002006 then get_vir_network_dhcp_lease V vm_name else get_dnsmasq_dhcp_lease V vm_name)"

section \<open>The newest lease\<close>

lemma sorted_reverse_hd:
  assumes "sorted_reverse ls = l # rest"
  shows "l \<in> set ls" "\<forall>k \<in> set ls. ls_expirytime k \<le> ls_expirytime l"
proof -
  have sorted: "sort_key ls_expirytime (rev ls) = rev rest @ [l]"
    using assms by (simp add: sorted_reverse_def)
  then have set: "insert l (set rest) = set ls"
    by (metis Un_insert_right list.set(2) list.simps(15) rev_swap rev_rev_ident set_append set_rev set_sort sup_bot_right empty_set)
  have "sorted (map ls_expirytime (rev rest @ [l]))"
    using sorted_sort_key [of ls_expirytime "rev ls"] by (simp add: sorted)
  then show "\<forall>k \<in> set ls. ls_expirytime k \<le> ls_expirytime l"
    unfolding set [symmetric] by (auto simp: sorted_append)
  show "l \<in> set ls" using set by auto
qed

text \<open>
  The answer from libvirt is the address of a lease of the machine's MAC address that no other one
  outlives; without a lease the first element of an empty list is an IndexError, not the exception
  the script has for it.
\<close>

lemma newest_lease:
  assumes "lv_version V \<ge> 1002006" and "get_mac_address V (''vagrant_'' @ vm_name) = Inr mac" and "lv_leases V = Inr leases"
  shows "case newest_dhcp_lease V vm_name of
      Inr address \<Rightarrow> \<exists>l \<in> set leases. ls_ipaddr l = address \<and> Some (ls_mac l) = mac
        \<and> (\<forall>k \<in> set leases. Some (ls_mac k) = mac \<longrightarrow> ls_expirytime k \<le> ls_expirytime l)
    | Inl e \<Rightarrow> e = IndexError \<and> (\<forall>l \<in> set leases. Some (ls_mac l) \<noteq> mac)"
proof (cases "sorted_reverse (filter (\<lambda>l. Some (ls_mac l) = mac) leases)")
  case Nil
  then have "filter (\<lambda>l. Some (ls_mac l) = mac) leases = []"
    by (simp add: sorted_reverse_def) (metis length_0_conv length_rev length_sort)
  with Nil show ?thesis
    using assms by (simp add: newest_dhcp_lease_def get_vir_network_dhcp_lease_def filter_empty_conv)
next
  case (Cons l rest)
  with assms sorted_reverse_hd [OF Cons] show ?thesis
    by (auto simp: newest_dhcp_lease_def get_vir_network_dhcp_lease_def)
qed

end
