(* ===== verification/DockerClient.thy ===== *)
theory DockerClient
  imports PyVal
begin

text \<open>
  The client of the Docker worker (\<open>module_utils/kolla_docker_worker.py\<close>): the options it is built
  with, and the TLS configuration \<open>generate_tls\<close> would make for it.
\<close>

definition docker_client_options :: "pyobj \<Rightarrow> pyobj" where
  "docker_client_options params =
     [(''version'', dget params ''api_version''), (''timeout'', dget params ''client_timeout'')]"

text \<open>
  A path as the code passes it around: a value, or the tuple of one value that a comma at the end
  of an assignment makes.
\<close>

datatype path_arg = Bare pyval | Tuple1 pyval

fun arg_truthy :: "path_arg \<Rightarrow> bool" where
  "arg_truthy (Bare v) = truthy v"
| "arg_truthy (Tuple1 v) = True"

text \<open>\<open>os.path.isfile\<close> takes no tuple and no None.\<close>

fun check_file :: "(string \<Rightarrow> bool) \<Rightarrow> (string \<Rightarrow> bool) \<Rightarrow> path_arg \<Rightarrow> pyexn + unit" where
  "check_file isfile readable (Bare (PyStr path)) =
     (if \<not> isfile path then Inl (FailJson (''There is no file at '' @ [CHR 0x22] @ path @ [CHR 0x22]))
      else if \<not> readable path then Inl (FailJson (''Permission denied for file at '' @ [CHR 0x22] @ path @ [CHR 0x22]))
      else Inr ())"
| "check_file isfile readable _ = Inl TypeError"

record tls_config =
  tls_verify :: pyval
  tls_client_cert :: "(path_arg \<times> path_arg) option"

definition generate_tls :: "(string \<Rightarrow> bool) \<Rightarrow> (string \<Rightarrow> bool) \<Rightarrow> pyobj \<Rightarrow> pyexn + tls_config" where
  "generate_tls isfile readable params =
     (let verify = dget params ''tls_verify'';
          tls_cert = Tuple1 (dget params ''tls_cert'');
          tls_key = Tuple1 (dget params ''tls_key'');
          tls_cacert = Bare (dget params ''tls_cacert'')
      in if \<not> truthy verify then Inr \<lparr>tls_verify = verify, tls_client_cert = None\<rparr>
         else case (if arg_truthy tls_cert
                    then (case check_file isfile readable tls_cert of
                            Inl e \<Rightarrow> Inl e
                          | Inr _ \<Rightarrow> (case check_file isfile readable tls_key of
                              Inl e \<Rightarrow> Inl e
                            | Inr _ \<Rightarrow> Inr (Some (tls_cert, tls_key))))
                    else Inr None) of
           Inl e \<Rightarrow> Inl e
         | Inr client_cert \<Rightarrow>
             if arg_truthy tls_cacert
             then (case check_file isfile readable tls_cacert of
                     Inl e \<Rightarrow> Inl e
                   | Inr _ \<Rightarrow> Inr \<lparr>tls_verify = dget params ''tls_cacert'', tls_client_cert = client_cert\<rparr>)
             else Inr \<lparr>tls_verify = verify, tls_client_cert = client_cert\<rparr>)"

text \<open>
  The trailing commas make tuples of the certificate and the key, so a configuration with
  verification is a TypeError whatever files there are.
\<close>

lemma generate_tls_outcome:
  "generate_tls isfile readable params =
     (if truthy (dget params ''tls_verify'') then Inl TypeError
      else Inr \<lparr>tls_verify = dget params ''tls_verify'', tls_client_cert = None\<rparr>)"
  by (simp add: generate_tls_def Let_def)

end
