(* ===== verification/CellFilters.thy ===== *)
theory CellFilters
  imports ServiceFilters Paths "HOL-Library.Multiset"
begin

text \<open>
  The filters of \<open>kolla_ansible/nova_filters.py\<close> and \<open>kolla_ansible/fluentd_filters.py\<close>.  The
  regular expression of \<open>extract_cell\<close> is written as a function on the words of a line.  A
  \<open>haproxy\<close> entry that is a list is not modelled.
\<close>

section \<open>Finding a cell in the output of nova-manage\<close>

record cell =
  cl_name :: "string option"
  cl_uuid :: string
  cl_message_queue :: string
  cl_database :: string
  cl_disabled :: string

definition words_of :: "string \<Rightarrow> string list" where
  "words_of s = filter (\<lambda>w. w \<noteq> []) (py_split (CHR '' '') s)"

definition is_uuid :: "string \<Rightarrow> bool" where
  "is_uuid s \<longleftrightarrow> s \<noteq> [] \<and> list_all (\<lambda>c. is_digit c \<or> c \<in> set ''abcdef-'') s"

text \<open>The dollar sign also matches before a newline at the end.\<close>

definition chop_newline :: "string \<Rightarrow> string" where
  "chop_newline s = (if s \<noteq> [] \<and> last s = CHR 0x0A then butlast s else s)"

text \<open>
  Every group but the name is a whole word between spaces, and so is a name; without a name the
  expression needs two spaces between the first bars.
\<close>

fun cell_rest :: "string option \<Rightarrow> string list \<Rightarrow> cell option" where
  "cell_rest name [bar1, uuid, bar2, mq, bar3, db, bar4, disabled, bar5] =
     (if list_all (\<lambda>b. b = ''|'') [bar1, bar2, bar3, bar4, bar5] \<and> is_uuid uuid
      then Some \<lparr>cl_name = name, cl_uuid = uuid, cl_message_queue = mq, cl_database = db, cl_disabled = disabled\<rparr>
      else None)"
| "cell_rest name _ = None"

definition match_cell :: "string \<Rightarrow> cell option" where
  "match_cell line =
     (let s = chop_newline line in
      if s = [] \<or> hd s = CHR '' '' \<or> last s = CHR '' '' then None
      else case words_of s of
        bar # ws \<Rightarrow>
          (if bar \<noteq> ''|'' then None
           else if length ws = 10 then cell_rest (Some (hd ws)) (tl ws)
           else if prefix ''|  '' s then cell_rest None ws else None)
      | _ \<Rightarrow> None)"

definition TemplateRuntimeError :: pyexn where
  "TemplateRuntimeError = OtherError ''TemplateRuntimeError''"

definition cell_name_of :: "cell \<Rightarrow> string" where
  "cell_name_of c = (case cl_name c of None \<Rightarrow> [] | Some n \<Rightarrow> n)"

definition extract_cell :: "string list \<Rightarrow> string \<Rightarrow> pyexn + cell option" where
  "extract_cell stdout_lines cell_name =
     (case filter (\<lambda>c. cell_name_of c = cell_name) (List.map_filter match_cell stdout_lines) of
        [] \<Rightarrow> Inr None
      | [c] \<Rightarrow> Inr (Some c)
      | _ \<Rightarrow> Inl TemplateRuntimeError)"

section \<open>Namespaces for the HAProxy sections of a cell\<close>

definition cell_namespace :: "string \<Rightarrow> string \<Rightarrow> string" where
  "cell_namespace cell_name name = (if cell_name = [] then name else name @ ''_'' @ cell_name)"

text \<open>
  The loop writes into the service objects themselves; the caller's objects are the ones returned.
\<close>

definition namespace_service :: "string \<Rightarrow> pyobj \<Rightarrow> pyexn + pyobj" where
  "namespace_service cell_name service =
     (if \<not> truthy (dget service ''haproxy'') then Inr service
      else case dget service ''haproxy'' of
        PyDict d \<Rightarrow>
          Inr (AList.update ''haproxy'' (PyDict (map (\<lambda>(name, v). (cell_namespace cell_name name, v)) d)) service)
      | _ \<Rightarrow> Inl TypeError)"

fun namespace_haproxy_for_cell :: "services \<Rightarrow> string \<Rightarrow> pyexn + services" where
  "namespace_haproxy_for_cell [] cell_name = Inr []"
| "namespace_haproxy_for_cell ((service_name, service) # rest) cell_name =
     (case namespace_service cell_name service of
        Inl e \<Rightarrow> Inl e
      | Inr service \<Rightarrow>
          map_sum id (Cons (cell_namespace cell_name service_name, service)) (namespace_haproxy_for_cell rest cell_name))"

section \<open>The templates of fluentd\<close>

text \<open>
  \<open>order\<close> is the order in which a Python set lists its elements, which the sort leaves among
  paths of the same base name.
\<close>

definition customise_fluentd :: "(string list \<Rightarrow> string list) \<Rightarrow> string list \<Rightarrow> string list \<Rightarrow> string list" where
  "customise_fluentd order default_paths customised_paths =
     (let customised_file_names = basename ` set customised_paths;
          kept = filter (\<lambda>f. splitext_root (basename f) \<notin> customised_file_names) default_paths
      in sort_key basename (order (remdups (kept @ customised_paths))))"

section \<open>A printed cell is found\<close>

lemma words_of_Nil [simp]: "words_of [] = []"
  by (simp add: words_of_def)

lemma words_of_space [simp]: "words_of (CHR '' '' # s) = words_of s"
  by (simp add: words_of_def)

lemma words_of_spaces [simp]: "words_of (replicate n (CHR '' '') @ s) = words_of s"
  by (induction n) simp_all

definition is_word :: "string \<Rightarrow> bool" where
  "is_word w \<longleftrightarrow> w \<noteq> [] \<and> CHR '' '' \<notin> set w"

lemma words_of_word: "is_word w \<Longrightarrow> s = [] \<or> hd s = CHR '' '' \<Longrightarrow> words_of (w @ s) = w # words_of s"
  by (cases s) (auto simp: is_word_def words_of_def py_split_no_sep py_split_append)

text \<open>A row of the table that \<open>nova-manage\<close> prints: the fields between bars, with some padding.\<close>

fun row_fields :: "(nat \<times> nat) list \<Rightarrow> string list \<Rightarrow> string" where
  "row_fields ((a, b) # ps) (f # fs) =
     CHR '' '' # replicate a (CHR '' '') @ f @ CHR '' '' # replicate b (CHR '' '') @ ''|'' @ row_fields ps fs"
| "row_fields _ _ = []"

definition table_row :: "(nat \<times> nat) list \<Rightarrow> cell \<Rightarrow> string" where
  "table_row pads c =
     CHR ''|'' # row_fields pads [cell_name_of c, cl_uuid c, cl_message_queue c, cl_database c, cl_disabled c]"

definition wf_cell :: "cell \<Rightarrow> bool" where
  "wf_cell c \<longleftrightarrow> (case cl_name c of None \<Rightarrow> True | Some n \<Rightarrow> is_word n) \<and> is_uuid (cl_uuid c) \<and> is_word (cl_uuid c)
     \<and> is_word (cl_message_queue c) \<and> is_word (cl_database c) \<and> is_word (cl_disabled c)"

lemma row_fields_start: "row_fields ps fs = [] \<or> hd (row_fields ps fs) = CHR '' ''"
  by (induction ps fs rule: row_fields.induct) simp_all

lemma words_row_fields:
  "length ps = length fs \<Longrightarrow> list_all (\<lambda>f. f = [] \<or> is_word f) fs \<Longrightarrow>
     words_of (row_fields ps fs) = concat (map (\<lambda>f. (if f = [] then [] else [f]) @ [''|'']) fs)"
proof (induction ps fs rule: row_fields.induct)
  case (1 a b ps f fs)
  have "words_of (''|'' @ row_fields ps fs) = ''|'' # words_of (row_fields ps fs)"
    by (rule words_of_word) (simp_all add: is_word_def row_fields_start)
  moreover have "words_of (f @ CHR '' '' # s) = (if f = [] then [] else [f]) @ words_of s" for s
    using 1 words_of_word [of f "CHR '' '' # s"] by auto
  ultimately show ?case using 1 by simp
qed simp_all

lemma last_row_fields: "length ps = length fs \<Longrightarrow> fs \<noteq> [] \<Longrightarrow> row_fields ps fs \<noteq> [] \<and> last (row_fields ps fs) = CHR ''|''"
proof (induction ps fs rule: row_fields.induct)
  case (1 a b ps f fs)
  then show ?case by (cases "fs = []") auto
qed simp_all

lemma match_table_row:
  assumes "wf_cell c" "length pads = 5"
  shows "match_cell (table_row pads c) = Some c"
proof -
  let ?fs = "[cell_name_of c, cl_uuid c, cl_message_queue c, cl_database c, cl_disabled c]"
  have words: "words_of (table_row pads c) = ''|'' # words_of (row_fields pads ?fs)"
    using words_of_word [of "''|''" "row_fields pads ?fs"] row_fields_start
    by (simp add: table_row_def is_word_def)
  have fields: "words_of (row_fields pads ?fs) = concat (map (\<lambda>f. (if f = [] then [] else [f]) @ [''|'']) ?fs)"
    using assms by (intro words_row_fields) (auto simp: wf_cell_def cell_name_of_def split: option.splits)
  have ends: "last (table_row pads c) = CHR ''|''" "hd (table_row pads c) = CHR ''|''" "table_row pads c \<noteq> []"
    using last_row_fields [of pads ?fs] assms(2) by (auto simp: table_row_def)
  have chop: "chop_newline (table_row pads c) = table_row pads c" using ends by (simp add: chop_newline_def)
  obtain a b ps where pads: "pads = (a, b) # ps" using assms(2) by (cases pads) auto
  show ?thesis
  proof (cases "cl_name c")
    case None
    then have "prefix ''|  '' (table_row pads c)" by (cases a) (simp_all add: table_row_def pads cell_name_of_def)
    then show ?thesis using assms None ends chop words fields
      by (simp add: match_cell_def wf_cell_def is_word_def cell_name_of_def)
  next
    case (Some n)
    then show ?thesis using assms ends chop words fields
      by (simp add: match_cell_def wf_cell_def is_word_def cell_name_of_def)
  qed
qed

fun line_text :: "string + (nat \<times> nat) list \<times> cell \<Rightarrow> string" where
  "line_text (Inl s) = s"
| "line_text (Inr (pads, c)) = table_row pads c"

fun row_ok :: "string + (nat \<times> nat) list \<times> cell \<Rightarrow> bool" where
  "row_ok (Inl s) \<longleftrightarrow> match_cell s = None"
| "row_ok (Inr (pads, c)) \<longleftrightarrow> wf_cell c \<and> length pads = 5"

fun cells_of :: "(string + (nat \<times> nat) list \<times> cell) list \<Rightarrow> cell list" where
  "cells_of [] = []"
| "cells_of (Inl s # rows) = cells_of rows"
| "cells_of (Inr (pads, c) # rows) = c # cells_of rows"

text \<open>
  In the table of nova-manage, among borders and headings, the filter finds the one cell of
  the name (the empty name is the cell without one), nothing when there is none, and raises when
  there are several.
\<close>

lemma extract_cell_finds:
  assumes "list_all row_ok rows"
  shows "extract_cell (map line_text rows) name =
    (case filter (\<lambda>c. cell_name_of c = name) (cells_of rows) of
       [] \<Rightarrow> Inr None | [c] \<Rightarrow> Inr (Some c) | _ \<Rightarrow> Inl TemplateRuntimeError)"
proof -
  have "List.map_filter match_cell (map line_text rows) = cells_of rows"
    using assms by (induction rows rule: cells_of.induct) (auto simp: List.map_filter_simps match_table_row)
  then show ?thesis by (simp add: extract_cell_def)
qed

lemma extract_cell_finds_witness:
  "let line = table_row [(0, 0), (0, 0), (0, 0), (0, 0), (0, 1)]
   in extract_cell
        [''+----+----+'',
         line \<lparr>cl_name = None, cl_uuid = ''00a-1'', cl_message_queue = ''none:///'', cl_database = ''db0'', cl_disabled = ''False''\<rparr>,
         line \<lparr>cl_name = Some ''c1'', cl_uuid = ''00a-2'', cl_message_queue = ''mq'', cl_database = ''db1'', cl_disabled = ''False''\<rparr>]
        ''c1''
      = Inr (Some \<lparr>cl_name = Some ''c1'', cl_uuid = ''00a-2'', cl_message_queue = ''mq'', cl_database = ''db1'', cl_disabled = ''False''\<rparr>)"
proof -
  let ?pads = "[(0, 0), (0, 0), (0, 0), (0, 0), (0, 1)] :: (nat \<times> nat) list"
  let ?c0 = "\<lparr>cl_name = None, cl_uuid = ''00a-1'', cl_message_queue = ''none:///'', cl_database = ''db0'', cl_disabled = ''False''\<rparr>"
  let ?c1 = "\<lparr>cl_name = Some ''c1'', cl_uuid = ''00a-2'', cl_message_queue = ''mq'', cl_database = ''db1'', cl_disabled = ''False''\<rparr>"
  have "match_cell ''+----+----+'' = None" by (simp add: match_cell_def chop_newline_def words_of_def Let_def)
  moreover have "wf_cell ?c0" "wf_cell ?c1" by (simp_all add: wf_cell_def is_word_def is_uuid_def is_digit_def)
  ultimately show ?thesis
    using extract_cell_finds [of "[Inl ''+----+----+'', Inr (?pads, ?c0), Inr (?pads, ?c1)]" "''c1''"]
    by (simp add: cell_name_of_def)
qed

section \<open>Namespaces do not disturb the sections\<close>

definition rename_keys :: "('a \<Rightarrow> 'b) \<Rightarrow> ('a, 'v) pydict \<Rightarrow> ('b, 'v) pydict" where
  "rename_keys f d = map (\<lambda>(k, v). (f k, v)) d"

lemma rename_keys_simps [simp]:
  "rename_keys f [] = []" "rename_keys f ((k, v) # d) = (f k, v) # rename_keys f d" "rename_keys f d = [] \<longleftrightarrow> d = []"
  by (simp_all add: rename_keys_def)

lemma in_dict_rename: "inj f \<Longrightarrow> in_dict (f k) (rename_keys f d) \<longleftrightarrow> in_dict k d"
  by (induction d) (auto simp: in_dict_iff inj_eq)

lemma dict_keys_rename: "dict_keys (rename_keys f d) = map f (dict_keys d)"
  by (simp add: dict_keys_def rename_keys_def comp_def case_prod_beta)

lemma update_rename: "inj f \<Longrightarrow> AList.update (f k) v (rename_keys f d) = rename_keys f (AList.update k v d)"
  by (induction d) (auto simp: inj_eq)

lemma dict_update_rename:
  "inj f \<Longrightarrow> dict_update (rename_keys f d) (rename_keys f e) = rename_keys f (dict_update d e)"
  by (induction e arbitrary: d) (auto simp: dict_update_def update_rename)

lemma inj_cell_namespace: "inj (cell_namespace cell_name)"
  by (rule injI) (simp add: cell_namespace_def split: if_splits)

lemma haproxy_loop_namespace:
  assumes "namespace_haproxy_for_cell services cell_name = Inr namespaced"
  shows "haproxy_loop B namespaced (rename_keys (cell_namespace cell_name) h)
    = map_sum id (rename_keys (cell_namespace cell_name)) (haproxy_loop B services h)"
  using assms
proof (induction services arbitrary: namespaced h)
  case (Cons ns services)
  let ?f = "cell_namespace cell_name"
  obtain n s where ns: "ns = (n, s)" by fastforce
  obtain s' rest where s': "namespace_service cell_name s = Inr s'"
    and rest: "namespace_haproxy_for_cell services cell_name = Inr rest" and namespaced: "namespaced = (?f n, s') # rest"
    using Cons.prems by (cases "namespace_haproxy_for_cell services cell_name") (auto simp: ns split: sum.splits)
  note IH = Cons.IH [OF rest]
  show ?case
  proof (cases "truthy (dget s ''haproxy'')")
    case False
    then have "s' = s" using s' by (simp add: namespace_service_def)
    then show ?thesis using False IH by (simp add: ns namespaced split: sum.split)
  next
    case True
    then obtain d where d: "dget s ''haproxy'' = PyDict d" "d \<noteq> []"
      and s'_eq: "s' = AList.update ''haproxy'' (PyDict (rename_keys ?f d)) s"
      using s' by (auto simp: namespace_service_def rename_keys_def split: pyval.splits)
    have "dget s' ''haproxy'' = PyDict (rename_keys ?f d)" by (simp add: s'_eq dget_def)
    moreover have "service_enabled B s' = service_enabled B s" by (simp add: s'_eq service_enabled_def dget_def)
    moreover have "list_ex (\<lambda>k. in_dict k (rename_keys ?f h)) (dict_keys (rename_keys ?f d))
        \<longleftrightarrow> list_ex (\<lambda>k. in_dict k h) (dict_keys d)"
      by (simp add: dict_keys_rename list_ex_iff in_dict_rename [OF inj_cell_namespace])
    ultimately show ?thesis
      using d IH by (simp add: ns namespaced dict_update_rename [OF inj_cell_namespace] split: sum.split)
  qed
qed simp

text \<open>
  C35. Namespacing the services of a cell and then extracting their HAProxy sections gives the
  sections of the services themselves, in order and each renamed for the cell, or the same error.
\<close>

theorem namespacing_commutes:
  assumes "namespace_haproxy_for_cell services cell_name = Inr namespaced"
  shows "extract_haproxy_services B namespaced
    = map_sum id (rename_keys (cell_namespace cell_name)) (extract_haproxy_services B services)"
  using haproxy_loop_namespace [OF assms, of B "[]"] by (simp add: extract_haproxy_services_def)

theorem namespacing_commutes_witness:
  "extract_haproxy_services (\<lambda>v. Inr (truthy v))
     [(''nova_c1'', [(''enabled'', PyBool True), (''haproxy'', PyDict [(''nova_novncproxy_c1'', PyDict [])])])]
   = Inr [(''nova_novncproxy_c1'', PyDict [])]"
proof -
  let ?services = "[(''nova'', [(''enabled'', PyBool True), (''haproxy'', PyDict [(''nova_novncproxy'', PyDict [])])])]"
  have "namespace_haproxy_for_cell ?services ''c1'' =
      Inr [(''nova_c1'', [(''enabled'', PyBool True), (''haproxy'', PyDict [(''nova_novncproxy_c1'', PyDict [])])])]"
    by (simp add: namespace_service_def cell_namespace_def dget_def)
  from namespacing_commutes [OF this, of "\<lambda>v. Inr (truthy v)"] show ?thesis
    by (simp add: extract_haproxy_services_def service_enabled_def dget_def dict_update_def dict_keys_def in_dict_def cell_namespace_def)
qed

section \<open>The list of fluentd templates\<close>

lemma distinct_order_lists:
  assumes "\<And>xs. mset (order xs) = mset xs"
  shows "distinct (order xs) = distinct xs" and "set (order xs) = set xs"
  using assms [of xs] by (auto intro: mset_eq_setD simp: distinct_count_atmost_1)
    (metis mset_eq_setD)+

text \<open>
  The templates are the customised ones and the default ones that no customised file
  overrides, each once, sorted by base name; when base names do not repeat, the order of the
  sets does not matter.
\<close>

lemma customise_fluentd_spec:
  assumes order: "\<And>xs. mset (order xs) = mset xs"
  shows "set (customise_fluentd order defaults customised)
      = set customised \<union> {f \<in> set defaults. splitext_root (basename f) \<notin> basename ` set customised}
    \<and> distinct (customise_fluentd order defaults customised)
    \<and> sorted (map basename (customise_fluentd order defaults customised))
    \<and> (inj_on basename (set defaults \<union> set customised) \<longrightarrow>
         (\<forall>order'. (\<forall>xs. mset (order' xs) = mset xs) \<longrightarrow>
            customise_fluentd order' defaults customised = customise_fluentd order defaults customised))"
proof (intro conjI impI allI)
  let ?kept = "filter (\<lambda>f. splitext_root (basename f) \<notin> basename ` set customised) defaults"
  have unfold: "customise_fluentd ord defaults customised = sort_key basename (ord (remdups (?kept @ customised)))" for ord
    by (simp only: customise_fluentd_def Let_def)
  show "set (customise_fluentd order defaults customised)
      = set customised \<union> {f \<in> set defaults. splitext_root (basename f) \<notin> basename ` set customised}"
    unfolding unfold by (auto simp: distinct_order_lists [OF order])
  show "distinct (customise_fluentd order defaults customised)"
    unfolding unfold by (simp only: distinct_sort distinct_order_lists [OF order] distinct_remdups)
  show "sorted (map basename (customise_fluentd order defaults customised))"
    unfolding unfold by (rule sorted_sort_key)
  fix order' :: "string list \<Rightarrow> string list"
  assume inj: "inj_on basename (set defaults \<union> set customised)" and order': "\<forall>xs. mset (order' xs) = mset xs"
  show "customise_fluentd order' defaults customised = customise_fluentd order defaults customised"
    unfolding unfold
  proof (rule sort_key_inj_key_eq)
    show "mset (order' (remdups (?kept @ customised))) = mset (sort_key basename (order (remdups (?kept @ customised))))"
      using order order' by simp
    show "sorted (map basename (sort_key basename (order (remdups (?kept @ customised)))))" by (rule sorted_sort_key)
    show "inj_on basename (set (order' (remdups (?kept @ customised))))"
      using distinct_order_lists(2) [of order'] order' by (intro inj_on_subset [OF inj]) auto
  qed
qed

lemma customise_fluentd_spec_witness:
  "set (customise_fluentd rev [''in/00.conf.j2'', ''in/01.conf.j2''] [''/etc/01.conf'']) = {''in/00.conf.j2'', ''/etc/01.conf''}"
proof -
  have base: "basename ''in/00.conf.j2'' = ''00.conf.j2''" "basename ''in/01.conf.j2'' = ''01.conf.j2''"
    "basename ''/etc/01.conf'' = ''01.conf''"
    by (simp_all add: basename_def rsplit_once_def)
  have root: "splitext_root ''00.conf.j2'' = ''00.conf''" "splitext_root ''01.conf.j2'' = ''01.conf''"
    by (simp_all add: splitext_root_def extension_def rsplit_once_def)
  have "{f \<in> set [''in/00.conf.j2'', ''in/01.conf.j2'']. splitext_root (basename f) \<notin> basename ` set [''/etc/01.conf'']}
      = {''in/00.conf.j2''}"
    by (auto simp: base root)
  moreover have "set (customise_fluentd rev [''in/00.conf.j2'', ''in/01.conf.j2''] [''/etc/01.conf''])
      = set [''/etc/01.conf''] \<union> {f \<in> set [''in/00.conf.j2'', ''in/01.conf.j2''].
          splitext_root (basename f) \<notin> basename ` set [''/etc/01.conf'']}"
    by (rule conjunct1 [OF customise_fluentd_spec [of rev]]) simp
  ultimately show ?thesis by (simp only: list.set) blast
qed

end
