(* ===== verification/ContainerFacts.thy ===== *)
theory ContainerFacts
  imports PyVal
begin

text \<open>
  The facts module, \<open>ansible/library/kolla_container_facts.py\<close>: what it asks the container engine
  and the facts it returns.  The engine's client is a record of functions over its state; the
  world adds the \<open>result\<close> of the worker.  The entries of a container's environment are strings.
\<close>

section \<open>The engine and the worker\<close>

text \<open>
  \<open>containers.list()\<close> gives identifiers and names, \<open>reload()\<close> of one its current name and
  attributes; \<open>containers.get(name)\<close> gives attributes, \<open>volumes.list()\<close> names and attributes.
\<close>

record 's facts_client =
  fc_connect :: "'s \<Rightarrow> (pyexn + unit) \<times> 's"
  fc_list :: "'s \<Rightarrow> (pyexn + (string \<times> string) list) \<times> 's"
  fc_reload :: "string \<Rightarrow> 's \<Rightarrow> (pyexn + (string \<times> pyobj)) \<times> 's"
  fc_get :: "string \<Rightarrow> 's \<Rightarrow> (pyexn + pyobj) \<times> 's"
  fc_volumes :: "'s \<Rightarrow> (pyexn + (string \<times> pyobj) list) \<times> 's"

record 's facts_world =
  fw_engine :: 's
  fw_result :: pyobj

type_synonym ('s, 'a) facts = "('s facts_world, 'a) io"

definition ask_engine :: "('s \<Rightarrow> (pyexn + 'a) \<times> 's) \<Rightarrow> ('s, 'a) facts" where
  "ask_engine f = (\<lambda>w. case f (fw_engine w) of (r, s) \<Rightarrow> (r, w\<lparr>fw_engine := s\<rparr>))"

definition is_not_found :: "pyexn \<Rightarrow> bool" where
  "is_not_found e \<longleftrightarrow> e = APIError 404"

text \<open>\<open>self.result[key] = v\<close> and \<open>self.result[key][name] = v\<close>.\<close>

definition set_result :: "string \<Rightarrow> pyval \<Rightarrow> ('s, unit) facts" where
  "set_result key v = modify_io (\<lambda>w. w\<lparr>fw_result := AList.update key v (fw_result w)\<rparr>)"

definition put_fact :: "string \<Rightarrow> string \<Rightarrow> pyval \<Rightarrow> ('s, unit) facts" where
  "put_fact key name v = modify_io (\<lambda>w. w\<lparr>fw_result :=
     AList.update key (PyDict (AList.update name v
       (case dget (fw_result w) key of PyDict d \<Rightarrow> d | _ \<Rightarrow> []))) (fw_result w)\<rparr>)"

section \<open>The actions\<close>

definition get_container_info :: "'s facts_client \<Rightarrow> string \<Rightarrow> ('s, pyobj) facts" where
  "get_container_info C name =
     catch_io (ask_engine (fc_get C name)) is_not_found (\<lambda>_. raise_io (FailJson (''No such container: '' @ name)))"

definition remap_env :: "string \<Rightarrow> string \<times> string" where
  "remap_env env = (case split_once (CHR ''='') env of None \<Rightarrow> (env, []) | Some kv \<Rightarrow> kv)"

definition remap_envs :: "string list \<Rightarrow> (string, string) pydict" where
  "remap_envs envs_raw = fold (\<lambda>env d. AList.update (fst (remap_env env)) (snd (remap_env env)) d) envs_raw []"

definition get_containers_names :: "'s facts_client \<Rightarrow> ('s, unit) facts" where
  "get_containers_names C =
     bnd (ask_engine (fc_list C)) (\<lambda>containers.
       set_result ''container_names'' (PyList (map (\<lambda>c. PyStr (snd c)) containers)))"

text \<open>\<open>attrs["State"].get("Health", dict()).pop("Log", None)\<close>, on the attributes.\<close>

definition drop_health_log :: "pyobj \<Rightarrow> pyexn + pyobj" where
  "drop_health_log attrs =
     (case map_of attrs ''State'' of
        None \<Rightarrow> Inl KeyError
      | Some (PyDict state) \<Rightarrow>
          (case map_of state ''Health'' of
             None \<Rightarrow> Inr attrs
           | Some (PyDict health) \<Rightarrow>
               Inr (AList.update ''State''
                 (PyDict (AList.update ''Health'' (PyDict (AList.delete ''Log'' health)) state)) attrs)
           | Some (PyList _) \<Rightarrow> Inl TypeError
           | Some _ \<Rightarrow> Inl AttributeError)
      | Some _ \<Rightarrow> Inl AttributeError)"

definition collect_container :: "'s facts_client \<Rightarrow> string list \<Rightarrow> string \<times> string \<Rightarrow> ('s, unit) facts" where
  "collect_container C names container =
     bnd (ask_engine (fc_reload C (fst container))) (\<lambda>(name, attrs).
     if names \<noteq> [] \<and> name \<notin> set names then return_io ()
     else bnd (lift_sum (drop_health_log attrs)) (\<lambda>attrs. put_fact ''containers'' name (PyDict attrs)))"

definition get_containers :: "'s facts_client \<Rightarrow> string list \<Rightarrow> ('s, unit) facts" where
  "get_containers C names =
     bnd (set_result ''containers'' (PyDict [])) (\<lambda>_.
     bnd (ask_engine (fc_list C)) (\<lambda>containers. for_io containers (collect_container C names)))"

definition state_of :: "'s facts_client \<Rightarrow> string \<Rightarrow> ('s, unit) facts" where
  "state_of C name =
     bnd (get_container_info C name) (\<lambda>cont.
     if cont = [] then return_io ()
     else bnd (lift_sum (val_path (PyDict cont) [''State'', ''Status''])) (put_fact ''states'' name))"

definition get_containers_state :: "'s facts_client \<Rightarrow> string list \<Rightarrow> ('s, unit) facts" where
  "get_containers_state C names =
     bnd (set_result ''states'' (PyDict [])) (\<lambda>_. for_io names (state_of C))"

fun strings_of :: "pyval \<Rightarrow> pyexn + string list" where
  "strings_of (PyList []) = Inr []"
| "strings_of (PyList (PyStr s # xs)) = map_sum id (Cons s) (strings_of (PyList xs))"
| "strings_of _ = Inl TypeError"

definition env_of :: "'s facts_client \<Rightarrow> string \<Rightarrow> ('s, unit) facts" where
  "env_of C name =
     bnd (get_container_info C name) (\<lambda>cont.
     if cont = [] then return_io ()
     else bnd (lift_sum (val_path (PyDict cont) [''Config'', ''Env''])) (\<lambda>env.
          bnd (lift_sum (strings_of env)) (\<lambda>envs.
          put_fact ''envs'' name (PyDict (map (\<lambda>(k, v). (k, PyStr v)) (remap_envs envs))))))"

definition get_containers_env :: "'s facts_client \<Rightarrow> string list \<Rightarrow> ('s, unit) facts" where
  "get_containers_env C names =
     bnd (set_result ''envs'' (PyDict [])) (\<lambda>_. for_io names (env_of C))"

definition volume_of :: "string list \<Rightarrow> string \<times> pyobj \<Rightarrow> ('s, unit) facts" where
  "volume_of names volume =
     (if names \<noteq> [] \<and> fst volume \<notin> set names then return_io ()
      else put_fact ''volumes'' (fst volume) (PyDict (snd volume)))"

definition get_volumes :: "'s facts_client \<Rightarrow> string list \<Rightarrow> ('s, unit) facts" where
  "get_volumes C names =
     bnd (set_result ''volumes'' (PyDict [])) (\<lambda>_.
     bnd (ask_engine (fc_volumes C)) (\<lambda>volumes. for_io volumes (volume_of names)))"

section \<open>The module\<close>

datatype facts_action = GetContainers | GetContainersEnv | GetContainersState | GetContainersNames | GetVolumes

fun facts_action_of :: "'s facts_client \<Rightarrow> facts_action \<Rightarrow> string list \<Rightarrow> ('s, unit) facts" where
  "facts_action_of C GetContainers names = get_containers C names"
| "facts_action_of C GetContainersEnv names = get_containers_env C names"
| "facts_action_of C GetContainersState names = get_containers_state C names"
| "facts_action_of C GetContainersNames names = get_containers_names C"
| "facts_action_of C GetVolumes names = get_volumes C names"

definition fail_with_result :: "pyobj \<Rightarrow> module_end" where
  "fail_with_result result = call_with [''changed'', ''msg''] [(''changed'', PyBool True)] Fails result"

text \<open>
  Without the engine's library the constructor uses \<open>self.module\<close> before it is set, which is an
  AttributeError; the handler of \<open>main\<close> then has no worker whose result it could pass on.
\<close>

definition facts_main :: "'s facts_client \<Rightarrow> bool \<Rightarrow> facts_action \<Rightarrow> string list \<Rightarrow> 's \<Rightarrow> module_end" where
  "facts_main C importable action names s =
     (if \<not> importable then fail_with_result []
      else case fc_connect C s of
        (Inl e, _) \<Rightarrow> (if is_system_exit e then Crashes e else fail_with_result [])
      | (Inr _, s) \<Rightarrow>
          (case facts_action_of C action names \<lparr>fw_engine = s, fw_result = [(''changed'', PyBool False)]\<rparr> of
             (Inl (FailJson msg), _) \<Rightarrow> Fails []
           | (Inl e, w) \<Rightarrow> (if is_system_exit e then Crashes e else fail_with_result (fw_result w))
           | (Inr _, w) \<Rightarrow> call_with [''result''] [(''result'', PyBool False)] Exits (fw_result w)))"

section \<open>The module reports no change, and loses its errors\<close>

text \<open>A key of the result that the actions leave alone.\<close>

definition leaves_key :: "string \<Rightarrow> 's facts_world \<Rightarrow> 's facts_world \<Rightarrow> bool" where
  "leaves_key k w w' \<longleftrightarrow> map_of (fw_result w') k = map_of (fw_result w) k"

interpretation leaves: effect_frame "leaves_key k" for k
  by unfold_locales (simp_all add: leaves_key_def)

lemma leaves_ask: "keeps (leaves_key k) (ask_engine f)"
  by (simp add: keeps_def ask_engine_def leaves_key_def split: prod.splits)

lemma leaves_set: "l \<noteq> k \<Longrightarrow> keeps (leaves_key k) (set_result l v)"
  unfolding set_result_def by (rule leaves.keeps_modify) (simp add: leaves_key_def)

lemma leaves_put: "l \<noteq> k \<Longrightarrow> keeps (leaves_key k) (put_fact l n v)"
  unfolding put_fact_def by (rule leaves.keeps_modify) (simp add: leaves_key_def)

lemmas leaves_rules = leaves.keeps_rules leaves_ask leaves_set leaves_put

lemma actions_leave_changed: "keeps (leaves_key ''changed'') (facts_action_of C action names)"
  by (cases action)
    (auto simp: get_containers_def get_containers_env_def get_containers_state_def get_containers_names_def
      get_volumes_def collect_container_def env_of_def state_of_def volume_of_def get_container_info_def
      split: prod.splits intro!: leaves_rules)

lemma actions_leave_result: "keeps (leaves_key ''result'') (facts_action_of C action names)"
  by (cases action)
    (auto simp: get_containers_def get_containers_env_def get_containers_state_def get_containers_names_def
      get_volumes_def collect_container_def env_of_def state_of_def volume_of_def get_container_info_def
      split: prod.splits intro!: leaves_rules)

text \<open>
  When an action is left by an exception, the module dies of a TypeError in its own handler:
  it passes \<open>changed\<close> to \<open>fail_json\<close> twice, so that the failure is never reported in JSON.  When
  an action returns, the module exits and reports no change.
\<close>

lemma facts_main_ends:
  assumes "fc_connect C s = (Inr (), s')"
    and "facts_action_of C action names \<lparr>fw_engine = s', fw_result = [(''changed'', PyBool False)]\<rparr> = (r, w)"
  shows "case r of
      Inr _ \<Rightarrow> (\<exists>facts. facts_main C True action names s = Exits facts \<and> dget facts ''changed'' = PyBool False
        \<and> dget facts ''result'' = PyBool False)
    | Inl e \<Rightarrow> \<not> is_system_exit e \<longrightarrow> facts_main C True action names s = Crashes TypeError"
proof -
  have changed: "map_of (fw_result w) ''changed'' = Some (PyBool False)"
    using keepsD [OF actions_leave_changed assms(2)] by (simp add: leaves_key_def)
  have result: "map_of (fw_result w) ''result'' = None"
    using keepsD [OF actions_leave_result assms(2)] by (simp add: leaves_key_def)
  show ?thesis
  proof (cases r)
    case (Inl e)
    then show ?thesis using assms changed
      by (cases e) (simp_all add: facts_main_def fail_with_result_def call_with_def in_dict_iff)
  next
    case (Inr u)
    then show ?thesis using assms changed result
      by (simp add: facts_main_def call_with_def in_dict_iff dget_def)
  qed
qed

section \<open>The facts\<close>

lemma remap_env_join: "CHR ''='' \<notin> set k \<Longrightarrow> remap_env (k @ ''='' @ v) = (k, v)"
  by (simp add: remap_env_def split_once_append)

lemma update_fresh: "k \<notin> set (map fst d) \<Longrightarrow> AList.update k v d = d @ [(k, v)]"
  by (induction d) auto

lemma remap_fold:
  "wf_dict (d @ e) \<Longrightarrow> list_all (\<lambda>(k, v). CHR ''='' \<notin> set k) e \<Longrightarrow>
   fold (\<lambda>env d. AList.update (fst (remap_env env)) (snd (remap_env env)) d) (map (\<lambda>(k, v). k @ ''='' @ v) e) d = d @ e"
proof (induction e arbitrary: d)
  case (Cons kv e)
  obtain k v where kv: "kv = (k, v)" by fastforce
  have "k \<notin> set (map fst d)" using Cons.prems(1) by (auto simp: wf_dict_def kv)
  moreover have "wf_dict ((d @ [(k, v)]) @ e)" using Cons.prems(1) by (simp add: kv)
  ultimately show ?case
    using Cons.IH [of "d @ [(k, v)]"] Cons.prems(2) remap_env_join [of k v] by (simp add: kv update_fresh)
qed simp

text \<open>
  An environment written as \<open>key=value\<close> entries is read back, values with equals signs included.
\<close>

lemma remap_envs_reads_back:
  "wf_dict e \<Longrightarrow> list_all (\<lambda>(k, v). CHR ''='' \<notin> set k) e \<Longrightarrow> remap_envs (map (\<lambda>(k, v). k @ ''='' @ v) e) = e"
  using remap_fold [of "[]" e] by (simp add: remap_envs_def)

lemma remap_envs_reads_back_witness: "remap_envs [''OPTS=a=b'', ''EMPTY=''] = [(''OPTS'', ''a=b''), (''EMPTY'', [])]"
  using remap_envs_reads_back [of "[(''OPTS'', ''a=b''), (''EMPTY'', [])]"] by simp

text \<open>An engine that lists two containers, one of them with a health log, and an engine that fails.\<close>

definition demo_attrs :: "string \<Rightarrow> pyobj" where
  "demo_attrs i = (if i = ''1'' then [(''State'', PyDict [(''Health'', PyDict [(''Status'', PyStr ''ok''), (''Log'', PyList [])])])]
     else [(''State'', PyDict [])])"

definition demo_facts :: "pyexn option \<Rightarrow> unit facts_client" where
  "demo_facts e = \<lparr>
     fc_connect = (\<lambda>s. (Inr (), s)),
     fc_list = (\<lambda>s. (case e of Some e \<Rightarrow> Inl e | None \<Rightarrow> Inr [(''1'', ''nova''), (''2'', ''redis'')], s)),
     fc_reload = (\<lambda>i s. (Inr (if i = ''1'' then ''nova'' else ''redis'', demo_attrs i), s)),
     fc_get = (\<lambda>n s. (Inl (APIError 404), s)),
     fc_volumes = (\<lambda>s. (Inr [], s))\<rparr>"

lemma facts_main_ends_witness:
  "facts_main (demo_facts (Some (APIError 500))) True GetContainersNames [] () = Crashes TypeError"
proof -
  let ?w = "\<lparr>fw_engine = (), fw_result = [(''changed'', PyBool False)]\<rparr>"
  have run: "facts_action_of (demo_facts (Some (APIError 500))) GetContainersNames [] ?w = (Inl (APIError 500), ?w)"
    by (simp add: get_containers_names_def bnd_def ask_engine_def demo_facts_def)
  from facts_main_ends [OF _ run, of "()"] show ?thesis by (simp add: demo_facts_def)
qed

definition wanted :: "string list \<Rightarrow> string \<Rightarrow> bool" where
  "wanted names n \<longleftrightarrow> names = [] \<or> n \<in> set names"

lemma collect_run:
  assumes "\<And>c. c \<in> set cs \<Longrightarrow> fc_reload C (fst c) s = (Inr (nm (fst c), attrs (fst c)), s)"
    and "\<And>c. c \<in> set cs \<Longrightarrow> wanted names (nm (fst c)) \<Longrightarrow> drop_health_log (attrs (fst c)) = Inr (clean (fst c))"
    and "distinct (map fst d @ map (nm \<circ> fst) cs)"
    and "fw_engine w = s" and "dget (fw_result w) ''containers'' = PyDict d"
  shows "\<exists>w'. for_io cs (collect_container C names) w = (Inr (), w') \<and> dget (fw_result w') ''containers'' =
    PyDict (d @ map (\<lambda>c. (nm (fst c), PyDict (clean (fst c)))) (filter (\<lambda>c. wanted names (nm (fst c))) cs))"
  using assms
proof (induction cs arbitrary: d w)
  case Nil
  then show ?case by (simp add: return_run)
next
  case (Cons c cs)
  have reload: "ask_engine (fc_reload C (fst c)) w = (Inr (nm (fst c), attrs (fst c)), w)"
    using Cons.prems(1) [of c] Cons.prems(4) by (auto simp: ask_engine_def)
  let ?next = "for_io cs (collect_container C names)"
  show ?case
  proof (cases "wanted names (nm (fst c))")
    case False
    then have "collect_container C names c w = (Inr (), w)"
      using reload by (simp add: collect_container_def wanted_def io_run)
    moreover have "\<exists>w'. ?next w = (Inr (), w') \<and> dget (fw_result w') ''containers'' =
        PyDict (d @ map (\<lambda>c. (nm (fst c), PyDict (clean (fst c)))) (filter (\<lambda>c. wanted names (nm (fst c))) cs))"
      using Cons.prems by (intro Cons.IH) auto
    ultimately show ?thesis using False by (simp add: io_run)
  next
    case True
    let ?d = "d @ [(nm (fst c), PyDict (clean (fst c)))]"
    let ?w = "w\<lparr>fw_result := AList.update ''containers'' (PyDict ?d) (fw_result w)\<rparr>"
    have fresh: "nm (fst c) \<notin> set (map fst d)" using Cons.prems(3) by auto
    have "collect_container C names c w = (Inr (), ?w)"
      using reload True Cons.prems(2) [of c] Cons.prems(5) fresh
      by (auto simp: collect_container_def wanted_def io_run lift_sum_def put_fact_def update_fresh)
    moreover have "\<exists>w'. ?next ?w = (Inr (), w') \<and> dget (fw_result w') ''containers'' =
        PyDict (?d @ map (\<lambda>c. (nm (fst c), PyDict (clean (fst c)))) (filter (\<lambda>c. wanted names (nm (fst c))) cs))"
      using Cons.prems by (intro Cons.IH) (auto simp: dget_def)
    ultimately show ?thesis using True by (simp add: io_run)
  qed
qed

text \<open>
  The facts about containers are the attributes of the listed containers of the given names
  (of all of them without names), in the order of the list and without their health logs.
\<close>

lemma containers_collected:
  assumes "fc_list C (fw_engine w) = (Inr cs, s)"
    and "\<And>c. c \<in> set cs \<Longrightarrow> fc_reload C (fst c) s = (Inr (nm (fst c), attrs (fst c)), s)"
    and "\<And>c. c \<in> set cs \<Longrightarrow> wanted names (nm (fst c)) \<Longrightarrow> drop_health_log (attrs (fst c)) = Inr (clean (fst c))"
    and "distinct (map (nm \<circ> fst) cs)"
  shows "\<exists>w'. get_containers C names w = (Inr (), w') \<and> dget (fw_result w') ''containers'' =
    PyDict (map (\<lambda>c. (nm (fst c), PyDict (clean (fst c)))) (filter (\<lambda>c. wanted names (nm (fst c))) cs))"
proof -
  let ?w = "w\<lparr>fw_result := AList.update ''containers'' (PyDict []) (fw_result w), fw_engine := s\<rparr>"
  have "get_containers C names w = for_io cs (collect_container C names) ?w"
    using assms(1) by (simp add: get_containers_def set_result_def io_run ask_engine_def bnd_def modify_io_def)
  moreover have "\<exists>w'. for_io cs (collect_container C names) ?w = (Inr (), w') \<and> dget (fw_result w') ''containers'' =
    PyDict ([] @ map (\<lambda>c. (nm (fst c), PyDict (clean (fst c)))) (filter (\<lambda>c. wanted names (nm (fst c))) cs))"
    using assms(2-4) by (intro collect_run) (auto simp: dget_def)
  ultimately show ?thesis by simp
qed

lemma containers_collected_witness:
  "\<exists>w'. get_containers (demo_facts None) [''nova''] \<lparr>fw_engine = (), fw_result = []\<rparr> = (Inr (), w')
    \<and> dget (fw_result w') ''containers'' =
        PyDict [(''nova'', PyDict [(''State'', PyDict [(''Health'', PyDict [(''Status'', PyStr ''ok'')])])])]"
  using containers_collected [where C = "demo_facts None" and w = "\<lparr>fw_engine = (), fw_result = []\<rparr>" and names = "[''nova'']"
      and cs = "[(''1'', ''nova''), (''2'', ''redis'')]" and s = "()" and attrs = demo_attrs
      and nm = "\<lambda>i. if i = ''1'' then ''nova'' else ''redis''"
      and clean = "\<lambda>i. if i = ''1'' then [(''State'', PyDict [(''Health'', PyDict [(''Status'', PyStr ''ok'')])])] else [(''State'', PyDict [])]"]
  by (simp add: demo_facts_def demo_attrs_def drop_health_log_def wanted_def)

end
