(* ===== verification/Toolbox.thy ===== *)
theory Toolbox
  imports PyVal
begin

text \<open>
  The toolbox module, \<open>ansible/library/kolla_toolbox.py\<close>: it runs another Ansible module inside
  the kolla_toolbox container and returns its result.  The engine's client is a record of
  functions over its state; the world adds a log of the commands executed.  \<open>json.loads\<close> is the
  parameter \<open>loads\<close>, with None for a JSONDecodeError; \<open>json.dumps\<close> is modelled.
\<close>

section \<open>\<open>json.dumps\<close>\<close>

definition hex_digit :: "nat \<Rightarrow> char" where
  "hex_digit n = ''0123456789abcdef'' ! n"

definition json_char :: "char \<Rightarrow> string" where
  "json_char c =
     (if c = CHR 0x22 then [CHR 0x5C, CHR 0x22]
      else if c = CHR 0x5C then [CHR 0x5C, CHR 0x5C]
      else if c = CHR 0x0A then [CHR 0x5C, CHR ''n'']
      else if c = CHR 0x0D then [CHR 0x5C, CHR ''r'']
      else if c = CHR 0x09 then [CHR 0x5C, CHR ''t'']
      else if c = CHR 0x0C then [CHR 0x5C, CHR ''f'']
      else if c = CHR 0x08 then [CHR 0x5C, CHR ''b'']
      else if (of_char c :: nat) < 32 then
        CHR 0x5C # ''u00'' @ [hex_digit (of_char c div 16), hex_digit (of_char c mod 16)]
      else [c])"

definition json_string :: "string \<Rightarrow> string" where
  "json_string s = CHR 0x22 # concat (map json_char s) @ [CHR 0x22]"

fun json_dumps :: "pyval \<Rightarrow> string" where
  "json_dumps PyNone = ''null''"
| "json_dumps (PyBool b) = (if b then ''true'' else ''false'')"
| "json_dumps (PyInt i) = str_of_int i"
| "json_dumps (PyStr s) = json_string s"
| "json_dumps (PyList xs) = ''['' @ join_with '', '' (map json_dumps xs) @ '']''"
| "json_dumps (PyDict d) = ''{'' @ join_with '', '' (map (\<lambda>(k, v). json_string k @ '': '' @ json_dumps v) d) @ ''}''"

section \<open>The engine\<close>

text \<open>
  \<open>tc_list\<close>: the containers that match the name and are running; \<open>tc_exec\<close>: a command in a
  container with an environment, for a user, on a terminal, and its output.
\<close>

record 's toolbox_client =
  tc_list :: "'s \<Rightarrow> (pyexn + string list) \<times> 's"
  tc_exec :: "string \<Rightarrow> string list \<Rightarrow> (string, string) pydict \<Rightarrow> string option \<Rightarrow> 's \<Rightarrow> (pyexn + string) \<times> 's"

record toolbox_exec =
  te_container :: string
  te_command :: "string list"
  te_environment :: "(string, string) pydict"
  te_user :: "string option"

record 's toolbox_world =
  tw_engine :: 's
  tw_execs :: "toolbox_exec list"

record toolbox_params =
  tp_engine :: string
  tp_module_name :: string
  tp_module_args :: "pyobj option"
  tp_module_extra_vars :: "pyobj option"
  tp_user :: "string option"
  tp_api_version :: string
  tp_timeout :: int
  tp_check_mode :: bool

section \<open>The worker\<close>

definition get_toolbox_container :: "'s toolbox_client \<Rightarrow> ('s toolbox_world, string) io" where
  "get_toolbox_container C =
     bnd (\<lambda>w. case tc_list C (tw_engine w) of (r, s) \<Rightarrow> (r, w\<lparr>tw_engine := s\<rparr>)) (\<lambda>cont.
     case cont of
       [] \<Rightarrow> raise_io (FailJson ''kolla_toolbox container is missing or not running!'')
     | c # _ \<Rightarrow> return_io c)"

definition format_pair :: "string \<times> pyval \<Rightarrow> string" where
  "format_pair kv =
     (case kv of (key, value) \<Rightarrow>
        key @ CHR ''='' # CHR 0x27 # (case value of PyDict _ \<Rightarrow> json_dumps value | _ \<Rightarrow> py_str value) @ [CHR 0x27])"

definition format_module_args :: "pyobj option \<Rightarrow> pyexn + string list" where
  "format_module_args module_args =
     (case module_args of None \<Rightarrow> Inl AttributeError | Some d \<Rightarrow> Inr (map format_pair d))"

definition generate_command :: "toolbox_params \<Rightarrow> pyexn + string list" where
  "generate_command P =
     (case format_module_args (tp_module_args P) of
        Inl e \<Rightarrow> Inl e
      | Inr args \<Rightarrow>
          (case format_module_args (tp_module_extra_vars P) of
             Inl e \<Rightarrow> Inl e
           | Inr extra_vars \<Rightarrow>
               Inr ([''ansible'', ''localhost'', ''-m'', tp_module_name P]
                 @ (if args \<noteq> [] then [''-a'', join_with '' '' args] else [])
                 @ (if extra_vars \<noteq> [] then [''-e'', join_with '' '' extra_vars] else [])
                 @ (if tp_check_mode P then [''--check''] else []))))"

definition run_toolbox_command ::
  "'s toolbox_client \<Rightarrow> string \<Rightarrow> string list \<Rightarrow> (string, string) pydict \<Rightarrow> string option \<Rightarrow> ('s toolbox_world, string) io" where
  "run_toolbox_command C kolla_toolbox command environment user =
     catch_io
       (\<lambda>w. case tc_exec C kolla_toolbox command environment user (tw_engine w) of
          (r, s) \<Rightarrow> (r, w\<lparr>tw_engine := s, tw_execs := tw_execs w @
            [\<lparr>te_container = kolla_toolbox, te_command = command, te_environment = environment, te_user = user\<rparr>]\<rparr>))
       is_api_error
       (\<lambda>_. raise_io (FailJson ''Container engine client encountered API error''))"

text \<open>\<open>v[0]\<close>; the keys of a JSON object are strings.\<close>

fun val_first :: "pyval \<Rightarrow> pyexn + pyval" where
  "val_first (PyList []) = Inl IndexError"
| "val_first (PyList (x # _)) = Inr x"
| "val_first (PyStr []) = Inl IndexError"
| "val_first (PyStr (c # _)) = Inr (PyStr [c])"
| "val_first (PyDict _) = Inl KeyError"
| "val_first _ = Inl TypeError"

definition first_task_result :: "pyval \<Rightarrow> pyexn + pyval" where
  "first_task_result output =
     (case val_item output ''plays'' of Inl e \<Rightarrow> Inl e
      | Inr plays \<Rightarrow> (case val_first plays of Inl e \<Rightarrow> Inl e
      | Inr play \<Rightarrow> (case val_item play ''tasks'' of Inl e \<Rightarrow> Inl e
      | Inr tasks \<Rightarrow> (case val_first tasks of Inl e \<Rightarrow> Inl e
      | Inr task \<Rightarrow> val_path task [''hosts'', ''localhost'']))))"

fun pop_no_log :: "pyval \<Rightarrow> pyexn + pyobj" where
  "pop_no_log (PyDict d) = Inr (AList.delete ''_ansible_no_log'' d)"
| "pop_no_log (PyList _) = Inl TypeError"
| "pop_no_log _ = Inl AttributeError"

definition process_container_output :: "(string \<Rightarrow> pyval option) \<Rightarrow> string \<Rightarrow> pyexn + pyobj" where
  "process_container_output loads output_raw =
     (case loads output_raw of
        None \<Rightarrow> Inl (FailJson ''Parsing kolla_toolbox JSON output failed'')
      | Some output_json \<Rightarrow>
          (case (case first_task_result output_json of Inl e \<Rightarrow> Inl e | Inr result \<Rightarrow> pop_no_log result) of
             Inl KeyError \<Rightarrow> Inl (FailJson ''Ansible JSON output has unexpected format'')
           | r \<Rightarrow> r))"

definition toolbox_environment :: "(string, string) pydict" where
  "toolbox_environment = [(''ANSIBLE_STDOUT_CALLBACK'', ''json''), (''ANSIBLE_LOAD_CALLBACK_PLUGINS'', ''True'')]"

definition toolbox_worker_main ::
  "'s toolbox_client \<Rightarrow> (string \<Rightarrow> pyval option) \<Rightarrow> toolbox_params \<Rightarrow> ('s toolbox_world, pyobj) io" where
  "toolbox_worker_main C loads P =
     bnd (get_toolbox_container C) (\<lambda>kolla_toolbox.
     bnd (lift_sum (generate_command P)) (\<lambda>command.
     bnd (run_toolbox_command C kolla_toolbox command toolbox_environment (tp_user P)) (\<lambda>output_raw.
     lift_sum (process_container_output loads output_raw))))"

section \<open>The module\<close>

text \<open>The arguments of the client's constructor; \<open>auto\<close> is not passed on to podman.\<close>

record client_options =
  co_library :: string
  co_base_url :: string
  co_version :: "string option"
  co_timeout :: int

definition client_options_of :: "toolbox_params \<Rightarrow> client_options" where
  "client_options_of P =
     (if tp_engine P = ''docker'' then
        \<lparr>co_library = ''docker'', co_base_url = ''http+unix:/var/run/docker.sock'',
         co_version = Some (tp_api_version P), co_timeout = tp_timeout P\<rparr>
      else
        \<lparr>co_library = ''podman'', co_base_url = ''http+unix:/run/podman/podman.sock'',
         co_version = (if tp_api_version P = ''auto'' then None else Some (tp_api_version P)),
         co_timeout = tp_timeout P\<rparr>)"

definition create_container_client ::
  "(string \<Rightarrow> bool) \<Rightarrow> (client_options \<Rightarrow> pyexn + 's toolbox_client) \<Rightarrow> toolbox_params \<Rightarrow> pyexn + 's toolbox_client" where
  "create_container_client importable connect P =
     (let options = client_options_of P in
      if \<not> importable (co_library options)
      then Inl (FailJson (''The '' @ co_library options @ '' library could not be imported!''))
      else connect options)"

text \<open>The client is made outside of the handler.\<close>

definition toolbox_main ::
  "(string \<Rightarrow> bool) \<Rightarrow> (client_options \<Rightarrow> pyexn + 's toolbox_client) \<Rightarrow> (string \<Rightarrow> pyval option) \<Rightarrow> toolbox_params
   \<Rightarrow> 's toolbox_world \<Rightarrow> module_end \<times> 's toolbox_world" where
  "toolbox_main importable connect loads P w =
     (case create_container_client importable connect P of
        Inl (FailJson _) \<Rightarrow> (Fails [], w)
      | Inl e \<Rightarrow> (Crashes e, w)
      | Inr C \<Rightarrow>
          (case toolbox_worker_main C loads P w of
             (Inr result, w) \<Rightarrow> (Exits result, w)
           | (Inl (FailJson _), w) \<Rightarrow> (Fails [], w)
           | (Inl e, w) \<Rightarrow> (if is_system_exit e then Crashes e else Fails [(''changed'', PyBool True)], w)))"

section \<open>One command, as generated\<close>

definition executed :: "toolbox_exec list \<Rightarrow> 's toolbox_world \<Rightarrow> 's toolbox_world \<Rightarrow> bool" where
  "executed ts w w' \<longleftrightarrow> tw_execs w' = tw_execs w @ ts"

lemma get_toolbox_container_run:
  assumes "get_toolbox_container C w = (r, w')"
  shows "tw_execs w' = tw_execs w \<and> (\<forall>c. r = Inr c \<longrightarrow> (\<exists>cs s. tc_list C (tw_engine w) = (Inr (c # cs), s)))"
proof -
  obtain q s where l: "tc_list C (tw_engine w) = (q, s)" by fastforce
  show ?thesis using assms
    by (auto simp: get_toolbox_container_def bnd_def raise_io_def return_io_def l split: sum.splits list.splits)
qed

lemma run_toolbox_command_execs:
  "run_toolbox_command C c cmd env user w = (r, w') \<Longrightarrow>
     tw_execs w' = tw_execs w @ [\<lparr>te_container = c, te_command = cmd, te_environment = env, te_user = user\<rparr>]"
  by (auto simp: run_toolbox_command_def catch_io_def raise_io_def split: prod.splits sum.splits if_splits)

lemma pop_no_log_key: "pop_no_log v = Inr r \<Longrightarrow> \<not> in_dict ''_ansible_no_log'' r"
  by (cases v) (auto simp: in_dict_iff delete_conv')

lemma process_container_output_key: "process_container_output loads s = Inr r \<Longrightarrow> \<not> in_dict ''_ansible_no_log'' r"
  by (auto simp: process_container_output_def split: option.splits sum.splits pyexn.splits dest: pop_no_log_key)

definition ordered_exec ::
  "('s toolbox_client) \<Rightarrow> toolbox_params \<Rightarrow> 's toolbox_world \<Rightarrow> toolbox_exec \<Rightarrow> bool" where
  "ordered_exec C P w t \<longleftrightarrow>
     (\<exists>cs s. tc_list C (tw_engine w) = (Inr (te_container t # cs), s))
     \<and> generate_command P = Inr (te_command t) \<and> te_user t = tp_user P
     \<and> te_environment t = toolbox_environment
     \<and> (tp_check_mode P \<longrightarrow> last (te_command t) = ''--check'')"

lemma generate_command_check: "generate_command P = Inr cmd \<Longrightarrow> tp_check_mode P \<Longrightarrow> last cmd = ''--check''"
  by (auto simp: generate_command_def split: sum.splits)

lemma toolbox_worker_execs:
  assumes "toolbox_worker_main C loads P w = (r, w')"
  shows "(executed [] w w' \<and> (\<exists>e. r = Inl e)) \<or>
    (\<exists>t. executed [t] w w' \<and> ordered_exec C P w t \<and> (\<forall>d. r = Inr d \<longrightarrow> \<not> in_dict ''_ansible_no_log'' d))"
proof -
  obtain q v where g: "get_toolbox_container C w = (q, v)" by fastforce
  note v = get_toolbox_container_run [OF g]
  show ?thesis
  proof (cases q)
    case (Inl e)
    then show ?thesis using assms g v by (auto simp: toolbox_worker_main_def io_run executed_def)
  next
    case (Inr c)
    show ?thesis
    proof (cases "generate_command P")
      case (Inl e)
      then show ?thesis using assms g v Inr by (auto simp: toolbox_worker_main_def io_run executed_def lift_sum_def)
    next
      case cmd: (Inr cmd)
      obtain res u where run: "run_toolbox_command C c cmd toolbox_environment (tp_user P) v = (res, u)" by fastforce
      let ?t = "\<lparr>te_container = c, te_command = cmd, te_environment = toolbox_environment, te_user = tp_user P\<rparr>"
      have t: "executed [?t] w u" "ordered_exec C P w ?t"
        using run_toolbox_command_execs [OF run] v Inr cmd generate_command_check [OF cmd]
        by (auto simp: executed_def ordered_exec_def)
      have rest: "toolbox_worker_main C loads P w =
          (case res of Inl e \<Rightarrow> (Inl e, u) | Inr out \<Rightarrow> (process_container_output loads out, u))"
        using g Inr cmd run
        by (cases res) (simp_all add: toolbox_worker_main_def io_run lift_sum_def raise_io_def return_io_def split: sum.split)
      have "w' = u \<and> (\<forall>d. r = Inr d \<longrightarrow> \<not> in_dict ''_ansible_no_log'' d)"
        using assms rest by (cases res) (auto dest: process_container_output_key)
      then show ?thesis using t by blast
    qed
  qed
qed

text \<open>
  C25. A run of the module executes at most one command: the generated one, in the first running
  toolbox container, as the given user, with \<open>--check\<close> in check mode.  It exits normally only after
  that, and what it returns does not carry the flag that would hide the result from the log.
\<close>

theorem toolbox_executes_once:
  assumes "toolbox_main importable connect loads P w = (e, w')"
  shows "(executed [] w w' \<and> (\<forall>r. e \<noteq> Exits r)) \<or>
    (\<exists>C t. connect (client_options_of P) = Inr C \<and> executed [t] w w' \<and> ordered_exec C P w t
      \<and> (\<forall>r. e = Exits r \<longrightarrow> \<not> in_dict ''_ansible_no_log'' r))"
proof (cases "create_container_client importable connect P")
  case (Inl x)
  then show ?thesis using assms by (cases x) (auto simp: toolbox_main_def executed_def)
next
  case (Inr C)
  then have C: "connect (client_options_of P) = Inr C"
    by (auto simp: create_container_client_def Let_def split: if_splits)
  obtain r v where run: "toolbox_worker_main C loads P w = (r, v)" by fastforce
  have e: "w' = v \<and> (\<forall>d. e = Exits d \<longrightarrow> r = Inr d)"
    using assms Inr run by (auto simp: toolbox_main_def split: sum.splits pyexn.splits if_splits)
  show ?thesis using toolbox_worker_execs [OF run] e C by auto
qed

section \<open>Quoting\<close>

text \<open>A reader of the arguments: key, equals sign, a value between single quotes, a space.\<close>

function read_pairs :: "string \<Rightarrow> (string \<times> string) list option" where
  "read_pairs s =
     (case split_once (CHR ''='') s of
        Some (key, q # rest) \<Rightarrow>
          (if q \<noteq> CHR 0x27 then None
           else case split_once (CHR 0x27) rest of
             Some (value, []) \<Rightarrow> Some [(key, value)]
           | Some (value, sp # rest) \<Rightarrow>
               (if sp = CHR '' '' then map_option (Cons (key, value)) (read_pairs rest) else None)
           | None \<Rightarrow> None)
      | _ \<Rightarrow> None)"
  by pat_completeness auto
termination
  by (relation "measure length") (auto dest!: split_once_SomeD)

declare read_pairs.simps [simp del]

definition arg_text :: "pyval \<Rightarrow> string" where
  "arg_text v = (case v of PyDict _ \<Rightarrow> json_dumps v | _ \<Rightarrow> py_str v)"

lemma format_pair_text: "format_pair (k, v) = k @ CHR ''='' # CHR 0x27 # arg_text v @ [CHR 0x27]"
  by (simp add: format_pair_def arg_text_def split: pyval.split)

lemma read_format_pair:
  assumes "CHR ''='' \<notin> set k" "CHR 0x27 \<notin> set (arg_text v)"
  shows "read_pairs (format_pair (k, v)) = Some [(k, arg_text v)]"
    and "read_pairs (format_pair (k, v) @ CHR '' '' # s) = map_option (Cons (k, arg_text v)) (read_pairs s)"
  using split_once_append [OF assms(1)] split_once_append [OF assms(2)]
  by (simp_all add: format_pair_text read_pairs.simps [of "k @ _"])

text \<open>
  Module arguments whose values contain no single quote are read back from the command, each
  as the text of its value (JSON for a dict).
\<close>

lemma module_args_read_back:
  assumes "d \<noteq> []" and "list_all (\<lambda>(k, v). CHR ''='' \<notin> set k \<and> CHR 0x27 \<notin> set (arg_text v)) d"
  shows "read_pairs (join_with '' '' (map format_pair d)) = Some (map (\<lambda>(k, v). (k, arg_text v)) d)"
  using assms
proof (induction d rule: induct_list012)
  case (2 kv)
  then show ?case by (cases kv) (simp add: read_format_pair)
next
  case (3 kv kw d)
  then show ?case by (cases kv) (simp add: read_format_pair)
qed simp

lemma module_args_read_back_witness:
  "read_pairs (join_with '' '' (map format_pair [(''path'', PyStr ''/tmp/a''), (''auth'', PyDict [(''n'', PyNone)])]))
   = Some [(''path'', ''/tmp/a''), (''auth'', json_dumps (PyDict [(''n'', PyNone)]))]"
  using module_args_read_back [of "[(''path'', PyStr ''/tmp/a''), (''auth'', PyDict [(''n'', PyNone)])]"]
  by (simp add: arg_text_def json_string_def json_char_def)

text \<open>A value with a single quote is not escaped: it can end its own quotes and become other arguments.\<close>

lemma quotes_collide:
  "generate_command (P\<lparr>tp_module_args := Some [(''name'', PyStr (''a'' @ [CHR 0x27] @ '' state='' @ [CHR 0x27] @ ''absent''))]\<rparr>)
   = generate_command (P\<lparr>tp_module_args := Some [(''name'', PyStr ''a''), (''state'', PyStr ''absent'')]\<rparr>)"
  by (simp add: generate_command_def format_module_args_def format_pair_def split: sum.split)

section \<open>A run\<close>

definition demo_toolbox :: "unit toolbox_client" where
  "demo_toolbox = \<lparr>tc_list = (\<lambda>s. (Inr [''kolla_toolbox''], s)), tc_exec = (\<lambda>c cmd env user s. (Inr ''out'', s))\<rparr>"

definition demo_params :: toolbox_params where
  "demo_params = \<lparr>tp_engine = ''podman'', tp_module_name = ''ping'', tp_module_args = Some [],
     tp_module_extra_vars = Some [], tp_user = None, tp_api_version = ''auto'', tp_timeout = 180, tp_check_mode = True\<rparr>"

definition demo_output :: pyval where
  "demo_output = PyDict [(''plays'', PyList [PyDict [(''tasks'', PyList [PyDict [(''hosts'',
     PyDict [(''localhost'', PyDict [(''_ansible_no_log'', PyBool False), (''ping'', PyStr ''pong'')])])]])]])]"

lemma demo_toolbox_run:
  "toolbox_main (\<lambda>_. True) (\<lambda>_. Inr demo_toolbox) (\<lambda>_. Some demo_output) demo_params \<lparr>tw_engine = (), tw_execs = []\<rparr>
   = (Exits [(''ping'', PyStr ''pong'')],
      \<lparr>tw_engine = (), tw_execs = [\<lparr>te_container = ''kolla_toolbox'',
         te_command = [''ansible'', ''localhost'', ''-m'', ''ping'', ''--check''],
         te_environment = toolbox_environment, te_user = None\<rparr>]\<rparr>)"
  by (simp add: toolbox_main_def create_container_client_def toolbox_worker_main_def get_toolbox_container_def
      generate_command_def format_module_args_def run_toolbox_command_def catch_io_def process_container_output_def
      first_task_result_def demo_toolbox_def demo_params_def demo_output_def io_run lift_sum_def Let_def)

theorem toolbox_executes_once_witness:
  "\<exists>t. ordered_exec demo_toolbox demo_params \<lparr>tw_engine = (), tw_execs = []\<rparr> t
     \<and> last (te_command t) = ''--check'' \<and> \<not> in_dict ''_ansible_no_log'' [(''ping'', PyStr ''pong'')]"
proof -
  obtain t where t: "ordered_exec demo_toolbox demo_params \<lparr>tw_engine = (), tw_execs = []\<rparr> t"
      "\<not> in_dict ''_ansible_no_log'' [(''ping'', PyStr ''pong'')]"
    using toolbox_executes_once [OF demo_toolbox_run] by (auto simp: executed_def)
  have "tp_check_mode demo_params" by (simp add: demo_params_def)
  then have "last (te_command t) = ''--check''" using t(1) by (simp add: ordered_exec_def)
  then show ?thesis using t by blast
qed

end
