(* ===== verification/InstallPaths.thy ===== *)
theory InstallPaths
  imports Paths
begin

text \<open>
  Where kolla-ansible finds its data files: \<open>get_data_files_path\<close> and \<open>_get_base_path\<close> of
  \<open>kolla_ansible/utils.py\<close>.  What the code asks of the machine is a record: the environment
  variable, the path of the installed distribution's metadata and the JSON of its
  \<open>direct_url.json\<close> (None if there is no such file), the first lines of the egg links, and the
  real path of the module file.
\<close>

record install =
  in_override :: "string option"
  in_distribution :: bool
  in_direct_url :: "pyval option"
  in_egg_links :: "string list"
  in_module_file :: string

definition direct_url_if_editable :: "pyval option \<Rightarrow> pyexn + string option" where
  "direct_url_if_editable direct_url =
     (case direct_url of
        None \<Rightarrow> Inr None
      | Some content \<Rightarrow>
          (case val_get content ''dir_info'' of
             Inl e \<Rightarrow> Inl e
           | Inr PyNone \<Rightarrow> Inr None
           | Inr dir_info \<Rightarrow>
               (case val_get dir_info ''editable'' of
                  Inl e \<Rightarrow> Inl e
                | Inr editable \<Rightarrow>
                    (if \<not> truthy editable then Inr None
                     else case val_item content ''url'' of
                       Inl e \<Rightarrow> Inl e
                     | Inr (PyStr url) \<Rightarrow> Inr (if prefix ''file://'' url then Some (drop 7 url) else None)
                     | Inr _ \<Rightarrow> Inl AttributeError))))"

text \<open>Everything before the last component \<open>lib\<close>.\<close>

definition detect_install_prefix :: "string \<Rightarrow> string option" where
  "detect_install_prefix real_path =
     (let components = py_split (CHR ''/'') (normpath real_path)
      in if ''lib'' \<notin> set components then None
         else Some (join_with ''/'' (rev (tl (dropWhile (\<lambda>c. c \<noteq> ''lib'') (rev components))))))"

definition dirname :: "string \<Rightarrow> string" where
  "dirname p = (case rsplit_once (CHR ''/'') p of None \<Rightarrow> [] | Some (d, _) \<Rightarrow> (if list_all (\<lambda>c. c = CHR ''/'') d then d @ ''/''
          else rev (dropWhile (\<lambda>c. c = CHR ''/'') (rev d))))"

definition get_base_path :: "install \<Rightarrow> pyexn + string" where
  "get_base_path I =
     (if str_truthy (in_override I) then Inr (the (in_override I))
      else case (if in_distribution I then direct_url_if_editable (in_direct_url I) else Inr None) of
        Inl e \<Rightarrow> Inl e
      | Inr direct_url \<Rightarrow>
          (if str_truthy direct_url then Inr (the direct_url)
           else if in_egg_links I \<noteq> [] then Inr (py_strip (hd (in_egg_links I)))
           else if str_truthy (detect_install_prefix (in_module_file I))
           then Inr (path_join (path_join (the (detect_install_prefix (in_module_file I))) ''share'') ''kolla-ansible'')
           else Inr (path_join (dirname (in_module_file I)) ''..'')))"

definition get_data_files_path :: "install \<Rightarrow> string list \<Rightarrow> pyexn + string" where
  "get_data_files_path I relative_path = map_sum id (\<lambda>base. foldl path_join base relative_path) (get_base_path I)"

lemma detect_install_prefix_split:
  assumes "py_split (CHR ''/'') (normpath p) = pre @ ''lib'' # post" "''lib'' \<notin> set post"
  shows "detect_install_prefix p = Some (join_with ''/'' pre)"
proof -
  have "dropWhile (\<lambda>c. c \<noteq> ''lib'') (rev post @ ''lib'' # rev pre) = ''lib'' # rev pre"
    using assms(2) by (subst dropWhile_append2) auto
  then show ?thesis using assms by (simp add: detect_install_prefix_def)
qed

text \<open>
  The installation beside \<open>lib\<close>: without an override, an editable installation or an egg link, the
  data files of a module under \<open>prefix/lib\<close> are those under \<open>prefix/share/kolla-ansible\<close>.
\<close>

lemma data_files_of_prefix:
  assumes "\<not> str_truthy (in_override I)" "\<not> in_distribution I" "in_egg_links I = []"
    and "py_split (CHR ''/'') (normpath (in_module_file I)) = pre @ ''lib'' # post" "''lib'' \<notin> set post"
    and "join_with ''/'' pre \<noteq> []"
  shows "get_data_files_path I [''ansible'', f]
    = Inr (path_join (path_join (path_join (path_join (join_with ''/'' pre) ''share'') ''kolla-ansible'') ''ansible'') f)"
  using assms(1,2,3,6) detect_install_prefix_split [OF assms(4,5)]
  by (simp add: get_data_files_path_def get_base_path_def str_truthy_def)

end
