(* ===== verification/ModuleParams.thy ===== *)
theory ModuleParams
  imports PyVal
begin

text \<open>
  The kolla_container module's arguments (\<open>ansible/library/kolla_container.py\<close>): how
  \<open>generate_module\<close> merges the \<open>common_options\<close> dict, the module's own arguments and the
  defaults into \<open>module.params\<close>, and the typed view of the result that the workers read
  with \<open>self.params.get(...)\<close>.
\<close>

section \<open>\<open>generate_module\<close>\<close>

definition common_options_defaults :: pyobj where
  "common_options_defaults =
     [(''auth_email'', PyNone),
      (''auth_password'', PyNone),
      (''auth_registry'', PyNone),
      (''auth_username'', PyNone),
      (''environment'', PyNone),
      (''restart_policy'', PyNone),
      (''restart_retries'', PyInt 10),
      (''api_version'', PyStr ''auto''),
      (''graceful_timeout'', PyInt 10),
      (''client_timeout'', PyInt 120),
      (''container_engine'', PyStr ''docker'')]"

text \<open>\<open>str.isdigit\<close>, and the \<open>int()\<close> of such a string.\<close>

definition py_isdigit :: "string \<Rightarrow> bool" where
  "py_isdigit s \<longleftrightarrow> s \<noteq> [] \<and> list_all is_digit s"

definition digit_option :: "pyval \<Rightarrow> pyval" where
  "digit_option v =
     (case v of
        PyStr s \<Rightarrow> (if py_isdigit s then (case int_of_str s of Some i \<Rightarrow> PyInt i | None \<Rightarrow> v) else v)
      | _ \<Rightarrow> v)"

text \<open>One iteration of the loop over \<open>module.params.items()\<close>.\<close>

definition merge_arg :: "string \<Rightarrow> pyval \<Rightarrow> pyobj \<Rightarrow> pyobj" where
  "merge_arg k v new_args =
     (if v = PyNone then
        (case map_of common_options_defaults k of
           None \<Rightarrow> new_args
         | Some dflt \<Rightarrow>
             (case map_of new_args k of
                Some w \<Rightarrow> AList.update k (digit_option w) new_args
              | None \<Rightarrow> if dflt \<noteq> PyNone then AList.update k dflt new_args else new_args))
      else AList.update k v new_args)"

definition merge_args :: "pyobj \<Rightarrow> pyobj \<Rightarrow> pyobj" where
  "merge_args params new_args = fold (\<lambda>(k, v). merge_arg k v) params new_args"

text \<open>\<open>d.pop(k, dict()) or dict()\<close>, followed by its use as a dict.\<close>

definition dict_or_empty :: "pyval \<Rightarrow> pyexn + pyobj" where
  "dict_or_empty v =
     (case v of PyDict d \<Rightarrow> Inr d | _ \<Rightarrow> (if truthy v then Inl AttributeError else Inr []))"

definition drop_falsy :: "string \<Rightarrow> pyobj \<Rightarrow> pyobj" where
  "drop_falsy k d = (if truthy (dget d k) then d else AList.delete k d)"

definition generate_module :: "pyobj \<Rightarrow> pyexn + pyobj" where
  "generate_module params =
     (case dict_or_empty (dget params ''common_options'') of Inl e \<Rightarrow> Inl e | Inr common \<Rightarrow>
      (case dict_or_empty (dget params ''environment'') of Inl e \<Rightarrow> Inl e | Inr env_module \<Rightarrow>
       (let rest = AList.delete ''environment'' (AList.delete ''common_options'' params);
            new_args = merge_args rest common
        in case dict_or_empty (dget new_args ''environment'') of Inl e \<Rightarrow> Inl e | Inr env_common \<Rightarrow>
           (let new_args' = AList.update ''environment'' (PyDict (dict_update env_common env_module))
                              (AList.delete ''environment'' new_args)
            in Inr (drop_falsy ''ipc_mode'' (drop_falsy ''pid_mode'' new_args'))))))"

lemma dget_AList_delete: "dget (AList.delete k d) l = (if l = k then PyNone else dget d l)"
  by (simp add: dget_def delete_conv')

lemma map_of_AList_delete: "map_of (AList.delete k d) l = (if l = k then None else map_of d l)"
  by (simp add: delete_conv')

lemma map_of_drop_falsy:
  "map_of (drop_falsy k d) l = (if l = k \<and> \<not> truthy (dget d k) then None else map_of d l)"
  by (simp add: drop_falsy_def map_of_AList_delete)

lemma drop_falsy_truthy: "map_of (drop_falsy k d) k \<noteq> None \<longrightarrow> truthy (dget (drop_falsy k d) k)"
  by (simp add: drop_falsy_def map_of_AList_delete)

lemma drop_falsy_other: "l \<noteq> k \<Longrightarrow> map_of (drop_falsy k d) l = map_of d l"
  by (simp add: map_of_drop_falsy)

text \<open>What one argument contributes, given the common option of the same name.\<close>

definition merged_value :: "string \<Rightarrow> pyval \<Rightarrow> pyval option \<Rightarrow> pyval option" where
  "merged_value k v common =
     (if v \<noteq> PyNone then Some v
      else case map_of common_options_defaults k of
             None \<Rightarrow> common
           | Some dflt \<Rightarrow>
               (case common of Some w \<Rightarrow> Some (digit_option w)
                             | None \<Rightarrow> if dflt \<noteq> PyNone then Some dflt else None))"

lemma merge_arg_get:
  "map_of (merge_arg k v d) l = (if l = k then merged_value k v (map_of d k) else map_of d l)"
  by (auto simp: merge_arg_def merged_value_def split: option.splits)

lemma merge_args_get:
  "wf_dict params \<Longrightarrow>
   map_of (merge_args params d) l =
     (case map_of params l of None \<Rightarrow> map_of d l | Some v \<Rightarrow> merged_value l v (map_of d l))"
  unfolding merge_args_def
proof (induction params arbitrary: d)
  case (Cons kv params)
  obtain k v where kv: "kv = (k, v)" by fastforce
  from Cons.prems kv have "map_of params k = None"
    by (simp add: map_of_eq_None_iff)
  with Cons kv show ?case by (auto simp: merge_arg_get split: option.splits)
qed simp

lemma merge_args_env:
  "wf_dict params \<Longrightarrow> dget params ''environment'' = PyNone \<Longrightarrow> map_of params ''environment'' = None \<Longrightarrow>
   map_of (merge_args params d) ''environment'' = map_of d ''environment''"
  by (simp add: merge_args_get)

lemma wf_dict_delete [intro]: "wf_dict d \<Longrightarrow> wf_dict (AList.delete k d)"
  by (simp add: wf_dict_def distinct_delete)

lemma generate_module_out:
  assumes "generate_module params = Inr out"
    and "dict_or_empty (dget params ''common_options'') = Inr common"
  obtains e where "out = drop_falsy ''ipc_mode'' (drop_falsy ''pid_mode''
      (AList.update ''environment'' (PyDict e) (AList.delete ''environment''
        (merge_args (AList.delete ''environment'' (AList.delete ''common_options'' params)) common))))"
  using assms by (simp add: generate_module_def Let_def split: sum.splits) blast

section \<open>The parameters as the workers read them\<close>

record params =
  p_auth_username :: "string option"
  p_command :: "string option"
  p_container_engine :: "string option"
  p_detach :: bool
  p_labels :: pyobj
  p_name :: "string option"
  p_environment :: pyobj
  p_healthcheck :: pyobj
  p_image :: "string option"
  p_ipc_mode :: "string option"
  p_cap_add :: "string list"
  p_security_opt :: "string list"
  p_pid_mode :: "string option"
  p_cgroupns_mode :: "string option"
  p_privileged :: bool
  p_graceful_timeout :: "int option"
  p_remove_on_exit :: bool
  p_restart_policy :: "string option"
  p_restart_retries :: "int option"
  p_state :: string
  p_tmpfs :: "string list"
  p_volumes :: "string list"
  p_volumes_from :: "string list"
  p_dimensions :: pyobj
  p_tty :: bool
  p_client_timeout :: "int option"
  p_ignore_missing :: bool

definition get_str :: "pyobj \<Rightarrow> string \<Rightarrow> string option" where
  "get_str d k = (case map_of d k of Some (PyStr s) \<Rightarrow> Some s | _ \<Rightarrow> None)"

definition get_int :: "pyobj \<Rightarrow> string \<Rightarrow> int option" where
  "get_int d k = (case map_of d k of Some (PyInt i) \<Rightarrow> Some i | _ \<Rightarrow> None)"

definition get_bool :: "pyobj \<Rightarrow> string \<Rightarrow> bool" where
  "get_bool d k = truthy (dget d k)"

definition get_dict :: "pyobj \<Rightarrow> string \<Rightarrow> pyobj" where
  "get_dict d k = (case map_of d k of Some (PyDict e) \<Rightarrow> e | _ \<Rightarrow> [])"

definition get_strs :: "pyobj \<Rightarrow> string \<Rightarrow> string list" where
  "get_strs d k = (case map_of d k of Some (PyList vs) \<Rightarrow> map py_str vs | _ \<Rightarrow> [])"

definition params_of :: "pyobj \<Rightarrow> params" where
  "params_of d =
     \<lparr>p_auth_username = get_str d ''auth_username'',
      p_command = get_str d ''command'',
      p_container_engine = get_str d ''container_engine'',
      p_detach = get_bool d ''detach'',
      p_labels = get_dict d ''labels'',
      p_name = get_str d ''name'',
      p_environment = get_dict d ''environment'',
      p_healthcheck = get_dict d ''healthcheck'',
      p_image = get_str d ''image'',
      p_ipc_mode = get_str d ''ipc_mode'',
      p_cap_add = get_strs d ''cap_add'',
      p_security_opt = get_strs d ''security_opt'',
      p_pid_mode = get_str d ''pid_mode'',
      p_cgroupns_mode = get_str d ''cgroupns_mode'',
      p_privileged = get_bool d ''privileged'',
      p_graceful_timeout = get_int d ''graceful_timeout'',
      p_remove_on_exit = get_bool d ''remove_on_exit'',
      p_restart_policy = get_str d ''restart_policy'',
      p_restart_retries = get_int d ''restart_retries'',
      p_state = (case get_str d ''state'' of Some s \<Rightarrow> s | None \<Rightarrow> ''running''),
      p_tmpfs = get_strs d ''tmpfs'',
      p_volumes = get_strs d ''volumes'',
      p_volumes_from = get_strs d ''volumes_from'',
      p_dimensions = get_dict d ''dimensions'',
      p_tty = get_bool d ''tty'',
      p_client_timeout = get_int d ''client_timeout'',
      p_ignore_missing = get_bool d ''ignore_missing''\<rparr>"

lemmas params_getters = get_str_def get_int_def get_bool_def get_dict_def get_strs_def

text \<open>
  The precedence of \<open>generate_module\<close>: for every argument other than the three it treats
  apart, an explicit module argument wins; without one the common option of that name is
  used (turned into an integer when it is a string of digits and the name has a default);
  without that the non-None default.
\<close>

lemma generate_module_precedence:
  assumes "wf_dict params" and "generate_module params = Inr out"
    and "dict_or_empty (dget params ''common_options'') = Inr common"
    and "k \<notin> {''common_options'', ''environment'', ''pid_mode'', ''ipc_mode''}"
    and "map_of params k = Some v"
  shows "map_of out k = merged_value k v (map_of common k)"
proof -
  let ?rest = "AList.delete ''environment'' (AList.delete ''common_options'' params)"
  have wf: "wf_dict ?rest" using assms(1) by (intro wf_dict_delete)
  have "map_of ?rest k = Some v" using assms(4,5) by (simp add: map_of_AList_delete)
  then have "map_of (merge_args ?rest common) k = merged_value k v (map_of common k)"
    using merge_args_get [OF wf, of common k] by simp
  with assms(4) show ?thesis
    by (rule_tac generate_module_out [OF assms(2,3)]) (simp add: drop_falsy_other map_of_AList_delete)
qed

lemma generate_module_precedence_witness:
  "map_of (case generate_module [(''common_options'', PyDict [(''restart_retries'', PyStr ''3'')]),
                    (''restart_retries'', PyNone), (''name'', PyStr ''c'')] of Inr d \<Rightarrow> d | Inl _ \<Rightarrow> [])
     ''restart_retries'' = Some (PyInt 3)"
proof -
  let ?p = "[(''common_options'', PyDict [(''restart_retries'', PyStr ''3'')]),
             (''restart_retries'', PyNone), (''name'', PyStr ''c'')] :: pyobj"
  obtain out where out: "generate_module ?p = Inr out"
    by (simp add: generate_module_def dict_or_empty_def dget_def Let_def merge_args_def merge_arg_def
        common_options_defaults_def)
  have "map_of out ''restart_retries'' =
      merged_value ''restart_retries'' PyNone (map_of [(''restart_retries'', PyStr ''3'')] ''restart_retries'')"
    by (rule generate_module_precedence [OF _ out]) (simp_all add: dict_or_empty_def dget_def)
  also have "\<dots> = Some (PyInt 3)"
    by code_simp
  finally show ?thesis using out by simp
qed

text \<open>
  The environment handed to the worker is the common environment overridden by the
  module's own, and neither \<open>pid_mode\<close> nor \<open>ipc_mode\<close> survives with a falsy value.
\<close>

lemma generate_module_environment:
  assumes "wf_dict params" and "wf_dict env" and "generate_module params = Inr out"
    and "dget params ''environment'' = PyDict env"
    and "dict_or_empty (dget params ''common_options'') = Inr common"
    and "dict_or_empty (dget common ''environment'') = Inr cenv"
  shows "(\<exists>e. map_of out ''environment'' = Some (PyDict e) \<and>
              (\<forall>k. map_of e k = (case map_of env k of Some v \<Rightarrow> Some v | None \<Rightarrow> map_of cenv k)))
       \<and> (map_of out ''pid_mode'' \<noteq> None \<longrightarrow> truthy (dget out ''pid_mode''))
       \<and> (map_of out ''ipc_mode'' \<noteq> None \<longrightarrow> truthy (dget out ''ipc_mode''))"
proof -
  let ?rest = "AList.delete ''environment'' (AList.delete ''common_options'' params)"
  let ?m = "merge_args ?rest common"
  let ?e = "dict_update cenv env"
  have wf: "wf_dict ?rest" using assms(1) by (intro wf_dict_delete)
  have "map_of ?m ''environment'' = map_of common ''environment''"
    using merge_args_get [OF wf, of common "''environment''"] by (simp add: map_of_AList_delete)
  then have m: "dget ?m ''environment'' = dget common ''environment''"
    by (simp add: dget_def)
  have env: "dict_or_empty (dget params ''environment'') = Inr env"
    using assms(4) by (simp add: dict_or_empty_def)
  have out: "out = drop_falsy ''ipc_mode'' (drop_falsy ''pid_mode''
      (AList.update ''environment'' (PyDict ?e) (AList.delete ''environment'' ?m)))"
    using assms(3,5,6) m env by (simp add: generate_module_def Let_def)
  have "map_of out ''environment'' = Some (PyDict ?e)"
    unfolding out by (simp add: drop_falsy_other)
  moreover have "map_of ?e k = (case map_of env k of Some v \<Rightarrow> Some v | None \<Rightarrow> map_of cenv k)" for k
    using dict_update_get [OF assms(2), of cenv k] by (simp split: option.splits)
  moreover have "map_of out ''ipc_mode'' \<noteq> None \<longrightarrow> truthy (dget out ''ipc_mode'')"
    unfolding out by (rule drop_falsy_truthy)
  moreover have "map_of out ''pid_mode'' \<noteq> None \<longrightarrow> truthy (dget out ''pid_mode'')"
  proof -
    let ?x = "AList.update ''environment'' (PyDict ?e) (AList.delete ''environment'' ?m)"
    have same: "map_of out ''pid_mode'' = map_of (drop_falsy ''pid_mode'' ?x) ''pid_mode''"
      unfolding out by (rule drop_falsy_other) simp
    then have "dget out ''pid_mode'' = dget (drop_falsy ''pid_mode'' ?x) ''pid_mode''"
      by (simp only: dget_def)
    with same show ?thesis using drop_falsy_truthy by (simp only:)
  qed
  ultimately show ?thesis by blast
qed

lemma generate_module_environment_witness:
  "map_of (case generate_module [(''common_options'', PyDict [(''environment'', PyDict [(''A'', PyStr ''1''), (''B'', PyStr ''2'')])]),
               (''environment'', PyDict [(''A'', PyStr ''9'')]), (''pid_mode'', PyStr [])] of Inr d \<Rightarrow> d | Inl _ \<Rightarrow> [])
     ''pid_mode'' = None"
proof -
  let ?c = "[(''environment'', PyDict [(''A'', PyStr ''1''), (''B'', PyStr ''2'')])] :: pyobj"
  let ?p = "[(''common_options'', PyDict ?c),
             (''environment'', PyDict [(''A'', PyStr ''9'')]), (''pid_mode'', PyStr [])] :: pyobj"
  obtain out where out: "generate_module ?p = Inr out"
    by (simp add: generate_module_def dict_or_empty_def dget_def Let_def merge_args_def merge_arg_def)
  have "map_of out ''pid_mode'' \<noteq> None \<longrightarrow> truthy (dget out ''pid_mode'')"
    using generate_module_environment [OF _ _ out, of "[(''A'', PyStr ''9'')]" ?c
        "[(''A'', PyStr ''1''), (''B'', PyStr ''2'')]"]
    by (simp add: dict_or_empty_def dget_def)
  then show ?thesis using out
    by (auto simp: generate_module_def dict_or_empty_def dget_def Let_def merge_args_def merge_arg_def
        drop_falsy_def dict_update_def)
qed

end
