(* ===== verification/Systemd.thy ===== *)
theory Systemd
  imports ModuleParams
begin

text \<open>
  \<open>SystemdWorker\<close> (\<open>ansible/module_utils/kolla_systemd_worker.py\<close>): the unit file of one
  container and the calls to systemd's D-Bus manager.

  The world of a worker is the record \<open>host\<close>: the worker's own \<open>changed\<close> and \<open>result\<close>
  attributes, the files of the host, the state \<open>outside\<close> the program (systemd and the
  container engine, an arbitrary type), and a ghost \<open>trace\<close> of the external calls made, which
  the code does not have and which no definition reads.
  The D-Bus manager is the parameter \<open>bus\<close>: what a method call does and whether it raised,
  what \<open>ListUnits\<close> answers, and how the outside moves on while the program sleeps.
\<close>

section \<open>The world of the container workers\<close>

datatype event =
    BusCall string "pyval list" bool
  | Polled "string option"
  | Slept int
  | FileWritten string
  | FileRemoved string
  | EngineCall string "string list"

record 'd host =
  changed :: bool
  run_result :: pyobj
  files :: "string \<Rightarrow> string option"
  outside :: 'd
  trace :: "event list"

type_synonym ('d, 'a) act = "('d host, 'a) io"

definition log_event :: "event \<Rightarrow> ('d, unit) act" where
  "log_event e = modify_io (\<lambda>h. h\<lparr>trace := trace h @ [e]\<rparr>)"

definition set_changed :: "('d, unit) act" where
  "set_changed = modify_io (\<lambda>h. h\<lparr>changed := True\<rparr>)"

text \<open>\<open>self.changed |= b\<close> and \<open>self.changed = b\<close>.\<close>

definition or_changed :: "bool \<Rightarrow> ('d, unit) act" where
  "or_changed b = modify_io (\<lambda>h. h\<lparr>changed := (changed h \<or> b)\<rparr>)"

definition assign_changed :: "bool \<Rightarrow> ('d, unit) act" where
  "assign_changed b = modify_io (\<lambda>h. h\<lparr>changed := b\<rparr>)"

record 'd bus =
  bus_call :: "string \<Rightarrow> pyval list \<Rightarrow> 'd \<Rightarrow> bool \<times> 'd"
  bus_list_units :: "'d \<Rightarrow> (pyexn + (string \<times> string) list) \<times> 'd"
  bus_sleep :: "int \<Rightarrow> 'd \<Rightarrow> 'd"

section \<open>\<open>SystemdWorker.__init__\<close>\<close>

record container_dict =
  cd_name :: string
  cd_service_name :: string
  cd_engine :: "string option"
  cd_deps :: string
  cd_graceful_timeout :: "int option"
  cd_restart_policy :: string
  cd_restart_timeout :: int
  cd_restart_retries :: int
  cd_restart_duration :: int

definition service_name_of :: "string \<Rightarrow> string" where
  "service_name_of name = ''kolla-'' @ name @ ''-container.service''"

text \<open>
  \<open>Inr None\<close>: without a name the constructor returns early and the object has no attributes.
  Python's \<open>//\<close> rounds towards minus infinity, as \<open>div\<close> on \<open>int\<close> does.
\<close>

definition systemd_init :: "params \<Rightarrow> pyexn + container_dict option" where
  "systemd_init p =
     (if \<not> str_truthy (p_name p) then Inr None
      else
        (let name = the (p_name p);
             dependencies = (if p_container_engine p = Some ''docker'' then ''docker.service''
                             else ''network-online.target'');
             policy = (case p_restart_policy p of None \<Rightarrow> ''no'' | Some s \<Rightarrow> s);
             restart_policy = (if policy = ''unless-stopped'' then ''always'' else policy);
             restart_timeout = (case p_client_timeout p of None \<Rightarrow> 120 | Some t \<Rightarrow> t);
             restart_retries = (case p_restart_retries p of None \<Rightarrow> 10 | Some r \<Rightarrow> r)
         in if restart_retries = 0 then Inl ZeroDivisionError
            else Inr (Some
              \<lparr>cd_name = name,
               cd_service_name = service_name_of name,
               cd_engine = p_container_engine p,
               cd_deps = dependencies,
               cd_graceful_timeout = p_graceful_timeout p,
               cd_restart_policy = restart_policy,
               cd_restart_timeout = restart_timeout,
               cd_restart_retries = restart_retries,
               cd_restart_duration = restart_timeout div restart_retries - 1\<rparr>)))"

definition sysdir :: string where
  "sysdir = ''/etc/systemd/system/''"

definition unit_path :: "container_dict \<Rightarrow> string" where
  "unit_path c = sysdir @ cd_service_name c"

section \<open>The unit file\<close>

text \<open>The template, split at its placeholders; \<open>Lit\<close> is literal text, \<open>Var\<close> is \<open>${...}\<close>.\<close>

datatype piece = Lit string | Var string

definition unit_template :: "piece list list" where
  "unit_template =
    [[Lit ''# '', Var ''service_name''],
     [Lit ''# autogenerated by Kolla-Ansible''],
     [],
     [Lit ''[Unit]''],
     [Lit ''Description='', Var ''engine'', Lit '' '', Var ''service_name''],
     [Lit ''After='', Var ''deps''],
     [Lit ''Wants='', Var ''deps''],
     [Lit ''PartOf=kolla.target''],
     [Lit ''StartLimitInterval='', Var ''restart_timeout''],
     [Lit ''StartLimitBurst='', Var ''restart_retries''],
     [],
     [Lit ''[Service]''],
     [Lit ''ExecStart=/usr/bin/'', Var ''engine'', Lit '' start -a '', Var ''name''],
     [Lit ''ExecStop=/usr/bin/'', Var ''engine'', Lit '' stop '', Var ''name'', Lit '' -t '', Var ''graceful_timeout''],
     [Lit ''Restart='', Var ''restart_policy''],
     [Lit ''RestartSec='', Var ''restart_duration''],
     [Lit ''SuccessExitStatus=143''],
     [],
     [Lit ''[Install]''],
     [Lit ''WantedBy=multi-user.target'']]"

definition container_lookup :: "container_dict \<Rightarrow> (string, string) pydict" where
  "container_lookup c =
    [(''name'', cd_name c),
     (''service_name'', cd_service_name c),
     (''engine'', fmt_opt (cd_engine c)),
     (''deps'', cd_deps c),
     (''graceful_timeout'', (case cd_graceful_timeout c of None \<Rightarrow> ''None'' | Some t \<Rightarrow> str_of_int t)),
     (''restart_policy'', cd_restart_policy c),
     (''restart_timeout'', str_of_int (cd_restart_timeout c)),
     (''restart_retries'', str_of_int (cd_restart_retries c)),
     (''restart_duration'', str_of_int (cd_restart_duration c))]"

text \<open>\<open>Template.substitute\<close>: a placeholder without a value raises KeyError.\<close>

fun substitute_line :: "(string, string) pydict \<Rightarrow> piece list \<Rightarrow> pyexn + string" where
  "substitute_line d [] = Inr [CHR 0x0A]"
| "substitute_line d (Lit s # ps) =
     (case substitute_line d ps of Inl e \<Rightarrow> Inl e | Inr t \<Rightarrow> Inr (s @ t))"
| "substitute_line d (Var x # ps) =
     (case map_of d x of None \<Rightarrow> Inl KeyError
      | Some v \<Rightarrow> (case substitute_line d ps of Inl e \<Rightarrow> Inl e | Inr t \<Rightarrow> Inr (v @ t)))"

fun substitute :: "(string, string) pydict \<Rightarrow> piece list list \<Rightarrow> pyexn + string" where
  "substitute d [] = Inr []"
| "substitute d (l # ls) =
     (case substitute_line d l of Inl e \<Rightarrow> Inl e
      | Inr s \<Rightarrow> (case substitute d ls of Inl e \<Rightarrow> Inl e | Inr t \<Rightarrow> Inr (s @ t)))"

definition generate_unit_file :: "container_dict \<Rightarrow> pyexn + string" where
  "generate_unit_file c = substitute (container_lookup c) unit_template"

section \<open>Calls to the manager\<close>

definition perform_action :: "'d bus \<Rightarrow> string \<Rightarrow> pyval list \<Rightarrow> ('d, bool) act" where
  "perform_action B f args =
     (\<lambda>h. let (ok, d) = bus_call B f args (outside h)
          in (Inr ok, h\<lparr>outside := d, trace := trace h @ [BusCall f args ok]\<rparr>))"

definition get_unit_state :: "'d bus \<Rightarrow> container_dict \<Rightarrow> ('d, string option) act" where
  "get_unit_state B c =
     (\<lambda>h. case bus_list_units B (outside h) of
        (Inl e, d) \<Rightarrow> (Inl e, h\<lparr>outside := d\<rparr>)
      | (Inr units, d) \<Rightarrow>
          (let s = map_of units (cd_service_name c)
           in (Inr s, h\<lparr>outside := d, trace := trace h @ [Polled s]\<rparr>)))"

definition py_sleep :: "'d bus \<Rightarrow> int \<Rightarrow> ('d, unit) act" where
  "py_sleep B n = modify_io (\<lambda>h. h\<lparr>outside := bus_sleep B n (outside h), trace := trace h @ [Slept n]\<rparr>)"

text \<open>The polling loop of \<open>wait_for_unit\<close>, with \<open>delay = 5\<close>.\<close>

function wait_unit_loop :: "'d bus \<Rightarrow> container_dict \<Rightarrow> int \<Rightarrow> string \<Rightarrow> int \<Rightarrow> ('d, bool) act" where
  "wait_unit_loop B c timeout state elapsed =
     bnd (get_unit_state B c) (\<lambda>s.
       if s = Some state then return_io True
       else if elapsed > timeout then return_io False
       else bnd (py_sleep B 5) (\<lambda>_. wait_unit_loop B c timeout state (elapsed + 5)))"
  by pat_completeness auto
termination
  by (relation "measure (\<lambda>(B, c, timeout, state, elapsed). nat (timeout + 5 - elapsed))") auto

declare wait_unit_loop.simps [simp del]

definition wait_for_unit :: "'d bus \<Rightarrow> container_dict \<Rightarrow> int \<Rightarrow> string \<Rightarrow> ('d, bool) act" where
  "wait_for_unit B c timeout state = wait_unit_loop B c timeout state 0"

definition unit_action :: "'d bus \<Rightarrow> container_dict \<Rightarrow> string \<Rightarrow> string \<Rightarrow> ('d, bool) act" where
  "unit_action B c f state =
     bnd (perform_action B f [PyStr (cd_service_name c), PyStr ''replace'']) (\<lambda>ok.
       if ok then wait_for_unit B c (cd_restart_timeout c) state else return_io False)"

definition systemd_start :: "'d bus \<Rightarrow> container_dict \<Rightarrow> ('d, bool) act" where
  "systemd_start B c = unit_action B c ''StartUnit'' ''running''"

definition systemd_restart :: "'d bus \<Rightarrow> container_dict \<Rightarrow> ('d, bool) act" where
  "systemd_restart B c = unit_action B c ''RestartUnit'' ''running''"

definition systemd_stop :: "'d bus \<Rightarrow> container_dict \<Rightarrow> ('d, bool) act" where
  "systemd_stop B c = unit_action B c ''StopUnit'' ''dead''"

definition systemd_reload :: "'d bus \<Rightarrow> container_dict \<Rightarrow> ('d, bool) act" where
  "systemd_reload B c = perform_action B ''Reload'' [PyStr (cd_service_name c), PyStr ''replace'']"

definition systemd_enable :: "'d bus \<Rightarrow> container_dict \<Rightarrow> ('d, bool) act" where
  "systemd_enable B c =
     perform_action B ''EnableUnitFiles'' [PyList [PyStr (cd_service_name c)], PyBool False, PyBool True]"

section \<open>Operations on the unit file\<close>

definition check_unit_file :: "container_dict \<Rightarrow> ('d, bool) act" where
  "check_unit_file c = gets_io (\<lambda>h. files h (unit_path c) \<noteq> None)"

text \<open>\<open>check_unit_change(new_content)\<close>; an empty \<open>new_content\<close> means: generate it.\<close>

definition check_unit_change :: "container_dict \<Rightarrow> string \<Rightarrow> ('d, bool) act" where
  "check_unit_change c new_content =
     bnd (if new_content = [] then lift_sum (generate_unit_file c) else return_io new_content) (\<lambda>content.
       gets_io (\<lambda>h. case files h (unit_path c) of None \<Rightarrow> True | Some current \<Rightarrow> current \<noteq> content))"

definition write_file :: "string \<Rightarrow> string \<Rightarrow> ('d, unit) act" where
  "write_file path content =
     modify_io (\<lambda>h. h\<lparr>files := (files h)(path \<mapsto> content), trace := trace h @ [FileWritten path]\<rparr>)"

definition remove_file :: "string \<Rightarrow> ('d, unit) act" where
  "remove_file path =
     modify_io (\<lambda>h. h\<lparr>files := (files h)(path := None), trace := trace h @ [FileRemoved path]\<rparr>)"

definition create_unit_file :: "'d bus \<Rightarrow> container_dict \<Rightarrow> ('d, bool) act" where
  "create_unit_file B c =
     bnd (lift_sum (generate_unit_file c)) (\<lambda>content.
     bnd (check_unit_change c content) (\<lambda>differs.
       if differs then
         bnd (write_file (unit_path c) content) (\<lambda>_.
         bnd (systemd_reload B c) (\<lambda>_.
         bnd (systemd_enable B c) (\<lambda>_.
         return_io True)))
       else return_io False))"

definition remove_unit_file :: "'d bus \<Rightarrow> container_dict \<Rightarrow> ('d, bool) act" where
  "remove_unit_file B c =
     bnd (check_unit_file c) (\<lambda>present.
       if present then
         bnd (remove_file (unit_path c)) (\<lambda>_.
         bnd (systemd_reload B c) (\<lambda>_.
         return_io True))
       else return_io False)"

section \<open>Lemmas\<close>

definition unit_text :: "container_dict \<Rightarrow> string" where
  "unit_text c = (case generate_unit_file c of Inr s \<Rightarrow> s | Inl _ \<Rightarrow> [])"

lemma generate_unit_file_total: "\<exists>s. generate_unit_file c = Inr s \<and> s \<noteq> []"
  by (simp add: generate_unit_file_def unit_template_def container_lookup_def)

lemma generate_unit_file_text [simp]: "generate_unit_file c = Inr (unit_text c)"
  and unit_text_nonempty [simp]: "unit_text c \<noteq> []"
  using generate_unit_file_total [of c] by (auto simp: unit_text_def)

lemma check_unit_file_run [io_run]:
  "check_unit_file c h = (Inr (files h (unit_path c) \<noteq> None), h)"
  by (simp add: check_unit_file_def io_run)

lemma check_unit_change_run [io_run]:
  "check_unit_change c t h =
     (Inr (files h (unit_path c) \<noteq> Some (if t = [] then unit_text c else t)), h)"
  by (auto simp: check_unit_change_def lift_sum_def io_run split: option.splits)

definition after_bus :: "'d bus \<Rightarrow> string \<Rightarrow> pyval list \<Rightarrow> 'd host \<Rightarrow> 'd host" where
  "after_bus B f args h =
     h\<lparr>outside := snd (bus_call B f args (outside h)),
       trace := trace h @ [BusCall f args (fst (bus_call B f args (outside h)))]\<rparr>"

lemma perform_action_run [io_run]:
  "perform_action B f args h = (Inr (fst (bus_call B f args (outside h))), after_bus B f args h)"
  by (simp add: perform_action_def after_bus_def split: prod.splits)

lemma after_bus_fields [simp]:
  "files (after_bus B f args h) = files h" "changed (after_bus B f args h) = changed h"
  "run_result (after_bus B f args h) = run_result h"
  by (simp_all add: after_bus_def)

lemma create_unit_file_run:
  "create_unit_file B c h =
     (if files h (unit_path c) = Some (unit_text c) then (Inr False, h)
      else (Inr True,
        after_bus B ''EnableUnitFiles'' [PyList [PyStr (cd_service_name c)], PyBool False, PyBool True]
          (after_bus B ''Reload'' [PyStr (cd_service_name c), PyStr ''replace'']
            (h\<lparr>files := (files h)(unit_path c \<mapsto> unit_text c),
               trace := trace h @ [FileWritten (unit_path c)]\<rparr>))))"
  by (simp add: create_unit_file_def lift_sum_def io_run write_file_def bnd_run systemd_reload_def
      systemd_enable_def)

lemma remove_unit_file_run:
  "remove_unit_file B c h =
     (if files h (unit_path c) = None then (Inr False, h)
      else (Inr True,
        after_bus B ''Reload'' [PyStr (cd_service_name c), PyStr ''replace'']
          (h\<lparr>files := (files h)(unit_path c := None),
             trace := trace h @ [FileRemoved (unit_path c)]\<rparr>)))"
  by (simp add: remove_unit_file_def io_run remove_file_def bnd_run systemd_reload_def)

section \<open>The unit store interface\<close>

text \<open>
  What the container workers rely on: after \<open>create\<close> the unit is present and up to date,
  after \<open>remove\<close> it is absent, and both do nothing when there is nothing to do.
\<close>

locale unit_store =
  fixes present create stale remove :: "('w, bool) io"
  assumes create_total: "\<exists>b w'. create w = (Inr b, w')"
    and create_fresh: "create w = (Inr b, w') \<Longrightarrow> present w' = (Inr True, w') \<and> stale w' = (Inr False, w')"
    and create_noop: "stale w = (Inr False, w) \<Longrightarrow> create w = (Inr False, w)"
    and create_stale: "stale w = (Inr True, w) \<Longrightarrow> \<exists>w'. create w = (Inr True, w')"
    and remove_absent: "remove w = (Inr b, w') \<Longrightarrow> present w' = (Inr False, w') \<and> stale w' = (Inr True, w')"
    and remove_noop: "present w = (Inr False, w) \<Longrightarrow> remove w = (Inr False, w)"
begin

lemma create_twice: "create w = (Inr b, w') \<Longrightarrow> create w' = (Inr False, w')"
  by (rule create_noop) (simp add: create_fresh)

lemma remove_twice: "remove w = (Inr b, w') \<Longrightarrow> remove w' = (Inr False, w')"
  by (rule remove_noop) (simp add: remove_absent)

lemma create_after_remove: "remove w = (Inr b, w') \<Longrightarrow> \<exists>w''. create w' = (Inr True, w'')"
  by (rule create_stale) (simp add: remove_absent)

end

interpretation sysd: unit_store "check_unit_file c" "create_unit_file B c" "check_unit_change c []"
    "remove_unit_file B c" for B :: "'d bus" and c
  by unfold_locales (auto simp: io_run create_unit_file_run remove_unit_file_run split: if_splits)

text \<open>
  C21. Writing the unit file is idempotent and detected: after \<open>create_unit_file\<close> the check
  for changes answers no and a second \<open>create_unit_file\<close> does nothing at all (no write, no
  call to systemd); after \<open>remove_unit_file\<close> the check answers yes, a second removal does
  nothing, and the next \<open>create_unit_file\<close> writes the file again.
\<close>

theorem unit_file_lifecycle:
  assumes "create_unit_file B c h = (r, h')" and "remove_unit_file B c h' = (r', h'')"
  shows "r = Inr (files h (unit_path c) \<noteq> Some (unit_text c))
    \<and> check_unit_change c [] h' = (Inr False, h') \<and> create_unit_file B c h' = (Inr False, h')
    \<and> r' = Inr True \<and> check_unit_change c [] h'' = (Inr True, h'')
    \<and> remove_unit_file B c h'' = (Inr False, h'') \<and> fst (create_unit_file B c h'') = Inr True"
proof -
  obtain b where r: "r = Inr b" using assms(1) sysd.create_total [of B c h] by auto
  obtain b' where r': "r' = Inr b'" using assms(2) by (auto simp: remove_unit_file_run split: if_splits)
  note c = assms(1) [unfolded r] and d = assms(2) [unfolded r']
  have "b' = True" using sysd.create_fresh [OF c] d
    by (auto simp: io_run remove_unit_file_run split: if_splits)
  moreover have "b = (files h (unit_path c) \<noteq> Some (unit_text c))"
    using c by (auto simp: create_unit_file_run split: if_splits)
  moreover obtain h3 where "create_unit_file B c h'' = (Inr True, h3)"
    using sysd.create_after_remove [OF d] by blast
  ultimately show ?thesis
    using sysd.create_fresh [OF c] sysd.create_twice [OF c] sysd.remove_absent [OF d]
      sysd.remove_twice [OF d] r r' by simp
qed

definition quiet_bus :: "(string \<times> string) list bus" where
  "quiet_bus = \<lparr>bus_call = (\<lambda>f args d. (True, d)), bus_list_units = (\<lambda>d. (Inr d, d)), bus_sleep = (\<lambda>n d. d)\<rparr>"

definition demo_unit :: container_dict where
  "demo_unit = \<lparr>cd_name = ''web'', cd_service_name = service_name_of ''web'', cd_engine = Some ''docker'',
     cd_deps = ''docker.service'', cd_graceful_timeout = Some 10, cd_restart_policy = ''always'',
     cd_restart_timeout = 120, cd_restart_retries = 10, cd_restart_duration = 11\<rparr>"

definition demo_host :: "'d \<Rightarrow> 'd host" where
  "demo_host d = \<lparr>changed = False, run_result = [], files = Map.empty, outside = d, trace = []\<rparr>"

theorem unit_file_lifecycle_witness:
  "fst (create_unit_file quiet_bus demo_unit (demo_host [])) = Inr True
   \<and> fst (remove_unit_file quiet_bus demo_unit
            (snd (create_unit_file quiet_bus demo_unit (demo_host [])))) = Inr True"
proof -
  let ?h = "demo_host [] :: (string \<times> string) list host"
  obtain r h' where c: "create_unit_file quiet_bus demo_unit ?h = (r, h')" by fastforce
  obtain r' h'' where d: "remove_unit_file quiet_bus demo_unit h' = (r', h'')" by fastforce
  from unit_file_lifecycle [OF c d] have "r = Inr True" "r' = Inr True"
    by (simp_all add: demo_host_def)
  then show ?thesis by (simp add: c d)
qed

lemma restart_arith:
  fixes r t :: int
  assumes "0 < r"
  shows "(t div r - 1) * r + r \<le> t \<and> (t div r - 1) * r < t \<and> t < (t div r - 1 + 2) * r"
proof -
  have aux: "(q - 1) * r + r \<le> t \<and> (q - 1) * r < t \<and> t < (q - 1 + 2) * r"
    if "r * q + m = t" "0 \<le> m" "m < r" for q m
  proof -
    have "(q - 1) * r = r * q - r" "(q - 1 + 2) * r = r * q + r"
      by (simp_all add: algebra_simps)
    with that assms show ?thesis by (auto simp only:)
  qed
  show ?thesis by (rule aux [of "t div r" "t mod r"]) (use assms in simp_all)
qed

text \<open>
  C36. The restart budget of the unit file: with a positive number of retries, the computed
  \<open>RestartSec\<close> times the retries stays below the timeout, by at least the number of
  retries (the comment in the constructor asks for less than the timeout), and no retries is
  a ZeroDivisionError.
\<close>

theorem restart_budget:
  assumes "str_truthy (p_name p)"
  shows "case p_restart_retries p of
      Some r \<Rightarrow>
        (if r = 0 then systemd_init p = Inl ZeroDivisionError
         else \<exists>c. systemd_init p = Inr (Some c) \<and> cd_restart_retries c = r
           \<and> (0 < r \<longrightarrow> cd_restart_duration c * r + r \<le> cd_restart_timeout c
                 \<and> cd_restart_duration c * r < cd_restart_timeout c
                 \<and> cd_restart_timeout c < (cd_restart_duration c + 2) * r))
    | None \<Rightarrow> \<exists>c. systemd_init p = Inr (Some c) \<and> cd_restart_retries c = 10
           \<and> cd_restart_duration c * 10 + 10 \<le> cd_restart_timeout c"
proof -
  show ?thesis
    using assms restart_arith [of 10] restart_arith by (auto simp: systemd_init_def Let_def split: option.splits)
qed

text \<open>A fully specified instance of the constructor, for the witness.\<close>

theorem restart_budget_witness:
  "case systemd_init (params_of [(''name'', PyStr ''web''), (''restart_retries'', PyInt 7), (''client_timeout'', PyInt 60)]) of
     Inr (Some c) \<Rightarrow> cd_restart_duration c * 7 < cd_restart_timeout c | _ \<Rightarrow> False"
proof -
  let ?p = "params_of [(''name'', PyStr ''web''), (''restart_retries'', PyInt 7), (''client_timeout'', PyInt 60)]"
  have "p_restart_retries ?p = Some 7" "str_truthy (p_name ?p)"
    by (simp_all add: params_of_def params_getters str_truthy_def)
  then show ?thesis using restart_budget [of ?p] by auto
qed

section \<open>Waiting for a unit\<close>

fun wait_trace :: "string option list \<Rightarrow> event list" where
  "wait_trace [] = []"
| "wait_trace [s] = [Polled s]"
| "wait_trace (s # t # ss) = Polled s # Slept 5 # wait_trace (t # ss)"

text \<open>The number of polls the loop makes when the state never shows up.\<close>

definition max_polls :: "int \<Rightarrow> int \<Rightarrow> nat" where
  "max_polls timeout elapsed = (if elapsed > timeout then 1 else nat ((timeout - elapsed) div 5) + 2)"

lemma max_polls_step: "\<not> elapsed > timeout \<Longrightarrow> max_polls timeout elapsed = Suc (max_polls timeout (elapsed + 5))"
proof -
  assume le: "\<not> elapsed > timeout"
  show ?thesis
  proof (cases "elapsed + 5 > timeout")
    case True
    then have "(timeout - elapsed) div 5 = 0" using le by (simp add: div_pos_pos_trivial)
    with True le show ?thesis by (simp add: max_polls_def)
  next
    case False
    have "(timeout - elapsed) div 5 = (timeout - (elapsed + 5)) div 5 + 1" by simp
    moreover have "0 \<le> (timeout - (elapsed + 5)) div 5" using False by simp
    ultimately have "nat ((timeout - elapsed) div 5) = Suc (nat ((timeout - (elapsed + 5)) div 5))"
      by (simp only: nat_add_distrib)
    with False le show ?thesis by (simp add: max_polls_def)
  qed
qed

definition units_listed :: "'d bus \<Rightarrow> bool" where
  "units_listed B \<longleftrightarrow> (\<forall>d. \<exists>us. fst (bus_list_units B d) = Inr us)"

lemma get_unit_state_total:
  assumes "units_listed B"
  obtains s d where "get_unit_state B c h = (Inr s, h\<lparr>outside := d, trace := trace h @ [Polled s]\<rparr>)"
proof -
  obtain us d where "bus_list_units B (outside h) = (Inr us, d)"
    using assms unfolding units_listed_def by (metis prod.collapse)
  then show thesis using that by (simp add: get_unit_state_def Let_def)
qed

lemma wait_trace_Cons: "ps \<noteq> [] \<Longrightarrow> wait_trace (s # ps) = Polled s # Slept 5 # wait_trace ps"
  by (cases ps) simp_all

lemma wait_unit_loop_polls:
  assumes "units_listed B"
  shows "\<exists>b h' ps. wait_unit_loop B c timeout state elapsed h = (Inr b, h')
    \<and> trace h' = trace h @ wait_trace ps \<and> files h' = files h \<and> changed h' = changed h
    \<and> ps \<noteq> [] \<and> length ps \<le> max_polls timeout elapsed \<and> b = (last ps = Some state)
    \<and> Some state \<notin> set (butlast ps) \<and> (\<not> b \<longrightarrow> length ps = max_polls timeout elapsed)"
  using assms
proof (induction B c timeout state elapsed arbitrary: h rule: wait_unit_loop.induct)
  case (1 B c timeout state elapsed)
  obtain s d where g: "get_unit_state B c h = (Inr s, h\<lparr>outside := d, trace := trace h @ [Polled s]\<rparr>)"
    using get_unit_state_total [OF "1.prems"] by blast
  let ?h = "h\<lparr>outside := d, trace := trace h @ [Polled s]\<rparr>"
  note unf = wait_unit_loop.simps [of B c timeout state elapsed]
  have pos: "0 < max_polls timeout elapsed" by (simp add: max_polls_def)
  show ?case
  proof (cases "s = Some state \<or> elapsed > timeout")
    case True
    then show ?thesis using g pos
      by (intro exI [of _ "s = Some state"] exI [of _ ?h] exI [of _ "[s]"])
        (auto simp: unf io_run max_polls_def)
  next
    case False
    let ?h2 = "?h\<lparr>outside := bus_sleep B 5 d, trace := trace ?h @ [Slept 5]\<rparr>"
    obtain b h' ps where IH: "wait_unit_loop B c timeout state (elapsed + 5) ?h2 = (Inr b, h')"
      "trace h' = trace ?h2 @ wait_trace ps" "files h' = files ?h2" "changed h' = changed ?h2"
      "ps \<noteq> []" "length ps \<le> max_polls timeout (elapsed + 5)" "b = (last ps = Some state)"
      "Some state \<notin> set (butlast ps)" "\<not> b \<longrightarrow> length ps = max_polls timeout (elapsed + 5)"
      using "1.IH" [of s ?h2, OF _ _ "1.prems"] False by blast
    have "wait_unit_loop B c timeout state elapsed h = (Inr b, h')"
      using False g IH(1) by (simp add: unf io_run py_sleep_def bnd_run)
    moreover have "max_polls timeout elapsed = Suc (max_polls timeout (elapsed + 5))"
      by (rule max_polls_step) (use False in simp)
    ultimately show ?thesis using IH False
      by (intro exI [of _ b] exI [of _ h'] exI [of _ "s # ps"]) (auto simp: wait_trace_Cons)
  qed
qed

text \<open>
  C37. Waiting for a unit always comes to an end.  When systemd's unit list can be read, the
  wait returns; it alternates polls and sleeps of five seconds, stops at the first poll that
  shows the wanted state, and answers yes exactly when the last poll showed it; it gives up
  only after \<open>timeout div 5 + 2\<close> polls, and touches neither files nor \<open>changed\<close>.
\<close>

theorem wait_for_unit_polls:
  assumes "units_listed B" and "0 \<le> timeout"
  shows "\<exists>b h' ps. wait_for_unit B c timeout state h = (Inr b, h')
    \<and> trace h' = trace h @ wait_trace ps \<and> files h' = files h \<and> changed h' = changed h
    \<and> ps \<noteq> [] \<and> length ps \<le> nat (timeout div 5) + 2 \<and> b = (last ps = Some state)
    \<and> Some state \<notin> set (butlast ps) \<and> (\<not> b \<longrightarrow> length ps = nat (timeout div 5) + 2)"
proof -
  have "max_polls timeout 0 = nat (timeout div 5) + 2"
    using assms(2) by (simp add: max_polls_def)
  then show ?thesis
    using wait_unit_loop_polls [OF assms(1), of c timeout state 0 h] by (simp only: wait_for_unit_def)
qed

theorem wait_for_unit_polls_witness:
  "\<exists>b h' ps. wait_for_unit quiet_bus demo_unit 10 ''running''
       (demo_host [(service_name_of ''web'', ''dead'')]) = (Inr b, h')
    \<and> trace h' = wait_trace ps \<and> (\<not> b \<longrightarrow> length ps = 4)"
proof -
  have "units_listed quiet_bus" by (simp add: units_listed_def quiet_bus_def)
  from wait_for_unit_polls [OF this, of 10 demo_unit "''running''" "demo_host [(service_name_of ''web'', ''dead'')]"]
  show ?thesis by (auto simp: demo_host_def)
qed

end
