(* ===== verification/ContainerWorker.thy ===== *)
theory ContainerWorker
  imports Systemd "HOL-Library.List_Lexorder" "HOL-Library.Char_ord"
begin

text \<open>
  \<open>ContainerWorker\<close> (\<open>ansible/module_utils/kolla_container_worker.py\<close>): the comparisons of
  the desired parameters with what the engine reports, and the parsers of images, volumes,
  health checks and environments, shared by the Docker and the Podman worker.

  \<open>container_info\<close> is the engine's answer to \<open>inspect\<close>, with the documented types; an
  absent key and a null are both \<open>None\<close> where the code reads the field with \<open>get\<close>.  Its
  \<open>HostConfig\<close> object is always present in that answer, so the code's handlers for a
  missing one are not modelled.
\<close>

section \<open>What the engine reports\<close>

record host_config =
  hc_ipc_mode :: "string option"
  hc_cap_add :: "string list option"
  hc_security_opt :: "string list option"
  hc_pid_mode :: "string option"
  hc_cgroupns_mode :: "string option"
  hc_cgroup_mode :: "string option"
  hc_privileged :: bool
  hc_tmpfs :: "string list option"
  hc_volumes_from :: "string list option"
  hc_binds :: "string list option"
  hc_dims :: pyobj

record container_info =
  ci_image :: string
  ci_path :: string
  ci_args :: "string list"
  ci_status :: "string option"
  ci_config_image :: string
  ci_labels :: "pyobj option"
  ci_env :: "string list"
  ci_volumes :: "string list option"
  ci_healthcheck :: "pyobj option"
  ci_host :: host_config

definition norm_str :: "string option \<Rightarrow> string option" where
  "norm_str x = (if str_truthy x then x else None)"

definition list_or_empty :: "'a list option \<Rightarrow> 'a list" where
  "list_or_empty x = (case x of None \<Rightarrow> [] | Some l \<Rightarrow> l)"

text \<open>\<open>set(a).symmetric_difference(set(b))\<close> as a truth value.\<close>

definition sets_differ :: "'a list \<Rightarrow> 'a list \<Rightarrow> bool" where
  "sets_differ a b \<longleftrightarrow> \<not> (set a \<subseteq> set b \<and> set b \<subseteq> set a)"

lemma sets_differ_iff: "sets_differ a b \<longleftrightarrow> set a \<noteq> set b"
  by (auto simp: sets_differ_def)

section \<open>The simple comparisons\<close>

definition compare_ipc_mode :: "params \<Rightarrow> container_info \<Rightarrow> bool" where
  "compare_ipc_mode p ci \<longleftrightarrow>
     p_ipc_mode p \<noteq> None \<and> p_ipc_mode p \<noteq> norm_str (hc_ipc_mode (ci_host ci))"

definition compare_cap_add :: "params \<Rightarrow> container_info \<Rightarrow> bool" where
  "compare_cap_add p ci \<longleftrightarrow> sets_differ (p_cap_add p) (list_or_empty (hc_cap_add (ci_host ci)))"

definition compare_security_opt :: "params \<Rightarrow> container_info \<Rightarrow> bool" where
  "compare_security_opt p ci \<longleftrightarrow>
     (if p_ipc_mode p = Some ''host'' \<or> p_pid_mode p = Some ''host'' \<or> p_privileged p then False
      else sets_differ (p_security_opt p) (list_or_empty (hc_security_opt (ci_host ci))))"

definition compare_cgroupns_mode :: "params \<Rightarrow> container_info \<Rightarrow> bool" where
  "compare_cgroupns_mode p ci \<longleftrightarrow>
     (case p_cgroupns_mode p of
        None \<Rightarrow> False
      | Some new \<Rightarrow>
          (let h = ci_host ci;
               reported = (if str_truthy (hc_cgroupns_mode h) then hc_cgroupns_mode h else hc_cgroup_mode h);
               mode = (if reported = None \<or> reported = Some [] then ''host'' else the reported)
           in new \<noteq> mode))"

definition compare_privileged :: "params \<Rightarrow> container_info \<Rightarrow> bool" where
  "compare_privileged p ci \<longleftrightarrow> p_privileged p \<noteq> hc_privileged (ci_host ci)"

definition generate_tmpfs :: "params \<Rightarrow> string list" where
  "generate_tmpfs p = filter (\<lambda>t. t \<noteq> []) (p_tmpfs p)"

definition compare_tmpfs :: "params \<Rightarrow> container_info \<Rightarrow> bool" where
  "compare_tmpfs p ci \<longleftrightarrow> sets_differ (list_or_empty (hc_tmpfs (ci_host ci))) (generate_tmpfs p)"

definition compare_volumes_from :: "params \<Rightarrow> container_info \<Rightarrow> bool" where
  "compare_volumes_from p ci \<longleftrightarrow> sets_differ (list_or_empty (hc_volumes_from (ci_host ci))) (p_volumes_from p)"

definition compare_container_state :: "params \<Rightarrow> container_info \<Rightarrow> bool" where
  "compare_container_state p ci \<longleftrightarrow>
     (if p_state p = ''started'' \<and> ci_status ci = Some ''running'' then False
      else Some (p_state p) \<noteq> ci_status ci)"

section \<open>Labels\<close>

text \<open>
  The loop over the image's labels: a label the user also sets must have the image's value;
  the others are deleted from the container's labels (\<open>del\<close> raises KeyError).
\<close>

fun strip_image_labels :: "pyobj \<Rightarrow> pyobj \<Rightarrow> pyobj \<Rightarrow> pyexn + pyobj option" where
  "strip_image_labels [] new_labels current = Inr (Some current)"
| "strip_image_labels ((k, v) # imgs) new_labels current =
     (case map_of new_labels k of
        Some w \<Rightarrow> if \<not> py_eq v w then Inr None else strip_image_labels imgs new_labels current
      | None \<Rightarrow>
          (if in_dict k current then strip_image_labels imgs new_labels (AList.delete k current)
           else Inl KeyError))"

text \<open>
  \<open>image_labels\<close> is \<open>check_image().get('Labels', dict())\<close> and \<open>None\<close> when the engine reports
  null (\<open>items\<close> is then an AttributeError); a null \<open>Labels\<close> of the container makes \<open>del\<close> a
  TypeError.
\<close>

definition compare_labels :: "params \<Rightarrow> pyobj option \<Rightarrow> container_info \<Rightarrow> pyexn + bool" where
  "compare_labels p image_labels ci =
     (case image_labels of
        None \<Rightarrow> Inl AttributeError
      | Some imgs \<Rightarrow>
          (case ci_labels ci of
             Some current \<Rightarrow>
               (case strip_image_labels imgs (p_labels p) current of
                  Inl e \<Rightarrow> Inl e
                | Inr None \<Rightarrow> Inr True
                | Inr (Some rest) \<Rightarrow> Inr (\<not> py_dict_eq (p_labels p) rest))
           | None \<Rightarrow>
               (case strip_image_labels imgs (p_labels p) [] of
                  Inl _ \<Rightarrow> Inl TypeError
                | Inr _ \<Rightarrow> Inr True)))"

section \<open>Dimensions\<close>

definition dimension_map :: "(string \<times> string) list" where
  "dimension_map =
     [(''mem_limit'', ''Memory''), (''mem_reservation'', ''MemoryReservation''),
      (''memswap_limit'', ''MemorySwap''), (''cpu_period'', ''CpuPeriod''),
      (''cpu_quota'', ''CpuQuota''), (''cpu_shares'', ''CpuShares''),
      (''cpuset_cpus'', ''CpusetCpus''), (''cpuset_mems'', ''CpusetMems''),
      (''kernel_memory'', ''KernelMemory''), (''blkio_weight'', ''BlkioWeight''),
      (''ulimits'', ''Ulimits'')]"

definition unit_size :: "char \<Rightarrow> int option" where
  "unit_size c =
     (if c = CHR ''b'' then Some 1 else if c = CHR ''k'' then Some 1024
      else if c = CHR ''m'' then Some (1024 * 1024) else if c = CHR ''g'' then Some (1024 * 1024 * 1024)
      else None)"

text \<open>One side of \<open>dimensions_differ\<close>: \<open>s[-1]\<close> of an empty string is an IndexError.\<close>

definition normalize_dimension :: "string \<Rightarrow> pyexn + string" where
  "normalize_dimension s =
     (if s = [] then Inl IndexError
      else
        (let c = lower_char (last s)
         in if is_digit c then Inr s
            else (case unit_size c of
                    None \<Rightarrow> Inl (FailJson ''unit not supported'')
                  | Some u \<Rightarrow>
                      (case int_of_str (butlast s) of
                         None \<Rightarrow> Inl ValueError
                       | Some n \<Rightarrow> Inr (str_of_int (n * u))))))"

definition dimensions_differ :: "pyval \<Rightarrow> pyval \<Rightarrow> string \<Rightarrow> pyexn + bool" where
  "dimensions_differ a b key =
     (if a = PyNone \<or> b = PyNone then Inl (FailJson ''dimension no more supported'')
      else
        (let sa = py_str a; sb = py_str b
         in if sa = [] \<or> sb = [] then Inl IndexError
            else (case normalize_dimension sa of Inl e \<Rightarrow> Inl e | Inr x \<Rightarrow>
                  (case normalize_dimension sb of Inl e \<Rightarrow> Inl e | Inr y \<Rightarrow> Inr (x \<noteq> y)))))"

definition ulimit_name :: "pyval \<Rightarrow> string" where
  "ulimit_name u = (case u of PyDict d \<Rightarrow> py_str (dget d ''Name'') | _ \<Rightarrow> [])"

text \<open>
  \<open>compare_ulimits\<close> on the built list; the current entries of the engine all carry a name.
\<close>

definition ulimits_differ :: "pyval list \<Rightarrow> pyval list \<Rightarrow> bool" where
  "ulimits_differ new_ulimits current \<longleftrightarrow>
     \<not> py_eq_list (sort_key ulimit_name new_ulimits) (sort_key ulimit_name current)"

definition compare_ulimits :: "(pyobj \<Rightarrow> pyexn + pyval list) \<Rightarrow> pyval \<Rightarrow> pyval \<Rightarrow> pyexn + bool" where
  "compare_ulimits build_ulimits new_ulimits current =
     (case new_ulimits of
        PyDict d \<Rightarrow>
          (case build_ulimits d of Inl e \<Rightarrow> Inl e
           | Inr us \<Rightarrow> Inr (ulimits_differ us (case current of PyList l \<Rightarrow> l | _ \<Rightarrow> [])))
      | _ \<Rightarrow> Inl AttributeError)"

text \<open>The loop over the dimension map, left at the first difference.\<close>

fun compare_dims_loop ::
  "(pyval \<Rightarrow> pyval \<Rightarrow> string \<Rightarrow> pyexn + bool) \<Rightarrow> (pyval \<Rightarrow> pyval \<Rightarrow> pyexn + bool) \<Rightarrow>
   pyobj \<Rightarrow> pyobj \<Rightarrow> (string \<times> string) list \<Rightarrow> pyexn + bool" where
  "compare_dims_loop differ ulim new_dims current [] = Inr False"
| "compare_dims_loop differ ulim new_dims current ((key1, key2) # keys) =
     (if in_dict key1 new_dims then
        (case (if key1 = ''ulimits'' then ulim (dget new_dims key1) (dget current key2)
               else differ (dget new_dims key1) (dget current key2) key1) of
           Inl e \<Rightarrow> Inl e
         | Inr True \<Rightarrow> Inr True
         | Inr False \<Rightarrow> compare_dims_loop differ ulim new_dims current keys)
      else if truthy (dget current key2) then Inr True
      else compare_dims_loop differ ulim new_dims current keys)"

text \<open>
  \<open>compare_dimensions\<close>.  \<open>kernel_removed\<close> is \<open>_dimensions_kernel_memory_removed\<close>: the Docker
  worker drops that dimension from the map.
\<close>

definition compare_dimensions ::
  "(pyval \<Rightarrow> pyval \<Rightarrow> string \<Rightarrow> pyexn + bool) \<Rightarrow> (pyval \<Rightarrow> pyval \<Rightarrow> pyexn + bool) \<Rightarrow>
   bool \<Rightarrow> params \<Rightarrow> container_info \<Rightarrow> pyexn + bool" where
  "compare_dimensions differ ulim kernel_removed p ci =
     (let dmap = (if kernel_removed then AList.delete ''kernel_memory'' dimension_map else dimension_map)
      in if \<not> list_all (\<lambda>k. in_dict k dmap) (dict_keys (p_dimensions p))
         then Inl (ExitJson ''Unsupported dimensions'')
         else compare_dims_loop differ ulim (p_dimensions p) (hc_dims (ci_host ci)) dmap)"

section \<open>Environment\<close>

fun parse_env :: "string list \<Rightarrow> (string, string) pydict \<Rightarrow> pyexn + (string, string) pydict" where
  "parse_env [] d = Inr d"
| "parse_env (kv # kvs) d =
     (case split_once (CHR ''='') kv of
        None \<Rightarrow> Inl ValueError
      | Some (k, v) \<Rightarrow> parse_env kvs (AList.update k v d))"

definition compare_environment :: "params \<Rightarrow> container_info \<Rightarrow> pyexn + bool" where
  "compare_environment p ci =
     (if p_environment p = [] then Inr False
      else
        (case parse_env (ci_env ci) [] of Inl e \<Rightarrow> Inl e
         | Inr env \<Rightarrow>
             Inr (list_ex (\<lambda>(k, v). case map_of env k of None \<Rightarrow> True | Some s \<Rightarrow> \<not> py_eq (PyStr s) v)
                   (p_environment p))))"

section \<open>Command: \<open>shlex.split\<close>\<close>

datatype lexmode = Space | Word | Quoted char | Escaped lexmode

definition lex_white :: "char \<Rightarrow> bool" where
  "lex_white c \<longleftrightarrow> c \<in> {CHR '' '', CHR 0x09, CHR 0x0D, CHR 0x0A}"

definition lex_quote :: "char \<Rightarrow> bool" where
  "lex_quote c \<longleftrightarrow> c = CHR 0x27 \<or> c = CHR 0x22"

definition emit :: "string \<Rightarrow> pyexn + string list \<Rightarrow> pyexn + string list" where
  "emit tok r = (case r of Inl e \<Rightarrow> Inl e | Inr ts \<Rightarrow> Inr (tok # ts))"

text \<open>
  The POSIX lexer of the standard library with \<open>whitespace_split\<close> and no comments: the
  current mode, the token so far, and whether a quote was seen in it.
\<close>

fun shlex :: "lexmode \<Rightarrow> string \<Rightarrow> bool \<Rightarrow> string \<Rightarrow> pyexn + string list" where
  "shlex (Quoted q) tok quoted [] = Inl ValueError"
| "shlex (Escaped m) tok quoted [] = Inl ValueError"
| "shlex Space tok quoted [] = Inr (if tok \<noteq> [] \<or> quoted then [tok] else [])"
| "shlex Word tok quoted [] = Inr (if tok \<noteq> [] \<or> quoted then [tok] else [])"
| "shlex Space tok quoted (c # cs) =
     (if lex_white c then shlex Space tok quoted cs
      else if c = CHR 0x5C then shlex (Escaped Word) tok quoted cs
      else if lex_quote c then shlex (Quoted c) tok quoted cs
      else shlex Word (tok @ [c]) quoted cs)"
| "shlex (Quoted q) tok quoted (c # cs) =
     (if c = q then shlex Word tok True cs
      else if c = CHR 0x5C \<and> q = CHR 0x22 then shlex (Escaped (Quoted q)) tok True cs
      else shlex (Quoted q) (tok @ [c]) True cs)"
| "shlex (Escaped (Quoted q)) tok quoted (c # cs) =
     shlex (Quoted q) (tok @ (if c \<noteq> CHR 0x5C \<and> c \<noteq> q then [CHR 0x5C, c] else [c])) quoted cs"
| "shlex (Escaped m) tok quoted (c # cs) = shlex Word (tok @ [c]) quoted cs"
| "shlex Word tok quoted (c # cs) =
     (if lex_white c then
        (if tok \<noteq> [] \<or> quoted then emit tok (shlex Space [] False cs) else shlex Space tok quoted cs)
      else if lex_quote c then shlex (Quoted c) tok quoted cs
      else if c = CHR 0x5C then shlex (Escaped Word) tok quoted cs
      else shlex Word (tok @ [c]) quoted cs)"

definition shlex_split :: "string \<Rightarrow> pyexn + string list" where
  "shlex_split s = shlex Space [] False s"

definition compare_command :: "params \<Rightarrow> container_info \<Rightarrow> pyexn + bool" where
  "compare_command p ci =
     (case p_command p of
        None \<Rightarrow> Inr False
      | Some new_command \<Rightarrow>
          (case shlex_split new_command of
             Inl e \<Rightarrow> Inl e
           | Inr [] \<Rightarrow> Inl IndexError
           | Inr (new_path # new_args) \<Rightarrow> Inr (new_path \<noteq> ci_path ci \<or> new_args \<noteq> ci_args ci)))"

section \<open>Health checks\<close>

definition healthcheck_keys :: "string list" where
  "healthcheck_keys = [''test'', ''interval'', ''timeout'', ''start_period'', ''retries'']"

definition healthcheck_test :: "pyval \<Rightarrow> pyval" where
  "healthcheck_test v =
     (case v of
        PyList vs \<Rightarrow> PyList (map (\<lambda>e. PyStr (py_str e)) vs)
      | _ \<Rightarrow> PyList [PyStr ''CMD-SHELL'', PyStr (py_str v)])"

text \<open>The loop over the health check's items; \<open>Inr None\<close> is the early \<open>return None\<close>.\<close>

fun parse_health_items :: "pyobj \<Rightarrow> pyobj \<Rightarrow> pyexn + pyobj option" where
  "parse_health_items [] acc = Inr (Some acc)"
| "parse_health_items ((key, v) # items) acc =
     (if key \<in> {''interval'', ''timeout'', ''start_period''} then
        (case py_int v of Inl e \<Rightarrow> Inl e
         | Inr n \<Rightarrow> parse_health_items items (AList.update key (PyInt (n * 1000000000)) acc))
      else if key = ''test'' then
        (if v = PyList [PyStr ''NONE''] \<or> v = PyStr ''NONE'' then Inr None
         else parse_health_items items (AList.update key (healthcheck_test v) acc))
      else if key = ''retries'' then
        (case py_int v of Inl e \<Rightarrow> Inl e
         | Inr n \<Rightarrow> parse_health_items items (AList.update key (PyInt n) acc))
      else parse_health_items items acc)"

definition parse_healthcheck :: "pyobj \<Rightarrow> pyexn + pyobj option" where
  "parse_healthcheck healthcheck =
     (if healthcheck = [] then Inr None
      else if \<not> list_all (\<lambda>k. k \<in> set healthcheck_keys) (dict_keys healthcheck)
      then Inl (ExitJson ''Unsupported healthcheck options'')
      else if \<not> list_all (\<lambda>k. in_dict k healthcheck) healthcheck_keys
      then Inl (ExitJson ''Missing healthcheck option'')
      else parse_health_items healthcheck [])"

definition healthcheck_map :: "(string, string) pydict" where
  "healthcheck_map =
     [(''test'', ''Test''), (''retries'', ''Retries''), (''interval'', ''Interval''),
      (''start_period'', ''StartPeriod''), (''timeout'', ''Timeout'')]"

definition rename_key :: "string \<Rightarrow> string" where
  "rename_key k = (case map_of healthcheck_map k of None \<Rightarrow> k | Some l \<Rightarrow> l)"

definition compare_healthcheck :: "(pyobj \<Rightarrow> pyexn + pyobj option) \<Rightarrow> params \<Rightarrow> container_info \<Rightarrow> pyexn + bool" where
  "compare_healthcheck parse p ci =
     (case parse (p_healthcheck p) of
        Inl e \<Rightarrow> Inl e
      | Inr (Some new) \<Rightarrow>
          (case ci_healthcheck ci of
             Some (c # cs) \<Rightarrow> Inr (\<not> py_dict_eq (map (\<lambda>(k, v). (rename_key k, v)) new) (c # cs))
           | _ \<Rightarrow> Inr True)
      | Inr None \<Rightarrow> Inr (\<not> (ci_healthcheck ci = None \<or> ci_healthcheck ci = Some [])))"

section \<open>Image names, volumes, environment\<close>

text \<open>\<open>parse_image\<close>: the repository and the tag.  No image at all is a TypeError.\<close>

definition parse_image :: "params \<Rightarrow> pyexn + string \<times> string" where
  "parse_image p =
     (case p_image p of
        None \<Rightarrow> Inl TypeError
      | Some full_image \<Rightarrow>
          (let img = (case split_once (CHR ''/'') full_image of None \<Rightarrow> full_image | Some (registry, rest) \<Rightarrow> rest)
           in if CHR '':'' \<in> set img then Inr (the (rsplit_once (CHR '':'') full_image))
              else Inr (full_image, ''latest'')))"

type_synonym binds = "(string, string \<times> string) pydict"

text \<open>
  \<open>generate_volumes\<close>: the container paths, and the binds \<open>source: (bind, mode)\<close>.  A volume
  like \<open>/host:ro\<close> has no third field and is an IndexError.
\<close>

fun volumes_loop :: "string list \<Rightarrow> string list \<Rightarrow> binds \<Rightarrow> pyexn + string list \<times> binds" where
  "volumes_loop [] vol_list vol_dict = Inr (vol_list, vol_dict)"
| "volumes_loop (vol # vols) vol_list vol_dict =
     (if vol = [] then volumes_loop vols vol_list vol_dict
      else if CHR '':'' \<notin> set vol then volumes_loop vols (vol_list @ [vol]) vol_dict
      else
        (let parts = py_split (CHR '':'') vol;
             parts' = (if length parts = 2 \<and> (CHR ''/'' \<notin> set (parts ! 0) \<or> CHR ''/'' \<in> set (parts ! 1))
                       then parts @ [''rw''] else parts)
         in if length parts' < 3 then Inl IndexError
            else volumes_loop vols (vol_list @ [parts' ! 1])
                   (AList.update (parts' ! 0) (parts' ! 1, parts' ! 2) vol_dict)))"

definition generate_volumes :: "string list \<Rightarrow> pyexn + (string list \<times> binds) option" where
  "generate_volumes volumes =
     (if volumes = [] then Inr None
      else (case volumes_loop volumes [] [] of Inl e \<Rightarrow> Inl e | Inr r \<Rightarrow> Inr (Some r)))"

text \<open>\<open>_inject_env_var\<close> and \<open>_format_env_vars\<close>; no name is an AttributeError.\<close>

definition inject_env_var :: "params \<Rightarrow> pyexn + pyobj" where
  "inject_env_var p =
     (case p_name p of
        None \<Rightarrow> Inl AttributeError
      | Some name \<Rightarrow>
          Inr (AList.update ''KOLLA_SERVICE_NAME'' (PyStr (replace_char (CHR ''_'') (CHR ''-'') name))
                 (p_environment p)))"

definition format_env_vars :: "params \<Rightarrow> pyexn + pyobj" where
  "format_env_vars p =
     (case inject_env_var p of Inl e \<Rightarrow> Inl e
      | Inr env \<Rightarrow> Inr (map (\<lambda>(k, v). (k, if v = PyNone then PyStr [] else v)) env))"

section \<open>\<open>check_container_differs\<close> and \<open>compare_container\<close>\<close>

text \<open>
  The virtual methods of the subclass, as the base class calls them.  The comparisons run in
  the order of the source and stop at the first that is true.
\<close>

record 'd worker =
  vm_check_container :: "('d, bool) act"
  vm_get_info :: "('d, container_info option) act"
  vm_check_image_labels :: "('d, pyobj option) act"
  vm_compare_config :: "('d, bool) act"
  vm_cap_add :: "container_info \<Rightarrow> bool"
  vm_image :: "container_info \<Rightarrow> ('d, bool) act"
  vm_pid_mode :: "container_info \<Rightarrow> bool"
  vm_volumes :: "container_info \<Rightarrow> pyexn + bool"
  vm_dimensions :: "container_info \<Rightarrow> pyexn + bool"
  vm_parse_healthcheck :: "pyobj \<Rightarrow> pyexn + pyobj option"

definition check_container_differs :: "'d worker \<Rightarrow> params \<Rightarrow> ('d, bool) act" where
  "check_container_differs V p =
     bnd (vm_get_info V) (\<lambda>info.
       case info of
         None \<Rightarrow> return_io True
       | Some ci \<Rightarrow>
           any_io
             [return_io (vm_cap_add V ci),
              return_io (compare_security_opt p ci),
              vm_image V ci,
              return_io (compare_ipc_mode p ci),
              bnd (vm_check_image_labels V) (\<lambda>labels. lift_sum (compare_labels p labels ci)),
              return_io (compare_privileged p ci),
              return_io (vm_pid_mode V ci),
              return_io (compare_cgroupns_mode p ci),
              return_io (compare_tmpfs p ci),
              lift_sum (vm_volumes V ci),
              return_io (compare_volumes_from p ci),
              lift_sum (compare_environment p ci),
              return_io (compare_container_state p ci),
              lift_sum (vm_dimensions V ci),
              lift_sum (compare_command p ci),
              lift_sum (compare_healthcheck (vm_parse_healthcheck V) p ci)])"

text \<open>The systemd object of the worker; without a name it has no attributes.\<close>

definition with_unit :: "params \<Rightarrow> (container_dict \<Rightarrow> ('d, 'a) act) \<Rightarrow> ('d, 'a) act" where
  "with_unit p f = (case systemd_init p of Inr (Some c) \<Rightarrow> f c | _ \<Rightarrow> raise_io AttributeError)"

definition compare_container :: "'d worker \<Rightarrow> params \<Rightarrow> ('d, bool) act" where
  "compare_container V p =
     bnd (vm_check_container V) (\<lambda>container.
     bnd (or_io (return_io (\<not> container))
         (or_io (check_container_differs V p)
         (or_io (vm_compare_config V)
                (with_unit p (\<lambda>c. check_unit_change c []))))) (\<lambda>differs.
     bnd (when_io differs set_changed) (\<lambda>_.
     gets_io changed)))"

section \<open>Dimensions: equality of the values meant\<close>

text \<open>
  The values a dimension can be written as: an integer, its decimal numeral, or a numeral
  followed by a unit in either case.
\<close>

inductive dim_value :: "pyval \<Rightarrow> int \<Rightarrow> bool" where
  plain_int: "dim_value (PyInt n) n"
| numeral_str: "dim_value (PyStr (str_of_int n)) n"
| with_unit_str: "unit_size (lower_char u) = Some k \<Longrightarrow> dim_value (PyStr (str_of_int n @ [u])) (n * k)"

inductive_cases dim_value_cases: "dim_value a x"

lemma lower_char_digit: "is_digit c \<Longrightarrow> lower_char c = c"
  by (simp add: is_digit_def lower_char_def Let_def)

lemma last_str_of_int: "is_digit (last (str_of_int n))"
proof -
  have "is_digit (last (str_of_nat m))" for m
    using str_of_nat_set [of "last (str_of_nat m)" m] by simp
  then show ?thesis by (simp add: str_of_int_def)
qed

lemma str_of_int_nonempty [simp]: "str_of_int n \<noteq> []"
  by (simp add: str_of_int_def)

lemma unit_size_not_digit: "unit_size c = Some k \<Longrightarrow> \<not> is_digit c"
  by (auto simp: unit_size_def is_digit_def split: if_splits)

lemma normalize_numeral: "normalize_dimension (str_of_int n) = Inr (str_of_int n)"
  using last_str_of_int [of n] by (simp add: normalize_dimension_def lower_char_digit)

lemma normalize_unit:
  "unit_size (lower_char u) = Some k \<Longrightarrow> normalize_dimension (str_of_int n @ [u]) = Inr (str_of_int (n * k))"
  using unit_size_not_digit [of "lower_char u" k] by (simp add: normalize_dimension_def Let_def)

lemma dim_value_normal:
  assumes "dim_value a x"
  shows "a \<noteq> PyNone" "py_str a \<noteq> []" "normalize_dimension (py_str a) = Inr (str_of_int x)"
  using assms by (auto elim!: dim_value_cases simp: normalize_numeral normalize_unit)

text \<open>
  On dimensions written as integers, numerals or numerals with a unit, \<open>dimensions_differ\<close>
  answers yes exactly when the two numbers meant are different, whatever their spelling.
\<close>

lemma dimensions_differ_value:
  assumes "dim_value a x" and "dim_value b y"
  shows "dimensions_differ a b key = Inr (x \<noteq> y)"
  using dim_value_normal [OF assms(1)] dim_value_normal [OF assms(2)]
  by (simp add: dimensions_differ_def Let_def str_of_int_inj)

lemma dimensions_differ_value_witness:
  "dimensions_differ (PyStr ''512M'') (PyInt 536870912) ''mem_limit'' = Inr False"
proof -
  have s: "str_of_int 512 = ''512''" by code_simp
  have "dim_value (PyStr (str_of_int 512 @ [CHR ''M''])) (512 * 1048576)"
    by (rule with_unit_str) code_simp
  then have "dim_value (PyStr ''512M'') 536870912" by (simp add: s)
  from dimensions_differ_value [OF this plain_int] show ?thesis by simp
qed

section \<open>Labels\<close>

lemma in_dict_delete: "in_dict l (AList.delete k d) \<longleftrightarrow> l \<noteq> k \<and> in_dict l d"
  by (auto simp: in_dict_iff map_of_AList_delete)

definition own_labels :: "pyobj \<Rightarrow> pyobj \<Rightarrow> pyobj \<Rightarrow> pyobj" where
  "own_labels imgs new_labels current =
     filter (\<lambda>kv. \<not> (in_dict (fst kv) imgs \<and> \<not> in_dict (fst kv) new_labels)) current"

definition labels_agree :: "pyobj \<Rightarrow> pyobj \<Rightarrow> bool" where
  "labels_agree imgs new_labels \<longleftrightarrow>
     list_all (\<lambda>(k, v). case map_of new_labels k of None \<Rightarrow> True | Some w \<Rightarrow> py_eq v w) imgs"

lemma strip_image_labels_spec:
  assumes "wf_dict imgs"
    and "\<And>k. in_dict k imgs \<Longrightarrow> in_dict k new_labels \<or> in_dict k current"
  shows "strip_image_labels imgs new_labels current =
    Inr (if labels_agree imgs new_labels then Some (own_labels imgs new_labels current) else None)"
  using assms
proof (induction imgs arbitrary: current)
  case Nil
  then show ?case by (simp add: labels_agree_def own_labels_def in_dict_def)
next
  case (Cons kv imgs)
  obtain k v where kv: "kv = (k, v)" by fastforce
  have fresh: "\<not> in_dict k imgs" using Cons.prems(1) by (simp add: kv in_dict_def)
  show ?case
  proof (cases "map_of new_labels k")
    case None
    then have nk: "\<not> in_dict k new_labels" by (simp add: in_dict_iff)
    then have ck: "in_dict k current" using Cons.prems(2) [of k] by (simp add: kv in_dict_def)
    have "strip_image_labels imgs new_labels (AList.delete k current) =
        Inr (if labels_agree imgs new_labels then Some (own_labels imgs new_labels (AList.delete k current)) else None)"
    proof (rule Cons.IH)
      show "wf_dict imgs" using Cons.prems(1) by simp
      fix l assume l: "in_dict l imgs"
      then have "l \<noteq> k" "in_dict l (kv # imgs)" using fresh by (auto simp: in_dict_def)
      then show "in_dict l new_labels \<or> in_dict l (AList.delete k current)"
        using Cons.prems(2) [of l] by (simp add: in_dict_delete)
    qed
    moreover have "own_labels imgs new_labels (AList.delete k current) = own_labels (kv # imgs) new_labels current"
      using nk unfolding own_labels_def AList.delete_eq
      by (simp add: filter_filter) (rule filter_cong, simp, force simp: kv in_dict_def)
    ultimately show ?thesis using None ck by (simp add: kv labels_agree_def)
  next
    case (Some w)
    then have "in_dict k new_labels" by (simp add: in_dict_iff)
    then have "own_labels imgs new_labels current = own_labels (kv # imgs) new_labels current"
      unfolding own_labels_def by (auto simp: kv in_dict_def intro!: filter_cong)
    moreover have "strip_image_labels imgs new_labels current =
        Inr (if labels_agree imgs new_labels then Some (own_labels imgs new_labels current) else None)"
      using Cons.prems by (intro Cons.IH) (auto simp: in_dict_def)
    ultimately show ?thesis using Some by (simp add: kv labels_agree_def)
  qed
qed

text \<open>
  What \<open>compare_labels\<close> decides.  As long as every image label is still on the container
  or set by the user, it finds no difference exactly when no user label contradicts an image
  label and the container's labels, less those inherited from the image, are the user's.  In
  particular a user label that overrides an image label with another value is reported as a
  difference whatever the container carries.
\<close>

lemma compare_labels_spec:
  assumes "wf_dict imgs" and "ci_labels ci = Some current"
    and "list_all (\<lambda>k. in_dict k (p_labels p) \<or> in_dict k current) (dict_keys imgs)"
  shows "compare_labels p (Some imgs) ci =
    Inr (\<not> (labels_agree imgs (p_labels p) \<and> py_dict_eq (p_labels p) (own_labels imgs (p_labels p) current)))"
proof -
  have "in_dict k (p_labels p) \<or> in_dict k current" if "in_dict k imgs" for k
    using assms(3) that by (auto simp: list_all_iff dict_keys_def in_dict_def)
  then show ?thesis
    using strip_image_labels_spec [OF assms(1), of "p_labels p" current] assms(2)
    by (simp add: compare_labels_def)
qed

definition demo_info :: container_info where
  "demo_info =
     \<lparr>ci_image = ''sha256:1'', ci_path = ''kolla_start'', ci_args = [], ci_status = Some ''running'',
      ci_config_image = ''quay.io/kolla/web:1'', ci_labels = Some [(''maintainer'', PyStr ''kolla'')],
      ci_env = [''KOLLA_SERVICE_NAME=web''], ci_volumes = None, ci_healthcheck = None,
      ci_host = \<lparr>hc_ipc_mode = None, hc_cap_add = None, hc_security_opt = None, hc_pid_mode = None,
        hc_cgroupns_mode = None, hc_cgroup_mode = None, hc_privileged = False, hc_tmpfs = None,
        hc_volumes_from = None, hc_binds = None, hc_dims = []\<rparr>\<rparr>"

lemma compare_labels_spec_witness:
  "compare_labels (params_of [(''labels'', PyDict [])]) (Some [(''maintainer'', PyStr ''kolla'')]) demo_info = Inr False
   \<and> compare_labels (params_of [(''labels'', PyDict [(''maintainer'', PyStr ''me'')])])
        (Some [(''maintainer'', PyStr ''kolla'')]) demo_info = Inr True"
proof -
  have l: "ci_labels demo_info = Some [(''maintainer'', PyStr ''kolla'')]"
    by (simp add: demo_info_def)
  show ?thesis
    using compare_labels_spec [OF _ l, of "[(''maintainer'', PyStr ''kolla'')]" "params_of [(''labels'', PyDict [])]"]
      compare_labels_spec [OF _ l, of "[(''maintainer'', PyStr ''kolla'')]"
        "params_of [(''labels'', PyDict [(''maintainer'', PyStr ''me'')])]"]
    by (simp add: params_of_def params_getters in_dict_def dict_keys_def labels_agree_def own_labels_def py_dict_eq_def)
qed

section \<open>The environment a container is created with\<close>

text \<open>The \<open>Env\<close> list of a container created with the formatted environment \<open>e\<close>.\<close>

definition env_entries :: "pyobj \<Rightarrow> string list" where
  "env_entries e = map (\<lambda>(k, v). k @ CHR ''='' # py_str v) e"

definition is_str :: "pyval \<Rightarrow> bool" where
  "is_str v = (case v of PyStr _ \<Rightarrow> True | _ \<Rightarrow> False)"

lemma parse_env_entries:
  assumes "\<And>k. in_dict k e \<Longrightarrow> CHR ''='' \<notin> set k"
  shows "\<exists>d. parse_env (env_entries e) d0 = Inr d \<and> d = dict_update d0 (map (\<lambda>(k, v). (k, py_str v)) e)"
  using assms
proof (induction e arbitrary: d0)
  case Nil
  then show ?case by (simp add: env_entries_def dict_update_def)
next
  case (Cons kv e)
  obtain k v where kv: "kv = (k, v)" by fastforce
  then have "split_once (CHR ''='') (k @ CHR ''='' # py_str v) = Some (k, py_str v)"
    using Cons.prems [of k] by (intro split_once_append) (simp add: in_dict_def)
  moreover have "\<exists>d. parse_env (env_entries e) (AList.update k (py_str v) d0) = Inr d \<and>
      d = dict_update (AList.update k (py_str v) d0) (map (\<lambda>(k, v). (k, py_str v)) e)"
    using Cons.prems by (intro Cons.IH) (simp add: in_dict_def)
  ultimately show ?case by (simp add: kv env_entries_def dict_update_def)
qed

lemma map_of_map_py_str: "map_of (map (\<lambda>(k, v). (k, f v)) e) k = map_option f (map_of e k)"
  by (induction e) auto

lemma wf_dict_map_snd: "wf_dict (map (\<lambda>(k, v). (k, f v)) e) \<longleftrightarrow> wf_dict e"
  by (simp add: wf_dict_def comp_def split_def)

lemma py_eq_str_iff: "py_eq (PyStr s) v \<longleftrightarrow> v = PyStr s"
  by simp

text \<open>
  Comparing a container with the very parameters it was created from.  When the user's
  environment has distinct names without an equals sign and does not itself set
  \<open>KOLLA_SERVICE_NAME\<close>, the environment comparison on the container made from
  \<open>format_env_vars\<close> answers no difference exactly when every value is a string: a None
  (created as the empty string) or an integer is reported as a difference for ever.
\<close>

lemma environment_idempotent_iff_strings:
  assumes "p_name p = Some name" and "wf_dict (p_environment p)"
    and "list_all (\<lambda>(k, v). CHR ''='' \<notin> set k \<and> k \<noteq> ''KOLLA_SERVICE_NAME'') (p_environment p)"
  shows "\<exists>e. format_env_vars p = Inr e \<and>
    (ci_env ci = env_entries e \<longrightarrow>
       compare_environment p ci = Inr (\<not> list_all (\<lambda>(k, v). is_str v) (p_environment p)))"
proof -
  let ?env = "p_environment p"
  let ?inj = "AList.update ''KOLLA_SERVICE_NAME'' (PyStr (replace_char (CHR ''_'') (CHR ''-'') name)) ?env"
  let ?fmt = "\<lambda>v. if v = PyNone then PyStr [] else v"
  let ?e = "map (\<lambda>(k, v). (k, ?fmt v)) ?inj"
  have f: "format_env_vars p = Inr ?e"
    using assms(1) by (simp add: format_env_vars_def inject_env_var_def)
  have keys: "CHR ''='' \<notin> set k" if "in_dict k ?e" for k
  proof -
    have "in_dict k ?inj" using that by (simp add: in_dict_iff map_of_map_py_str)
    then have "k = ''KOLLA_SERVICE_NAME'' \<or> in_dict k ?env" by (auto simp: in_dict_iff split: if_splits)
    then show ?thesis using assms(3) by (auto simp: list_all_iff in_dict_def)
  qed
  have wf: "wf_dict (map (\<lambda>(k, v). (k, py_str v)) ?e)"
    using assms(2) by (simp only: wf_dict_map_snd) (rule wf_dict_update)
  have got: "map_of (dict_update [] (map (\<lambda>(k, v). (k, py_str v)) ?e)) k = Some (py_str (?fmt v))"
    if "(k, v) \<in> set ?env" for k v
  proof -
    have "map_of ?env k = Some v" using that assms(2) by (simp add: wf_dict_def)
    moreover have "k \<noteq> ''KOLLA_SERVICE_NAME''" using that assms(3) by (auto simp: list_all_iff)
    ultimately have "map_of (map (\<lambda>(k, v). (k, py_str v)) ?e) k = Some (py_str (?fmt v))"
      by (simp add: map_of_map_py_str del: map_map)
    then show ?thesis using dict_update_get [OF wf, of "[]" k] by simp
  qed
  have eq: "py_eq (PyStr (py_str (?fmt v))) v \<longleftrightarrow> is_str v" for v
    by (cases v) (simp_all add: is_str_def)
  show ?thesis
  proof (intro exI conjI impI)
    show "format_env_vars p = Inr ?e" by (rule f)
    assume ci: "ci_env ci = env_entries ?e"
    obtain d where d: "parse_env (env_entries ?e) [] = Inr d"
      "d = dict_update [] (map (\<lambda>(k, v). (k, py_str v)) ?e)"
      using parse_env_entries [of ?e "[]"] keys by blast
    have "(case map_of d k of None \<Rightarrow> True | Some s \<Rightarrow> \<not> py_eq (PyStr s) v) = (\<not> is_str v)"
      if "(k, v) \<in> set ?env" for k v
      using got [OF that] eq [of v] d(2) by (simp only: option.case)
    then have "list_ex (\<lambda>(k, v). case map_of d k of None \<Rightarrow> True | Some s \<Rightarrow> \<not> py_eq (PyStr s) v) ?env
        = (\<not> list_all (\<lambda>(k, v). is_str v) ?env)"
      by (auto simp: list_ex_iff list_all_iff) blast+
    then show "compare_environment p ci = Inr (\<not> list_all (\<lambda>(k, v). is_str v) ?env)"
      using ci d(1) by (simp add: compare_environment_def)
  qed
qed

lemma environment_idempotent_iff_strings_witness:
  "compare_environment (params_of [(''name'', PyStr ''web''), (''environment'', PyDict [(''DEBUG'', PyNone)])])
     (demo_info\<lparr>ci_env := [''DEBUG='', ''KOLLA_SERVICE_NAME=web'']\<rparr>) = Inr True"
proof -
  let ?p = "params_of [(''name'', PyStr ''web''), (''environment'', PyDict [(''DEBUG'', PyNone)])]"
  have p: "p_name ?p = Some ''web''" "p_environment ?p = [(''DEBUG'', PyNone)]"
    by (simp_all add: params_of_def params_getters)
  have f: "format_env_vars ?p = Inr [(''DEBUG'', PyStr []), (''KOLLA_SERVICE_NAME'', PyStr ''web'')]"
    using p by (simp add: format_env_vars_def inject_env_var_def replace_char_def)
  show ?thesis
    using environment_idempotent_iff_strings [OF p(1), of "demo_info\<lparr>ci_env := [''DEBUG='', ''KOLLA_SERVICE_NAME=web'']\<rparr>"] f p(2)
    by (simp add: env_entries_def is_str_def)
qed

section \<open>Image names\<close>

definition split_tag :: "string \<Rightarrow> string \<times> string" where
  "split_tag s = (case rsplit_once (CHR '':'') s of None \<Rightarrow> (s, ''latest'') | Some rt \<Rightarrow> rt)"

lemma rsplit_once_app:
  assumes "c \<in> set t"
  shows "rsplit_once c (a @ t) = (case rsplit_once c t of None \<Rightarrow> None | Some (x, y) \<Rightarrow> Some (a @ x, y))"
proof -
  obtain x y where xy: "rsplit_once c t = Some (x, y)"
    using assms rsplit_once_None_iff [of c t] by fastforce
  then have "t = x @ c # y" "c \<notin> set y" by (auto dest: rsplit_once_SomeD)
  then have "rsplit_once c (a @ t) = Some (a @ x, y)"
    using rsplit_once_append [of c y "a @ x"] by simp
  with xy show ?thesis by simp
qed

text \<open>
  What \<open>parse_image\<close> returns.  A tag is looked for only after the first slash, so that the
  port of a registry is never taken for one; the tag is what follows the last colon there,
  and \<open>latest\<close> when there is none; repository and tag put together again are the image.
\<close>

lemma parse_image_spec:
  "(p_image p = Some (reg @ CHR ''/'' # rest) \<and> CHR ''/'' \<notin> set reg \<longrightarrow>
      parse_image p = Inr (reg @ CHR ''/'' # fst (split_tag rest), snd (split_tag rest)))
   \<and> (p_image p = Some img \<and> CHR ''/'' \<notin> set img \<longrightarrow> parse_image p = Inr (split_tag img))
   \<and> (\<forall>repo tag. parse_image p = Inr (repo, tag) \<longrightarrow>
        CHR '':'' \<notin> set tag \<and> (p_image p = Some (repo @ CHR '':'' # tag) \<or> p_image p = Some repo \<and> tag = ''latest''))"
proof (intro conjI impI allI)
  assume "p_image p = Some (reg @ CHR ''/'' # rest) \<and> CHR ''/'' \<notin> set reg"
  moreover have "rsplit_once (CHR '':'') ((reg @ [CHR ''/'']) @ rest) =
      (case rsplit_once (CHR '':'') rest of None \<Rightarrow> None | Some (x, y) \<Rightarrow> Some ((reg @ [CHR ''/'']) @ x, y))"
    if "CHR '':'' \<in> set rest" using that by (rule rsplit_once_app)
  ultimately show "parse_image p = Inr (reg @ CHR ''/'' # fst (split_tag rest), snd (split_tag rest))"
    using rsplit_once_None_iff [of "CHR '':''" rest]
    by (auto simp: parse_image_def split_once_append split_tag_def split: option.splits)
next
  assume "p_image p = Some img \<and> CHR ''/'' \<notin> set img"
  then show "parse_image p = Inr (split_tag img)"
    using split_once_None_iff [of "CHR ''/''" img] rsplit_once_None_iff [of "CHR '':''" img]
    by (auto simp: parse_image_def split_tag_def split: option.splits)
next
  fix repo tag
  assume r: "parse_image p = Inr (repo, tag)"
  then obtain full where full: "p_image p = Some full" by (auto simp: parse_image_def split: option.splits)
  show "CHR '':'' \<notin> set tag"
  proof (cases "rsplit_once (CHR '':'') full = Some (repo, tag)")
    case True
    then show ?thesis by (auto dest: rsplit_once_SomeD)
  next
    case False
    then show ?thesis using r full rsplit_once_None_iff [of "CHR '':''" full]
      by (auto simp: parse_image_def Let_def dest: split_once_SomeD split: option.splits if_splits)
  qed
  show "p_image p = Some (repo @ CHR '':'' # tag) \<or> p_image p = Some repo \<and> tag = ''latest''"
  proof (cases "rsplit_once (CHR '':'') full = Some (repo, tag)")
    case True
    then show ?thesis using full by (auto dest: rsplit_once_SomeD)
  next
    case False
    then show ?thesis using r full rsplit_once_None_iff [of "CHR '':''" full]
      by (auto simp: parse_image_def Let_def dest: split_once_SomeD split: option.splits if_splits)
  qed
qed

lemma parse_image_spec_witness:
  "parse_image (params_of [(''image'', PyStr ''reg:5000/kolla/web'')]) = Inr (''reg:5000/kolla/web'', ''latest'')"
proof -
  let ?p = "params_of [(''image'', PyStr ''reg:5000/kolla/web'')]"
  have "p_image ?p = Some (''reg:5000'' @ CHR ''/'' # ''kolla/web'')"
    by (simp add: params_of_def params_getters)
  moreover have "split_tag ''kolla/web'' = (''kolla/web'', ''latest'')" by code_simp
  ultimately show ?thesis using parse_image_spec [of ?p "''reg:5000''" "''kolla/web''" "[]"] by simp
qed

section \<open>Health checks\<close>

definition health_value :: "string \<Rightarrow> pyval \<Rightarrow> pyval" where
  "health_value k v =
     (if k = ''test'' then healthcheck_test v
      else (case py_int v of Inr n \<Rightarrow> PyInt (if k = ''retries'' then n else n * 1000000000) | Inl _ \<Rightarrow> PyNone))"

definition health_disabled :: "pyobj \<Rightarrow> bool" where
  "health_disabled hc \<longleftrightarrow>
     map_of hc ''test'' = Some (PyList [PyStr ''NONE'']) \<or> map_of hc ''test'' = Some (PyStr ''NONE'')"

lemma parse_health_items_spec:
  assumes "wf_dict items" and "set (map fst items) \<subseteq> set healthcheck_keys"
    and "\<And>k v. (k, v) \<in> set items \<Longrightarrow> k \<noteq> ''test'' \<Longrightarrow> \<exists>n. py_int v = Inr n"
  shows "\<exists>r. parse_health_items items acc = Inr r \<and>
    (if health_disabled items then r = None
     else \<exists>d. r = Some d \<and> (\<forall>k. map_of d k =
       (case map_of items k of None \<Rightarrow> map_of acc k | Some v \<Rightarrow> Some (health_value k v))))"
  using assms
proof (induction items arbitrary: acc)
  case Nil
  then show ?case by (simp add: health_disabled_def)
next
  case (Cons kv items)
  obtain k v where kv: "kv = (k, v)" by fastforce
  have k: "k \<in> set healthcheck_keys" and none: "map_of items k = None"
    using Cons.prems(1,2) by (auto simp: kv map_of_eq_None_iff)
  have IH: "\<exists>r. parse_health_items items acc' = Inr r \<and>
      (if health_disabled items then r = None
       else \<exists>d. r = Some d \<and> (\<forall>k. map_of d k =
         (case map_of items k of None \<Rightarrow> map_of acc' k | Some v \<Rightarrow> Some (health_value k v))))" for acc'
    using Cons.prems by (intro Cons.IH) auto
  have map_eq: "(case map_of items l of None \<Rightarrow> map_of (AList.update k (health_value k v) acc) l
        | Some w \<Rightarrow> Some (health_value l w)) =
      (case map_of (kv # items) l of None \<Rightarrow> map_of acc l | Some w \<Rightarrow> Some (health_value l w))" for l
    using none by (auto simp: kv split: option.splits)
  have step: ?case
    if "parse_health_items (kv # items) acc = parse_health_items items (AList.update k (health_value k v) acc)"
      and "health_disabled (kv # items) = health_disabled items"
    using IH [of "AList.update k (health_value k v) acc"] unfolding that map_eq .
  show ?case
  proof (cases "k = ''test''")
    case True
    show ?thesis
    proof (cases "v = PyList [PyStr ''NONE''] \<or> v = PyStr ''NONE''")
      case True
      with \<open>k = ''test''\<close> show ?thesis by (auto simp: kv health_disabled_def)
    next
      case False
      with none \<open>k = ''test''\<close> show ?thesis
        by (intro step) (auto simp: kv health_disabled_def health_value_def)
    qed
  next
    case False
    obtain n where n: "py_int v = Inr n" using Cons.prems(3) [of k v] False by (auto simp: kv)
    show ?thesis using k n False
      by (intro step) (auto simp: kv healthcheck_keys_def health_value_def health_disabled_def)
  qed
qed

text \<open>
  What \<open>parse_healthcheck\<close> returns.  A health check with all and only the five options,
  whose durations and retries are integers, gives no health check at all when its test is
  NONE, and otherwise the same five options, whatever their order: the durations in
  nanoseconds, the retries as they are, the test as a list of strings or a shell command.
  An unknown option or a missing one ends the module.
\<close>

lemma parse_healthcheck_spec:
  assumes "wf_dict hc" and "hc \<noteq> []"
  shows "(\<not> set (dict_keys hc) \<subseteq> set healthcheck_keys \<longrightarrow>
            parse_healthcheck hc = Inl (ExitJson ''Unsupported healthcheck options''))
    \<and> (set (dict_keys hc) \<subset> set healthcheck_keys \<longrightarrow>
            parse_healthcheck hc = Inl (ExitJson ''Missing healthcheck option''))
    \<and> (set (dict_keys hc) = set healthcheck_keys \<and>
         list_all (\<lambda>(k, v). k \<noteq> ''test'' \<longrightarrow> isl (py_int v) = False) hc \<longrightarrow>
       (if health_disabled hc then parse_healthcheck hc = Inr None
        else \<exists>d. parse_healthcheck hc = Inr (Some d) \<and>
               (\<forall>k. map_of d k = map_option (health_value k) (map_of hc k))))"
proof (intro conjI impI)
  assume "\<not> set (dict_keys hc) \<subseteq> set healthcheck_keys"
  then show "parse_healthcheck hc = Inl (ExitJson ''Unsupported healthcheck options'')"
    using assms(2) by (auto simp: parse_healthcheck_def list_all_iff)
next
  assume "set (dict_keys hc) \<subset> set healthcheck_keys"
  then show "parse_healthcheck hc = Inl (ExitJson ''Missing healthcheck option'')"
    using assms(2) by (auto simp: parse_healthcheck_def list_all_iff in_dict_def dict_keys_def)
next
  assume a: "set (dict_keys hc) = set healthcheck_keys \<and>
         list_all (\<lambda>(k, v). k \<noteq> ''test'' \<longrightarrow> isl (py_int v) = False) hc"
  then have run: "parse_healthcheck hc = parse_health_items hc []"
    using assms(2) by (auto simp: parse_healthcheck_def list_all_iff in_dict_def dict_keys_def)
  have "\<exists>n. py_int v = Inr n" if "(k, v) \<in> set hc" "k \<noteq> ''test''" for k v
    using a that by (cases "py_int v") (auto simp: list_all_iff)
  moreover have m: "(case x of None \<Rightarrow> map_of [] k | Some v \<Rightarrow> Some (f v)) = map_option f x"
    for x :: "pyval option" and f :: "pyval \<Rightarrow> pyval" and k :: string
    by (cases x) simp_all
  ultimately show "if health_disabled hc then parse_healthcheck hc = Inr None
        else \<exists>d. parse_healthcheck hc = Inr (Some d) \<and>
               (\<forall>k. map_of d k = map_option (health_value k) (map_of hc k))"
    using parse_health_items_spec [OF assms(1), of "[]"] a
    unfolding run m by (auto simp: dict_keys_def split: if_splits)
qed

lemma parse_healthcheck_spec_witness:
  "parse_healthcheck [(''test'', PyStr ''NONE''), (''interval'', PyInt 30), (''timeout'', PyInt 5),
      (''start_period'', PyStr ''1''), (''retries'', PyInt 3)] = Inr None"
proof -
  let ?hc = "[(''test'', PyStr ''NONE''), (''interval'', PyInt 30), (''timeout'', PyInt 5),
      (''start_period'', PyStr ''1''), (''retries'', PyInt 3)] :: pyobj"
  have "int_of_str ''1'' = Some 1" by code_simp
  then show ?thesis
    using parse_healthcheck_spec [of ?hc]
    by (auto simp: dict_keys_def healthcheck_keys_def health_disabled_def)
qed

section \<open>Commands\<close>

text \<open>A word in single quotes, with an embedded single quote written in double quotes.\<close>

definition quote_char :: "char \<Rightarrow> string" where
  "quote_char c = (if c = CHR 0x27 then [CHR 0x27, CHR 0x22, CHR 0x27, CHR 0x22, CHR 0x27] else [c])"

definition sh_quote :: "string \<Rightarrow> string" where
  "sh_quote w = CHR 0x27 # concat (map quote_char w) @ [CHR 0x27]"

lemma shlex_quoted_word:
  "shlex (Quoted (CHR 0x27)) tok quoted (concat (map quote_char w) @ CHR 0x27 # rest) = shlex Word (tok @ w) True rest"
  by (induction w arbitrary: tok quoted) (auto simp: quote_char_def lex_white_def lex_quote_def)

lemma shlex_sh_quote: "shlex Space [] False (sh_quote w @ rest) = shlex Word w True rest"
  using shlex_quoted_word [of "[]" False w rest]
  by (simp add: sh_quote_def lex_white_def lex_quote_def)

lemma shlex_split_quoted: "shlex_split (join_with '' '' (map sh_quote ws)) = Inr ws"
proof -
  have "shlex Space [] False (join_with '' '' (map sh_quote ws)) = Inr ws"
  proof (induction ws)
    case (Cons w ws)
    then show ?case
    proof (cases ws)
      case Nil
      then show ?thesis using shlex_sh_quote [of w "[]"] by simp
    next
      case (Cons v vs)
      have "shlex Space [] False (join_with '' '' (map sh_quote (w # ws))) =
          shlex Space [] False (sh_quote w @ CHR '' '' # join_with '' '' (map sh_quote ws))"
        by (simp add: Cons)
      also have "\<dots> = emit w (shlex Space [] False (join_with '' '' (map sh_quote ws)))"
        by (simp only: shlex_sh_quote) (simp add: lex_white_def)
      finally show ?thesis using \<open>shlex Space [] False (join_with '' '' (map sh_quote ws)) = Inr ws\<close>
        by (simp add: emit_def)
    qed
  qed simp
  then show ?thesis by (simp add: shlex_split_def)
qed

text \<open>
  Commands are compared word by word: for a command line made by quoting the words (spaces,
  quotes and backslashes in them included), \<open>compare_command\<close> answers no exactly when the
  container's path is the first word and its arguments are the others; an empty command is
  an IndexError.
\<close>

lemma compare_command_quoted:
  assumes "p_command p = Some (join_with '' '' (map sh_quote ws))"
  shows "compare_command p ci =
    (case ws of [] \<Rightarrow> Inl IndexError | w # args \<Rightarrow> Inr (\<not> (ci_path ci = w \<and> ci_args ci = args)))"
  using assms by (auto simp: compare_command_def shlex_split_quoted split: list.splits)

lemma compare_command_quoted_witness:
  "compare_command (params_of [(''command'', PyStr (join_with '' '' (map sh_quote [''echo'', ''a b''])))])
     (demo_info\<lparr>ci_path := ''echo'', ci_args := [''a b'']\<rparr>) = Inr False"
proof -
  let ?p = "params_of [(''command'', PyStr (join_with '' '' (map sh_quote [''echo'', ''a b''])))]"
  have "p_command ?p = Some (join_with '' '' (map sh_quote [''echo'', ''a b'']))"
    by (simp add: params_of_def params_getters)
  from compare_command_quoted [OF this] show ?thesis by simp
qed

section \<open>Volumes\<close>

text \<open>A volume as the user means it: source, target, and the mode if one is written.\<close>

type_synonym volume = "string \<times> string \<times> string option"

fun show_volume :: "volume \<Rightarrow> string" where
  "show_volume (src, dst, None) = src @ CHR '':'' # dst"
| "show_volume (src, dst, Some m) = src @ CHR '':'' # dst @ CHR '':'' # m"

fun good_volume :: "volume \<Rightarrow> bool" where
  "good_volume (src, dst, m) \<longleftrightarrow>
     CHR '':'' \<notin> set src \<and> CHR '':'' \<notin> set dst \<and> (case m of None \<Rightarrow> True | Some s \<Rightarrow> CHR '':'' \<notin> set s)
     \<and> (CHR ''/'' \<notin> set src \<or> CHR ''/'' \<in> set dst)"

definition volume_bind :: "volume \<Rightarrow> string \<times> string \<times> string" where
  "volume_bind v = (case v of (src, dst, m) \<Rightarrow> (src, dst, (case m of None \<Rightarrow> ''rw'' | Some s \<Rightarrow> s)))"

lemma volumes_loop_show:
  assumes "list_all good_volume vs"
  shows "volumes_loop (map show_volume vs) l d =
    Inr (l @ map (\<lambda>v. fst (snd v)) vs, dict_update d (map volume_bind vs))"
  using assms
proof (induction vs arbitrary: l d)
  case Nil
  then show ?case by (simp add: dict_update_def)
next
  case (Cons v vs)
  obtain src dst m where v: "v = (src, dst, m)" by (cases v)
  have "volumes_loop (map show_volume (v # vs)) l d =
      volumes_loop (map show_volume vs) (l @ [dst]) (AList.update src (snd (volume_bind v)) d)"
  proof (cases m)
    case None
    then have "py_split (CHR '':'') (show_volume v) = [src, dst]"
      using Cons.prems by (simp add: v py_split_append py_split_no_sep)
    then show ?thesis using Cons.prems None
      by (auto simp: v volume_bind_def Let_def)
  next
    case (Some s)
    then have "py_split (CHR '':'') (show_volume v) = [src, dst, s]"
      using Cons.prems by (simp add: v py_split_append py_split_no_sep)
    then show ?thesis using Cons.prems Some
      by (auto simp: v volume_bind_def Let_def)
  qed
  moreover have "(src, snd (volume_bind v)) = volume_bind v" by (simp add: v volume_bind_def)
  ultimately show ?case using Cons by (simp add: dict_update_def v volume_bind_def)
qed

text \<open>
  \<open>generate_volumes\<close> reads volumes as they are written: for volumes \<open>source:target\<close> or
  \<open>source:target:mode\<close> (a host path only with an absolute target) it returns the targets in
  order and one bind per source, with mode rw where none is written and the last entry of a
  source winning.
\<close>

lemma generate_volumes_show:
  assumes "list_all good_volume vs" and "vs \<noteq> []"
  shows "\<exists>d. generate_volumes (map show_volume vs) = Inr (Some (map (\<lambda>v. fst (snd v)) vs, d))
    \<and> wf_dict d \<and> (\<forall>src. map_of d src = map_of (rev (map volume_bind vs)) src)"
proof -
  have "map_of (dict_update [] (map volume_bind vs)) src = map_of (rev (map volume_bind vs)) src" for src
    unfolding dict_update_def
    by (simp add: pd.get_put_all split: option.splits)
  then show ?thesis
    using volumes_loop_show [OF assms(1), of "[]" "[]"] assms(2)
    by (auto simp: generate_volumes_def)
qed

lemma generate_volumes_show_witness:
  "\<exists>d. generate_volumes [''data:/var/lib'', ''/etc/x:/etc/x:ro''] = Inr (Some ([''/var/lib'', ''/etc/x''], d))
     \<and> map_of d ''/etc/x'' = Some (''/etc/x'', ''ro'')"
proof -
  let ?vs = "[(''data'', ''/var/lib'', None), (''/etc/x'', ''/etc/x'', Some ''ro'')] :: volume list"
  have "list_all good_volume ?vs" "?vs \<noteq> []" by simp_all
  from generate_volumes_show [OF this] show ?thesis by (fastforce simp: volume_bind_def)
qed

end
