(* ===== verification/DockerWorker.thy ===== *)
theory DockerWorker
  imports ContainerWorker
begin

text \<open>
  \<open>DockerWorker\<close> (\<open>ansible/module_utils/kolla_docker_worker.py\<close>), every operation of the class
  but the unused \<open>generate_tls\<close> and \<open>check_file\<close>, and the dispatch in \<open>main\<close> of the
  kolla_container module.

  The engine is the record \<open>docker\<close>: one field per method of docker-py's APIClient the code
  calls, each a function of the arguments and of the outside state to an answer or an
  exception and the next outside state.  Nothing is assumed of it here.
\<close>

section \<open>The engine client\<close>

type_synonym ('d, 'a) ecall = "'d \<Rightarrow> (pyexn + 'a) \<times> 'd"

record engine_image =
  im_id :: string
  im_repo_tags :: "string list"
  im_labels :: "pyobj option"

record engine_container =
  ct_names :: "string list"
  ct_status :: string

record host_options =
  ho_ipc_mode :: "string option"
  ho_cap_add :: "string list"
  ho_security_opt :: "string list"
  ho_pid_mode :: "string option"
  ho_privileged :: bool
  ho_tmpfs :: "string list"
  ho_volumes_from :: "string list"
  ho_dimensions :: pyobj
  ho_binds :: "binds option"

record create_options =
  co_command :: "string option"
  co_detach :: bool
  co_environment :: pyobj
  co_host_config :: pyobj
  co_labels :: pyobj
  co_image :: "string option"
  co_name :: "string option"
  co_volumes :: "string list option"
  co_tty :: bool
  co_healthcheck :: "pyobj option"

record 'd docker =
  w_bus :: "'d bus"
  dk_images :: "('d, engine_image list) ecall"
  dk_image_ids :: "string option \<Rightarrow> ('d, string list) ecall"
  dk_volumes :: "('d, string list) ecall"
  dk_containers :: "('d, engine_container list) ecall"
  dk_inspect :: "string option \<Rightarrow> ('d, container_info) ecall"
  dk_exec_create :: "string \<Rightarrow> string list \<Rightarrow> ('d, string) ecall"
  dk_exec_start :: "string \<Rightarrow> ('d, string) ecall"
  dk_exec_inspect :: "string \<Rightarrow> ('d, int) ecall"
  dk_login :: "('d, unit) ecall"
  dk_pull :: "string \<Rightarrow> string \<Rightarrow> ('d, string option list) ecall"
  dk_create :: "create_options \<Rightarrow> ('d, unit) ecall"
  dk_start :: "string option \<Rightarrow> ('d, unit) ecall"
  dk_stop :: "string option \<Rightarrow> int \<Rightarrow> ('d, unit) ecall"
  dk_remove :: "string option \<Rightarrow> ('d, unit) ecall"
  dk_wait :: "string option \<Rightarrow> ('d, int) ecall"
  dk_logs :: "string option \<Rightarrow> bool \<Rightarrow> ('d, string) ecall"
  dk_create_volume :: "string option \<Rightarrow> ('d, unit) ecall"
  dk_remove_volume :: "string option \<Rightarrow> ('d, unit) ecall"
  dk_remove_image :: "string option \<Rightarrow> ('d, unit) ecall"
  dk_ulimit :: "string \<Rightarrow> pyval \<Rightarrow> pyval \<Rightarrow> pyexn + pyval"
  dk_host_config :: "host_options \<Rightarrow> pyexn + pyobj"
  dk_parse_tag :: "string \<Rightarrow> string \<times> string option"

text \<open>A call to the engine: it is logged, and it moves the outside state, whatever it answers.\<close>

definition engine_call :: "string \<Rightarrow> string list \<Rightarrow> ('d, 'a) ecall \<Rightarrow> ('d, 'a) act" where
  "engine_call m args f =
     (\<lambda>h. let (r, d) = f (outside h) in (r, h\<lparr>outside := d, trace := trace h @ [EngineCall m args]\<rparr>))"

definition graceful_timeout :: "params \<Rightarrow> int" where
  "graceful_timeout p = (case p_graceful_timeout p of None \<Rightarrow> 10 | Some t \<Rightarrow> if t = 0 then 10 else t)"

section \<open>Looking things up\<close>

definition docker_check_image :: "'d docker \<Rightarrow> params \<Rightarrow> ('d, engine_image option) act" where
  "docker_check_image W p =
     bnd (lift_sum (parse_image p)) (\<lambda>(repo, tag).
     bnd (engine_call ''images'' [] (dk_images W)) (\<lambda>images.
     return_io (find (\<lambda>im. repo @ CHR '':'' # tag \<in> set (im_repo_tags im)) images)))"

definition docker_check_volume :: "'d docker \<Rightarrow> params \<Rightarrow> ('d, bool) act" where
  "docker_check_volume W p =
     bnd (engine_call ''volumes'' [] (dk_volumes W)) (\<lambda>vols.
     return_io (list_ex (\<lambda>v. Some v = p_name p) vols))"

definition docker_check_container :: "'d docker \<Rightarrow> params \<Rightarrow> ('d, engine_container option) act" where
  "docker_check_container W p =
     bnd (engine_call ''containers'' [] (dk_containers W)) (\<lambda>conts.
     return_io (find (\<lambda>c. CHR ''/'' # fmt_opt (p_name p) \<in> set (ct_names c)) conts))"

definition docker_get_container_info :: "'d docker \<Rightarrow> params \<Rightarrow> ('d, container_info option) act" where
  "docker_get_container_info W p =
     bnd (docker_check_container W p) (\<lambda>container.
     case container of
       None \<Rightarrow> return_io None
     | Some _ \<Rightarrow> bnd (engine_call ''inspect_container'' [fmt_opt (p_name p)] (dk_inspect W (p_name p)))
                    (\<lambda>ci. return_io (Some ci)))"

section \<open>Comparisons\<close>

definition docker_compare_pid_mode :: "params \<Rightarrow> container_info \<Rightarrow> bool" where
  "docker_compare_pid_mode p ci \<longleftrightarrow> p_pid_mode p \<noteq> norm_str (hc_pid_mode (ci_host ci))"

definition docker_image_differs :: "'d docker \<Rightarrow> params \<Rightarrow> container_info \<Rightarrow> ('d, bool) act" where
  "docker_image_differs W p ci =
     bnd (docker_check_image W p) (\<lambda>new_image.
     case new_image of
       None \<Rightarrow> return_io True
     | Some im \<Rightarrow>
         (if im_id im \<noteq> ci_image ci then return_io True
          else return_io (dk_parse_tag W (ci_config_image ci) \<noteq> dk_parse_tag W (fmt_opt (p_image p)))))"

text \<open>\<open>compare_image\<close> as the module's action calls it, without a \<open>container_info\<close>.\<close>

definition docker_compare_image :: "'d docker \<Rightarrow> params \<Rightarrow> ('d, bool) act" where
  "docker_compare_image W p =
     bnd (docker_get_container_info W p) (\<lambda>info.
     case info of None \<Rightarrow> return_io True | Some ci \<Rightarrow> docker_image_differs W p ci)"

definition bind_string :: "string \<times> string \<times> string \<Rightarrow> string" where
  "bind_string b = (case b of (src, dst, mode) \<Rightarrow> src @ CHR '':'' # dst @ CHR '':'' # mode)"

definition docker_compare_volumes :: "params \<Rightarrow> container_info \<Rightarrow> pyexn + bool" where
  "docker_compare_volumes p ci =
     (case generate_volumes (p_volumes p) of
        Inl e \<Rightarrow> Inl e
      | Inr r \<Rightarrow>
          (let (volumes, binds) = (case r of None \<Rightarrow> ([], []) | Some vb \<Rightarrow> vb)
           in Inr (sets_differ volumes (list_or_empty (ci_volumes ci)) \<or>
                   sets_differ (map bind_string binds) (list_or_empty (hc_binds (ci_host ci))))))"

definition compare_config_cmd :: "string list" where
  "compare_config_cmd = [''/usr/local/bin/kolla_set_configs'', ''--check'']"

definition docker_compare_config :: "'d docker \<Rightarrow> params \<Rightarrow> ('d, bool) act" where
  "docker_compare_config W p =
     (case p_name p of
        None \<Rightarrow> raise_io KeyError
      | Some name \<Rightarrow>
          bnd (catch_io
                 (bnd (engine_call ''exec_create'' (name # compare_config_cmd) (dk_exec_create W name compare_config_cmd)) (\<lambda>job.
                  bnd (engine_call ''exec_start'' [job] (dk_exec_start W job)) (\<lambda>output.
                  bnd (engine_call ''exec_inspect'' [job] (dk_exec_inspect W job)) (\<lambda>code.
                  return_io (Some code)))))
                 is_api_error
                 (\<lambda>e. if is_client_error e then return_io None else raise_io e))
              (\<lambda>r. case r of
                 None \<Rightarrow> return_io True
               | Some code \<Rightarrow>
                   (if code = 0 then return_io False
                    else if code = 1 then return_io True
                    else if code = 137 then return_io True
                    else raise_io (OtherError ''Failed to compare container configuration''))))"

definition docker_dimensions_differ :: "pyval \<Rightarrow> pyval \<Rightarrow> string \<Rightarrow> pyexn + bool" where
  "docker_dimensions_differ a b key =
     (if key \<in> {''cpuset_cpus'', ''cpuset_mems''} then
        (let text = (\<lambda>v. py_str (if truthy v then v else PyStr [])) in Inr (text a \<noteq> text b))
      else dimensions_differ a b key)"

fun docker_build_ulimits :: "'d docker \<Rightarrow> pyobj \<Rightarrow> pyexn + pyval list" where
  "docker_build_ulimits W [] = Inr []"
| "docker_build_ulimits W ((key, v) # rest) =
     (case v of
        PyDict d \<Rightarrow>
          (case dk_ulimit W key (dget d ''soft'') (dget d ''hard'') of Inl e \<Rightarrow> Inl e
           | Inr u \<Rightarrow> (case docker_build_ulimits W rest of Inl e \<Rightarrow> Inl e | Inr us \<Rightarrow> Inr (u # us)))
      | _ \<Rightarrow> Inl AttributeError)"

definition docker_compare_dimensions :: "'d docker \<Rightarrow> params \<Rightarrow> container_info \<Rightarrow> pyexn + bool" where
  "docker_compare_dimensions W p ci =
     compare_dimensions docker_dimensions_differ (compare_ulimits (docker_build_ulimits W)) True p ci"

definition docker_methods :: "'d docker \<Rightarrow> params \<Rightarrow> 'd worker" where
  "docker_methods W p =
     \<lparr>vm_check_container = bnd (docker_check_container W p) (\<lambda>c. return_io (c \<noteq> None)),
      vm_get_info = docker_get_container_info W p,
      vm_check_image_labels = bnd (docker_check_image W p) (\<lambda>im.
        case im of None \<Rightarrow> raise_io AttributeError | Some i \<Rightarrow> return_io (im_labels i)),
      vm_compare_config = docker_compare_config W p,
      vm_cap_add = compare_cap_add p,
      vm_image = docker_image_differs W p,
      vm_pid_mode = docker_compare_pid_mode p,
      vm_volumes = docker_compare_volumes p,
      vm_dimensions = docker_compare_dimensions W p,
      vm_parse_healthcheck = parse_healthcheck\<rparr>"

abbreviation docker_differs :: "'d docker \<Rightarrow> params \<Rightarrow> ('d, bool) act" where
  "docker_differs W p \<equiv> check_container_differs (docker_methods W p) p"

definition docker_compare_container :: "'d docker \<Rightarrow> params \<Rightarrow> ('d, bool) act" where
  "docker_compare_container W p = compare_container (docker_methods W p) p"

section \<open>Images\<close>

definition docker_get_image_id :: "'d docker \<Rightarrow> params \<Rightarrow> ('d, string option) act" where
  "docker_get_image_id W p =
     bnd (engine_call ''images'' [fmt_opt (p_image p), ''quiet''] (dk_image_ids W (p_image p))) (\<lambda>ids.
     return_io (case ids of [i] \<Rightarrow> Some i | _ \<Rightarrow> None))"

text \<open>The statuses are read from the last to the first; the first error met ends the module.\<close>

definition pull_failure :: "string option list \<Rightarrow> pyexn option" where
  "pull_failure statuses =
     (case find (\<lambda>s. s \<noteq> None) (rev statuses) of
        Some (Some err) \<Rightarrow>
          Some (FailJson (if suffix ''not found'' err then ''The requested image does not exist''
                          else ''Unknown error message''))
      | _ \<Rightarrow> None)"

definition docker_pull_image :: "'d docker \<Rightarrow> params \<Rightarrow> ('d, unit) act" where
  "docker_pull_image W p =
     bnd (when_io (str_truthy (p_auth_username p)) (engine_call ''login'' [fmt_opt (p_auth_username p)] (dk_login W))) (\<lambda>_.
     bnd (lift_sum (parse_image p)) (\<lambda>(repo, tag).
     bnd (docker_get_image_id W p) (\<lambda>old_image_id.
     bnd (engine_call ''pull'' [repo, tag] (dk_pull W repo tag)) (\<lambda>statuses.
     bnd (case pull_failure statuses of Some e \<Rightarrow> raise_io e | None \<Rightarrow> return_io ()) (\<lambda>_.
     bnd (docker_get_image_id W p) (\<lambda>new_image_id.
     assign_changed (old_image_id \<noteq> new_image_id)))))))"

definition docker_ensure_image :: "'d docker \<Rightarrow> params \<Rightarrow> ('d, unit) act" where
  "docker_ensure_image W p =
     bnd (docker_check_image W p) (\<lambda>im. when_io (im = None) (docker_pull_image W p))"

definition docker_remove_image :: "'d docker \<Rightarrow> params \<Rightarrow> ('d, unit) act" where
  "docker_remove_image W p =
     bnd (docker_check_image W p) (\<lambda>im.
     when_io (im \<noteq> None)
       (bnd set_changed (\<lambda>_.
        catch_io (engine_call ''remove_image'' [fmt_opt (p_image p)] (dk_remove_image W (p_image p)))
          is_api_error
          (\<lambda>e. if e = APIError 409 then raise_io (FailJson ''Image is currently in-use'')
                else if e = APIError 500 then raise_io (FailJson ''Server error'')
                else raise_io e))))"

section \<open>Volumes\<close>

text \<open>
  \<open>create_volume(name)\<close>: whatever the name, \<open>check_volume\<close> looks for the volume called like
  the container.
\<close>

definition docker_create_volume :: "'d docker \<Rightarrow> params \<Rightarrow> string option \<Rightarrow> ('d, unit) act" where
  "docker_create_volume W p name =
     (let volume_name = (if str_truthy name then name else p_name p)
      in bnd (docker_check_volume W p) (\<lambda>present.
         when_io (\<not> present)
           (bnd set_changed (\<lambda>_.
            engine_call ''create_volume'' [fmt_opt volume_name] (dk_create_volume W volume_name)))))"

definition docker_volume_step :: "'d docker \<Rightarrow> params \<Rightarrow> string \<Rightarrow> ('d, unit) act" where
  "docker_volume_step W p volume =
     (let volume_name = hd (py_split (CHR '':'') volume)
      in if CHR ''/'' \<in> set volume_name then return_io ()
         else docker_create_volume W p (Some volume_name))"

definition docker_create_container_volumes :: "'d docker \<Rightarrow> params \<Rightarrow> ('d, unit) act" where
  "docker_create_container_volumes W p = for_io (p_volumes p) (docker_volume_step W p)"

definition docker_remove_volume :: "'d docker \<Rightarrow> params \<Rightarrow> ('d, unit) act" where
  "docker_remove_volume W p =
     bnd (docker_check_volume W p) (\<lambda>present.
     when_io present
       (bnd set_changed (\<lambda>_.
        catch_io (engine_call ''remove_volume'' [fmt_opt (p_name p)] (dk_remove_volume W (p_name p)))
          is_api_error
          (\<lambda>e. if e = APIError 409 then raise_io (FailJson ''Volume is currently in-use'') else raise_io e))))"

section \<open>Creating and removing containers\<close>

definition supported_dimensions :: "string list" where
  "supported_dimensions =
     [''cpu_period'', ''cpu_quota'', ''cpu_shares'', ''cpuset_cpus'', ''cpuset_mems'', ''mem_limit'',
      ''mem_reservation'', ''memswap_limit'', ''kernel_memory'', ''blkio_weight'', ''ulimits'']"

definition docker_parse_dimensions :: "'d docker \<Rightarrow> pyobj \<Rightarrow> pyexn + pyobj" where
  "docker_parse_dimensions W dimensions =
     (if \<not> list_all (\<lambda>k. k \<in> set supported_dimensions) (dict_keys dimensions)
      then Inl (ExitJson ''Unsupported dimensions'')
      else (case dget dimensions ''ulimits'' of
              PyDict d \<Rightarrow>
                (if d = [] then Inr dimensions
                 else (case docker_build_ulimits W d of Inl e \<Rightarrow> Inl e
                       | Inr us \<Rightarrow> Inr (AList.update ''ulimits'' (PyList us) dimensions)))
            | v \<Rightarrow> if truthy v then Inl AttributeError else Inr dimensions))"

text \<open>
  \<open>build_host_config\<close>.  The \<open>log_config\<close> option for detached containers is put into the local
  dict after \<open>create_host_config\<close> has read it, so it reaches nothing.
\<close>

definition docker_build_host_config :: "'d docker \<Rightarrow> params \<Rightarrow> binds \<Rightarrow> pyexn + pyobj" where
  "docker_build_host_config W p binds =
     (case (if p_dimensions p = [] then Inr [] else docker_parse_dimensions W (p_dimensions p)) of
        Inl e \<Rightarrow> Inl e
      | Inr dims \<Rightarrow>
          (case dk_host_config W
             \<lparr>ho_ipc_mode = p_ipc_mode p, ho_cap_add = p_cap_add p, ho_security_opt = p_security_opt p,
              ho_pid_mode = p_pid_mode p, ho_privileged = p_privileged p, ho_tmpfs = generate_tmpfs p,
              ho_volumes_from = p_volumes_from p, ho_dimensions = dims,
              ho_binds = (if binds = [] then None else Some binds)\<rparr> of
             Inl e \<Rightarrow> Inl e
           | Inr hc \<Rightarrow>
               Inr (case p_cgroupns_mode p of None \<Rightarrow> hc
                    | Some m \<Rightarrow> AList.update ''CgroupnsMode'' (PyStr m) hc)))"

definition docker_build_container_options :: "'d docker \<Rightarrow> params \<Rightarrow> pyexn + create_options" where
  "docker_build_container_options W p =
     (case generate_volumes (p_volumes p) of Inl e \<Rightarrow> Inl e | Inr vb \<Rightarrow>
      (case format_env_vars p of Inl e \<Rightarrow> Inl e | Inr env \<Rightarrow>
       (case docker_build_host_config W p (case vb of None \<Rightarrow> [] | Some (vols, binds) \<Rightarrow> binds) of
          Inl e \<Rightarrow> Inl e | Inr hc \<Rightarrow>
        (case parse_healthcheck (p_healthcheck p) of Inl e \<Rightarrow> Inl e | Inr health \<Rightarrow>
           Inr \<lparr>co_command = p_command p, co_detach = p_detach p, co_environment = env,
                co_host_config = hc, co_labels = p_labels p, co_image = p_image p,
                co_name = p_name p, co_volumes = map_option fst vb, co_tty = p_tty p,
                co_healthcheck = health\<rparr>))))"

definition docker_create_container :: "'d docker \<Rightarrow> params \<Rightarrow> ('d, unit) act" where
  "docker_create_container W p =
     bnd set_changed (\<lambda>_.
     bnd (docker_create_container_volumes W p) (\<lambda>_.
     bnd (lift_sum (docker_build_container_options W p)) (\<lambda>options.
     bnd (engine_call ''create_container'' [fmt_opt (p_name p)] (dk_create W options)) (\<lambda>_.
     when_io (p_restart_policy p \<noteq> Some ''oneshot'')
       (bnd (with_unit p (create_unit_file (w_bus W))) or_changed)))))"

definition docker_remove_container :: "'d docker \<Rightarrow> params \<Rightarrow> ('d, unit) act" where
  "docker_remove_container W p =
     bnd (with_unit p (remove_unit_file (w_bus W))) (\<lambda>removed.
     bnd (or_changed removed) (\<lambda>_.
     bnd (docker_check_container W p) (\<lambda>container.
     when_io (container \<noteq> None)
       (bnd set_changed (\<lambda>_.
        catch_io
          (bnd (engine_call ''remove_container'' [fmt_opt (p_name p)] (dk_remove W (p_name p))) (\<lambda>_.
           bnd (with_unit p (remove_unit_file (w_bus W))) (\<lambda>_. return_io ())))
          is_api_error
          (\<lambda>e. bnd (docker_check_container W p) (\<lambda>still.
             if still \<noteq> None then raise_io e else return_io ())))))))"

definition docker_stop_container :: "'d docker \<Rightarrow> params \<Rightarrow> ('d, unit) act" where
  "docker_stop_container W p =
     bnd (docker_check_container W p) (\<lambda>container.
     case container of
       None \<Rightarrow> (if p_ignore_missing p then return_io () else raise_io (FailJson ''No such container to stop''))
     | Some c \<Rightarrow>
         when_io (\<not> prefix ''Exited '' (ct_status c))
           (bnd set_changed (\<lambda>_.
            bnd (with_unit p check_unit_file) (\<lambda>present.
            if \<not> present
            then engine_call ''stop'' [fmt_opt (p_name p)] (dk_stop W (p_name p) (graceful_timeout p))
            else bnd (with_unit p (systemd_stop (w_bus W))) (\<lambda>_. return_io ())))))"

definition docker_stop_and_remove_container :: "'d docker \<Rightarrow> params \<Rightarrow> ('d, unit) act" where
  "docker_stop_and_remove_container W p =
     bnd (docker_check_container W p) (\<lambda>container.
     when_io (container \<noteq> None)
       (bnd (docker_stop_container W p) (\<lambda>_. docker_remove_container W p)))"

text \<open>\<open>fail_json(..., **self.check_container())\<close>: unpacking None is a TypeError.\<close>

definition docker_timed_out :: "'d docker \<Rightarrow> params \<Rightarrow> ('d, unit) act" where
  "docker_timed_out W p =
     bnd (docker_check_container W p) (\<lambda>c.
     raise_io (if c = None then TypeError else FailJson ''Container timed out''))"

definition set_result :: "string \<Rightarrow> pyval \<Rightarrow> ('d, unit) act" where
  "set_result k v = modify_io (\<lambda>h. h\<lparr>run_result := AList.update k v (run_result h)\<rparr>)"

text \<open>Starting what is not up, and waiting for a container that is not detached.\<close>

definition docker_bring_up :: "'d docker \<Rightarrow> params \<Rightarrow> ('d, unit) act" where
  "docker_bring_up W p =
     bnd set_changed (\<lambda>_.
     if p_restart_policy p = Some ''oneshot''
     then engine_call ''start'' [fmt_opt (p_name p)] (dk_start W (p_name p))
     else
       bnd (with_unit p (create_unit_file (w_bus W))) (\<lambda>_.
       bnd (with_unit p (systemd_start (w_bus W))) (\<lambda>started.
       when_io (\<not> started) (docker_timed_out W p))))"

definition docker_wait_for_exit :: "'d docker \<Rightarrow> params \<Rightarrow> ('d, unit) act" where
  "docker_wait_for_exit W p =
     bnd (engine_call ''wait'' [fmt_opt (p_name p)] (dk_wait W (p_name p))) (\<lambda>rc.
     bnd (set_result ''rc'' (PyInt rc)) (\<lambda>_.
     bnd (engine_call ''logs'' [fmt_opt (p_name p), ''stdout''] (dk_logs W (p_name p) True)) (\<lambda>out.
     bnd (set_result ''stdout'' (PyStr out)) (\<lambda>_.
     bnd (engine_call ''logs'' [fmt_opt (p_name p), ''stderr''] (dk_logs W (p_name p) False)) (\<lambda>err.
     bnd (set_result ''stderr'' (PyStr err)) (\<lambda>_.
     bnd (when_io (p_remove_on_exit p)
            (bnd (docker_stop_container W p) (\<lambda>_. docker_remove_container W p))) (\<lambda>_.
     when_io (rc \<noteq> 0) (raise_io (FailJson ''Container exited with non-zero return code'')))))))))"

definition docker_start_container :: "'d docker \<Rightarrow> params \<Rightarrow> ('d, unit) act" where
  "docker_start_container W p =
     bnd (docker_ensure_image W p) (\<lambda>_.
     bnd (docker_check_container W p) (\<lambda>container.
     bnd (if container = None then return_io False else docker_differs W p) (\<lambda>differs.
     bnd (if differs
          then bnd (docker_stop_container W p) (\<lambda>_.
               bnd (docker_remove_container W p) (\<lambda>_.
               docker_check_container W p))
          else return_io container) (\<lambda>container.
     bnd (if container = None
          then bnd (docker_create_container W p) (\<lambda>_. docker_check_container W p)
          else return_io container) (\<lambda>container.
     case container of
       None \<Rightarrow> raise_io TypeError
     | Some c \<Rightarrow>
         bnd (when_io (\<not> prefix ''Up '' (ct_status c)) (docker_bring_up W p)) (\<lambda>_.
         when_io (\<not> p_detach p) (docker_wait_for_exit W p)))))))"

definition docker_restart_container :: "'d docker \<Rightarrow> params \<Rightarrow> ('d, unit) act" where
  "docker_restart_container W p =
     bnd (docker_get_container_info W p) (\<lambda>info.
     if info = None then raise_io (FailJson ''No such container'')
     else
       bnd set_changed (\<lambda>_.
       if p_restart_policy p \<noteq> Some ''oneshot'' then
         bnd (with_unit p (create_unit_file (w_bus W))) (\<lambda>_.
         bnd (with_unit p (systemd_restart (w_bus W))) (\<lambda>ok.
         when_io (\<not> ok) (docker_timed_out W p)))
       else
         bnd (engine_call ''stop'' [fmt_opt (p_name p)] (dk_stop W (p_name p) (graceful_timeout p))) (\<lambda>_.
         engine_call ''start'' [fmt_opt (p_name p)] (dk_start W (p_name p)))))"

definition docker_recreate_or_restart_container :: "'d docker \<Rightarrow> params \<Rightarrow> ('d, unit) act" where
  "docker_recreate_or_restart_container W p =
     bnd set_changed (\<lambda>_.
     bnd (docker_check_container W p) (\<lambda>container.
     let strategy = dget (p_environment p) ''KOLLA_CONFIG_STRATEGY''
     in if container = None then docker_start_container W p
        else
          bnd (if strategy = PyStr ''COPY_ONCE'' then return_io True else docker_differs W p) (\<lambda>recreate.
          if recreate then
            bnd (docker_ensure_image W p) (\<lambda>_.
            bnd (docker_stop_container W p) (\<lambda>_.
            bnd (docker_remove_container W p) (\<lambda>_.
            docker_start_container W p)))
          else when_io (strategy = PyStr ''COPY_ALWAYS'') (docker_restart_container W p))))"

section \<open>The module's \<open>main\<close>\<close>

datatype action =
    Compare_container | Compare_image | Create_volume | Ensure_image | Pull_image
  | Recreate_or_restart_container | Remove_container | Remove_image | Remove_volume
  | Restart_container | Start_container | Stop_container | Stop_and_remove_container

text \<open>\<open>bool(getattr(cw, action)())\<close>: the methods that return nothing give False.\<close>

fun docker_action :: "'d docker \<Rightarrow> params \<Rightarrow> action \<Rightarrow> ('d, bool) act" where
  "docker_action W p Compare_container = docker_compare_container W p"
| "docker_action W p Compare_image = docker_compare_image W p"
| "docker_action W p Create_volume = bnd (docker_create_volume W p None) (\<lambda>_. return_io False)"
| "docker_action W p Ensure_image = bnd (docker_ensure_image W p) (\<lambda>_. return_io False)"
| "docker_action W p Pull_image = bnd (docker_pull_image W p) (\<lambda>_. return_io False)"
| "docker_action W p Recreate_or_restart_container =
     bnd (docker_recreate_or_restart_container W p) (\<lambda>_. return_io False)"
| "docker_action W p Remove_container = bnd (docker_remove_container W p) (\<lambda>_. return_io False)"
| "docker_action W p Remove_image = bnd (docker_remove_image W p) (\<lambda>_. return_io False)"
| "docker_action W p Remove_volume = bnd (docker_remove_volume W p) (\<lambda>_. return_io False)"
| "docker_action W p Restart_container = bnd (docker_restart_container W p) (\<lambda>_. return_io False)"
| "docker_action W p Start_container = bnd (docker_start_container W p) (\<lambda>_. return_io False)"
| "docker_action W p Stop_container = bnd (docker_stop_container W p) (\<lambda>_. return_io False)"
| "docker_action W p Stop_and_remove_container =
     bnd (docker_stop_and_remove_container W p) (\<lambda>_. return_io False)"

datatype module_exit =
    Exited bool bool pyobj      \<comment> \<open>exit_json: changed, result, the worker's result\<close>
  | Failed string pyobj         \<comment> \<open>fail_json with changed=True from the except clause\<close>
  | Left pyexn                  \<comment> \<open>a fail_json or exit_json inside the worker\<close>

text \<open>
  The constructor raises before any action when the restart retries are zero; \<open>cw\<close> is then
  None and there is no result to add.
\<close>

definition module_main :: "'d docker \<Rightarrow> params \<Rightarrow> action \<Rightarrow> 'd host \<Rightarrow> module_exit \<times> 'd host" where
  "module_main W p a h =
     (case systemd_init p of
        Inl e \<Rightarrow> (Failed ''traceback'' [], h)
      | Inr _ \<Rightarrow>
          (case docker_action W p a h of
             (Inr b, h') \<Rightarrow> (Exited (changed h') b (run_result h'), h')
           | (Inl e, h') \<Rightarrow>
               (if is_system_exit e then Left e else Failed ''traceback'' (run_result h'), h')))"

end
