(* ===== verification/DockerActions.thy ===== *)
theory DockerActions
  imports DockerWorker
begin

text \<open>
  What the actions of \<open>DockerWorker\<close> do to the host: frames over the trace of external calls,
  lifted through every operation by the locale \<open>effect_frame\<close>, and the properties of the
  actions that rest on them.
\<close>

section \<open>A concrete engine\<close>

text \<open>
  An engine with the given images and containers that answers every call and changes nothing,
  except that pulling says the image does not exist.
\<close>

definition demo_docker :: "engine_image list \<Rightarrow> engine_container list \<Rightarrow> (string \<times> string) list docker" where
  "demo_docker images containers =
    \<lparr>w_bus = quiet_bus, dk_images = (\<lambda>d. (Inr images, d)), dk_image_ids = (\<lambda>i d. (Inr [], d)),
     dk_volumes = (\<lambda>d. (Inr [], d)), dk_containers = (\<lambda>d. (Inr containers, d)),
     dk_inspect = (\<lambda>n d. (Inr demo_info, d)), dk_exec_create = (\<lambda>n c d. (Inr ''job'', d)),
     dk_exec_start = (\<lambda>j d. (Inr [], d)), dk_exec_inspect = (\<lambda>j d. (Inr 0, d)),
     dk_login = (\<lambda>d. (Inr (), d)), dk_pull = (\<lambda>r t d. (Inr [None, Some ''manifest not found''], d)),
     dk_create = (\<lambda>c d. (Inr (), d)), dk_start = (\<lambda>n d. (Inr (), d)), dk_stop = (\<lambda>n t d. (Inr (), d)),
     dk_remove = (\<lambda>n d. (Inr (), d)), dk_wait = (\<lambda>n d. (Inr 0, d)), dk_logs = (\<lambda>n b d. (Inr [], d)),
     dk_create_volume = (\<lambda>n d. (Inr (), d)), dk_remove_volume = (\<lambda>n d. (Inr (), d)),
     dk_remove_image = (\<lambda>i d. (Inr (), d)), dk_ulimit = (\<lambda>k s h. Inr (PyStr k)),
     dk_host_config = (\<lambda>c. Inr []), dk_parse_tag = (\<lambda>s. (s, None))\<rparr>"

definition web_params :: params where
  "web_params = params_of [(''name'', PyStr ''web''), (''image'', PyStr ''quay.io/kolla/web:1''),
     (''detach'', PyBool True), (''state'', PyStr ''running''),
     (''labels'', PyDict []), (''environment'', PyDict [])]"

definition web_image :: engine_image where
  "web_image = \<lparr>im_id = ''sha256:1'', im_repo_tags = [''quay.io/kolla/web:1''], im_labels = Some [(''maintainer'', PyStr ''kolla'')]\<rparr>"

definition web_container :: engine_container where
  "web_container = \<lparr>ct_names = [''/web''], ct_status = ''Up 2 hours''\<rparr>"

section \<open>Kinds of external calls\<close>

fun is_lookup :: "event \<Rightarrow> bool" where
  "is_lookup (EngineCall m _) = (m \<in> {''images'', ''volumes'', ''containers'', ''inspect_container''})"
| "is_lookup _ = False"

text \<open>Reading, or running the configuration check inside the container.\<close>

fun is_query :: "event \<Rightarrow> bool" where
  "is_query (EngineCall m a) =
     (is_lookup (EngineCall m a) \<or> m \<in> {''exec_create'', ''exec_start'', ''exec_inspect''})"
| "is_query _ = False"

fun mutates :: "event \<Rightarrow> bool" where
  "mutates (EngineCall m _) = (m \<in> {''create_container'', ''remove_container'', ''start'', ''stop'',
     ''create_volume'', ''remove_volume'', ''remove_image''})"
| "mutates (BusCall _ _ _) = True"
| "mutates (FileWritten _) = True"
| "mutates (FileRemoved _) = True"
| "mutates _ = False"

fun destroys :: "event \<Rightarrow> bool" where
  "destroys (EngineCall m _) = (m \<in> {''remove_container'', ''stop''})"
| "destroys (BusCall f _ _) = (f \<in> {''StopUnit'', ''RestartUnit''})"
| "destroys (FileRemoved _) = True"
| "destroys _ = False"

section \<open>Frames\<close>

text \<open>\<open>only P\<close>: nothing but calls of kind \<open>P\<close>, no file and no attribute touched.\<close>

definition only :: "(event \<Rightarrow> bool) \<Rightarrow> 'd host \<Rightarrow> 'd host \<Rightarrow> bool" where
  "only P h h' \<longleftrightarrow> changed h' = changed h \<and> files h' = files h \<and> run_result h' = run_result h
     \<and> (\<exists>ts. trace h' = trace h @ ts \<and> list_all P ts)"

definition never :: "(event \<Rightarrow> bool) \<Rightarrow> 'd host \<Rightarrow> 'd host \<Rightarrow> bool" where
  "never P h h' \<longleftrightarrow> (\<exists>ts. trace h' = trace h @ ts \<and> \<not> list_ex P ts)"

definition grows :: "'d host \<Rightarrow> 'd host \<Rightarrow> bool" where
  "grows h h' \<longleftrightarrow> (\<exists>ts. trace h' = trace h @ ts) \<and> (changed h \<longrightarrow> changed h')"

text \<open>
  Something about the outside, \<open>J\<close>, stays the same; and a change is reported: of \<open>J\<close>, or by one of
  the calls that modify.
\<close>

definition same :: "('d \<Rightarrow> 'j) \<Rightarrow> 'd host \<Rightarrow> 'd host \<Rightarrow> bool" where
  "same J h h' \<longleftrightarrow> J (outside h') = J (outside h)"

definition reported :: "('d \<Rightarrow> 'j) \<Rightarrow> 'd host \<Rightarrow> 'd host \<Rightarrow> bool" where
  "reported J h h' \<longleftrightarrow> (\<exists>ts. trace h' = trace h @ ts \<and> (list_ex mutates ts \<longrightarrow> changed h'))
     \<and> (changed h \<longrightarrow> changed h') \<and> (J (outside h') \<noteq> J (outside h) \<longrightarrow> changed h')"

interpretation onl: effect_frame "only P" for P :: "event \<Rightarrow> bool"
  by unfold_locales (auto simp: only_def)

interpretation nev: effect_frame "never P" for P :: "event \<Rightarrow> bool"
  by unfold_locales (auto simp: never_def)

interpretation gro: effect_frame grows
  by unfold_locales (auto simp: grows_def)

interpretation rep: effect_frame "reported J" for J :: "'d \<Rightarrow> 'j"
  by unfold_locales (auto simp: reported_def)

interpretation sam: effect_frame "same J" for J :: "'d \<Rightarrow> 'j"
  by unfold_locales (auto simp: same_def)

lemma keeps_mono: "keeps R m \<Longrightarrow> (\<And>w w'. R w w' \<Longrightarrow> S w w') \<Longrightarrow> keeps S m"
  by (simp add: keeps_def)

lemma only_never: "only P h h' \<Longrightarrow> (\<And>e. P e \<Longrightarrow> \<not> Q e) \<Longrightarrow> never Q h h'"
  unfolding only_def never_def by (auto simp: list_all_iff list_ex_iff)

lemma only_grows: "only P h h' \<Longrightarrow> grows h h'"
  unfolding only_def grows_def by auto

lemma only_reported: "only P h h' \<Longrightarrow> same J h h' \<Longrightarrow> (\<And>e. P e \<Longrightarrow> \<not> mutates e) \<Longrightarrow> reported J h h'"
  unfolding only_def reported_def same_def by (auto simp: list_all_iff list_ex_iff)

lemma reported_grows: "reported J h h' \<Longrightarrow> grows h h'"
  unfolding reported_def grows_def by auto

lemma lookup_not_mutates: "is_lookup e \<Longrightarrow> \<not> mutates e" "is_query e \<Longrightarrow> \<not> mutates e"
  "is_lookup e \<Longrightarrow> \<not> destroys e" "is_query e \<Longrightarrow> \<not> destroys e" "is_lookup e \<Longrightarrow> is_query e"
  by (cases e; auto)+

section \<open>The frames of the primitive operations\<close>

lemma engine_call_only: "P (EngineCall m args) \<Longrightarrow> keeps (only P) (engine_call m args f)"
  by (simp add: keeps_def engine_call_def only_def split: prod.splits)

lemma engine_call_never: "\<not> P (EngineCall m args) \<Longrightarrow> keeps (never P) (engine_call m args f)"
  by (simp add: keeps_def engine_call_def never_def split: prod.splits)

lemma engine_call_grows: "keeps grows (engine_call m args f)"
  by (simp add: keeps_def engine_call_def grows_def split: prod.splits)

lemma engine_call_same: "(\<And>d. J (snd (f d)) = J d) \<Longrightarrow> keeps (same J) (engine_call m args f)"
  by (simp add: keeps_def engine_call_def same_def split: prod.splits) (metis snd_conv)

lemma engine_call_reported:
  "\<not> mutates (EngineCall m args) \<Longrightarrow> (\<And>d. J (snd (f d)) = J d) \<Longrightarrow> keeps (reported J) (engine_call m args f)"
  by (simp add: keeps_def engine_call_def reported_def split: prod.splits) (metis snd_conv)

lemma set_changed_reported: "keeps (reported J) set_changed"
  by (simp add: keeps_def set_changed_def io_run reported_def)

lemma or_changed_reported: "keeps (reported J) (or_changed b)"
  by (simp add: keeps_def or_changed_def io_run reported_def)

lemma set_changed_never: "keeps (never P) set_changed"
  by (simp add: keeps_def set_changed_def io_run never_def)

lemma assign_changed_never: "keeps (never P) (assign_changed b)"
  by (simp add: keeps_def assign_changed_def io_run never_def)

lemma set_result_frames: "keeps (reported J) (set_result k v)" "keeps (never P) (set_result k v)"
  by (simp_all add: keeps_def set_result_def io_run reported_def never_def)

text \<open>Once \<open>changed\<close> is set, anything that keeps it set is reported.\<close>

lemma set_changed_then: "keeps grows m \<Longrightarrow> keeps (reported J) (bnd set_changed (\<lambda>_. m))"
proof -
  assume m: "keeps grows m"
  { fix h
    have "grows (h\<lparr>changed := True\<rparr>) (snd (m (h\<lparr>changed := True\<rparr>)))"
      using m by (simp add: keeps_def)
    then have "reported J h (snd (bnd set_changed (\<lambda>_. m) h))"
      by (simp add: set_changed_def bnd_run io_run grows_def reported_def) }
  then show ?thesis by (simp add: keeps_def)
qed

lemma perform_action_grows: "keeps grows (perform_action B f args)"
  by (simp add: keeps_def perform_action_run after_bus_def grows_def)

lemma file_grows: "keeps grows (write_file q t)" "keeps grows (remove_file q)"
  by (simp_all add: keeps_def write_file_def remove_file_def io_run grows_def)

section \<open>The frames of the lookups and comparisons\<close>

lemma lookups_only:
  "keeps (only is_lookup) (docker_check_image W p)" "keeps (only is_lookup) (docker_check_volume W p)"
  "keeps (only is_lookup) (docker_check_container W p)"
  by (auto simp: docker_check_image_def docker_check_volume_def docker_check_container_def
      intro!: onl.keeps_rules engine_call_only)

lemma get_container_info_only: "keeps (only is_lookup) (docker_get_container_info W p)"
  unfolding docker_get_container_info_def
  by (intro onl.keeps_rules lookups_only engine_call_only) simp

lemma image_differs_only: "keeps (only is_lookup) (docker_image_differs W p ci)"
  unfolding docker_image_differs_def by (intro onl.keeps_rules lookups_only)

lemma docker_differs_only: "keeps (only is_lookup) (docker_differs W p)"
  unfolding check_container_differs_def docker_methods_def
  by (auto intro!: onl.keeps_rules onl.keeps_any get_container_info_only image_differs_only lookups_only)

lemma compare_config_only: "keeps (only is_query) (docker_compare_config W p)"
  unfolding docker_compare_config_def
  by (intro onl.keeps_rules engine_call_only) auto

lemma image_id_only: "keeps (only is_lookup) (docker_get_image_id W p)"
  unfolding docker_get_image_id_def by (intro onl.keeps_rules engine_call_only) auto

text \<open>Calls that read, log in, or wait for a container do not change \<open>J\<close>.\<close>

definition steady :: "'d docker \<Rightarrow> ('d \<Rightarrow> 'j) \<Rightarrow> bool" where
  "steady W J \<longleftrightarrow> (\<forall>d. J (snd (dk_images W d)) = J d \<and> J (snd (dk_volumes W d)) = J d \<and> J (snd (dk_containers W d)) = J d
     \<and> J (snd (dk_login W d)) = J d)
   \<and> (\<forall>i d. J (snd (dk_image_ids W i d)) = J d \<and> J (snd (dk_inspect W i d)) = J d \<and> J (snd (dk_wait W i d)) = J d)
   \<and> (\<forall>n c d. J (snd (dk_exec_create W n c d)) = J d)
   \<and> (\<forall>j d. J (snd (dk_exec_start W j d)) = J d \<and> J (snd (dk_exec_inspect W j d)) = J d)
   \<and> (\<forall>i b d. J (snd (dk_logs W i b d)) = J d)"

lemma steady_calls:
  assumes "steady W J"
  shows "keeps (same J) (engine_call m a (dk_images W))" "keeps (same J) (engine_call m a (dk_volumes W))"
    "keeps (same J) (engine_call m a (dk_containers W))" "keeps (same J) (engine_call m a (dk_login W))"
    "keeps (same J) (engine_call m a (dk_image_ids W i))" "keeps (same J) (engine_call m a (dk_inspect W i))"
    "keeps (same J) (engine_call m a (dk_exec_create W n c))" "keeps (same J) (engine_call m a (dk_exec_start W j))"
    "keeps (same J) (engine_call m a (dk_exec_inspect W j))"
  using assms by (auto simp: steady_def intro!: engine_call_same)

lemma lookups_same:
  assumes "steady W J"
  shows "keeps (same J) (docker_check_image W p)" "keeps (same J) (docker_check_volume W p)"
    "keeps (same J) (docker_check_container W p)" "keeps (same J) (docker_get_container_info W p)"
    "keeps (same J) (docker_image_differs W p ci)" "keeps (same J) (docker_differs W p)"
    "keeps (same J) (docker_get_image_id W p)" "keeps (same J) (docker_compare_config W p)"
proof -
  note call = steady_calls [OF assms]
  show i: "keeps (same J) (docker_check_image W p)" and "keeps (same J) (docker_check_volume W p)"
    and c: "keeps (same J) (docker_check_container W p)"
    by (auto simp: docker_check_image_def docker_check_volume_def docker_check_container_def intro!: sam.keeps_rules call)
  show f: "keeps (same J) (docker_get_container_info W p)" and d: "keeps (same J) (docker_image_differs W p ci)" for ci
    by (auto simp: docker_get_container_info_def docker_image_differs_def intro!: sam.keeps_rules call c i)
  show "keeps (same J) (docker_differs W p)"
    unfolding check_container_differs_def docker_methods_def
    by (auto intro!: sam.keeps_rules sam.keeps_any f d i)
  show "keeps (same J) (docker_get_image_id W p)" "keeps (same J) (docker_compare_config W p)"
    unfolding docker_get_image_id_def docker_compare_config_def by (intro sam.keeps_rules call)+
qed

text \<open>Lookups are within every other frame.\<close>

lemma lookup_frames:
  assumes "keeps (only is_lookup) m"
  shows "keeps (only is_query) m" "keeps (never destroys) m" "keeps grows m"
proof -
  show "keeps (only is_query) m"
    by (rule keeps_mono [OF assms])
      (use lookup_not_mutates(5) in \<open>auto simp: only_def list_all_iff\<close>)
  show "keeps (never destroys) m" by (rule keeps_mono [OF assms], erule only_never) (rule lookup_not_mutates)
  show "keeps grows m" by (rule keeps_mono [OF assms], erule only_grows)
qed

lemma query_reported: "keeps (only is_query) m \<Longrightarrow> keeps (same J) m \<Longrightarrow> keeps (reported J) m"
  unfolding keeps_def using only_reported [of is_query] lookup_not_mutates(2) by blast

lemmas lookup_only =
  lookups_only get_container_info_only image_differs_only docker_differs_only image_id_only

lemmas lookup_never = lookup_only [THEN lookup_frames(2)]
lemmas lookup_grows = lookup_only [THEN lookup_frames(3)]

lemma lookup_reported:
  assumes "steady W J"
  shows "keeps (reported J) (docker_check_image W p)" "keeps (reported J) (docker_check_volume W p)"
    "keeps (reported J) (docker_check_container W p)" "keeps (reported J) (docker_get_container_info W p)"
    "keeps (reported J) (docker_image_differs W p ci)" "keeps (reported J) (docker_differs W p)"
    "keeps (reported J) (docker_get_image_id W p)" "keeps (reported J) (docker_compare_config W p)"
  by (intro query_reported lookups_same [OF assms] lookup_frames(1) lookup_only compare_config_only)+

section \<open>The frames of the operations that change something\<close>

lemma with_unit_keeps:
  assumes "effect_frame R" and "\<And>c. keeps R (f c)"
  shows "keeps R (with_unit p f)"
  unfolding with_unit_def
  by (auto intro: assms(2) effect_frame.keeps_raise [OF assms(1)] split: sum.splits option.splits)

lemmas frame_locales = gro.effect_frame_axioms nev.effect_frame_axioms onl.effect_frame_axioms
  rep.effect_frame_axioms

lemma wait_unit_loop_grows: "keeps grows (wait_unit_loop B c timeout state elapsed)"
proof (induction B c timeout state elapsed rule: wait_unit_loop.induct)
  case (1 B c timeout state elapsed)
  have "keeps grows (get_unit_state B c)"
    by (auto simp: keeps_def get_unit_state_def grows_def Let_def split: prod.splits sum.splits)
  moreover have "keeps grows (py_sleep B 5)"
    by (simp add: keeps_def py_sleep_def io_run grows_def)
  ultimately show ?case
    by (subst wait_unit_loop.simps) (use 1 in \<open>intro gro.keeps_rules; simp\<close>)
qed

lemma unit_action_grows: "keeps grows (unit_action B c f s)"
  unfolding unit_action_def wait_for_unit_def
  by (intro gro.keeps_rules perform_action_grows wait_unit_loop_grows)

lemma check_unit_change_grows: "keeps grows (check_unit_change c t)"
  by (simp add: keeps_def check_unit_change_run gro.frame_refl)

lemma check_unit_file_grows: "keeps grows (check_unit_file c)"
  by (simp add: keeps_def check_unit_file_run gro.frame_refl)

lemma unit_file_grows: "keeps grows (create_unit_file B c)" "keeps grows (remove_unit_file B c)"
  unfolding create_unit_file_def remove_unit_file_def systemd_reload_def systemd_enable_def
  by (intro gro.keeps_rules perform_action_grows file_grows check_unit_change_grows
      check_unit_file_grows)+

lemma systemd_grows:
  "keeps grows (systemd_start B c)" "keeps grows (systemd_restart B c)" "keeps grows (systemd_stop B c)"
  by (simp_all add: systemd_start_def systemd_restart_def systemd_stop_def unit_action_grows)

lemmas unit_grows = systemd_grows unit_file_grows check_unit_change_grows check_unit_file_grows

lemmas with_unit_grows = unit_grows [THEN with_unit_keeps [OF gro.effect_frame_axioms]]

lemma unit_removed_reported: "keeps (reported J) (bnd (with_unit p (remove_unit_file B)) or_changed)"
proof -
  have "keeps (reported J) (bnd (remove_unit_file B c) or_changed)" for c
    by (auto simp: keeps_def bnd_run remove_unit_file_run or_changed_def io_run reported_def after_bus_def)
  then show ?thesis
    by (auto simp: with_unit_def rep.keeps_raise split: sum.splits option.splits)
qed

lemma create_volume_reported: "steady W J \<Longrightarrow> keeps (reported J) (docker_create_volume W p name)"
  unfolding docker_create_volume_def Let_def
  by (intro rep.keeps_rules lookup_reported set_changed_then engine_call_grows; assumption)

lemma container_volumes_reported: "steady W J \<Longrightarrow> keeps (reported J) (docker_create_container_volumes W p)"
  unfolding docker_create_container_volumes_def docker_volume_step_def Let_def
  by (intro rep.keeps_rules create_volume_reported; assumption)

lemma remove_volume_reported: "steady W J \<Longrightarrow> keeps (reported J) (docker_remove_volume W p)"
  unfolding docker_remove_volume_def
  by (intro rep.keeps_rules lookup_reported set_changed_then engine_call_grows gro.keeps_rules; assumption)

lemma remove_image_reported: "steady W J \<Longrightarrow> keeps (reported J) (docker_remove_image W p)"
  unfolding docker_remove_image_def
  by (intro rep.keeps_rules lookup_reported set_changed_then engine_call_grows gro.keeps_rules; assumption)

text \<open>That a call grows needs nothing of the engine: \<open>J\<close> may be taken constant.\<close>

lemma reported_grows_unit: "keeps (reported (\<lambda>_. ())) m \<Longrightarrow> keeps grows m"
  by (erule keeps_mono) (rule reported_grows)

lemma steady_unit: "steady W (\<lambda>_. ())"
  by (simp add: steady_def)

lemma or_changed_grows: "keeps grows (or_changed b)"
  by (rule reported_grows_unit [OF or_changed_reported])

lemma create_container_reported: "keeps (reported J) (docker_create_container W p)"
  unfolding docker_create_container_def
  by (intro set_changed_then gro.keeps_rules engine_call_grows with_unit_grows or_changed_grows
      reported_grows_unit [OF container_volumes_reported [OF steady_unit]])

lemma remove_container_reported:
  assumes "steady W J"
  shows "keeps (reported J) (docker_remove_container W p)"
proof -
  let ?rest = "bnd (docker_check_container W p) (\<lambda>container.
     when_io (container \<noteq> None)
       (bnd set_changed (\<lambda>_.
        catch_io
          (bnd (engine_call ''remove_container'' [fmt_opt (p_name p)] (dk_remove W (p_name p))) (\<lambda>_.
           bnd (with_unit p (remove_unit_file (w_bus W))) (\<lambda>_. return_io ())))
          is_api_error
          (\<lambda>e. bnd (docker_check_container W p) (\<lambda>still.
             if still \<noteq> None then raise_io e else return_io ())))))"
  have "docker_remove_container W p = bnd (bnd (with_unit p (remove_unit_file (w_bus W))) or_changed) (\<lambda>_. ?rest)"
    by (simp add: docker_remove_container_def bnd_assoc)
  moreover have "keeps (reported J) ?rest"
    by (intro rep.keeps_bnd rep.keeps_when lookup_reported [OF assms] set_changed_then gro.keeps_rules
        engine_call_grows with_unit_grows lookup_grows)
  ultimately show ?thesis by (simp add: rep.keeps_bnd unit_removed_reported)
qed

lemma stop_container_reported: "steady W J \<Longrightarrow> keeps (reported J) (docker_stop_container W p)"
  unfolding docker_stop_container_def
  by (intro rep.keeps_rules lookup_reported set_changed_then gro.keeps_rules engine_call_grows with_unit_grows; assumption)

lemma bring_up_reported: "keeps (reported J) (docker_bring_up W p)"
  unfolding docker_bring_up_def docker_timed_out_def
  by (intro set_changed_then gro.keeps_rules engine_call_grows with_unit_grows lookup_grows)

lemma wait_for_exit_reported: "steady W J \<Longrightarrow> keeps (reported J) (docker_wait_for_exit W p)"
  unfolding docker_wait_for_exit_def
  by (intro rep.keeps_rules engine_call_reported set_result_frames stop_container_reported
      remove_container_reported; simp add: steady_def)

lemma restart_container_reported: "steady W J \<Longrightarrow> keeps (reported J) (docker_restart_container W p)"
  unfolding docker_restart_container_def docker_timed_out_def
  by (intro rep.keeps_rules lookup_reported set_changed_then gro.keeps_rules engine_call_grows
      with_unit_grows lookup_grows; assumption)

lemma stop_and_remove_reported: "steady W J \<Longrightarrow> keeps (reported J) (docker_stop_and_remove_container W p)"
  unfolding docker_stop_and_remove_container_def
  by (intro rep.keeps_rules lookup_reported stop_container_reported remove_container_reported; assumption)

lemma compare_container_reported:
  assumes "steady W J"
  shows "keeps (reported J) (docker_compare_container W p)"
proof -
  note look = lookup_reported [OF assms]
  have c: "keeps (reported J) (check_unit_change c [])" for c
    by (simp add: keeps_def check_unit_change_run rep.frame_refl)
  show ?thesis
    unfolding docker_compare_container_def compare_container_def
    by (auto simp: docker_methods_def [of W p, symmetric] intro!: rep.keeps_rules set_changed_reported
        with_unit_keeps [OF rep.effect_frame_axioms c] look,
        auto simp: docker_methods_def intro!: rep.keeps_rules look)
qed

lemma compare_image_reported: "steady W J \<Longrightarrow> keeps (reported J) (docker_compare_image W p)"
  unfolding docker_compare_image_def by (intro rep.keeps_rules lookup_reported; assumption)

section \<open>Pulling\<close>

lemma pull_image_never:
  assumes "\<not> P (EngineCall ''login'' [fmt_opt (p_auth_username p)])"
    "\<And>a. \<not> P (EngineCall ''images'' a)" "\<And>a. \<not> P (EngineCall ''pull'' a)"
  shows "keeps (never P) (docker_pull_image W p)"
  unfolding docker_pull_image_def docker_get_image_id_def
  by (intro nev.keeps_rules engine_call_never assign_changed_never assms)

lemma ensure_image_never:
  assumes "\<not> P (EngineCall ''login'' [fmt_opt (p_auth_username p)])"
    "\<And>a. \<not> P (EngineCall ''images'' a)" "\<And>a. \<not> P (EngineCall ''pull'' a)"
  shows "keeps (never P) (docker_ensure_image W p)"
  unfolding docker_ensure_image_def docker_check_image_def
  by (intro nev.keeps_rules engine_call_never pull_image_never assms)

text \<open>The id the engine reports for the image of the parameters, when it reports exactly one.\<close>

definition image_id_at :: "'d docker \<Rightarrow> params \<Rightarrow> 'd \<Rightarrow> string option" where
  "image_id_at W p d = (case fst (dk_image_ids W (p_image p) d) of Inr [i] \<Rightarrow> Some i | _ \<Rightarrow> None)"

text \<open>
  What an engine documents of images: reading, logging in and waiting do not change the image
  of a name; an image that is not in the listing has no id; and after a pull that reports no
  error the name stands for one image.
\<close>

definition image_laws :: "'d docker \<Rightarrow> params \<Rightarrow> bool" where
  "image_laws W p \<longleftrightarrow> steady W (image_id_at W p)
   \<and> (\<forall>repo tag. parse_image p = Inr (repo, tag) \<longrightarrow>
        (\<forall>d images. fst (dk_images W d) = Inr images
           \<and> (\<forall>im \<in> set images. repo @ CHR '':'' # tag \<notin> set (im_repo_tags im)) \<longrightarrow> image_id_at W p d = None)
      \<and> (\<forall>d statuses ids. fst (dk_pull W repo tag d) = Inr statuses \<and> pull_failure statuses = None
           \<and> fst (dk_image_ids W (p_image p) (snd (dk_pull W repo tag d))) = Inr ids \<longrightarrow> (\<exists>i. ids = [i])))"

text \<open>\<open>pull_image\<close>, up to the assignment of \<open>changed\<close>.\<close>

definition pulled_ids :: "'d docker \<Rightarrow> params \<Rightarrow> ('d, string option \<times> string option) act" where
  "pulled_ids W p =
     bnd (when_io (str_truthy (p_auth_username p)) (engine_call ''login'' [fmt_opt (p_auth_username p)] (dk_login W))) (\<lambda>_.
     bnd (lift_sum (parse_image p)) (\<lambda>(repo, tag).
     bnd (docker_get_image_id W p) (\<lambda>old_image_id.
     bnd (engine_call ''pull'' [repo, tag] (dk_pull W repo tag)) (\<lambda>statuses.
     bnd (case pull_failure statuses of Some e \<Rightarrow> raise_io e | None \<Rightarrow> return_io ()) (\<lambda>_.
     bnd (docker_get_image_id W p) (\<lambda>new_image_id. return_io (old_image_id, new_image_id)))))))"

lemma pull_image_split:
  "docker_pull_image W p = bnd (pulled_ids W p) (\<lambda>(old, new). assign_changed (old \<noteq> new))"
  by (simp add: docker_pull_image_def pulled_ids_def bnd_assoc split_def)

lemma pulled_ids_only: "keeps (only (\<lambda>_. True)) (pulled_ids W p)"
  unfolding pulled_ids_def docker_get_image_id_def
  by (intro onl.keeps_rules engine_call_only TrueI)

lemma get_image_id_run:
  assumes "docker_get_image_id W p h = (Inr i, h')"
  shows "i = image_id_at W p (outside h)" "\<exists>ids. fst (dk_image_ids W (p_image p) (outside h)) = Inr ids"
  using assms
  by (auto simp: docker_get_image_id_def engine_call_def bnd_run io_run image_id_at_def
      split: prod.splits sum.splits list.splits)

lemma pulled_ids_told:
  assumes r: "pulled_ids W p h = (Inr (old, new), h')" and s: "steady W (image_id_at W p)"
  shows "old = image_id_at W p (outside h)" "new = image_id_at W p (outside h')"
    "\<exists>repo tag d statuses ids. parse_image p = Inr (repo, tag) \<and> fst (dk_pull W repo tag d) = Inr statuses
       \<and> pull_failure statuses = None \<and> new = image_id_at W p (snd (dk_pull W repo tag d))
       \<and> fst (dk_image_ids W (p_image p) (snd (dk_pull W repo tag d))) = Inr ids"
proof -
  note same = keepsD [OF lookups_same(7) [OF s], unfolded same_def]
  obtain h1 repo tag h3 statuses h4 where
    l: "when_io (str_truthy (p_auth_username p)) (engine_call ''login'' [fmt_opt (p_auth_username p)] (dk_login W)) h = (Inr (), h1)"
    and p: "parse_image p = Inr (repo, tag)" and o: "docker_get_image_id W p h1 = (Inr old, h3)"
    and u: "engine_call ''pull'' [repo, tag] (dk_pull W repo tag) h3 = (Inr statuses, h4)"
    and f: "pull_failure statuses = None" and n: "docker_get_image_id W p h4 = (Inr new, h')"
    using r unfolding pulled_ids_def
    by (elim bnd_InrD) (auto simp: lift_sum_def io_run bnd_run split: sum.splits option.splits elim!: bnd_InrD)
  have "keeps (same (image_id_at W p)) (when_io (str_truthy (p_auth_username p))
      (engine_call ''login'' [fmt_opt (p_auth_username p)] (dk_login W)))"
    by (intro sam.keeps_rules steady_calls(4) [OF s])
  from keepsD [OF this l] show "old = image_id_at W p (outside h)"
    using get_image_id_run(1) [OF o] by (simp add: same_def)
  show "new = image_id_at W p (outside h')"
    using get_image_id_run(1) [OF n] same [OF n] by simp
  have "fst (dk_pull W repo tag (outside h3)) = Inr statuses" "outside h4 = snd (dk_pull W repo tag (outside h3))"
    using u by (auto simp: engine_call_def split: prod.splits)
  with p f get_image_id_run [OF n] show "\<exists>repo tag d statuses ids. parse_image p = Inr (repo, tag)
     \<and> fst (dk_pull W repo tag d) = Inr statuses
     \<and> pull_failure statuses = None \<and> new = image_id_at W p (snd (dk_pull W repo tag d))
     \<and> fst (dk_image_ids W (p_image p) (snd (dk_pull W repo tag d))) = Inr ids" by metis
qed

text \<open>A pull that returns has told whether the image of the name changed.\<close>

lemma pull_image_told:
  assumes "docker_pull_image W p h = (Inr u, h')" and "steady W (image_id_at W p)"
  shows "changed h' \<longleftrightarrow> image_id_at W p (outside h') \<noteq> image_id_at W p (outside h)"
    and "\<exists>ts. trace h' = trace h @ ts"
    and "image_laws W p \<Longrightarrow> image_id_at W p (outside h') \<noteq> None"
proof -
  obtain old new h1 where r: "pulled_ids W p h = (Inr (old, new), h1)" and h': "h' = h1\<lparr>changed := old \<noteq> new\<rparr>"
    using assms(1) unfolding pull_image_split by (auto simp: assign_changed_def io_run elim!: bnd_InrD)
  note told = pulled_ids_told [OF r assms(2)]
  show "changed h' \<longleftrightarrow> image_id_at W p (outside h') \<noteq> image_id_at W p (outside h)"
    using told(1,2) h' by auto
  show "\<exists>ts. trace h' = trace h @ ts"
    using keepsD [OF pulled_ids_only r] h' by (auto simp: only_def)
  assume "image_laws W p"
  with told(3) have "new \<noteq> None" by (fastforce simp: image_laws_def image_id_at_def)
  then show "image_id_at W p (outside h') \<noteq> None" using told(2) h' by simp
qed

lemma ensure_image_told:
  assumes laws: "image_laws W p" and run: "docker_ensure_image W p h = (r, h')"
  shows "grows h h'" and "r = Inr u \<Longrightarrow> image_id_at W p (outside h') \<noteq> image_id_at W p (outside h) \<Longrightarrow> changed h'"
proof -
  have s: "steady W (image_id_at W p)" using laws by (simp add: image_laws_def)
  obtain rc h1 where c: "docker_check_image W p h = (rc, h1)" by fastforce
  have o: "only is_lookup h h1" by (rule keepsD [OF lookups_only(1) c])
  have sm: "image_id_at W p (outside h1) = image_id_at W p (outside h)"
    using keepsD [OF lookups_same(1) [OF s] c] by (simp add: same_def)
  have "grows h h' \<and> (\<forall>u. r = Inr u \<longrightarrow> image_id_at W p (outside h') \<noteq> image_id_at W p (outside h) \<longrightarrow> changed h')"
  proof (cases "rc = Inr None")
    case False
    then have "h' = h1" using run c
      by (auto simp: docker_ensure_image_def bnd_run when_io_def io_run split: sum.splits option.splits if_splits)
    then show ?thesis using only_grows [OF o] sm by simp
  next
    case True
    then have pull: "docker_pull_image W p h1 = (r, h')"
      using run c by (simp add: docker_ensure_image_def bnd_run when_io_def)
    have none: "image_id_at W p (outside h) = None"
      using c True laws
      by (fastforce simp: docker_check_image_def engine_call_def lift_sum_def bnd_run io_run image_laws_def
          find_None_iff split: sum.splits prod.splits)
    show ?thesis
    proof (cases r)
      case (Inl e)
      then have "only (\<lambda>_. True) h1 h'"
        using pull keepsD [OF pulled_ids_only, of W p h1] unfolding pull_image_split
        by (auto simp: bnd_run assign_changed_def io_run split: prod.splits sum.splits)
      then show ?thesis using Inl only_grows [OF o] only_grows gro.frame_trans by blast
    next
      case (Inr u)
      note told = pull_image_told [OF pull [unfolded Inr] s]
      have "changed h'" using told(1) told(3) [OF laws] sm none by simp
      then show ?thesis using told(2) o by (auto simp: only_def grows_def)
    qed
  qed
  then show "grows h h'" and "r = Inr u \<Longrightarrow> image_id_at W p (outside h') \<noteq> image_id_at W p (outside h) \<Longrightarrow> changed h'"
    by blast+
qed

section \<open>Starting and recreating\<close>

text \<open>What \<open>start_container\<close> does once the image is there.\<close>

definition start_prepared :: "'d docker \<Rightarrow> params \<Rightarrow> ('d, unit) act" where
  "start_prepared W p =
     bnd (docker_check_container W p) (\<lambda>container.
     bnd (if container = None then return_io False else docker_differs W p) (\<lambda>differs.
     bnd (if differs
          then bnd (docker_stop_container W p) (\<lambda>_.
               bnd (docker_remove_container W p) (\<lambda>_.
               docker_check_container W p))
          else return_io container) (\<lambda>container.
     bnd (if container = None
          then bnd (docker_create_container W p) (\<lambda>_. docker_check_container W p)
          else return_io container) (\<lambda>container.
     case container of
       None \<Rightarrow> raise_io TypeError
     | Some c \<Rightarrow>
         bnd (when_io (\<not> prefix ''Up '' (ct_status c)) (docker_bring_up W p)) (\<lambda>_.
         when_io (\<not> p_detach p) (docker_wait_for_exit W p))))))"

lemma start_container_split:
  "docker_start_container W p = bnd (docker_ensure_image W p) (\<lambda>_. start_prepared W p)"
  by (simp add: docker_start_container_def start_prepared_def)

lemma start_prepared_reported: "steady W J \<Longrightarrow> keeps (reported J) (start_prepared W p)"
  unfolding start_prepared_def
  by (intro rep.keeps_rules lookup_reported stop_container_reported remove_container_reported
      create_container_reported bring_up_reported wait_for_exit_reported; assumption)

lemma start_container_told:
  assumes run: "docker_start_container W p h = (r, h')"
  shows "\<exists>ts. trace h' = trace h @ ts \<and> (list_ex mutates ts \<longrightarrow> changed h')"
    and "image_laws W p \<Longrightarrow> grows h h'"
    and "image_laws W p \<Longrightarrow> r = Inr u \<Longrightarrow> image_id_at W p (outside h') \<noteq> image_id_at W p (outside h) \<Longrightarrow> changed h'"
proof -
  obtain re h1 where e: "docker_ensure_image W p h = (re, h1)" by fastforce
  obtain rs h2 where s: "start_prepared W p h1 = (rs, h2)" by fastforce
  have fin: "(r, h') = (case re of Inl x \<Rightarrow> (Inl x, h1) | Inr _ \<Rightarrow> (rs, h2))"
    using run e s by (auto simp: start_container_split bnd_run split: sum.splits)
  have n: "never mutates h h1" by (rule keepsD [OF ensure_image_never e]) simp_all
  have rep: "reported J h1 h2" if "steady W J" for J :: "'a \<Rightarrow> 'b"
    by (rule keepsD [OF start_prepared_reported [OF that] s])
  show "\<exists>ts. trace h' = trace h @ ts \<and> (list_ex mutates ts \<longrightarrow> changed h')"
    using fin n keepsD [OF start_prepared_reported [OF steady_unit] s]
    by (cases re) (auto simp: never_def reported_def)
  assume laws: "image_laws W p"
  note told = ensure_image_told [OF laws e]
  have st: "reported (image_id_at W p) h1 h2"
    using laws by (intro keepsD [OF start_prepared_reported s]) (simp add: image_laws_def)
  show "grows h h'"
    using fin told(1) reported_grows [OF st] by (cases re) (auto intro: gro.frame_trans)
  assume "r = Inr u" and "image_id_at W p (outside h') \<noteq> image_id_at W p (outside h)"
  then show "changed h'"
    using fin told(2) st by (cases re) (auto simp: reported_def)
qed

lemma recreate_reported:
  assumes "image_laws W p" and "steady W J"
  shows "keeps (reported J) (docker_recreate_or_restart_container W p)"
proof -
  have e: "keeps grows (docker_ensure_image W p)" and s: "keeps grows (docker_start_container W p)"
    unfolding keeps_def using ensure_image_told(1) [OF assms(1)] start_container_told(2) [OF _ assms(1)]
    by (metis prod.collapse)+
  show ?thesis
    unfolding docker_recreate_or_restart_container_def Let_def
    by (intro set_changed_then gro.keeps_rules lookup_grows e s
        reported_grows_unit [OF stop_container_reported [OF steady_unit]]
        reported_grows_unit [OF remove_container_reported [OF steady_unit]]
        reported_grows_unit [OF restart_container_reported [OF steady_unit]])
qed

text \<open>The actions that neither pull nor recreate.\<close>

lemma action_reported:
  assumes "steady W J" and "a \<notin> {Ensure_image, Pull_image, Start_container, Recreate_or_restart_container}"
  shows "keeps (reported J) (docker_action W p a)"
proof -
  have bnd_rep: "keeps (reported J) (bnd m (\<lambda>_. return_io b))" if "keeps (reported J) m"
    for m :: "('a, unit) act" and b :: bool
    by (intro rep.keeps_rules that)
  show ?thesis using assms
    by (cases a) (simp_all add: bnd_rep create_volume_reported remove_volume_reported
         remove_image_reported remove_container_reported stop_container_reported
         restart_container_reported stop_and_remove_reported compare_container_reported
         compare_image_reported)
qed

text \<open>
  C6. Nothing is modified unreported.  Whatever action of the Docker worker runs, and however
  it ends, if a container or volume was created, started, stopped or removed, an image
  removed, a unit file written or removed or systemd asked to act on the way, then \<open>changed\<close>
  is set at the end (for \<open>recreate_or_restart_container\<close>, whose pull assigns \<open>changed\<close>, on an
  engine that obeys \<open>image_laws\<close>).  And on such an engine no action returns with another image
  under the name than it found, by a pull or otherwise, unless \<open>changed\<close> is set.
\<close>

theorem mutation_reported:
  assumes "docker_action W p a h = (r, h')"
  shows "((a = Recreate_or_restart_container \<longrightarrow> image_laws W p)
        \<longrightarrow> (\<exists>ts. trace h' = trace h @ ts \<and> (list_ex mutates ts \<longrightarrow> changed h')))
    \<and> (image_laws W p \<longrightarrow> (\<exists>b. r = Inr b)
        \<longrightarrow> image_id_at W p (outside h') \<noteq> image_id_at W p (outside h) \<longrightarrow> changed h')"
proof -
  let ?J = "image_id_at W p"
  have s: "steady W ?J" if "image_laws W p" using that by (simp add: image_laws_def)
  have quiet: "\<exists>ts. trace h' = trace h @ ts \<and> (list_ex mutates ts \<longrightarrow> changed h')"
    if "keeps (never mutates) (docker_action W p a)"
    using keepsD [OF that assms] by (auto simp: never_def)
  have bnd_quiet: "keeps (never mutates) (bnd m (\<lambda>_. return_io b))" if "keeps (never mutates) m"
    for m :: "('a, unit) act" and b :: bool
    by (intro nev.keeps_rules that)
  consider "a = Pull_image" | "a = Ensure_image" | "a = Start_container" | "a = Recreate_or_restart_container"
    | "a \<notin> {Ensure_image, Pull_image, Start_container, Recreate_or_restart_container}" by blast
  then show ?thesis
  proof cases
    case 1
    then show ?thesis using assms s pull_image_told(1) [of W p h]
      by (intro conjI impI quiet) (auto simp: bnd_quiet pull_image_never io_run elim!: bnd_InrD)
  next
    case 2
    then show ?thesis using assms ensure_image_told(2) [of W p h]
      by (intro conjI impI quiet) (auto simp: bnd_quiet ensure_image_never io_run elim!: bnd_InrD)
  next
    case 3
    obtain r1 where "docker_start_container W p h = (r1, h')" "r = Inr b \<Longrightarrow> r1 = Inr ()" for b
      using assms 3 by (auto simp: bnd_run io_run split: prod.splits sum.splits)
    from start_container_told(1,3) [OF this(1)] this(2) show ?thesis by blast
  next
    case 4
    have "keeps (reported J) (docker_action W p a)" if "image_laws W p" "steady W J" for J :: "'a \<Rightarrow> string option"
      using 4 recreate_reported [OF that] by (simp add: rep.keeps_bnd rep.keeps_return)
    from keepsD [OF this assms] show ?thesis using 4 s by (auto simp: reported_def)
  next
    case 5
    show ?thesis
      using keepsD [OF action_reported [OF steady_unit 5] assms] keepsD [OF action_reported [OF s 5] assms]
      by (auto simp: reported_def)
  qed
qed

text \<open>An engine whose state is its images, named, with their ids; a pull adds the one it is asked for.\<close>

definition pulling_docker :: "(string \<times> string) list docker" where
  "pulling_docker =
    \<lparr>w_bus = quiet_bus,
     dk_images = (\<lambda>d. (Inr (map (\<lambda>(n, i). \<lparr>im_id = i, im_repo_tags = [n], im_labels = None\<rparr>) d), d)),
     dk_image_ids = (\<lambda>i d. (Inr (case map_of d (the i) of None \<Rightarrow> [] | Some x \<Rightarrow> [x]), d)),
     dk_volumes = (\<lambda>d. (Inr [], d)), dk_containers = (\<lambda>d. (Inr [web_container], d)),
     dk_inspect = (\<lambda>n d. (Inr demo_info, d)), dk_exec_create = (\<lambda>n c d. (Inr ''job'', d)),
     dk_exec_start = (\<lambda>j d. (Inr [], d)), dk_exec_inspect = (\<lambda>j d. (Inr 0, d)),
     dk_login = (\<lambda>d. (Inr (), d)), dk_pull = (\<lambda>r t d. (Inr [None], (r @ CHR '':'' # t, ''sha256:2'') # d)),
     dk_create = (\<lambda>c d. (Inr (), d)), dk_start = (\<lambda>n d. (Inr (), d)), dk_stop = (\<lambda>n t d. (Inr (), d)),
     dk_remove = (\<lambda>n d. (Inr (), d)), dk_wait = (\<lambda>n d. (Inr 0, d)), dk_logs = (\<lambda>n b d. (Inr [], d)),
     dk_create_volume = (\<lambda>n d. (Inr (), d)), dk_remove_volume = (\<lambda>n d. (Inr (), d)),
     dk_remove_image = (\<lambda>i d. (Inr (), d)), dk_ulimit = (\<lambda>k s h. Inr (PyStr k)),
     dk_host_config = (\<lambda>c. Inr []), dk_parse_tag = (\<lambda>s. (s, None))\<rparr>"

lemma pulling_docker_laws: "image_laws pulling_docker web_params"
proof -
  have p: "parse_image web_params = Inr (''quay.io/kolla/web'', ''1'')" by code_simp
  have i: "p_image web_params = Some ''quay.io/kolla/web:1''"
    by (simp add: web_params_def params_of_def params_getters)
  have n: "map_of d (''quay.io/kolla/web:1'') = None"
    if "\<forall>im \<in> set d. ''quay.io/kolla/web:1'' \<notin> set (im_repo_tags
      (case im of (n, i) \<Rightarrow> \<lparr>im_id = i, im_repo_tags = [n], im_labels = None\<rparr>))" for d :: "(string \<times> string) list"
    using that by (force simp: map_of_eq_None_iff)
  show ?thesis
    unfolding image_laws_def p sum.inject prod.inject
    by (auto simp: steady_def image_id_at_def pulling_docker_def i dest!: n)
qed

text \<open>Recreating with a missing image pulls it, restarts the container and reports both.\<close>

theorem mutation_reported_witness:
  "let W = pulling_docker; r = docker_action W web_params Recreate_or_restart_container (demo_host [])
   in image_id_at W web_params (outside (snd r)) = Some ''sha256:2''
    \<and> list_ex mutates (trace (snd r)) \<and> changed (snd r)"
proof -
  let ?h = "demo_host [] :: (string \<times> string) list host"
  let ?a = "Recreate_or_restart_container"
  obtain r h' where d: "docker_action pulling_docker web_params ?a ?h = (r, h')" by fastforce
  have "image_id_at pulling_docker web_params (outside (snd (docker_action pulling_docker web_params ?a ?h)))
      = Some ''sha256:2''"
    by code_simp
  moreover have "list_ex mutates (trace (snd (docker_action pulling_docker web_params ?a ?h)))"
    by code_simp
  moreover have "trace ?h = []" by (simp add: demo_host_def)
  ultimately show ?thesis
    using mutation_reported [OF d] pulling_docker_laws unfolding Let_def d by simp
qed

section \<open>A missing image\<close>

definition image_missing :: "'d docker \<Rightarrow> params \<Rightarrow> bool" where
  "image_missing W p \<longleftrightarrow> (\<forall>h. \<exists>h'. docker_check_image W p h = (Inr None, h'))"

definition pull_fails :: "'d docker \<Rightarrow> params \<Rightarrow> bool" where
  "pull_fails W p \<longleftrightarrow> fails (docker_pull_image W p)"

lemma check_image_missing: "image_missing W p \<Longrightarrow> \<not> avoids (docker_check_image W p) im \<Longrightarrow> im = None"
  unfolding image_missing_def avoids_def by (metis Inr_inject fst_conv)

lemma ensure_image_fails:
  assumes "image_missing W p" "pull_fails W p"
  shows "fails (docker_ensure_image W p)"
  unfolding docker_ensure_image_def
  using assms by (intro fails_bnd_next) (auto dest!: check_image_missing simp: when_io_def pull_fails_def)

text \<open>When its image comparison cannot say no, the container differs, unless an exception comes first.\<close>

lemma differs_by_image:
  assumes "\<And>ci. avoids (vm_image V ci) False"
  shows "avoids (check_container_differs V p) False"
  unfolding check_container_differs_def
  by (intro avoids_bnd) (auto intro: avoids_any [of "vm_image V ci" for ci] assms
      simp del: any_io.simps split: option.splits)

lemma differs_without_image:
  assumes "image_missing W p"
  shows "avoids (docker_differs W p) False"
proof (rule differs_by_image)
  fix ci
  show "avoids (vm_image (docker_methods W p) ci) False"
    unfolding docker_methods_def docker_image_differs_def worker.simps
    by (intro avoids_bnd) (auto dest!: check_image_missing [OF assms])
qed

lemma recreate_without_image:
  assumes "image_missing W p" "pull_fails W p"
  shows "fails (docker_recreate_or_restart_container W p)"
    and "keeps (never destroys) (docker_recreate_or_restart_container W p)"
    and "fails (docker_start_container W p)" and "keeps (never destroys) (docker_start_container W p)"
proof -
  note f = ensure_image_fails [OF assms] and d = differs_without_image [OF assms(1)]
  have e: "keeps (never destroys) (docker_ensure_image W p)" by (rule ensure_image_never) simp_all
  show s: "fails (docker_start_container W p)" "keeps (never destroys) (docker_start_container W p)"
    unfolding start_container_split by (intro fails_bnd nev.keeps_bnd_fails f e)+
  have r: "b = True" if "\<not> avoids (if strategy then return_io True else docker_differs W p) b"
    for b strategy using that d by (cases b) (auto split: if_splits)
  show "fails (docker_recreate_or_restart_container W p)"
    unfolding docker_recreate_or_restart_container_def Let_def
    by (intro fails_bnd_next) (auto simp: d dest!: r intro!: s(1) fails_bnd_next fails_bnd [OF f] split: if_splits)
  show "keeps (never destroys) (docker_recreate_or_restart_container W p)"
    unfolding docker_recreate_or_restart_container_def Let_def
    by (intro nev.keeps_bnd_fails [OF e f] nev.keeps_bnd_next nev.keeps_if set_changed_never
        lookup_never s(2)) (auto simp: d when_io_def intro: nev.keeps_rules lookup_never dest!: r split: if_splits)
qed

text \<open>
  C1. A missing image costs nothing.  When the image is not on the host and pulling it fails,
  \<open>start_container\<close> and \<open>recreate_or_restart_container\<close> end in an error, and they stop, restart
  and remove nothing: the old container and its unit file survive.
\<close>

theorem missing_image_protects:
  assumes "image_missing W p" and "pull_fails W p"
    and "a = Start_container \<or> a = Recreate_or_restart_container"
    and "docker_action W p a h = (r, h')"
  shows "(\<exists>e. r = Inl e) \<and> (\<exists>ts. trace h' = trace h @ ts \<and> \<not> list_ex destroys ts)"
proof -
  note k = recreate_without_image [OF assms(1,2)]
  have "fails (docker_action W p a)" using assms(3) k(1,3) by (auto intro: fails_bnd)
  moreover have "keeps (never destroys) (docker_action W p a)"
    using assms(3) k(2,4) by (elim disjE) (simp, intro nev.keeps_rules, assumption)+
  ultimately show ?thesis using assms(4)
    by (metis Pair_inject failsE keepsD never_def)
qed

theorem missing_image_protects_witness:
  "\<exists>e h'. docker_action (demo_docker [] [web_container]) web_params Recreate_or_restart_container (demo_host [])
      = (Inl e, h') \<and> \<not> list_ex destroys (trace h')"
proof -
  let ?W = "demo_docker [] [web_container]"
  let ?h = "demo_host [] :: (string \<times> string) list host"
  have i: "p_image web_params = Some ''quay.io/kolla/web:1''" "p_auth_username web_params = None"
    by (simp_all add: web_params_def params_of_def params_getters)
  have p: "parse_image web_params = Inr (''quay.io/kolla/web'', ''1'')"
    by code_simp
  have m: "image_missing ?W web_params"
    by (simp add: image_missing_def docker_check_image_def p lift_sum_def engine_call_def bnd_run
        io_run demo_docker_def)
  have f: "pull_fails ?W web_params"
    by (simp add: pull_fails_def fails_def docker_pull_image_def p i lift_sum_def engine_call_def bnd_run
        io_run demo_docker_def docker_get_image_id_def when_io_def str_truthy_def pull_failure_def)
  obtain r h' where "docker_action ?W web_params Recreate_or_restart_container ?h = (r, h')" by fastforce
  with missing_image_protects [OF m f _ this] show ?thesis by (auto simp: demo_host_def)
qed

section \<open>Running again\<close>

text \<open>
  C38. Starting is idempotent.  When the image is present, the container is up, detached and
  not different from its parameters, the module's \<open>start_container\<close> exits with \<open>changed\<close> as it
  was (false, in a fresh worker) and an empty result, having made nothing but lookups.
\<close>

theorem start_idempotent:
  assumes "systemd_init p = Inr u" and "docker_check_image W p h = (Inr (Some im), h1)"
    and "docker_check_container W p h1 = (Inr (Some c), h2)" and "prefix ''Up '' (ct_status c)"
    and "docker_differs W p h2 = (Inr False, h3)" and "p_detach p"
  shows "module_main W p Start_container h = (Exited (changed h) False (run_result h), h3)
    \<and> files h3 = files h \<and> (\<exists>ts. trace h3 = trace h @ ts \<and> list_all is_lookup ts)"
proof -
  have run: "docker_action W p Start_container h = (Inr False, h3)"
    using assms(2-)
    by (simp add: docker_start_container_def docker_ensure_image_def when_io_def io_run bnd_assoc
        bnd_run_Inr [where m = "docker_differs W p", OF assms(5)])
  have "only is_lookup h h1" by (rule keepsD [OF lookups_only(1) assms(2)])
  moreover have "only is_lookup h1 h2" by (rule keepsD [OF lookups_only(3) assms(3)])
  moreover have "only is_lookup h2 h3" by (rule keepsD [OF docker_differs_only assms(5)])
  ultimately have "only is_lookup h h3" by (blast intro: onl.frame_trans)
  then show ?thesis using run assms(1) by (simp add: module_main_def only_def)
qed

theorem start_idempotent_witness:
  "fst (module_main (demo_docker [web_image] [web_container]) web_params Start_container (demo_host []))
     = Exited False False []"
proof -
  let ?W = "demo_docker [web_image] [web_container]"
  let ?h = "demo_host [] :: (string \<times> string) list host"
  let ?h1 = "snd (docker_check_image ?W web_params ?h)"
  let ?h2 = "snd (docker_check_container ?W web_params ?h1)"
  have "fst (docker_check_image ?W web_params ?h) = Inr (Some web_image)" by code_simp
  then have i: "docker_check_image ?W web_params ?h = (Inr (Some web_image), ?h1)" by (simp add: prod_eq_iff)
  have "fst (docker_check_container ?W web_params ?h1) = Inr (Some web_container)" by code_simp
  then have c: "docker_check_container ?W web_params ?h1 = (Inr (Some web_container), ?h2)"
    by (simp add: prod_eq_iff)
  have "fst (docker_differs ?W web_params ?h2) = Inr False" by code_simp
  then have d: "docker_differs ?W web_params ?h2 = (Inr False, snd (docker_differs ?W web_params ?h2))"
    by (simp only: prod_eq_iff fst_conv snd_conv)
  have u: "systemd_init web_params = Inr (Some \<lparr>cd_name = ''web'', cd_service_name = service_name_of ''web'',
     cd_engine = None, cd_deps = ''network-online.target'', cd_graceful_timeout = None, cd_restart_policy = ''no'',
     cd_restart_timeout = 120, cd_restart_retries = 10, cd_restart_duration = 11\<rparr>)"
    by code_simp
  have "prefix ''Up '' (ct_status web_container)" "p_detach web_params" by code_simp+
  from start_idempotent [OF u i c this(1) d this(2)] show ?thesis
    by (simp add: demo_host_def)
qed

section \<open>The module's comparison\<close>

definition asks :: "'d host \<Rightarrow> 'd host \<Rightarrow> bool" where
  "asks h h' \<longleftrightarrow> files h' = files h \<and> (\<exists>ts. trace h' = trace h @ ts \<and> list_all is_query ts)"

interpretation ask: effect_frame asks
  by unfold_locales (auto simp: asks_def)

lemma keeps_asks: "keeps (only is_query) m \<Longrightarrow> keeps asks m"
  by (erule keeps_mono) (auto simp: only_def asks_def)

lemma docker_compare_container_eq:
  "docker_compare_container W p =
     bnd (docker_check_container W p) (\<lambda>ct.
     bnd (or_io (return_io (ct = None)) (or_io (docker_differs W p)
         (or_io (docker_compare_config W p) (with_unit p (\<lambda>c. check_unit_change c []))))) (\<lambda>differs.
     bnd (when_io differs set_changed) (\<lambda>_. gets_io changed)))"
  by (simp add: docker_compare_container_def compare_container_def bnd_assoc)
    (simp add: docker_methods_def bnd_assoc)

lemma compare_container_asks: "keeps asks (docker_compare_container W p)"
proof -
  have s: "keeps asks set_changed" by (simp add: keeps_def set_changed_def io_run asks_def)
  have u: "keeps asks (with_unit p (\<lambda>c. check_unit_change c []))"
    by (rule with_unit_keeps [OF ask.effect_frame_axioms])
      (simp add: keeps_def check_unit_change_run ask.frame_refl)
  show ?thesis
    unfolding docker_compare_container_eq
    by (intro ask.keeps_rules s u keeps_asks [OF compare_config_only] keeps_asks [OF lookup_frames(1)]
        lookup_only)
qed

text \<open>
  What a clean \<open>compare_container\<close> means.  It only queries, whatever the outcome; and a
  fresh worker answers no exactly when the container exists, does not differ from its
  parameters, passes its configuration check, and its unit file has the text generated now.
\<close>

lemma compare_container_clean:
  assumes "systemd_init p = Inr (Some c)" and "\<not> changed h"
    and "docker_compare_container W p h = (r, h')"
  shows "(r = Inr False \<longleftrightarrow> (\<exists>ct h1 h2 h3.
        docker_check_container W p h = (Inr (Some ct), h1)
        \<and> docker_differs W p h1 = (Inr False, h2)
        \<and> docker_compare_config W p h2 = (Inr False, h3)
        \<and> files h (unit_path c) = Some (unit_text c)))
    \<and> files h' = files h \<and> (\<exists>ts. trace h' = trace h @ ts \<and> list_all is_query ts)"
proof -
  obtain rc h1 rd h2 rf h3 where runs: "docker_check_container W p h = (rc, h1)"
    "docker_differs W p h1 = (rd, h2)" "docker_compare_config W p h2 = (rf, h3)"
    by (metis surj_pair)
  have "changed h3 = changed h" "files h3 = files h"
    using keepsD [OF lookups_only(3) runs(1)] keepsD [OF docker_differs_only runs(2)]
      keepsD [OF compare_config_only runs(3)] by (auto simp: only_def)
  moreover have "changed h1 = changed h" "changed h2 = changed h"
    using keepsD [OF lookups_only(3) runs(1)] keepsD [OF docker_differs_only runs(2)]
    by (auto simp: only_def)
  ultimately have "r = Inr False \<longleftrightarrow> (\<exists>ct. rc = Inr (Some ct)) \<and> rd = Inr False \<and> rf = Inr False
      \<and> files h (unit_path c) = Some (unit_text c)"
    using assms runs unfolding docker_compare_container_eq
    by (auto simp: bnd_run or_io_def io_run when_io_def set_changed_def with_unit_def
        split: sum.splits if_splits option.splits)
  with runs have "r = Inr False \<longleftrightarrow> (\<exists>ct h1 h2 h3. docker_check_container W p h = (Inr (Some ct), h1)
        \<and> docker_differs W p h1 = (Inr False, h2) \<and> docker_compare_config W p h2 = (Inr False, h3)
        \<and> files h (unit_path c) = Some (unit_text c))" by auto
  moreover have "asks h h'" by (rule keepsD [OF compare_container_asks assms(3)])
  ultimately show ?thesis by (simp add: asks_def)
qed

definition web_unit :: container_dict where
  "web_unit = \<lparr>cd_name = ''web'', cd_service_name = service_name_of ''web'',
     cd_engine = None, cd_deps = ''network-online.target'', cd_graceful_timeout = None, cd_restart_policy = ''no'',
     cd_restart_timeout = 120, cd_restart_retries = 10, cd_restart_duration = 11\<rparr>"

lemma compare_container_clean_witness:
  "fst (docker_compare_container (demo_docker [web_image] [web_container]) web_params
      ((demo_host [])\<lparr>files := [unit_path web_unit \<mapsto> unit_text web_unit]\<rparr>)) = Inr False"
proof -
  let ?W = "demo_docker [web_image] [web_container]"
  let ?h = "(demo_host [])\<lparr>files := [unit_path web_unit \<mapsto> unit_text web_unit]\<rparr> :: (string \<times> string) list host"
  let ?h1 = "snd (docker_check_container ?W web_params ?h)"
  let ?h2 = "snd (docker_differs ?W web_params ?h1)"
  let ?h3 = "snd (docker_compare_config ?W web_params ?h2)"
  have u: "systemd_init web_params = Inr (Some web_unit)" by code_simp
  have n: "\<not> changed ?h" "files ?h (unit_path web_unit) = Some (unit_text web_unit)"
    by (simp_all add: demo_host_def)
  obtain r h' where c: "docker_compare_container ?W web_params ?h = (r, h')" by fastforce
  have "fst (docker_check_container ?W web_params ?h) = Inr (Some web_container)" by code_simp
  then have a1: "docker_check_container ?W web_params ?h = (Inr (Some web_container), ?h1)"
    by (simp only: prod_eq_iff fst_conv snd_conv)
  have "fst (docker_differs ?W web_params ?h1) = Inr False" by code_simp
  then have a2: "docker_differs ?W web_params ?h1 = (Inr False, ?h2)"
    by (simp only: prod_eq_iff fst_conv snd_conv)
  have "fst (docker_compare_config ?W web_params ?h2) = Inr False" by code_simp
  then have a3: "docker_compare_config ?W web_params ?h2 = (Inr False, ?h3)"
    by (simp only: prod_eq_iff fst_conv snd_conv)
  have "r = Inr False"
    using compare_container_clean [OF u n(1) c] a1 a2 a3 n(2) by blast
  with c show ?thesis by simp
qed

section \<open>The volumes of a container\<close>

text \<open>The volumes \<open>create_container_volumes\<close> is asked for: the sources that are not paths.\<close>

definition named_volumes :: "params \<Rightarrow> string list" where
  "named_volumes p =
     map (\<lambda>n. if n = [] then fmt_opt (p_name p) else n)
       (filter (\<lambda>n. CHR ''/'' \<notin> set n) (map (\<lambda>v. hd (py_split (CHR '':'') v)) (p_volumes p)))"

fun created_volumes :: "event list \<Rightarrow> string list" where
  "created_volumes [] = []"
| "created_volumes (EngineCall m args # ts) =
     (if m = ''create_volume'' then args else []) @ created_volumes ts"
| "created_volumes (_ # ts) = created_volumes ts"

lemma created_volumes_append: "created_volumes (ts @ us) = created_volumes ts @ created_volumes us"
  by (induction ts rule: created_volumes.induct) simp_all

text \<open>
  Volume listings that always (\<open>b\<close>) or never show a volume called like the container, on an
  engine where creating a volume succeeds.
\<close>

definition volume_listing :: "'d docker \<Rightarrow> params \<Rightarrow> bool \<Rightarrow> bool" where
  "volume_listing W p b \<longleftrightarrow>
     (\<forall>d. \<exists>vs d'. dk_volumes W d = (Inr vs, d') \<and> (\<exists>v \<in> set vs. Some v = p_name p) = b)
     \<and> (\<forall>n d. \<exists>d'. dk_create_volume W n d = (Inr (), d'))"

lemma create_volume_listing:
  assumes "volume_listing W p b"
  shows "\<exists>h'. docker_create_volume W p (Some n) h = (Inr (), h')
    \<and> changed h' = (changed h \<or> \<not> b) \<and> (\<exists>ts. trace h' = trace h @ ts
        \<and> created_volumes ts = (if b then [] else [if n = [] then fmt_opt (p_name p) else n]))"
proof -
  obtain vs d where v: "dk_volumes W (outside h) = (Inr vs, d)" "(\<exists>v \<in> set vs. Some v = p_name p) = b"
    using assms unfolding volume_listing_def by blast
  obtain d' where "dk_create_volume W (if n = [] then p_name p else Some n) d = (Inr (), d')"
    using assms unfolding volume_listing_def by blast
  with v show ?thesis
    by (auto simp: docker_create_volume_def docker_check_volume_def engine_call_def bnd_run io_run
        when_io_def set_changed_def str_truthy_def fmt_opt_def list_ex_iff Let_def split: if_splits)
qed

lemma container_volumes_loop:
  assumes "volume_listing W p b"
  shows "\<exists>h'. for_io vs (docker_volume_step W p) h = (Inr (), h')
    \<and> changed h' = (changed h \<or> (\<not> b \<and> named_volumes (p\<lparr>p_volumes := vs\<rparr>) \<noteq> []))
    \<and> (\<exists>ts. trace h' = trace h @ ts
        \<and> created_volumes ts = (if b then [] else named_volumes (p\<lparr>p_volumes := vs\<rparr>)))"
proof (induction vs arbitrary: h)
  case (Cons v vs)
  define n where "n = hd (py_split (CHR '':'') v)"
  show ?case
  proof (cases "CHR ''/'' \<in> set n")
    case True
    then have "docker_volume_step W p v = return_io ()"
      and "named_volumes (p\<lparr>p_volumes := v # vs\<rparr>) = named_volumes (p\<lparr>p_volumes := vs\<rparr>)"
      by (simp_all add: named_volumes_def docker_volume_step_def n_def Let_def)
    with Cons [of h] show ?thesis by (simp only: for_io.simps bnd_return)
  next
    case False
    obtain h1 ts where h1: "docker_create_volume W p (Some n) h = (Inr (), h1)"
      "changed h1 = (changed h \<or> \<not> b)" "trace h1 = trace h @ ts"
      "created_volumes ts = (if b then [] else [if n = [] then fmt_opt (p_name p) else n])"
      using create_volume_listing [OF assms, of n h] by blast
    obtain h2 us where h2: "for_io vs (docker_volume_step W p) h1 = (Inr (), h2)"
      "changed h2 = (changed h1 \<or> (\<not> b \<and> named_volumes (p\<lparr>p_volumes := vs\<rparr>) \<noteq> []))"
      "trace h2 = trace h1 @ us" "created_volumes us = (if b then [] else named_volumes (p\<lparr>p_volumes := vs\<rparr>))"
      using Cons.IH [of h1] by blast
    have "named_volumes (p\<lparr>p_volumes := v # vs\<rparr>) =
        (if n = [] then fmt_opt (p_name p) else n) # named_volumes (p\<lparr>p_volumes := vs\<rparr>)"
      using False by (simp add: named_volumes_def n_def)
    moreover have "docker_volume_step W p v h = (Inr (), h1)"
      using h1(1) False by (simp add: docker_volume_step_def n_def Let_def)
    ultimately show ?thesis using h1(2-) h2
      by (intro exI [of _ h2]) (auto simp: bnd_run created_volumes_append intro!: exI [of _ "ts @ us"])
  qed
qed (simp add: io_run named_volumes_def)

text \<open>
  The volumes created with a container depend on the container's name only.  If a volume
  called like the container exists, no named volume is created at all; if none does, every
  named volume is created, in order, also those that exist already.
\<close>

lemma container_volumes_created:
  assumes "volume_listing W p b"
  shows "\<exists>h'. docker_create_container_volumes W p h = (Inr (), h')
    \<and> changed h' = (changed h \<or> (\<not> b \<and> named_volumes p \<noteq> []))
    \<and> (\<exists>ts. trace h' = trace h @ ts \<and> created_volumes ts = (if b then [] else named_volumes p))"
proof -
  have "p\<lparr>p_volumes := p_volumes p\<rparr> = p" by simp
  then show ?thesis
    using container_volumes_loop [OF assms, of "p_volumes p" h]
    by (simp only: docker_create_container_volumes_def)
qed

lemma container_volumes_created_witness:
  "created_volumes (trace (snd (docker_create_container_volumes
       ((demo_docker [] [])\<lparr>dk_volumes := \<lambda>d. (Inr [''web''], d)\<rparr>)
       (web_params\<lparr>p_volumes := [''logs:/var/log'', ''/etc/localtime:/etc/localtime:ro'']\<rparr>) (demo_host [])))) = []
   \<and> created_volumes (trace (snd (docker_create_container_volumes
       ((demo_docker [] [])\<lparr>dk_volumes := \<lambda>d. (Inr [''logs''], d)\<rparr>)
       (web_params\<lparr>p_volumes := [''logs:/var/log'', ''/etc/localtime:/etc/localtime:ro'']\<rparr>) (demo_host [])))) = [''logs'']"
proof -
  let ?p = "web_params\<lparr>p_volumes := [''logs:/var/log'', ''/etc/localtime:/etc/localtime:ro'']\<rparr>"
  let ?W = "\<lambda>vs. (demo_docker [] [])\<lparr>dk_volumes := \<lambda>d. (Inr vs, d)\<rparr>"
  let ?h = "demo_host [] :: (string \<times> string) list host"
  have n: "p_name ?p = Some ''web''" "trace ?h = []"
    by (simp_all add: web_params_def params_of_def params_getters demo_host_def)
  have v: "named_volumes ?p = [''logs'']" by (simp add: named_volumes_def)
  have "volume_listing (?W [''web'']) ?p True" "volume_listing (?W [''logs'']) ?p False"
    using n by (auto simp: volume_listing_def demo_docker_def)
  from this [THEN container_volumes_created, of ?h] show ?thesis
    by (auto simp: n v)
qed

end
