(* ===== verification/PodmanWorker.thy ===== *)
theory PodmanWorker
  imports DockerWorker
begin

text \<open>
  \<open>PodmanWorker\<close> (\<open>ansible/module_utils/kolla_podman_worker.py\<close>): every operation of the class,
  and the dispatch of the module's \<open>main\<close> to it.

  The engine is the record \<open>podman\<close>, one field per method of podman-py the code calls; a
  container object is the engine's handle of it with the attributes of its last \<open>reload\<close>.
  Calls are logged under the names the Docker worker uses for the same effects, so that both
  workers share their frames.  \<open>raw\<close> is \<open>self.params\<close>: the operations that hand parameters on
  to the engine read the dict itself, the others its typed view.  \<open>prepare_container_args\<close>
  consumes entries of \<open>self.params\<close>; none of them is read again after it.
\<close>

section \<open>The engine client\<close>

record pod_container =
  pk_id :: string
  pk_name :: string
  pk_status :: string
  pk_attrs :: container_info

record 'd podman =
  pm_bus :: "'d bus"
  pm_image_get :: "string option \<Rightarrow> ('d, pyobj) ecall"
  pm_image_remove :: "string \<Rightarrow> ('d, unit) ecall"
  pm_pull :: "pyobj \<Rightarrow> ('d, pyobj) ecall"
  pm_volume_get :: "string option \<Rightarrow> ('d, pyobj) ecall"
  pm_volume_create :: "pyobj \<Rightarrow> ('d, pyobj) ecall"
  pm_volume_remove :: "string option \<Rightarrow> ('d, unit) ecall"
  pm_list :: "('d, string list) ecall"
  pm_get :: "string \<Rightarrow> ('d, string) ecall"
  pm_reload :: "string \<Rightarrow> ('d, pod_container) ecall"
  pm_create :: "pyobj \<Rightarrow> ('d, pyobj) ecall"
  pm_exec :: "string \<Rightarrow> string list \<Rightarrow> ('d, int) ecall"
  pm_start :: "string \<Rightarrow> ('d, unit) ecall"
  pm_stop :: "string \<Rightarrow> string \<Rightarrow> ('d, unit) ecall"
  pm_remove :: "string \<Rightarrow> ('d, unit) ecall"
  pm_wait :: "string \<Rightarrow> ('d, int) ecall"
  pm_logs :: "string \<Rightarrow> bool \<Rightarrow> ('d, string list) ecall"

section \<open>Arguments of a new container\<close>

definition CONTAINER_PARAMS :: "string list" where
  "CONTAINER_PARAMS =
     [''name'', ''cap_add'', ''cgroupns'', ''command'', ''cpu_period'', ''cpu_quota'', ''cpuset_cpus'',
      ''cpu_shares'', ''cpuset_mems'', ''kernel_memory'', ''mem_limit'', ''mem_reservation'',
      ''memswap_limit'', ''ulimits'', ''blkio_weight'', ''detach'', ''entrypoint'', ''environment'',
      ''healthcheck'', ''image'', ''ipc_mode'', ''labels'', ''netns'', ''network_options'', ''pid_mode'',
      ''privileged'', ''restart_policy'', ''remove'', ''restart_tries'', ''stop_timeout'', ''tty'',
      ''volumes'', ''volumes_from'']"

text \<open>
  One volume of \<open>parse_volumes\<close>: two fields, or three when there are exactly two colons;
  \<open>src, dest = item.split(':')\<close> on anything else fails the module.
\<close>

definition volume_fields :: "string \<Rightarrow> pyexn + string \<times> string \<times> string option" where
  "volume_fields item =
     (case py_split (CHR '':'') item of
        [src, dest, mode] \<Rightarrow> Inr (src, dest, Some mode)
      | [src, dest] \<Rightarrow> Inr (src, dest, None)
      | _ \<Rightarrow> Inl (FailJson ''Wrong format of volume''))"

definition bind_mount :: "string \<Rightarrow> string \<Rightarrow> string option \<Rightarrow> pyval" where
  "bind_mount src dest mode =
     (let m = [(''source'', PyStr src), (''target'', PyStr dest), (''type'', PyStr ''bind''),
               (''propagation'', PyStr ''rprivate'')];
          m1 = (if mode = Some ''ro'' then AList.update ''read_only'' (PyBool True) m else m);
          m2 = (if mode = Some ''shared'' then AList.update ''propagation'' (PyStr ''shared'') m1 else m1)
      in PyDict m2)"

fun pod_parse_volumes :: "string list \<Rightarrow> pyval list \<Rightarrow> pyobj \<Rightarrow> pyexn + pyval list \<times> pyobj" where
  "pod_parse_volumes [] mounts filtered = Inr (mounts, filtered)"
| "pod_parse_volumes (item # items) mounts filtered =
     (if py_strip item = [] then pod_parse_volumes items mounts filtered
      else
        (case volume_fields item of
           Inl e \<Rightarrow> Inl e
         | Inr (src, dest, mode) \<Rightarrow>
             (if hd item = CHR ''/'' then
                pod_parse_volumes items (mounts @ [bind_mount src dest mode]) filtered
              else if src = ''devpts'' then
                pod_parse_volumes items
                  (mounts @ [PyDict [(''source'', PyStr src), (''target'', PyStr dest), (''type'', PyStr ''devpts'')]])
                  filtered
              else
                pod_parse_volumes items mounts
                  (AList.update src
                     (PyDict [(''bind'', PyStr dest), (''mode'', PyStr (case mode of None \<Rightarrow> ''rw'' | Some m \<Rightarrow> m))])
                     filtered))))"

text \<open>\<open>build_ulimits\<close> makes plain dicts, not client objects.\<close>

fun pod_build_ulimits :: "pyobj \<Rightarrow> pyexn + pyval list" where
  "pod_build_ulimits [] = Inr []"
| "pod_build_ulimits ((key, v) # rest) =
     (case v of
        PyDict d \<Rightarrow>
          (case pod_build_ulimits rest of
             Inl e \<Rightarrow> Inl e
           | Inr us \<Rightarrow>
               Inr (PyDict [(''Name'', PyStr key), (''Soft'', dget d ''soft''), (''Hard'', dget d ''hard'')] # us))
      | _ \<Rightarrow> Inl AttributeError)"

definition pod_parse_dimensions :: "pyobj \<Rightarrow> pyexn + pyobj" where
  "pod_parse_dimensions dimensions =
     (if \<not> list_all (\<lambda>k. k \<in> set supported_dimensions) (dict_keys dimensions)
      then Inl (ExitJson ''Unsupported dimensions'')
      else (case dget dimensions ''ulimits'' of
              PyDict d \<Rightarrow>
                (if d = [] then Inr dimensions
                 else (case pod_build_ulimits (AList.delete ''RLIMIT_NPROC'' (AList.delete ''RLIMIT_NOFILE'' d)) of
                         Inl e \<Rightarrow> Inl e
                       | Inr us \<Rightarrow> Inr (AList.update ''ulimits'' (PyList us) dimensions)))
            | v \<Rightarrow> if truthy v then Inl AttributeError else Inr dimensions))"

definition pod_parse_healthcheck :: "pyobj \<Rightarrow> pyexn + pyobj option" where
  "pod_parse_healthcheck healthcheck =
     (case parse_healthcheck healthcheck of
        Inl e \<Rightarrow> Inl e
      | Inr None \<Rightarrow> Inr None
      | Inr (Some hc) \<Rightarrow>
          (let rest = AList.delete ''start_period'' hc; sp = dget hc ''start_period''
           in Inr (Some (if truthy sp then AList.update ''StartPeriod'' sp rest else rest))))"

text \<open>The parameters left in \<open>self.params\<close> when the remaining ones are recorded.\<close>

definition consumed_params :: "pyobj \<Rightarrow> string list \<Rightarrow> pyobj" where
  "consumed_params raw command =
     (let p = params_of raw;
          q1 = AList.delete ''command'' raw;
          q2 = (if str_truthy (p_command p)
                then AList.update ''command'' (PyList (map PyStr command)) q1 else q1);
          q3 = (if p_volumes p \<noteq> [] then AList.delete ''volumes'' q2 else q2);
          q4 = AList.delete ''environment'' q3;
          q5 = (if p_healthcheck p \<noteq> [] then AList.delete ''healthcheck'' q4 else q4);
          q6 = AList.delete ''tmpfs'' q5
      in if p_privileged p then q6 else AList.delete ''cap_add'' q6)"

definition remaining_args :: "pyobj \<Rightarrow> pyobj" where
  "remaining_args params = filter (\<lambda>(k, v). k \<in> set CONTAINER_PARAMS \<and> v \<noteq> PyNone) params"

definition convert_keys :: "(string, string) pydict" where
  "convert_keys = [(''graceful_timeout'', ''stop_timeout''), (''cgroupns_mode'', ''cgroupns'')]"

definition converted_args :: "pyobj \<Rightarrow> pyobj" where
  "converted_args params =
     concat (map (\<lambda>(orig, new). if dget params orig \<noteq> PyNone then [(new, dget params orig)] else []) convert_keys)"

definition prepare_container_args :: "pyobj \<Rightarrow> pyexn + pyobj" where
  "prepare_container_args raw =
     (let p = params_of raw in
      case (if str_truthy (p_command p) then shlex_split (the (p_command p)) else Inr []) of
        Inl e \<Rightarrow> Inl e | Inr command \<Rightarrow>
     (case pod_parse_volumes (p_volumes p) [] [] of
        Inl e \<Rightarrow> Inl e | Inr (mounts, filtered) \<Rightarrow>
     (case format_env_vars p of
        Inl e \<Rightarrow> Inl e | Inr env \<Rightarrow>
     (case pod_parse_healthcheck (p_healthcheck p) of
        Inl e \<Rightarrow> Inl e | Inr health \<Rightarrow>
     (case (if p_dimensions p = [] then Inr [] else pod_parse_dimensions (p_dimensions p)) of
        Inl e \<Rightarrow> Inl e | Inr dimensions \<Rightarrow>
        (let args = [(''network_mode'', PyStr ''host''), (''mounts'', PyList mounts), (''volumes'', PyDict filtered),
                     (''environment'', PyDict (map (\<lambda>(k, v). (k, PyStr (py_str v))) env))]
                    @ (case health of None \<Rightarrow> [] | Some hc \<Rightarrow> [(''healthcheck'', PyDict hc)]);
             args1 = dict_update args dimensions;
             args2 = (if p_privileged p then args1
                      else AList.update ''cap_add'' (PyList (map PyStr (p_cap_add p @ [''AUDIT_WRITE'']))) args1);
             params = consumed_params raw command;
             args3 = dict_update args2 (converted_args params);
             args4 = dict_update args3 (remaining_args params)
         in Inr (AList.delete ''restart_policy'' args4)))))))"

definition prepare_image_args :: "pyobj \<Rightarrow> pyexn + pyobj" where
  "prepare_image_args raw =
     (case parse_image (params_of raw) of
        Inl e \<Rightarrow> Inl e
      | Inr (repo, tag) \<Rightarrow>
          (let args = [(''repository'', PyStr repo), (''tag'', PyStr tag),
                       (''tls_verify'', (case map_of raw ''tls_verify'' of None \<Rightarrow> PyBool False | Some v \<Rightarrow> v)),
                       (''stream'', PyBool False)];
               args1 = (if truthy (dget raw ''auth_username'')
                        then args @ [(''auth_config'', PyDict
                               [(''username'', dget raw ''auth_username''),
                                (''password'', case map_of raw ''auth_password'' of None \<Rightarrow> PyStr [] | Some v \<Rightarrow> v)])]
                        else args)
           in Inr (if CHR ''/'' \<notin> set repo \<and> truthy (dget raw ''auth_registry'')
                   then args1 @ [(''image'', PyStr (py_str (dget raw ''auth_registry'') @ CHR ''/'' # repo))]
                   else args1)))"

section \<open>Looking things up\<close>

text \<open>The attributes of the image, empty when the engine answers 404; other answers end the module.\<close>

definition pod_check_image :: "'d podman \<Rightarrow> params \<Rightarrow> ('d, pyobj) act" where
  "pod_check_image W p =
     catch_io (engine_call ''images'' [fmt_opt (p_image p)] (pm_image_get W (p_image p)))
       is_api_error
       (\<lambda>e. if e = APIError 404 then return_io [] else raise_io (FailJson ''Internal error''))"

text \<open>\<open>check_volume\<close> returns nothing on any other error of the engine.\<close>

definition pod_check_volume :: "'d podman \<Rightarrow> params \<Rightarrow> string option \<Rightarrow> ('d, pyobj option) act" where
  "pod_check_volume W p name =
     (let volume_name = (if str_truthy name then name else p_name p)
      in catch_io
           (bnd (engine_call ''volumes'' [fmt_opt volume_name] (pm_volume_get W volume_name))
             (\<lambda>attrs. return_io (Some attrs)))
           is_api_error
           (\<lambda>e. return_io (if e = APIError 404 then Some [] else None)))"

definition volume_present :: "pyobj option \<Rightarrow> bool" where
  "volume_present v \<longleftrightarrow> v \<noteq> None \<and> v \<noteq> Some []"

fun pod_find :: "'d podman \<Rightarrow> params \<Rightarrow> string list \<Rightarrow> ('d, pod_container option) act" where
  "pod_find W p [] = return_io None"
| "pod_find W p (cont # conts) =
     bnd (engine_call ''inspect_container'' [cont] (pm_reload W cont)) (\<lambda>c.
     if p_name p = Some (pk_name c) then return_io (Some c) else pod_find W p conts)"

definition pod_check_container :: "'d podman \<Rightarrow> params \<Rightarrow> ('d, pod_container option) act" where
  "pod_check_container W p = bnd (engine_call ''containers'' [] (pm_list W)) (pod_find W p)"

definition pod_get_container_info :: "'d podman \<Rightarrow> params \<Rightarrow> ('d, container_info option) act" where
  "pod_get_container_info W p =
     bnd (pod_check_container W p) (\<lambda>container. return_io (map_option pk_attrs container))"

section \<open>Comparisons\<close>

definition cap_name :: "string \<Rightarrow> string" where
  "cap_name cap = (if prefix ''CAP_'' (py_upper cap) then py_upper cap else ''CAP_'' @ py_upper cap)"

definition pod_compare_cap_add :: "params \<Rightarrow> container_info \<Rightarrow> bool" where
  "pod_compare_cap_add p ci =
     (let new_cap_add = map cap_name (p_cap_add p);
          current = map py_upper (list_or_empty (hc_cap_add (ci_host ci)));
          with_audit = (\<lambda>caps. if hc_privileged (ci_host ci) \<or> ''CAP_AUDIT_WRITE'' \<in> set caps then caps
                               else caps @ [''CAP_AUDIT_WRITE''])
      in sets_differ (with_audit new_cap_add) (with_audit current))"

text \<open>The module has no parameter \<open>pid\<close>, the alternative the code reads.\<close>

definition pod_compare_pid_mode :: "params \<Rightarrow> container_info \<Rightarrow> bool" where
  "pod_compare_pid_mode p ci =
     (let new = norm_str (p_pid_mode p); current = norm_str (hc_pid_mode (ci_host ci))
      in if new = None \<and> current = Some ''private'' then False else new \<noteq> current)"

definition last_component :: "string \<Rightarrow> string" where
  "last_component tag = (case rsplit_once (CHR ''/'') tag of None \<Rightarrow> tag | Some (before, rest) \<Rightarrow> rest)"

definition pod_image_differs :: "'d podman \<Rightarrow> params \<Rightarrow> container_info \<Rightarrow> ('d, bool) act" where
  "pod_image_differs W p ci =
     bnd (pod_check_image W p) (\<lambda>new_image.
     if new_image = [] then return_io True
     else (case map_of new_image ''Id'' of
             None \<Rightarrow> raise_io KeyError
           | Some i \<Rightarrow>
               (if i \<noteq> PyStr (ci_image ci) then return_io True
                else (case p_image p of
                        None \<Rightarrow> raise_io AttributeError
                      | Some im \<Rightarrow> return_io (last_component im \<noteq> last_component (ci_config_image ci))))))"

definition pod_compare_image :: "'d podman \<Rightarrow> params \<Rightarrow> ('d, bool) act" where
  "pod_compare_image W p =
     bnd (pod_get_container_info W p) (\<lambda>info.
     case info of None \<Rightarrow> return_io True | Some ci \<Rightarrow> pod_image_differs W p ci)"

definition check_slash :: "string \<Rightarrow> string" where
  "check_slash s = (if s = [] then s else if last s \<noteq> CHR ''/'' then s @ ''/'' else s)"

definition default_flags :: "string set" where
  "default_flags = {''rprivate'', ''nosuid'', ''nodev'', ''rbind''}"

definition special_paths_noexec :: "string list" where
  "special_paths_noexec = [''/proc'', ''/run'', ''/sys'', ''/var/run'']"

definition normalize_mode :: "string \<Rightarrow> string \<Rightarrow> string set" where
  "normalize_mode path mode =
     (let flags = (if mode = [] then {} else set (py_split (CHR '','') mode)) - default_flags;
          flags1 = (if list_ex (\<lambda>q. prefix q path) special_paths_noexec then flags - {''noexec''} else flags)
      in if flags1 \<inter> {''ro'', ''rw''} = {} then insert ''rw'' flags1 else flags1)"

definition bind_entry :: "string \<times> string \<times> string \<Rightarrow> string \<times> string \<times> string set" where
  "bind_entry b = (case b of (src, dst, mode) \<Rightarrow>
     (check_slash src, check_slash dst, normalize_mode (check_slash dst) mode))"

definition build_bind_list :: "binds \<Rightarrow> (string \<times> string \<times> string set) list" where
  "build_bind_list binds = map bind_entry binds"

definition slashed_volumes :: "string list \<Rightarrow> string list" where
  "slashed_volumes vols = map check_slash (filter (\<lambda>v. v \<noteq> []) vols)"

definition pod_compare_volumes :: "params \<Rightarrow> container_info \<Rightarrow> pyexn + bool" where
  "pod_compare_volumes p ci =
     (case generate_volumes (p_volumes p) of Inl e \<Rightarrow> Inl e | Inr new \<Rightarrow>
     (case generate_volumes (list_or_empty (hc_binds (ci_host ci))) of Inl e \<Rightarrow> Inl e | Inr current \<Rightarrow>
        (let (volumes, binds) = (case new of None \<Rightarrow> ([], []) | Some vb \<Rightarrow> vb);
             (current_vols, current_binds) = (case current of None \<Rightarrow> ([], []) | Some vb \<Rightarrow> vb)
         in Inr (sets_differ (slashed_volumes volumes) (slashed_volumes current_vols) \<or>
                 sets_differ (build_bind_list binds) (build_bind_list current_binds)))))"

definition normalize_ulimit_name :: "string \<Rightarrow> string" where
  "normalize_ulimit_name name =
     (if prefix ''RLIMIT_'' (py_upper name) then py_upper name else ''RLIMIT_'' @ py_upper name)"

definition podman_defaults :: "string list" where
  "podman_defaults = [''RLIMIT_NOFILE'', ''RLIMIT_NPROC'']"

text \<open>The current entries of the engine all are objects with a name.\<close>

definition desired_ulimits :: "pyobj \<Rightarrow> pyobj" where
  "desired_ulimits d =
     dict_update [] (filter (\<lambda>(k, v). k \<notin> set podman_defaults) (map (\<lambda>(k, v). (normalize_ulimit_name k, v)) d))"

definition current_ulimits :: "pyval list \<Rightarrow> pyval list" where
  "current_ulimits us =
     map (\<lambda>u. case u of PyDict d \<Rightarrow>
            PyDict [(''Name'', PyStr (normalize_ulimit_name (ulimit_name u))), (''Soft'', dget d ''Soft''),
                    (''Hard'', dget d ''Hard'')] | _ \<Rightarrow> u)
       (filter (\<lambda>u. ulimit_name u \<notin> set podman_defaults) us)"

definition pod_ulimits_differ :: "pyobj \<Rightarrow> pyobj \<Rightarrow> pyexn + bool" where
  "pod_ulimits_differ new_dims current =
     (case (case map_of current ''Ulimits'' of None \<Rightarrow> Inr [] | Some (PyList us) \<Rightarrow> Inr us | Some _ \<Rightarrow> Inl TypeError) of
        Inl e \<Rightarrow> Inl e
      | Inr us \<Rightarrow>
          (case (case map_of new_dims ''ulimits'' of None \<Rightarrow> Inr [] | Some (PyDict d) \<Rightarrow> Inr d | Some _ \<Rightarrow> Inl AttributeError) of
             Inl e \<Rightarrow> Inl e
           | Inr d \<Rightarrow> compare_ulimits pod_build_ulimits (PyDict (desired_ulimits d)) (PyList (current_ulimits us))))"

text \<open>The loop over the dimension map; a limit that is not asked for must be reported, and falsy.\<close>

fun pod_dims_loop :: "pyobj \<Rightarrow> pyobj \<Rightarrow> (string \<times> string) list \<Rightarrow> pyexn + bool" where
  "pod_dims_loop new_dims current [] = Inr False"
| "pod_dims_loop new_dims current ((key1, key2) # keys) =
     (case (if key1 = ''ulimits'' then pod_ulimits_differ new_dims current
            else if in_dict key1 new_dims then Inr (\<not> py_eq (dget new_dims key1) (dget current key2))
            else (case map_of current key2 of None \<Rightarrow> Inl KeyError | Some v \<Rightarrow> Inr (truthy v))) of
        Inl e \<Rightarrow> Inl e
      | Inr True \<Rightarrow> Inr True
      | Inr False \<Rightarrow> pod_dims_loop new_dims current keys)"

definition pod_compare_dimensions :: "params \<Rightarrow> container_info \<Rightarrow> pyexn + bool" where
  "pod_compare_dimensions p ci =
     (if \<not> list_all (\<lambda>k. in_dict k dimension_map) (dict_keys (p_dimensions p))
      then Inl (ExitJson ''Unsupported dimensions'')
      else pod_dims_loop (p_dimensions p) (hc_dims (ci_host ci)) dimension_map)"

definition pod_compare_config :: "'d podman \<Rightarrow> params \<Rightarrow> ('d, bool) act" where
  "pod_compare_config W p =
     (case p_name p of
        None \<Rightarrow> raise_io KeyError
      | Some name \<Rightarrow>
          bnd (catch_io
                 (bnd (engine_call ''containers'' [name] (pm_get W name)) (\<lambda>i.
                  bnd (engine_call ''inspect_container'' [i] (pm_reload W i)) (\<lambda>c.
                  if pk_status c \<noteq> ''running'' then return_io None
                  else bnd (engine_call ''exec_start'' (i # compare_config_cmd) (pm_exec W i compare_config_cmd))
                         (\<lambda>rc. return_io (Some rc)))))
                 is_api_error
                 (\<lambda>e. if is_client_error e then return_io None else raise_io e))
              (\<lambda>r. case r of
                 None \<Rightarrow> return_io True
               | Some rc \<Rightarrow>
                   (if rc = 0 then return_io False else if rc = 1 then return_io True
                    else raise_io (OtherError ''Failed to compare container configuration''))))"

definition image_labels :: "pyobj \<Rightarrow> pyobj option" where
  "image_labels attrs = (case map_of attrs ''Labels'' of None \<Rightarrow> Some [] | Some (PyDict d) \<Rightarrow> Some d | Some _ \<Rightarrow> None)"

definition pod_methods :: "'d podman \<Rightarrow> params \<Rightarrow> 'd worker" where
  "pod_methods W p =
     \<lparr>vm_check_container = bnd (pod_check_container W p) (\<lambda>c. return_io (c \<noteq> None)),
      vm_get_info = pod_get_container_info W p,
      vm_check_image_labels = bnd (pod_check_image W p) (\<lambda>attrs. return_io (image_labels attrs)),
      vm_compare_config = pod_compare_config W p,
      vm_cap_add = pod_compare_cap_add p,
      vm_image = pod_image_differs W p,
      vm_pid_mode = pod_compare_pid_mode p,
      vm_volumes = pod_compare_volumes p,
      vm_dimensions = pod_compare_dimensions p,
      vm_parse_healthcheck = pod_parse_healthcheck\<rparr>"

abbreviation pod_differs :: "'d podman \<Rightarrow> params \<Rightarrow> ('d, bool) act" where
  "pod_differs W p \<equiv> check_container_differs (pod_methods W p) p"

definition pod_compare_container :: "'d podman \<Rightarrow> params \<Rightarrow> ('d, bool) act" where
  "pod_compare_container W p = compare_container (pod_methods W p) p"

section \<open>Images and volumes\<close>

definition pod_pull_image :: "'d podman \<Rightarrow> pyobj \<Rightarrow> ('d, unit) act" where
  "pod_pull_image W raw =
     bnd (lift_sum (prepare_image_args raw)) (\<lambda>args.
     bnd (pod_check_image W (params_of raw)) (\<lambda>old_image.
     bnd (catch_io (engine_call ''pull'' [fmt_opt (p_image (params_of raw))] (pm_pull W args))
            is_api_error (\<lambda>e. raise_io (FailJson ''Unknown error message''))) (\<lambda>attrs.
     if attrs = [] then raise_io (FailJson ''The requested image does not exist'')
     else assign_changed (\<not> py_dict_eq old_image attrs))))"

definition pod_ensure_image :: "'d podman \<Rightarrow> pyobj \<Rightarrow> ('d, unit) act" where
  "pod_ensure_image W raw =
     bnd (pod_check_image W (params_of raw)) (\<lambda>attrs. when_io (attrs = []) (pod_pull_image W raw))"

definition in_use :: "string \<Rightarrow> pyexn \<Rightarrow> pyexn" where
  "in_use message e = (if e = APIError 409 then FailJson message else FailJson ''Internal error'')"

definition pod_remove_image :: "'d podman \<Rightarrow> params \<Rightarrow> ('d, unit) act" where
  "pod_remove_image W p =
     bnd (pod_check_image W p) (\<lambda>attrs.
     when_io (attrs \<noteq> [])
       (case p_image p of
          None \<Rightarrow> raise_io KeyError
        | Some im \<Rightarrow>
            bnd (engine_call ''images'' [im] (pm_image_get W (Some im))) (\<lambda>_.
            bnd set_changed (\<lambda>_.
            catch_io (engine_call ''remove_image'' [im] (pm_image_remove W im)) is_api_error
              (\<lambda>e. raise_io (in_use ''Image is currently in-use'' e))))))"

definition pod_create_volume :: "'d podman \<Rightarrow> params \<Rightarrow> string option \<Rightarrow> ('d, unit) act" where
  "pod_create_volume W p name =
     (let volume_name = (if str_truthy name then name else p_name p)
      in bnd (pod_check_volume W p volume_name) (\<lambda>vol.
         when_io (\<not> volume_present vol)
           (bnd set_changed (\<lambda>_.
            bnd (engine_call ''create_volume'' [fmt_opt volume_name]
                   (pm_volume_create W
                      [(''name'', case volume_name of None \<Rightarrow> PyNone | Some n \<Rightarrow> PyStr n),
                       (''driver'', PyStr ''local''),
                       (''labels'', PyDict [(''kolla_managed'', PyStr ''true'')])])) (\<lambda>attrs.
            modify_io (\<lambda>h. h\<lparr>run_result := attrs\<rparr>))))))"

definition pod_volume_step :: "'d podman \<Rightarrow> params \<Rightarrow> string \<Rightarrow> ('d, unit) act" where
  "pod_volume_step W p volume =
     (let volume_name = hd (py_split (CHR '':'') volume)
      in if CHR ''/'' \<in> set volume_name then return_io () else pod_create_volume W p (Some volume_name))"

definition pod_create_container_volumes :: "'d podman \<Rightarrow> params \<Rightarrow> ('d, unit) act" where
  "pod_create_container_volumes W p = for_io (p_volumes p) (pod_volume_step W p)"

definition pod_remove_volume :: "'d podman \<Rightarrow> params \<Rightarrow> ('d, unit) act" where
  "pod_remove_volume W p =
     bnd (pod_check_volume W p None) (\<lambda>vol.
     when_io (volume_present vol)
       (bnd set_changed (\<lambda>_.
        catch_io (engine_call ''remove_volume'' [fmt_opt (p_name p)] (pm_volume_remove W (p_name p))) is_api_error
          (\<lambda>e. raise_io (in_use ''Volume is currently in-use'' e)))))"

section \<open>Creating and removing containers\<close>

text \<open>
  \<open>create_container\<close>.  Unlike the Docker worker it does not set \<open>changed\<close> itself: only a
  changed unit file does.
\<close>

definition pod_create_container :: "'d podman \<Rightarrow> pyobj \<Rightarrow> ('d, unit) act" where
  "pod_create_container W raw =
     (let p = params_of raw
      in bnd (pod_create_container_volumes W p) (\<lambda>_.
         bnd (lift_sum (prepare_container_args raw)) (\<lambda>args.
         bnd (engine_call ''create_container'' [fmt_opt (p_name p)] (pm_create W args)) (\<lambda>attrs.
         if attrs = [] then raise_io (FailJson ''Creation failed'')
         else bnd (with_unit p (create_unit_file (pm_bus W))) or_changed))))"

text \<open>\<open>remove_container\<close>: only the removal of a unit file sets \<open>changed\<close>.\<close>

definition pod_remove_container :: "'d podman \<Rightarrow> params \<Rightarrow> ('d, unit) act" where
  "pod_remove_container W p =
     bnd (with_unit p (remove_unit_file (pm_bus W))) (\<lambda>removed.
     bnd (or_changed removed) (\<lambda>_.
     bnd (pod_check_container W p) (\<lambda>container.
     case container of
       None \<Rightarrow> return_io ()
     | Some c \<Rightarrow>
         catch_io (engine_call ''remove_container'' [pk_id c] (pm_remove W (pk_id c))) is_api_error
           (\<lambda>e. bnd (pod_check_container W p) (\<lambda>still.
              if still \<noteq> None then raise_io e else return_io ())))))"

definition pod_stop_container :: "'d podman \<Rightarrow> params \<Rightarrow> ('d, unit) act" where
  "pod_stop_container W p =
     bnd (pod_check_container W p) (\<lambda>container.
     case container of
       None \<Rightarrow> (if p_ignore_missing p then return_io () else raise_io (FailJson ''No such container to stop''))
     | Some c \<Rightarrow>
         when_io (pk_status c \<noteq> ''exited'' \<and> pk_status c \<noteq> ''stopped'')
           (bnd set_changed (\<lambda>_.
            if p_restart_policy p \<noteq> Some ''oneshot''
            then bnd (with_unit p (create_unit_file (pm_bus W))) (\<lambda>_.
                 bnd (with_unit p (systemd_stop (pm_bus W))) (\<lambda>_. return_io ()))
            else engine_call ''stop'' [pk_id c] (pm_stop W (pk_id c) (str_of_int (graceful_timeout p))))))"

definition pod_stop_and_remove_container :: "'d podman \<Rightarrow> params \<Rightarrow> ('d, unit) act" where
  "pod_stop_and_remove_container W p =
     bnd (pod_check_container W p) (\<lambda>container.
     when_io (container \<noteq> None)
       (bnd (pod_stop_container W p) (\<lambda>_. pod_remove_container W p)))"

text \<open>The container object the code dereferences; None is an AttributeError.\<close>

definition the_container :: "'d podman \<Rightarrow> params \<Rightarrow> ('d, pod_container) act" where
  "the_container W p =
     bnd (pod_check_container W p) (\<lambda>c. case c of None \<Rightarrow> raise_io AttributeError | Some c \<Rightarrow> return_io c)"

definition pod_bring_up :: "'d podman \<Rightarrow> params \<Rightarrow> ('d, unit) act" where
  "pod_bring_up W p =
     bnd set_changed (\<lambda>_.
     if p_restart_policy p = Some ''oneshot''
     then bnd (the_container W p) (\<lambda>c. engine_call ''start'' [pk_id c] (pm_start W (pk_id c)))
     else
       bnd (with_unit p (create_unit_file (pm_bus W))) (\<lambda>_.
       bnd (with_unit p (systemd_start (pm_bus W))) (\<lambda>started.
       when_io (\<not> started) (bnd (the_container W p) (\<lambda>c. raise_io (FailJson ''Container timed out''))))))"

definition pod_wait_for_exit :: "'d podman \<Rightarrow> params \<Rightarrow> ('d, unit) act" where
  "pod_wait_for_exit W p =
     bnd (the_container W p) (\<lambda>c.
     bnd (engine_call ''wait'' [pk_id c] (pm_wait W (pk_id c))) (\<lambda>rc.
     bnd (engine_call ''logs'' [pk_id c, ''stdout''] (pm_logs W (pk_id c) True)) (\<lambda>out.
     bnd (engine_call ''logs'' [pk_id c, ''stderr''] (pm_logs W (pk_id c) False)) (\<lambda>err.
     bnd (set_result ''rc'' (PyInt rc)) (\<lambda>_.
     bnd (set_result ''stdout'' (PyStr (join_with [CHR 0x0A] out))) (\<lambda>_.
     bnd (set_result ''stderr'' (PyStr (join_with [CHR 0x0A] err))) (\<lambda>_.
     bnd (when_io (p_remove_on_exit p)
            (bnd (pod_stop_container W p) (\<lambda>_. pod_remove_container W p))) (\<lambda>_.
     when_io (rc \<noteq> 0) (raise_io (FailJson ''Container exited with non-zero return code''))))))))))"

text \<open>What \<open>start_container\<close> does once the image is there.\<close>

definition pod_start_prepared :: "'d podman \<Rightarrow> pyobj \<Rightarrow> ('d, unit) act" where
  "pod_start_prepared W raw =
     (let p = params_of raw
      in bnd (pod_check_container W p) (\<lambda>container.
         bnd (if container = None then return_io False else pod_differs W p) (\<lambda>differs.
         bnd (if differs
              then bnd (pod_stop_container W p) (\<lambda>_.
                   bnd (pod_remove_container W p) (\<lambda>_.
                   pod_check_container W p))
              else return_io container) (\<lambda>container.
         bnd (if container = None
              then bnd (pod_create_container W raw) (\<lambda>_. pod_check_container W p)
              else return_io container) (\<lambda>container.
         case container of
           None \<Rightarrow> raise_io AttributeError
         | Some c \<Rightarrow>
             bnd (when_io (pk_status c \<noteq> ''running'') (pod_bring_up W p)) (\<lambda>_.
             when_io (\<not> p_detach p) (pod_wait_for_exit W p)))))))"

definition pod_start_container :: "'d podman \<Rightarrow> pyobj \<Rightarrow> ('d, unit) act" where
  "pod_start_container W raw = bnd (pod_ensure_image W raw) (\<lambda>_. pod_start_prepared W raw)"

definition pod_restart_container :: "'d podman \<Rightarrow> params \<Rightarrow> ('d, unit) act" where
  "pod_restart_container W p =
     bnd (pod_check_container W p) (\<lambda>container.
     if container = None then raise_io (FailJson ''No such container'')
     else
       bnd set_changed (\<lambda>_.
       bnd (with_unit p (create_unit_file (pm_bus W))) (\<lambda>_.
       bnd (with_unit p (systemd_restart (pm_bus W))) (\<lambda>ok.
       when_io (\<not> ok) (raise_io (FailJson ''Container timed out''))))))"

definition pod_recreate_or_restart_container :: "'d podman \<Rightarrow> pyobj \<Rightarrow> ('d, unit) act" where
  "pod_recreate_or_restart_container W raw =
     (let p = params_of raw; strategy = dget (p_environment p) ''KOLLA_CONFIG_STRATEGY''
      in bnd (pod_get_container_info W p) (\<lambda>info.
         if info = None then pod_start_container W raw
         else
           bnd (if strategy = PyStr ''COPY_ONCE'' then return_io True else pod_differs W p) (\<lambda>recreate.
           if recreate then
             bnd (pod_ensure_image W raw) (\<lambda>_.
             bnd (pod_stop_container W p) (\<lambda>_.
             bnd (pod_remove_container W p) (\<lambda>_.
             pod_start_container W raw)))
           else when_io (strategy = PyStr ''COPY_ALWAYS'') (pod_restart_container W p))))"

section \<open>The module's \<open>main\<close>\<close>

fun pod_action :: "'d podman \<Rightarrow> pyobj \<Rightarrow> action \<Rightarrow> ('d, bool) act" where
  "pod_action W raw Compare_container = pod_compare_container W (params_of raw)"
| "pod_action W raw Compare_image = pod_compare_image W (params_of raw)"
| "pod_action W raw Create_volume = bnd (pod_create_volume W (params_of raw) None) (\<lambda>_. return_io False)"
| "pod_action W raw Ensure_image = bnd (pod_ensure_image W raw) (\<lambda>_. return_io False)"
| "pod_action W raw Pull_image = bnd (pod_pull_image W raw) (\<lambda>_. return_io False)"
| "pod_action W raw Recreate_or_restart_container =
     bnd (pod_recreate_or_restart_container W raw) (\<lambda>_. return_io False)"
| "pod_action W raw Remove_container = bnd (pod_remove_container W (params_of raw)) (\<lambda>_. return_io False)"
| "pod_action W raw Remove_image = bnd (pod_remove_image W (params_of raw)) (\<lambda>_. return_io False)"
| "pod_action W raw Remove_volume = bnd (pod_remove_volume W (params_of raw)) (\<lambda>_. return_io False)"
| "pod_action W raw Restart_container = bnd (pod_restart_container W (params_of raw)) (\<lambda>_. return_io False)"
| "pod_action W raw Start_container = bnd (pod_start_container W raw) (\<lambda>_. return_io False)"
| "pod_action W raw Stop_container = bnd (pod_stop_container W (params_of raw)) (\<lambda>_. return_io False)"
| "pod_action W raw Stop_and_remove_container =
     bnd (pod_stop_and_remove_container W (params_of raw)) (\<lambda>_. return_io False)"

text \<open>\<open>main\<close> on the module's parameters, with the worker its \<open>container_engine\<close> names.\<close>

definition kolla_container_main ::
  "'d docker \<Rightarrow> 'd podman \<Rightarrow> pyobj \<Rightarrow> action \<Rightarrow> 'd host \<Rightarrow> module_exit \<times> 'd host" where
  "kolla_container_main D W raw a h =
     (if dget raw ''container_engine'' = PyStr ''docker'' then module_main D (params_of raw) a h
      else
        (case systemd_init (params_of raw) of
           Inl e \<Rightarrow> (Failed ''traceback'' [], h)
         | Inr _ \<Rightarrow>
             (case pod_action W raw a h of
                (Inr b, h') \<Rightarrow> (Exited (changed h') b (run_result h'), h')
              | (Inl e, h') \<Rightarrow>
                  (if is_system_exit e then Left e else Failed ''traceback'' (run_result h'), h'))))"

end
