(* ===== verification/PodmanActions.thy ===== *)
theory PodmanActions
  imports PodmanWorker DockerActions
begin

text \<open>
  What the actions of \<open>PodmanWorker\<close> do to the host, over the frames of the Docker worker's
  actions, and the normalisation of volumes.
\<close>

section \<open>A missing image\<close>

definition pod_image_missing :: "'d podman \<Rightarrow> params \<Rightarrow> bool" where
  "pod_image_missing W p \<longleftrightarrow> (\<forall>h. \<exists>h'. pod_check_image W p h = (Inr [], h'))"

definition pod_pull_fails :: "'d podman \<Rightarrow> pyobj \<Rightarrow> bool" where
  "pod_pull_fails W raw \<longleftrightarrow> fails (pod_pull_image W raw)"

lemma pod_check_image_missing:
  "pod_image_missing W p \<Longrightarrow> \<not> avoids (pod_check_image W p) attrs \<Longrightarrow> attrs = []"
  unfolding pod_image_missing_def avoids_def by (metis Inr_inject fst_conv)

lemma pod_ensure_image_fails:
  assumes "pod_image_missing W (params_of raw)" "pod_pull_fails W raw"
  shows "fails (pod_ensure_image W raw)"
  unfolding pod_ensure_image_def
  using assms by (intro fails_bnd_next) (auto dest!: pod_check_image_missing simp: when_io_def pod_pull_fails_def)

lemma pod_differs_without_image:
  assumes "pod_image_missing W p"
  shows "avoids (pod_differs W p) False"
proof (rule differs_by_image)
  fix ci
  show "avoids (vm_image (pod_methods W p) ci) False"
    unfolding pod_methods_def pod_image_differs_def worker.simps
    by (intro avoids_bnd) (auto dest!: pod_check_image_missing [OF assms])
qed

lemma pod_check_image_only: "keeps (only is_lookup) (pod_check_image W p)"
  unfolding pod_check_image_def by (intro onl.keeps_rules engine_call_only) simp

lemma pod_find_only: "keeps (only is_lookup) (pod_find W p cs)"
  by (induction cs) (auto intro!: onl.keeps_rules engine_call_only)

lemma pod_lookups_only:
  "keeps (only is_lookup) (pod_check_container W p)" "keeps (only is_lookup) (pod_get_container_info W p)"
  "keeps (only is_lookup) (pod_image_differs W p ci)"
  by (auto simp: pod_check_container_def pod_get_container_info_def pod_image_differs_def
      intro!: onl.keeps_rules engine_call_only pod_find_only pod_check_image_only split: option.splits)

lemma pod_differs_only: "keeps (only is_lookup) (pod_differs W p)"
  unfolding check_container_differs_def pod_methods_def
  by (auto intro!: onl.keeps_rules onl.keeps_any pod_lookups_only pod_check_image_only)

lemmas pod_lookup_only = pod_check_image_only pod_lookups_only pod_differs_only
lemmas pod_lookup_never = pod_lookup_only [THEN lookup_frames(2)]

lemma pod_ensure_image_never: "keeps (never destroys) (pod_ensure_image W raw)"
  unfolding pod_ensure_image_def pod_pull_image_def
  by (intro nev.keeps_rules pod_lookup_never engine_call_never assign_changed_never) simp

lemma pod_recreate_without_image:
  assumes "pod_image_missing W (params_of raw)" "pod_pull_fails W raw"
  shows "fails (pod_recreate_or_restart_container W raw)"
    and "keeps (never destroys) (pod_recreate_or_restart_container W raw)"
    and "fails (pod_start_container W raw)" and "keeps (never destroys) (pod_start_container W raw)"
proof -
  note f = pod_ensure_image_fails [OF assms] and d = pod_differs_without_image [OF assms(1)]
  note e = pod_ensure_image_never
  show s: "fails (pod_start_container W raw)" "keeps (never destroys) (pod_start_container W raw)"
    unfolding pod_start_container_def by (intro fails_bnd nev.keeps_bnd_fails f e)+
  have r: "b = True" if "\<not> avoids (if strategy then return_io True else pod_differs W (params_of raw)) b"
    for b strategy using that d by (cases b) (auto split: if_splits)
  show "fails (pod_recreate_or_restart_container W raw)"
    unfolding pod_recreate_or_restart_container_def Let_def
    by (intro fails_bnd_next) (auto simp: d dest!: r intro!: s(1) fails_bnd_next fails_bnd [OF f] split: if_splits)
  show "keeps (never destroys) (pod_recreate_or_restart_container W raw)"
    unfolding pod_recreate_or_restart_container_def Let_def
    by (intro nev.keeps_bnd_fails [OF e f] nev.keeps_bnd_next nev.keeps_if pod_lookup_never s(2))
      (auto simp: d when_io_def intro: nev.keeps_rules pod_lookup_never dest!: r split: if_splits)
qed

text \<open>
  A missing image costs nothing with Podman either.  When the image is not on the host and
  pulling it fails, \<open>start_container\<close> and \<open>recreate_or_restart_container\<close> end in an error
  before anything is stopped, restarted or removed.
\<close>

lemma pod_missing_image_protects:
  assumes "pod_image_missing W (params_of raw)" and "pod_pull_fails W raw"
    and "a = Start_container \<or> a = Recreate_or_restart_container"
    and "pod_action W raw a h = (r, h')"
  shows "(\<exists>e. r = Inl e) \<and> (\<exists>ts. trace h' = trace h @ ts \<and> \<not> list_ex destroys ts)"
proof -
  note k = pod_recreate_without_image [OF assms(1,2)]
  have "fails (pod_action W raw a)" using assms(3) k(1,3) by (auto intro: fails_bnd)
  moreover have "keeps (never destroys) (pod_action W raw a)"
    using assms(3) k(2,4) by (elim disjE) (simp, intro nev.keeps_rules, assumption)+
  ultimately show ?thesis using assms(4)
    by (metis Pair_inject failsE keepsD never_def)
qed

text \<open>An engine with one container that does what it is asked, and has the images given.\<close>

definition demo_podman :: "(string \<times> string) list podman" where
  "demo_podman =
    \<lparr>pm_bus = quiet_bus, pm_image_get = (\<lambda>i d. (Inl (APIError 404), d)), pm_image_remove = (\<lambda>i d. (Inr (), d)),
     pm_pull = (\<lambda>a d. (Inl (APIError 500), d)), pm_volume_get = (\<lambda>v d. (Inl (APIError 404), d)),
     pm_volume_create = (\<lambda>a d. (Inr a, d)), pm_volume_remove = (\<lambda>v d. (Inr (), d)),
     pm_list = (\<lambda>d. (Inr [''c1''], d)), pm_get = (\<lambda>n d. (Inr ''c1'', d)),
     pm_reload = (\<lambda>i d. (Inr \<lparr>pk_id = ''c1'', pk_name = ''web'', pk_status = ''running'', pk_attrs = demo_info\<rparr>, d)),
     pm_create = (\<lambda>a d. (Inr a, d)), pm_exec = (\<lambda>i c d. (Inr 0, d)), pm_start = (\<lambda>i d. (Inr (), d)),
     pm_stop = (\<lambda>i t d. (Inr (), d)), pm_remove = (\<lambda>i d. (Inr (), d)), pm_wait = (\<lambda>i d. (Inr 0, d)),
     pm_logs = (\<lambda>i b d. (Inr [], d))\<rparr>"

definition web_raw :: pyobj where
  "web_raw = [(''name'', PyStr ''web''), (''image'', PyStr ''quay.io/kolla/web:1''),
     (''detach'', PyBool True), (''state'', PyStr ''running''),
     (''labels'', PyDict []), (''environment'', PyDict [])]"

lemma pod_missing_image_protects_witness:
  "\<exists>e h'. pod_action demo_podman web_raw Recreate_or_restart_container (demo_host [])
      = (Inl e, h') \<and> \<not> list_ex destroys (trace h')"
proof -
  let ?h = "demo_host [] :: (string \<times> string) list host"
  have p: "prepare_image_args web_raw = Inr [(''repository'', PyStr ''quay.io/kolla/web''), (''tag'', PyStr ''1''),
      (''tls_verify'', PyBool False), (''stream'', PyBool False)]"
    by code_simp
  have m: "pod_image_missing demo_podman (params_of web_raw)"
    by (simp add: pod_image_missing_def pod_check_image_def catch_io_def engine_call_def io_run demo_podman_def)
  have f: "pod_pull_fails demo_podman web_raw"
    by (simp add: pod_pull_fails_def fails_def pod_pull_image_def p lift_sum_def engine_call_def bnd_run
        io_run demo_podman_def pod_check_image_def catch_io_def)
  obtain r h' where "pod_action demo_podman web_raw Recreate_or_restart_container ?h = (r, h')" by fastforce
  with pod_missing_image_protects [OF m f _ this] show ?thesis by (auto simp: demo_host_def)
qed

section \<open>What a removal reports\<close>

lemma engine_call_keeps: "keeps (only (\<lambda>_. True)) (engine_call m args f)"
  by (rule engine_call_only) simp

text \<open>
  A removal reports the unit file, not the container.  After \<open>remove_container\<close> of the
  Podman worker, however it ends, \<open>changed\<close> is set exactly if it was before or the unit file
  existed: removing a container that has no unit file goes unreported.
\<close>

lemma pod_remove_reports_unit_file:
  assumes "systemd_init p = Inr (Some c)" and "pod_remove_container W p h = (r, h')"
  shows "changed h' \<longleftrightarrow> changed h \<or> files h (unit_path c) \<noteq> None"
proof -
  let ?rest = "bnd (pod_check_container W p) (\<lambda>container.
     case container of
       None \<Rightarrow> return_io ()
     | Some c \<Rightarrow>
         catch_io (engine_call ''remove_container'' [pk_id c] (pm_remove W (pk_id c))) is_api_error
           (\<lambda>e. bnd (pod_check_container W p) (\<lambda>still.
              if still \<noteq> None then raise_io e else return_io ())))"
  have l: "keeps (only (\<lambda>_. True)) (pod_check_container W p)"
    by (rule keeps_mono [OF pod_lookups_only(1)]) (auto simp: only_def list_all_iff)
  have k: "keeps (only (\<lambda>_. True)) ?rest"
    by (intro onl.keeps_rules l engine_call_keeps)
  obtain b h1 where b: "remove_unit_file (pm_bus W) c h = (Inr b, h1)"
    "b = (files h (unit_path c) \<noteq> None)" "changed h1 = changed h"
    by (cases "files h (unit_path c) = None") (auto simp: remove_unit_file_run after_bus_def)
  have "?rest (h1\<lparr>changed := changed h1 \<or> b\<rparr>) = (r, h')"
    using assms b(1) by (simp add: pod_remove_container_def with_unit_def bnd_run or_changed_def io_run
        del: not_None_eq)
  from keepsD [OF k this] b show ?thesis by (simp add: only_def)
qed

lemma pod_remove_reports_unit_file_witness:
  "let r = pod_action demo_podman web_raw Remove_container (demo_host [])
   in EngineCall ''remove_container'' [''c1''] \<in> set (trace (snd r)) \<and> \<not> changed (snd r)"
proof -
  let ?h = "demo_host [] :: (string \<times> string) list host"
  let ?r = "pod_remove_container demo_podman (params_of web_raw)"
  have u: "systemd_init (params_of web_raw) = Inr (Some web_unit)" by code_simp
  obtain r h' where run: "?r ?h = (r, h')" by fastforce
  have "\<not> changed h'" using pod_remove_reports_unit_file [OF u run] by (simp add: demo_host_def)
  moreover have "EngineCall ''remove_container'' [''c1''] \<in> set (trace (snd (?r ?h)))" by code_simp
  then have "EngineCall ''remove_container'' [''c1''] \<in> set (trace h')" unfolding run by (simp only: snd_conv)
  moreover have "snd (pod_action demo_podman web_raw Remove_container ?h) = h'"
    using run by (cases r) (simp_all add: bnd_run io_run)
  ultimately show ?thesis by (simp only: Let_def) simp
qed

section \<open>Volumes\<close>

definition mode_flags :: "string \<Rightarrow> string set" where
  "mode_flags m = (if m = [] then {} else set (py_split (CHR '','') m))"

text \<open>
  The flags the engine adds by itself to a mount: its defaults, \<open>noexec\<close> for the special paths,
  and \<open>rw\<close> when neither mode is given.
\<close>

definition engine_flags :: "string \<Rightarrow> string set \<Rightarrow> string set" where
  "engine_flags path flags =
     default_flags \<union> (if list_ex (\<lambda>q. prefix q path) special_paths_noexec then {''noexec''} else {})
       \<union> (if flags \<inter> {''ro'', ''rw''} = {} then {''rw''} else {})"

definition reported_as :: "volume \<Rightarrow> volume \<Rightarrow> bool" where
  "reported_as v w \<longleftrightarrow>
     (case (volume_bind v, volume_bind w) of ((src, dst, m), (src', dst', m')) \<Rightarrow>
        src' = src \<and> dst' = dst \<and>
        (\<exists>X \<subseteq> engine_flags (check_slash dst) (mode_flags m). mode_flags m' = mode_flags m \<union> X))"

lemma normalize_mode_flags:
  assumes "X \<subseteq> engine_flags path (mode_flags m)" and "mode_flags m' = mode_flags m \<union> X"
  shows "normalize_mode path m' = normalize_mode path m"
proof -
  define S where "S = (if list_ex (\<lambda>q. prefix q path) special_paths_noexec then {''noexec''} else {})"
  define f where "f F = (let G = F - default_flags - S in if G \<inter> {''ro'', ''rw''} = {} then insert ''rw'' G else G)"
    for F :: "string set"
  have norm: "normalize_mode path k = f (mode_flags k)" for k
    by (cases "list_ex (\<lambda>q. prefix q path) special_paths_noexec"; cases "k = []")
      (simp_all only: normalize_mode_def f_def S_def mode_flags_def Let_def if_True if_False Diff_empty
        refl HOL.simp_thms)
  have d: "''ro'' \<notin> default_flags" "''rw'' \<notin> default_flags" "''ro'' \<notin> S" "''rw'' \<notin> S"
    by (simp_all add: default_flags_def S_def)
  have X: "X \<subseteq> default_flags \<union> S \<union> (if mode_flags m \<inter> {''ro'', ''rw''} = {} then {''rw''} else {})"
    using assms(1) by (simp add: engine_flags_def S_def)
  show ?thesis
  proof (cases "mode_flags m \<inter> {''ro'', ''rw''} = {}")
    case True
    then have "X - default_flags - S \<subseteq> {''rw''}" using X by auto
    then show ?thesis using True d by (auto simp: norm f_def assms(2) Let_def)
  next
    case False
    then have "X - default_flags - S = {}" using X by auto
    then have "(mode_flags m \<union> X) - default_flags - S = mode_flags m - default_flags - S" by blast
    then show ?thesis by (simp add: norm f_def assms(2))
  qed
qed

lemma reported_entry: "reported_as v w \<Longrightarrow>
    fst (volume_bind w) = fst (volume_bind v) \<and> fst (snd w) = fst (snd v)
      \<and> bind_entry (volume_bind w) = bind_entry (volume_bind v)"
  by (cases v; cases w)
    (auto simp: reported_as_def bind_entry_def volume_bind_def dest: normalize_mode_flags)

text \<open>Two lists of binds with the same keys and the same entries stay so under updates.\<close>

definition same_binds :: "binds \<Rightarrow> binds \<Rightarrow> bool" where
  "same_binds d e \<longleftrightarrow> list_all2 (\<lambda>a b. fst a = fst b \<and> bind_entry a = bind_entry b) d e"

lemma same_binds_update:
  "same_binds d e \<Longrightarrow> bind_entry (k, x) = bind_entry (k, y) \<Longrightarrow>
   same_binds (AList.update k x d) (AList.update k y e)"
  unfolding same_binds_def
proof (induction d e rule: list_all2_induct)
  case (Cons a d b e)
  then show ?case by (cases a; cases b) auto
qed simp

lemma same_binds_all:
  assumes "list_all2 reported_as vs ws"
  shows "same_binds d e \<Longrightarrow> same_binds (dict_update d (map volume_bind vs)) (dict_update e (map volume_bind ws))"
  using assms
proof (induction arbitrary: d e rule: list_all2_induct)
  case Nil
  then show ?case by (simp add: dict_update_def)
next
  case (Cons v vs w ws)
  obtain k x y where b: "volume_bind v = (k, x)" "volume_bind w = (k, y)"
    using reported_entry [OF Cons.hyps(1)] by (metis prod.collapse)
  have "bind_entry (k, x) = bind_entry (k, y)" using reported_entry [OF Cons.hyps(1)] b by simp
  with Cons.prems have "same_binds (AList.update k x d) (AList.update k y e)" by (rule same_binds_update)
  from Cons.IH [OF this] show ?case by (simp add: dict_update_def b)
qed

lemma same_binds_list: "same_binds d e \<Longrightarrow> build_bind_list d = build_bind_list e"
  unfolding same_binds_def build_bind_list_def by (induction d e rule: list_all2_induct) auto

lemma generate_volumes_binds:
  "list_all good_volume vs \<Longrightarrow>
   (case generate_volumes (map show_volume vs) of Inl e \<Rightarrow> Inl e | Inr r \<Rightarrow>
      Inr (case r of None \<Rightarrow> ([], []) | Some vb \<Rightarrow> vb))
   = (Inr (map (\<lambda>v. fst (snd v)) vs, dict_update [] (map volume_bind vs)) :: pyexn + _)"
  by (cases vs) (simp_all only: generate_volumes_def, simp_all add: dict_update_def volumes_loop_show
      [of "_ # _", simplified list.map, simplified] volumes_loop_show)

text \<open>
  Podman's own mount flags are no difference.  When the engine reports the requested volumes
  with the same sources and targets, and each mode extended by any of the flags Podman adds by
  itself (its defaults, \<open>noexec\<close> on the special paths, \<open>rw\<close> where no mode was asked for), the
  volumes compare equal.
\<close>

lemma pod_volumes_idempotent:
  assumes "list_all good_volume vs" and "list_all good_volume ws" and "list_all2 reported_as vs ws"
    and "p_volumes p = map show_volume vs" and "hc_binds (ci_host ci) = Some (map show_volume ws)"
  shows "pod_compare_volumes p ci = Inr False"
proof -
  let ?d = "\<lambda>us. dict_update [] (map volume_bind us)"
  have "map (\<lambda>v. fst (snd v)) ws = map (\<lambda>v. fst (snd v)) vs"
    using assms(3) by (induction rule: list_all2_induct) (auto dest: reported_entry)
  moreover have "build_bind_list (?d ws) = build_bind_list (?d vs)"
    using same_binds_list [OF same_binds_all [OF assms(3), of "[]" "[]"]] by (simp add: same_binds_def)
  moreover obtain x y where "generate_volumes (map show_volume vs) = Inr x"
    "generate_volumes (map show_volume ws) = Inr y"
    "(case x of None \<Rightarrow> ([], []) | Some vb \<Rightarrow> vb) = (map (\<lambda>v. fst (snd v)) vs, ?d vs)"
    "(case y of None \<Rightarrow> ([], []) | Some vb \<Rightarrow> vb) = (map (\<lambda>v. fst (snd v)) ws, ?d ws)"
    using generate_volumes_binds [OF assms(1)] generate_volumes_binds [OF assms(2)]
    by (auto split: sum.splits)
  ultimately show ?thesis
    by (simp add: pod_compare_volumes_def assms(4,5) list_or_empty_def sets_differ_def)
qed

lemma pod_volumes_idempotent_witness:
  "pod_compare_volumes (params_of [(''volumes'', PyList [PyStr ''data:/var/lib'', PyStr ''/etc/x:/etc/x:ro''])])
     (demo_info\<lparr>ci_host := (ci_host demo_info)\<lparr>hc_binds :=
        Some [''data:/var/lib:rw,rprivate,nosuid,nodev,rbind'', ''/etc/x:/etc/x:ro,rprivate,rbind'']\<rparr>\<rparr>) = Inr False"
proof -
  have r: "reported_as (src, dst, m) (src, dst, Some m')"
    if "mode_flags m' = mode_flags (case m of None \<Rightarrow> ''rw'' | Some s \<Rightarrow> s) \<union> X"
      "X \<subseteq> engine_flags (check_slash dst) (mode_flags (case m of None \<Rightarrow> ''rw'' | Some s \<Rightarrow> s))" for src dst m m' X
    using that unfolding reported_as_def volume_bind_def by (simp only: split_conv option.case simp_thms) blast
  have 1: "reported_as (''data'', ''/var/lib'', None) (''data'', ''/var/lib'', Some ''rw,rprivate,nosuid,nodev,rbind'')"
    by (rule r [where X = "{''rprivate'', ''nosuid'', ''nodev'', ''rbind''}"]) code_simp+
  have 2: "reported_as (''/etc/x'', ''/etc/x'', Some ''ro'') (''/etc/x'', ''/etc/x'', Some ''ro,rprivate,rbind'')"
    by (rule r [where X = "{''rprivate'', ''rbind''}"]) code_simp+
  have 3: "list_all2 reported_as [(''data'', ''/var/lib'', None), (''/etc/x'', ''/etc/x'', Some ''ro'')]
      [(''data'', ''/var/lib'', Some ''rw,rprivate,nosuid,nodev,rbind''), (''/etc/x'', ''/etc/x'', Some ''ro,rprivate,rbind'')]"
    by (simp only: list_all2_Cons list_all2_Nil 1 2 simp_thms)
  show ?thesis
    by (rule pod_volumes_idempotent [OF _ _ 3]) code_simp+
qed

end
