(* ===== verification/DatabaseShards.thy ===== *)
theory DatabaseShards
  imports ServiceFilters
begin

text \<open>
  \<open>database_shards_info\<close> (\<open>kolla_ansible/database_shards.py\<close>): the loop over the database
  hosts, with the shards and the users built so far, and its reference definition.  \<open>hostvars\<close> is
  None when Jinja has no such variable.
\<close>

section \<open>The filter\<close>

record shard_user =
  su_password :: pyval
  su_user :: string
  su_shard :: string

type_synonym shards = "(string, string list) pydict"

text \<open>The variables a host must have when it is the first of its shard, in the order they are read.\<close>

definition required :: "pyobj \<Rightarrow> string \<Rightarrow> pyexn + pyval" where
  "required host k = (if dget host k = PyNone then Inl FilterError else Inr (dget host k))"

definition shard_users :: "bool_filter \<Rightarrow> pyobj \<Rightarrow> string \<Rightarrow> pyexn + shard_user list" where
  "shard_users B host sid =
     (case required host ''enable_mariabackup'' of Inl e \<Rightarrow> Inl e | Inr flag \<Rightarrow>
     (case B flag of Inl e \<Rightarrow> Inl e | Inr backup_enabled \<Rightarrow>
     (case required host ''database_password'' of Inl e \<Rightarrow> Inl e | Inr password \<Rightarrow>
     (case required host ''mariadb_shard_root_user_prefix'' of Inl e \<Rightarrow> Inl e | Inr root_prefix \<Rightarrow>
        (let root = \<lparr>su_password = password, su_user = py_str root_prefix @ sid, su_shard = sid\<rparr>
         in if backup_enabled then
              (case required host ''mariadb_shard_backup_user_prefix'' of Inl e \<Rightarrow> Inl e
               | Inr backup_prefix \<Rightarrow>
                   Inr [root, \<lparr>su_password = dget host ''mariadb_backup_database_password'',
                               su_user = py_str backup_prefix @ sid, su_shard = sid\<rparr>])
            else Inr [root])))))"

definition shard_id :: "(string, pyobj) pydict \<Rightarrow> string \<Rightarrow> pyexn + string" where
  "shard_id hostvars hostname =
     (case map_of hostvars hostname of
        None \<Rightarrow> Inl FilterError
      | Some host \<Rightarrow>
          (if dget host ''mariadb_shard_id'' = PyNone then Inl FilterError
           else Inr (py_str (dget host ''mariadb_shard_id''))))"

fun shards_loop ::
  "bool_filter \<Rightarrow> (string, pyobj) pydict \<Rightarrow> string list \<Rightarrow> shards \<Rightarrow> shard_user list
    \<Rightarrow> pyexn + shards \<times> shard_user list" where
  "shards_loop B hostvars [] shards users = Inr (shards, users)"
| "shards_loop B hostvars (hostname # hostnames) shards users =
     (case shard_id hostvars hostname of
        Inl e \<Rightarrow> Inl e
      | Inr sid \<Rightarrow>
          (case map_of shards sid of
             None \<Rightarrow>
               (case shard_users B (the (map_of hostvars hostname)) sid of
                  Inl e \<Rightarrow> Inl e
                | Inr us \<Rightarrow>
                    shards_loop B hostvars hostnames (AList.update sid [hostname] shards) (users @ us))
           | Some hosts \<Rightarrow>
               shards_loop B hostvars hostnames (AList.update sid (hosts @ [hostname]) shards) users))"

definition database_shards_info ::
  "bool_filter \<Rightarrow> (string, pyobj) pydict option \<Rightarrow> string list \<Rightarrow> pyexn + shards \<times> shard_user list" where
  "database_shards_info B hostvars hostnames =
     (case hostvars of None \<Rightarrow> Inl FilterError | Some hv \<Rightarrow> shards_loop B hv hostnames [] [])"

section \<open>What it computes\<close>

text \<open>
  The reference: the shard identifiers in order of first appearance, each with all its hosts in
  order, and the users made from the first host of each.
\<close>

definition sid_of :: "(string, pyobj) pydict \<Rightarrow> string \<Rightarrow> string" where
  "sid_of hv h = (case shard_id hv h of Inl e \<Rightarrow> [] | Inr s \<Rightarrow> s)"

fun firsts :: "string set \<Rightarrow> (string, pyobj) pydict \<Rightarrow> string list \<Rightarrow> string list" where
  "firsts seen hv [] = []"
| "firsts seen hv (h # hs) =
     (if sid_of hv h \<in> seen then firsts seen hv hs else h # firsts (insert (sid_of hv h) seen) hv hs)"

definition users_of :: "bool_filter \<Rightarrow> (string, pyobj) pydict \<Rightarrow> string \<Rightarrow> pyexn + shard_user list" where
  "users_of B hv h = shard_users B (the (map_of hv h)) (sid_of hv h)"

lemma firsts_set: "set (firsts seen hv hs) \<subseteq> set hs"
  by (induction hs arbitrary: seen) (auto split: if_splits)

lemma firsts_sids: "sid_of hv ` set (firsts seen hv hs) = sid_of hv ` set hs - seen"
  by (induction hs arbitrary: seen) auto

lemma firsts_distinct: "distinct (map (sid_of hv) (firsts seen hv hs))"
  using firsts_sids by (induction hs arbitrary: seen) fastforce+

lemma firsts_first: "find (\<lambda>h. sid_of hv h = s) (firsts seen hv hs) =
    (if s \<in> seen then None else find (\<lambda>h. sid_of hv h = s) hs)"
  by (induction hs arbitrary: seen) auto

text \<open>Adding a host to a shard keeps the shards before and after it.\<close>

definition add_host :: "(string, pyobj) pydict \<Rightarrow> string \<Rightarrow> shards \<Rightarrow> shards" where
  "add_host hv h sh =
     (case map_of sh (sid_of hv h) of None \<Rightarrow> AList.update (sid_of hv h) [h] sh
      | Some hosts \<Rightarrow> AList.update (sid_of hv h) (hosts @ [h]) sh)"

lemma add_host_get:
  "map_of (add_host hv h sh) s =
     (if s = sid_of hv h then Some ((case map_of sh s of None \<Rightarrow> [] | Some hosts \<Rightarrow> hosts) @ [h]) else map_of sh s)"
  by (auto simp: add_host_def split: option.splits)

lemma add_host_keys:
  "map fst (add_host hv h sh) =
     (if sid_of hv h \<in> set (map fst sh) then map fst sh else map fst sh @ [sid_of hv h])"
  by (auto simp: add_host_def update_keys dom_map_of_conv_image_fst [symmetric] domIff split: option.splits)

lemma add_hosts:
  "map fst (fold (add_host hv) hs sh) = map fst sh @ map (sid_of hv) (firsts (set (map fst sh)) hv hs)"
  "map_of (fold (add_host hv) hs sh) s =
     (case filter (\<lambda>h. sid_of hv h = s) hs of [] \<Rightarrow> map_of sh s
      | some \<Rightarrow> Some ((case map_of sh s of None \<Rightarrow> [] | Some hosts \<Rightarrow> hosts) @ some))"
proof (induction hs arbitrary: sh)
  case (Cons h hs)
  { case 1
    show ?case using Cons.IH(1) [of "add_host hv h sh"]
      by (auto simp: add_host_keys insert_commute simp del: set_map)
  next
    case 2
    show ?case using Cons.IH(2) [of "add_host hv h sh"]
      by (auto simp: add_host_get split: list.splits option.splits) }
qed simp_all

lemma alist_of_map: "distinct (map fst d) \<Longrightarrow> d = map (\<lambda>k. (k, the (map_of d k))) (map fst d)"
proof -
  assume d: "distinct (map fst d)"
  have "(fst x, the (map_of d (fst x))) = x" if "x \<in> set d" for x
    using map_of_is_SomeI [OF d, of "fst x" "snd x"] that by simp
  then show ?thesis by (simp add: map_idI [symmetric])
qed

lemma shards_built:
  "fold (add_host hv) hs [] = map (\<lambda>h. (sid_of hv h, filter (\<lambda>x. sid_of hv x = sid_of hv h) hs)) (firsts {} hv hs)"
  (is "?d = map ?f ?F")
proof -
  have k: "map fst ?d = map (sid_of hv) ?F" using add_hosts(1) [of hv hs "[]"] by simp
  have v: "the (map_of ?d (sid_of hv h)) = filter (\<lambda>x. sid_of hv x = sid_of hv h) hs" if "h \<in> set ?F" for h
  proof -
    have "h \<in> set hs" using that firsts_set by blast
    then have "filter (\<lambda>x. sid_of hv x = sid_of hv h) hs \<noteq> []" by (auto simp: filter_empty_conv)
    then show ?thesis using add_hosts(2) [of hv hs "[]" "sid_of hv h"] by (simp split: list.splits)
  qed
  have "?d = map (\<lambda>k. (k, the (map_of ?d k))) (map (sid_of hv) ?F)"
    using alist_of_map [of ?d] firsts_distinct k by metis
  also have "\<dots> = map ?f ?F" using v by simp
  finally show ?thesis .
qed

lemma shards_loop_iff:
  "shards_loop B hv hs sh us = Inr (sh', us') \<longleftrightarrow>
     (\<forall>h \<in> set hs. \<exists>s. shard_id hv h = Inr s) \<and> sh' = fold (add_host hv) hs sh \<and>
     (\<exists>uss. list_all2 (\<lambda>h u. users_of B hv h = Inr u) (firsts (set (map fst sh)) hv hs) uss
        \<and> us' = us @ concat uss)"
proof (induction hs arbitrary: sh us)
  case (Cons h hs)
  show ?case
  proof (cases "shard_id hv h")
    case (Inr sid)
    then have sid: "sid_of hv h = sid" by (simp add: sid_of_def)
    show ?thesis
    proof (cases "map_of sh sid")
      case None
      then have new: "sid \<notin> set (map fst sh)" by (simp add: map_of_eq_None_iff)
      have keys: "set (map fst (AList.update sid [h] sh)) = insert sid (set (map fst sh))"
        by (rule keys_AList_update)
      show ?thesis
      proof (cases "users_of B hv h")
        case (Inl e)
        then show ?thesis using None new \<open>shard_id hv h = Inr sid\<close>
          by (simp add: users_of_def sid list_all2_Cons1)
      next
        case (Inr u)
        then show ?thesis using None new \<open>shard_id hv h = Inr sid\<close>
          by (simp add: users_of_def sid list_all2_Cons1 Cons.IH keys add_host_def del: set_map) auto
      qed
    next
      case (Some hosts)
      then have old: "sid \<in> set (map fst sh)"
        by (metis in_dict_def in_dict_iff option.distinct(1))
      have keys: "set (map fst (AList.update sid (hosts @ [h]) sh)) = set (map fst sh)"
        using old by (subst keys_AList_update) auto
      show ?thesis using Some old \<open>shard_id hv h = Inr sid\<close>
        by (simp add: sid Cons.IH keys add_host_def del: set_map)
    qed
  qed simp
qed auto

text \<open>
  C29. The shards partition the hosts.  The filter succeeds exactly if every host has a shard
  identifier and the first host of every shard has the variables for its users; the shards
  then are the identifiers in order of first appearance, each with all of its hosts in the
  order given, so that no host is lost or listed under another shard; and the users are those
  of the first hosts, shard by shard.
\<close>

theorem database_shards_partition:
  "database_shards_info B (Some hv) hs = Inr (sh, us) \<longleftrightarrow>
     (\<forall>h \<in> set hs. \<exists>s. shard_id hv h = Inr s) \<and>
     sh = map (\<lambda>h. (sid_of hv h, filter (\<lambda>x. sid_of hv x = sid_of hv h) hs)) (firsts {} hv hs) \<and>
     (\<exists>uss. list_all2 (\<lambda>h u. users_of B hv h = Inr u) (firsts {} hv hs) uss \<and> us = concat uss)"
  by (simp add: database_shards_info_def shards_loop_iff shards_built)

definition demo_db_host :: "int \<Rightarrow> pyobj" where
  "demo_db_host sid =
     [(''mariadb_shard_id'', PyInt sid), (''enable_mariabackup'', PyBool True),
      (''database_password'', PyStr ''secret''), (''mariadb_shard_root_user_prefix'', PyStr ''root_shard_''),
      (''mariadb_shard_backup_user_prefix'', PyStr ''backup_shard_''),
      (''mariadb_backup_database_password'', PyStr ''other'')]"

theorem database_shards_partition_witness:
  "database_shards_info (\<lambda>v. Inr (truthy v))
      (Some [(''a'', demo_db_host 0), (''b'', demo_db_host 1), (''c'', demo_db_host 0)]) [''a'', ''b'', ''c'']
    = Inr ([(''0'', [''a'', ''c'']), (''1'', [''b''])],
        [\<lparr>su_password = PyStr ''secret'', su_user = ''root_shard_0'', su_shard = ''0''\<rparr>,
         \<lparr>su_password = PyStr ''other'', su_user = ''backup_shard_0'', su_shard = ''0''\<rparr>,
         \<lparr>su_password = PyStr ''secret'', su_user = ''root_shard_1'', su_shard = ''1''\<rparr>,
         \<lparr>su_password = PyStr ''other'', su_user = ''backup_shard_1'', su_shard = ''1''\<rparr>])"
proof -
  let ?B = "\<lambda>v. Inr (truthy v) :: pyexn + bool"
  let ?hv = "[(''a'', demo_db_host 0), (''b'', demo_db_host 1), (''c'', demo_db_host 0)]"
  let ?us = "\<lambda>i. [\<lparr>su_password = PyStr ''secret'', su_user = ''root_shard_'' @ i, su_shard = i\<rparr>,
         \<lparr>su_password = PyStr ''other'', su_user = ''backup_shard_'' @ i, su_shard = i\<rparr>]"
  have f: "firsts {} ?hv [''a'', ''b'', ''c''] = [''a'', ''b'']" by code_simp
  have i: "shard_id ?hv ''a'' = Inr ''0''" "shard_id ?hv ''b'' = Inr ''1''" "shard_id ?hv ''c'' = Inr ''0''"
    by code_simp+
  have u: "users_of ?B ?hv ''a'' = Inr (?us ''0'')" "users_of ?B ?hv ''b'' = Inr (?us ''1'')" by code_simp+
  show ?thesis
    by (subst database_shards_partition, unfold f, intro conjI exI [of _ "[?us ''0'', ?us ''1'']"])
      (simp_all add: i sid_of_def u)
qed

end
