(* ===== verification/Workflow.thy ===== *)
theory Workflow
  imports PyVal
begin

text \<open>
  Direct workflows as the workbook \<open>mistral/workbooks/power-ops.yaml\<close> uses them: tasks with an
  action and the names to go on with on success, on error and on completion, and the command
  \<open>fail\<close>.  An action that raises, or answers with an error, ends its task in error; an error
  that nothing follows ends the workflow in error.

  A run interleaves the tasks with interference: between two tasks the world may change in any
  way that keeps the workflow's own view of it (\<open>view\<close>), as other workflows, operators and
  expiring locks do.  Two contracts are proved sound for all runs: \<open>annotated_workflow\<close>, an
  assertion on the view before each task, and \<open>pipeline\<close>, a sequence of tasks with a common
  recovery.
\<close>

section \<open>Tasks and runs\<close>

record 'a wf_task =
  tk_action :: 'a
  tk_success :: "string list"
  tk_error :: "string list"
  tk_complete :: "string list"

type_synonym 'a workflow_def = "(string \<times> 'a wf_task) list"

record 'w wf_conf =
  wf_ready :: "string list"
  wf_past :: "(string \<times> bool) list"
  wf_failed :: bool
  wf_world :: 'w

definition follow :: "bool \<Rightarrow> 'a wf_task \<Rightarrow> string list" where
  "follow ok tk = (if ok then tk_success tk else tk_error tk) @ tk_complete tk"

text \<open>One task, or the command \<open>fail\<close>; \<open>run\<close> performs an action and says whether it succeeded.\<close>

fun advance :: "('a \<Rightarrow> 'w \<Rightarrow> bool \<times> 'w) \<Rightarrow> 'a workflow_def \<Rightarrow> 'w wf_conf \<Rightarrow> 'w wf_conf" where
  "advance run tasks k =
     (case wf_ready k of
        [] \<Rightarrow> k
      | t # rest \<Rightarrow>
          if t = ''fail'' then k\<lparr>wf_ready := [], wf_failed := True\<rparr>
          else case map_of tasks t of
            None \<Rightarrow> k\<lparr>wf_ready := [], wf_failed := True\<rparr>
          | Some tk \<Rightarrow>
              (case run (tk_action tk) (wf_world k) of (ok, w) \<Rightarrow>
                 k\<lparr>wf_ready := rest @ follow ok tk, wf_past := wf_past k @ [(t, ok)],
                   wf_failed := wf_failed k \<or> \<not> ok \<and> follow ok tk = [], wf_world := w\<rparr>))"

declare advance.simps [simp del]

definition begin_wf :: "string \<Rightarrow> 'w \<Rightarrow> 'w wf_conf" where
  "begin_wf t w = \<lparr>wf_ready = [t], wf_past = [], wf_failed = False, wf_world = w\<rparr>"

text \<open>The states a run reaches, with the number of tasks and commands performed.\<close>

inductive wf_run :: "('a \<Rightarrow> 'w \<Rightarrow> bool \<times> 'w) \<Rightarrow> ('w \<Rightarrow> 'v) \<Rightarrow> 'a workflow_def \<Rightarrow> 'w wf_conf \<Rightarrow> nat \<Rightarrow> 'w wf_conf \<Rightarrow> bool"
  for run view tasks k0 where
  start: "wf_run run view tasks k0 0 k0"
| performed: "wf_run run view tasks k0 n k \<Longrightarrow> wf_ready k \<noteq> [] \<Longrightarrow>
     wf_run run view tasks k0 (Suc n) (advance run tasks k)"
| interference: "wf_run run view tasks k0 n k \<Longrightarrow> view w = view (wf_world k) \<Longrightarrow>
     wf_run run view tasks k0 n (k\<lparr>wf_world := w\<rparr>)"

lemma advance_task:
  assumes "wf_ready k = [t]" and "t \<noteq> ''fail''" and "map_of tasks t = Some tk"
    and "run (tk_action tk) (wf_world k) = (ok, w)"
  shows "advance run tasks k = k\<lparr>wf_ready := follow ok tk, wf_past := wf_past k @ [(t, ok)],
     wf_failed := wf_failed k \<or> \<not> ok \<and> follow ok tk = [], wf_world := w\<rparr>"
  using assms by (simp add: advance.simps)

lemma advance_fail:
  "wf_ready k = t # rest \<Longrightarrow> t = ''fail'' \<or> map_of tasks t = None \<Longrightarrow>
   advance run tasks k = k\<lparr>wf_ready := [], wf_failed := True\<rparr>"
  by (auto simp: advance.simps)

lemma advance_past: "prefix (wf_past k) (wf_past (advance run tasks k))"
  by (auto simp: advance.simps split: list.splits option.splits prod.splits)

text \<open>A run of a workflow whose runs are bounded can be completed.\<close>

lemma run_completes:
  assumes bound: "\<And>n k. wf_run run view tasks k0 n k \<Longrightarrow> n \<le> N"
  shows "wf_run run view tasks k0 n k \<Longrightarrow>
    \<exists>m k'. wf_run run view tasks k0 m k' \<and> wf_ready k' = [] \<and> prefix (wf_past k) (wf_past k')"
proof (induction "N - n" arbitrary: n k rule: less_induct)
  case less
  show ?case
  proof (cases "wf_ready k = []")
    case True
    then show ?thesis using less.prems by blast
  next
    case False
    let ?k = "advance run tasks k"
    have step: "wf_run run view tasks k0 (Suc n) ?k" using less.prems False by (rule wf_run.performed)
    then have "N - Suc n < N - n" using bound [OF step] by simp
    from less.hyps [OF this step] show ?thesis using advance_past prefix_order.trans by blast
  qed
qed

section \<open>Assertions on the view\<close>

text \<open>
  \<open>before t v\<close> is claimed of the view when task \<open>t\<close> begins.  Each task, begun so, leads to a view on
  which the assertion of whatever follows holds, and \<open>always\<close>.
\<close>

locale annotated_workflow =
  fixes run :: "'a \<Rightarrow> 'w \<Rightarrow> bool \<times> 'w" and view :: "'w \<Rightarrow> 'v" and tasks :: "'a workflow_def"
    and before :: "string \<Rightarrow> 'v \<Rightarrow> bool" and always :: "'v \<Rightarrow> bool"
  assumes task_keeps: "map_of tasks t = Some tk \<Longrightarrow> before t (view w) \<Longrightarrow> always (view w) \<Longrightarrow>
      run (tk_action tk) w = (ok, w') \<Longrightarrow>
      always (view w') \<and> (\<forall>t' \<in> set (follow ok tk). t' \<noteq> ''fail'' \<longrightarrow> before t' (view w'))"
    and sequential: "map_of tasks t = Some tk \<Longrightarrow> length (follow ok tk) \<le> 1"
begin

definition holds :: "'w wf_conf \<Rightarrow> bool" where
  "holds k \<longleftrightarrow> always (view (wf_world k)) \<and> length (wf_ready k) \<le> 1
     \<and> (\<forall>t \<in> set (wf_ready k). t \<noteq> ''fail'' \<longrightarrow> before t (view (wf_world k)))"

lemma advance_holds:
  assumes "holds k"
  shows "holds (advance run tasks k)"
proof (cases "wf_ready k")
  case Nil
  then show ?thesis using assms by (simp add: advance.simps)
next
  case (Cons t rest)
  then have t: "wf_ready k = [t]" using assms by (auto simp: holds_def)
  show ?thesis
  proof (cases "t = ''fail'' \<or> map_of tasks t = None")
    case True
    then show ?thesis using assms by (simp add: advance_fail [OF t] holds_def)
  next
    case False
    then obtain tk where tk: "map_of tasks t = Some tk" "t \<noteq> ''fail''" by auto
    obtain ok w where r: "run (tk_action tk) (wf_world k) = (ok, w)" by fastforce
    have "before t (view (wf_world k))" "always (view (wf_world k))"
      using assms t tk(2) by (auto simp: holds_def)
    from task_keeps [OF tk(1) this r] sequential [OF tk(1)] show ?thesis
      by (simp add: advance_task [of k t tasks tk run ok w, OF t tk(2,1) r] holds_def)
  qed
qed

lemma run_holds: "wf_run run view tasks k0 n k \<Longrightarrow> holds k0 \<Longrightarrow> holds k"
  by (induction rule: wf_run.induct) (auto simp: advance_holds, simp add: holds_def)

lemma run_always: "wf_run run view tasks (begin_wf t w) n k \<Longrightarrow> before t (view w) \<Longrightarrow> always (view w) \<Longrightarrow>
    always (view (wf_world k))"
  using run_holds [of "begin_wf t w" n k] by (simp add: holds_def begin_wf_def)

end

section \<open>Gates\<close>

text \<open>Whenever an event of kind \<open>P\<close> occurs, what was seen before it satisfies \<open>Q\<close>.\<close>

definition guarded :: "('e \<Rightarrow> bool) \<Rightarrow> ('e list \<Rightarrow> bool) \<Rightarrow> 'e list \<Rightarrow> bool" where
  "guarded P Q es \<longleftrightarrow> (\<forall>i < length es. P (es ! i) \<longrightarrow> Q (take i es))"

lemma guarded_Nil [simp]: "guarded P Q []"
  by (simp add: guarded_def)

lemma guarded_append: "guarded P Q es \<Longrightarrow> guarded P (\<lambda>pre. Q (es @ pre)) fs \<Longrightarrow> guarded P Q (es @ fs)"
  unfolding guarded_def
proof (intro allI impI)
  fix i assume es: "\<forall>i < length es. P (es ! i) \<longrightarrow> Q (take i es)"
    and fs: "\<forall>i < length fs. P (fs ! i) \<longrightarrow> Q (es @ take i fs)"
    and i: "i < length (es @ fs)" "P ((es @ fs) ! i)"
  show "Q (take i (es @ fs))"
    using i es fs [rule_format, of "i - length es"] by (cases "i < length es") (simp_all add: nth_append)
qed

lemma guarded_none: "list_all E es \<Longrightarrow> (\<And>e. E e \<Longrightarrow> \<not> P e) \<Longrightarrow> guarded P Q es"
  by (simp add: guarded_def list_all_length)

lemma guarded_all: "list_all E es \<Longrightarrow> (\<And>pre. list_all E pre \<Longrightarrow> Q pre) \<Longrightarrow> guarded P Q es"
  by (simp add: guarded_def list_all_length)

text \<open>
  A workflow with a gate: only the tasks in \<open>gate\<close> cause events of kind \<open>P\<close>, nothing leads into
  the gate but what has established \<open>Q\<close>, and the tasks in the gate keep it.
\<close>

locale gated_workflow =
  fixes run :: "'a \<Rightarrow> 'w \<Rightarrow> bool \<times> 'w" and view :: "'w \<Rightarrow> 'e list" and tasks :: "'a workflow_def"
    and emits :: "'a \<Rightarrow> 'e \<Rightarrow> bool" and P :: "'e \<Rightarrow> bool" and Q :: "'e list \<Rightarrow> bool" and gate :: "string set"
  assumes emission: "run a w = (ok, w') \<Longrightarrow> \<exists>es. view w' = view w @ es \<and> list_all (emits a) es"
    and outside: "map_of tasks t = Some tk \<Longrightarrow> t \<notin> gate \<Longrightarrow> emits (tk_action tk) e \<Longrightarrow> \<not> P e"
    and inside: "map_of tasks t = Some tk \<Longrightarrow> t \<in> gate \<Longrightarrow> list_all (emits (tk_action tk)) fs \<Longrightarrow> Q es \<Longrightarrow> Q (es @ fs)"
    and entry: "map_of tasks t = Some tk \<Longrightarrow> t \<notin> gate \<Longrightarrow> run (tk_action tk) w = (ok, w') \<Longrightarrow>
      t' \<in> set (follow ok tk) \<Longrightarrow> t' \<in> gate \<Longrightarrow> Q (view w')"
    and one_follows: "map_of tasks t = Some tk \<Longrightarrow> length (follow ok tk) \<le> 1"
begin

lemma gate_task:
  assumes tk: "map_of tasks t = Some tk" and before: "t \<in> gate \<Longrightarrow> Q (view w)"
    and g: "guarded P Q (view w)" and r: "run (tk_action tk) w = (ok, w')"
  shows "guarded P Q (view w') \<and> (t \<in> gate \<longrightarrow> Q (view w'))"
proof -
  obtain es where es: "view w' = view w @ es" "list_all (emits (tk_action tk)) es"
    using emission [OF r] by blast
  show ?thesis
  proof (cases "t \<in> gate")
    case True
    then have "Q (view w @ fs)" if "list_all (emits (tk_action tk)) fs" for fs
      using inside [OF tk True that before] by simp
    with es g True show ?thesis by (auto intro: guarded_append guarded_all)
  next
    case False
    with es g outside [OF tk] show ?thesis by (auto intro: guarded_append guarded_none)
  qed
qed

end

sublocale gated_workflow \<subseteq> annotated_workflow run view tasks
  "\<lambda>t es. guarded P Q es \<and> (t \<in> gate \<longrightarrow> Q es)" "guarded P Q"
  using gate_task entry one_follows by unfold_locales blast+

section \<open>Pipelines with a recovery\<close>

text \<open>
  A pipeline performs \<open>main\<close> in order.  The first task that fails ends it: the first of all in
  failure, the last of all in error, any other in the tasks of \<open>recovery\<close>, which go on whatever
  becomes of them, and then in failure.
\<close>

definition done_with :: "string list \<Rightarrow> (string \<times> bool) list" where
  "done_with ts = map (\<lambda>t. (t, True)) ts"

definition next_of :: "string list \<Rightarrow> nat \<Rightarrow> string list" where
  "next_of ts n = (if n < length ts then [ts ! n] else [])"

text \<open>What follows the failure of task \<open>n\<close>, and the history once \<open>bs\<close> is how that went so far.\<close>

definition recovery_of :: "string list \<Rightarrow> string list \<Rightarrow> nat \<Rightarrow> string list" where
  "recovery_of main recovery n =
     (if n = 0 then [''fail''] else if Suc n = length main then [] else recovery @ [''fail''])"

definition recovered :: "string list \<Rightarrow> string list \<Rightarrow> nat \<Rightarrow> bool list \<Rightarrow> (string \<times> bool) list" where
  "recovered main recovery n bs =
     done_with (take n main) @ [(main ! n, False)] @ zip (recovery_of main recovery n) bs"

text \<open>The actions of a list of tasks performed in order, if all succeed.\<close>

fun walk :: "('a \<Rightarrow> 'w \<Rightarrow> bool \<times> 'w) \<Rightarrow> 'a list \<Rightarrow> 'w \<Rightarrow> 'w option" where
  "walk run [] w = Some w"
| "walk run (a # as) w = (case run a w of (ok, w') \<Rightarrow> if ok then walk run as w' else None)"

lemma walk_snoc: "walk run (as @ [a]) w = Some w' \<longleftrightarrow> (\<exists>v. walk run as w = Some v \<and> run a v = (True, w'))"
  by (induction as arbitrary: w) (auto split: prod.splits)

definition action_of :: "'a workflow_def \<Rightarrow> string \<Rightarrow> 'a" where
  "action_of tasks t = tk_action (the (map_of tasks t))"

lemma zip_next: "length bs < length rs \<Longrightarrow> zip rs (bs @ [b]) = zip rs bs @ [(rs ! length bs, b)]"
  by (induction rs bs rule: list_induct2') auto

locale pipeline =
  fixes tasks :: "'a workflow_def" and main recovery :: "string list"
  assumes main_nonempty: "1 < length main"
    and main_task: "n < length main \<Longrightarrow> main ! n \<noteq> ''fail'' \<and> (\<exists>tk. map_of tasks (main ! n) = Some tk
      \<and> follow True tk = next_of main (Suc n) \<and> follow False tk = next_of (recovery_of main recovery n) 0)"
    and recovery_task: "n < length recovery \<Longrightarrow> recovery ! n \<noteq> ''fail'' \<and> (\<exists>tk. map_of tasks (recovery ! n) = Some tk
      \<and> (\<forall>ok. follow ok tk = next_of (recovery @ [''fail'']) (Suc n)))"
begin

definition on_track :: "nat \<Rightarrow> 'w wf_conf \<Rightarrow> bool" where
  "on_track n k \<longleftrightarrow> n \<le> length main \<and> wf_past k = done_with (take n main)
     \<and> wf_ready k = next_of main n \<and> \<not> wf_failed k"

text \<open>Off the track after task \<open>m\<close> failed: recovering, or at the end.\<close>

definition recovering :: "nat \<Rightarrow> bool list \<Rightarrow> nat \<Rightarrow> 'w wf_conf \<Rightarrow> bool" where
  "recovering m bs n k \<longleftrightarrow> m < length main \<and> wf_past k = recovered main recovery m bs
     \<and> length bs < length (recovery_of main recovery m)
     \<and> wf_ready k = [recovery_of main recovery m ! length bs] \<and> n = Suc (m + length bs)"

definition broken :: "nat \<Rightarrow> bool list \<Rightarrow> nat \<Rightarrow> 'w wf_conf \<Rightarrow> bool" where
  "broken m bs n k \<longleftrightarrow> m < length main \<and> wf_past k = recovered main recovery m bs
     \<and> length bs = length (recovery_of main recovery m) - 1
     \<and> wf_ready k = [] \<and> wf_failed k \<and> n \<le> Suc (m + length (recovery_of main recovery m))"

lemma recovery_next:
  assumes "Suc i < length (recovery_of main recovery m)"
  shows "recovery_of main recovery m ! i \<noteq> ''fail''
    \<and> (\<exists>tk. map_of tasks (recovery_of main recovery m ! i) = Some tk
        \<and> (\<forall>ok. follow ok tk = [recovery_of main recovery m ! Suc i]))"
  using assms recovery_task [of i]
  by (auto simp: recovery_of_def next_of_def nth_append split: if_splits)

lemma recovery_last:
  "Suc i = length (recovery_of main recovery m) \<Longrightarrow> recovery_of main recovery m ! i = ''fail''"
  by (auto simp: recovery_of_def nth_append split: if_splits)

lemma advance_on_track:
  assumes "on_track n k" and "wf_ready k \<noteq> []"
  shows "on_track (Suc n) (advance run tasks k) \<or> recovering n [] (Suc n) (advance run tasks k)
    \<or> broken n [] (Suc n) (advance run tasks k)"
proof -
  have n: "n < length main" and r: "wf_ready k = [main ! n]"
    using assms by (auto simp: on_track_def next_of_def split: if_splits)
  obtain tk where tk: "main ! n \<noteq> ''fail''" "map_of tasks (main ! n) = Some tk"
    "follow True tk = next_of main (Suc n)" "follow False tk = next_of (recovery_of main recovery n) 0"
    using main_task [OF n] by blast
  obtain ok w where "run (tk_action tk) (wf_world k) = (ok, w)" by fastforce
  note step = advance_task [of k "main ! n" tasks tk run ok w, OF r tk(1,2) this]
  show ?thesis
  proof (cases ok)
    case True
    then have "on_track (Suc n) (advance run tasks k)"
      using assms(1) n tk(3) step by (simp add: on_track_def done_with_def take_Suc_conv_app_nth)
    then show ?thesis ..
  next
    case False
    then show ?thesis using assms(1) n tk(4) step
      by (cases "recovery_of main recovery n") (auto simp: on_track_def recovering_def broken_def recovered_def next_of_def)
  qed
qed

lemma advance_recovering:
  assumes "recovering m bs n k"
  shows "(\<exists>b. recovering m (bs @ [b]) (Suc n) (advance run tasks k)) \<or> broken m bs (Suc n) (advance run tasks k)"
proof -
  let ?rs = "recovery_of main recovery m"
  have k: "m < length main" "wf_past k = recovered main recovery m bs" "length bs < length ?rs"
    "wf_ready k = [?rs ! length bs]" "n = Suc (m + length bs)"
    using assms by (auto simp: recovering_def)
  show ?thesis
  proof (cases "Suc (length bs) < length ?rs")
    case True
    from recovery_next [OF this] obtain tk where tk: "?rs ! length bs \<noteq> ''fail''"
      "map_of tasks (?rs ! length bs) = Some tk" "\<And>ok. follow ok tk = [?rs ! Suc (length bs)]" by blast
    obtain ok w where "run (tk_action tk) (wf_world k) = (ok, w)" by fastforce
    note step = advance_task [of k "?rs ! length bs" tasks tk run ok w, OF k(4) tk(1,2) this]
    have "recovering m (bs @ [ok]) (Suc n) (advance run tasks k)"
      using k True tk(3) step by (simp add: recovering_def recovered_def zip_next)
    then show ?thesis by blast
  next
    case False
    then have "Suc (length bs) = length ?rs" using k(3) by simp
    with recovery_last [OF this] have "broken m bs (Suc n) (advance run tasks k)"
      using k advance_fail [OF k(4), of tasks run] by (auto simp: broken_def)
    then show ?thesis ..
  qed
qed

lemma pipeline_states:
  "wf_run run view tasks (begin_wf (main ! 0) w) n k \<Longrightarrow>
   on_track n k \<or> (\<exists>m bs. recovering m bs n k) \<or> (\<exists>m bs. broken m bs n k)"
proof (induction rule: wf_run.induct)
  case start
  show ?case using main_nonempty by (auto simp: on_track_def begin_wf_def next_of_def done_with_def)
next
  case (performed n k)
  from performed.IH performed.hyps(2) show ?case
    using advance_on_track [of n k run] advance_recovering [where k = k and n = n and run = run]
    by (metis broken_def)
next
  case (interference n k w)
  from interference.IH show ?case by (simp add: on_track_def recovering_def broken_def)
qed

text \<open>While its actions succeed a pipeline goes on.\<close>

lemma pipeline_walk:
  "n \<le> length main \<Longrightarrow> walk run (map (action_of tasks) (take n main)) w = Some w' \<Longrightarrow>
   wf_run run view tasks (begin_wf (main ! 0) w) n
     \<lparr>wf_ready = next_of main n, wf_past = done_with (take n main), wf_failed = False, wf_world = w'\<rparr>"
proof (induction n arbitrary: w')
  case 0
  then show ?case using main_nonempty wf_run.start [of run view tasks "begin_wf (main ! 0) w"]
    by (cases main) (simp_all add: begin_wf_def next_of_def done_with_def)
next
  case (Suc n)
  then have n: "n < length main" by simp
  obtain tk where tk: "main ! n \<noteq> ''fail''" "map_of tasks (main ! n) = Some tk" "follow True tk = next_of main (Suc n)"
    using main_task [OF n] by blast
  from Suc.prems(2) obtain w1 where w1: "walk run (map (action_of tasks) (take n main)) w = Some w1"
    "run (tk_action tk) w1 = (True, w')"
    by (simp add: take_Suc_conv_app_nth [OF n] walk_snoc) (auto simp: action_of_def tk(2))
  let ?k = "\<lparr>wf_ready = next_of main n, wf_past = done_with (take n main), wf_failed = False, wf_world = w1\<rparr>"
  have run: "wf_run run view tasks (begin_wf (main ! 0) w) n ?k"
    using Suc.IH [OF _ w1(1)] n by simp
  have ready: "wf_ready ?k = [main ! n]" using n by (simp add: next_of_def)
  have "run (tk_action tk) (wf_world ?k) = (True, w')" using w1(2) by simp
  from wf_run.performed [OF run] advance_task [of ?k "main ! n" tasks tk run, OF ready tk(1,2) this] ready
  show ?case by (simp add: tk(3) done_with_def take_Suc_conv_app_nth [OF n])
qed

text \<open>How a run ends, and that it does.\<close>

lemma pipeline_outcome:
  assumes "wf_run run view tasks (begin_wf (main ! 0) w) n k" and "wf_ready k = []"
  shows "\<not> wf_failed k \<and> wf_past k = done_with main \<or>
    wf_failed k \<and> (\<exists>m bs. m < length main \<and> wf_past k = recovered main recovery m bs
      \<and> length bs = length (recovery_of main recovery m) - 1)"
  using pipeline_states [OF assms(1)] assms(2)
  by (auto simp: on_track_def recovering_def broken_def next_of_def split: if_splits)

lemma pipeline_bound:
  assumes "wf_run run view tasks (begin_wf (main ! 0) w) n k"
  shows "n \<le> length main + length recovery"
  using pipeline_states [OF assms] main_nonempty
  by (auto simp: on_track_def recovering_def broken_def recovery_of_def split: if_splits)

end

end
