(* ===== verification/PowerWorkflows.thy ===== *)
theory PowerWorkflows
  imports PowerActions Workflow
begin

text \<open>
  The workflows of the workbook \<open>mistral/workbooks/power-ops.yaml\<close> over the plugin's actions: the
  tasks of the four workflows, transcribed, and what they guarantee in every run, under
  interference of other workflows and of operators (theory Workflow).  The view of a workflow
  is the log of what it asked the cloud for and saw.
\<close>

section \<open>The workbook\<close>

datatype power_workflow =
    PlannedPowerOff string
  | PlannedReboot string bool
  | PowerOnAndReturn bool
  | HostPowerStatus

definition task :: "power_action \<Rightarrow> string \<Rightarrow> power_action wf_task" where
  "task a next_name = \<lparr>tk_action = a, tk_success = [next_name], tk_error = [''fail_safe_host''], tk_complete = []\<rparr>"

definition acquire_task :: "string \<Rightarrow> string \<times> power_action wf_task" where
  "acquire_task host = (''acquire_lock'',
     \<lparr>tk_action = AcquireHostLock host None, tk_success = [''resolve''], tk_error = [''fail''], tk_complete = []\<rparr>)"

definition closing_tasks :: "string \<Rightarrow> string \<Rightarrow> power_action workflow_def" where
  "closing_tasks host event =
    [(''audit_success'', task (AuditEvent host event ''success'') ''release_lock''),
     (''release_lock'', \<lparr>tk_action = ReleaseHostLock host None, tk_success = [], tk_error = [], tk_complete = []\<rparr>),
     (''fail_safe_host'', \<lparr>tk_action = FailSafeHost host, tk_success = [], tk_error = [],
        tk_complete = [''audit_failure'']\<rparr>),
     (''audit_failure'', \<lparr>tk_action = AuditEvent host event ''failure'', tk_success = [], tk_error = [],
        tk_complete = [''release_lock_error'']\<rparr>),
     (''release_lock_error'', \<lparr>tk_action = ReleaseHostLock host None, tk_success = [], tk_error = [],
        tk_complete = [''fail'']\<rparr>)]"

definition DEFAULT_REASON :: string where "DEFAULT_REASON = ''PowerOps workflow''"

text \<open>From the maintenance to the confirmed power off, as two of the workflows have it.\<close>

definition power_off_tasks :: "string \<Rightarrow> string \<Rightarrow> string \<Rightarrow> power_action workflow_def" where
  "power_off_tasks host instance_policy after =
    [(''resolve'', task (ResolveHost host) ''maintenance_on''),
     (''maintenance_on'', task (SetMasakariMaintenance host True) ''nova_disable''),
     (''nova_disable'', task (SetNovaService host False DEFAULT_REASON) ''drain_instances''),
     (''drain_instances'', task (DrainHost host instance_policy None None) ''refresh_lock''),
     (''refresh_lock'', task (RefreshHostLock host None) ''assert_host_safe''),
     (''assert_host_safe'', task (AssertHostEmpty host (instance_policy = ''stop'')) ''request_off''),
     (''request_off'', task (IronicPower host ''power off'' True) ''wait_off''),
     (''wait_off'', task (WaitPower host ''power off'' None None None) after)]"

text \<open>From the power on to the end of the maintenance.\<close>

definition return_tasks :: "string \<Rightarrow> bool \<Rightarrow> power_action workflow_def" where
  "return_tasks host stale_domains_checked =
    [(''request_on'', task (IronicPower host ''power on'' False) ''wait_on''),
     (''wait_on'', task (WaitPower host ''power on'' None None None) ''wait_nova''),
     (''wait_nova'', task (WaitNovaService host None None) ''verify_host_return''),
     (''verify_host_return'', task (VerifyHostReturn host stale_domains_checked) ''nova_enable''),
     (''nova_enable'', task (SetNovaService host True DEFAULT_REASON) ''maintenance_off''),
     (''maintenance_off'', task (SetMasakariMaintenance host False) ''audit_success'')]"

definition planned_power_off :: "string \<Rightarrow> string \<Rightarrow> power_action workflow_def" where
  "planned_power_off host instance_policy =
     acquire_task host # power_off_tasks host instance_policy ''audit_success''
       @ closing_tasks host ''planned_power_off''"

definition planned_reboot :: "string \<Rightarrow> string \<Rightarrow> bool \<Rightarrow> power_action workflow_def" where
  "planned_reboot host instance_policy stale_domains_checked =
     acquire_task host # power_off_tasks host instance_policy ''request_on''
       @ return_tasks host stale_domains_checked @ closing_tasks host ''planned_reboot''"

definition power_on_and_return :: "string \<Rightarrow> bool \<Rightarrow> power_action workflow_def" where
  "power_on_and_return host stale_domains_checked =
     acquire_task host # (''resolve'', task (ResolveHost host) ''request_on'')
       # return_tasks host stale_domains_checked @ closing_tasks host ''power_on_and_return''"

definition host_power_status :: "string \<Rightarrow> power_action workflow_def" where
  "host_power_status host =
     [(''status'', \<lparr>tk_action = PowerStatus host, tk_success = [], tk_error = [], tk_complete = []\<rparr>)]"

fun tasks_of :: "string \<Rightarrow> power_workflow \<Rightarrow> power_action workflow_def" where
  "tasks_of host (PlannedPowerOff policy) = planned_power_off host policy"
| "tasks_of host (PlannedReboot policy checked) = planned_reboot host policy checked"
| "tasks_of host (PowerOnAndReturn checked) = power_on_and_return host checked"
| "tasks_of host HostPowerStatus = host_power_status host"

text \<open>A task succeeds unless its action raises or answers with an error.\<close>

definition perform :: "'c conn \<Rightarrow> 's redis \<Rightarrow> powerops_conf \<Rightarrow> string \<Rightarrow> action_ctx \<Rightarrow> power_action
    \<Rightarrow> ('c, 's) plugin \<Rightarrow> bool \<times> ('c, 's) plugin" where
  "perform C R cf uuid ctx a w =
     (case run_action C R cf uuid ctx a w of (r, w') \<Rightarrow>
        ((case r of Inr (Value _) \<Rightarrow> True | _ \<Rightarrow> False), w'))"

definition seen :: "('c, 's) plugin \<Rightarrow> cloud_event list" where
  "seen w = log (pg_world w)"

definition fresh :: "('c, 's) plugin \<Rightarrow> ('c, 's) plugin" where
  "fresh w = w\<lparr>pg_world := (pg_world w)\<lparr>log := []\<rparr>\<rparr>"

definition first_task :: "power_workflow \<Rightarrow> string" where
  "first_task flow = (if flow = HostPowerStatus then ''status'' else ''acquire_lock'')"

section \<open>What each action may do\<close>

fun emits :: "power_action \<Rightarrow> cloud_event \<Rightarrow> bool" where
  "emits (SetNovaService host enabled reason) e =
     (case e of Enabled _ \<Rightarrow> enabled | Disabled _ _ \<Rightarrow> \<not> enabled | _ \<Rightarrow> False)"
| "emits (SetMasakariMaintenance host enabled) e = (case e of Maintenance _ b \<Rightarrow> b = enabled | _ \<Rightarrow> False)"
| "emits (DrainHost host policy timeout interval) e =
     (case e of Listed _ \<Rightarrow> True | Migrated _ \<Rightarrow> True | Stopped _ \<Rightarrow> True | Waited _ \<Rightarrow> True | _ \<Rightarrow> False)"
| "emits (AssertHostEmpty host allow) e = (case e of Listed _ \<Rightarrow> True | _ \<Rightarrow> False)"
| "emits (IronicPower host target soft) e = (case e of SetPower _ g \<Rightarrow> g = effective_target target soft | _ \<Rightarrow> False)"
| "emits (WaitPower host target timeout interval observations) e = is_watch e"
| "emits (WaitNovaService host timeout interval) e = (case e of Waited _ \<Rightarrow> True | _ \<Rightarrow> False)"
| "emits (VerifyHostReturn host checked) e = is_watch e"
| "emits (FailSafeHost host) e = (case e of Disabled _ _ \<Rightarrow> True | Maintenance _ b \<Rightarrow> b | _ \<Rightarrow> False)"
| "emits _ e = False"

definition sees_only :: "(cloud_event \<Rightarrow> bool) \<Rightarrow> ('c, 's) plugin \<Rightarrow> ('c, 's) plugin \<Rightarrow> bool" where
  "sees_only P w w' \<longleftrightarrow> logs_only P (pg_world w) (pg_world w')"

interpretation so: effect_frame "sees_only P" for P :: "cloud_event \<Rightarrow> bool"
  by unfold_locales (auto simp: sees_only_def intro: lo.frame_refl lo.frame_trans)

lemma on_cloud_sees: "keeps (logs_only P) m \<Longrightarrow> keeps (sees_only P) (on_cloud m)"
  by (auto simp: keeps_def on_cloud_def sees_only_def split: prod.splits) (metis snd_conv)

lemma on_redis_sees: "keeps (sees_only P) (on_redis f)"
  by (auto simp: keeps_def on_redis_def sees_only_def lo.frame_refl split: prod.splits)

lemma with_lock_sees: "keeps (sees_only P) (with_lock R cf ctx host ttl attempt extra)"
  unfolding with_lock_def by (intro so.keeps_rules on_redis_sees)

lemma expected_sees: "keeps (sees_only P) m \<Longrightarrow> keeps (sees_only P) (expected m)"
  unfolding expected_def by (intro so.keeps_rules)

lemma servers_logs: "(\<And>l. P (Listed l)) \<Longrightarrow> keeps (logs_only P) (servers_on_host C host)"
  unfolding servers_on_host_def by (intro lo.keeps_rules ask_logs) simp

lemma operations_log:
  "keeps (logs_only P) (resolve_host C host)"
  "keeps (logs_only P) (host_status C host)"
  "keeps (logs_only (emits (SetNovaService host enabled reason))) (set_nova_service C host enabled reason)"
  "keeps (logs_only (emits (SetMasakariMaintenance host enabled))) (set_masakari_maintenance C host enabled)"
  "keeps (logs_only (emits (AssertHostEmpty host allow))) (assert_host_empty C host allow)"
  "keeps (logs_only (emits (IronicPower host target soft))) (request_power C host target soft)"
  "keeps (logs_only (emits (VerifyHostReturn host checked))) (verify_host_return C required host checked)"
  "keeps (logs_only (emits (FailSafeHost host))) (fail_safe_host C host)"
  unfolding resolve_host_def host_status_def set_nova_service_def set_masakari_maintenance_def assert_host_empty_def
    request_power_def verify_host_return_def fail_safe_host_def Let_def
  by (intro lo.keeps_rules lookup_logs ask_logs request_logs servers_logs; simp)+

lemma waiting_logs:
  "keeps (logs_only (emits (DrainHost host policy t i))) (drain_host C host policy timeout interval)"
  "keeps (logs_only (emits (WaitPower host target t i k))) (wait_power C host target timeout interval observations)"
  "keeps (logs_only (emits (WaitNovaService host t i))) (wait_nova_service C host timeout interval)"
proof -
  have checks: "keeps (logs_only (emits (DrainHost host policy t i))) (migrated_check C host u)"
    "keeps (logs_only (emits (DrainHost host policy t i))) (stopped_check C host u)"
    "keeps (logs_only (emits (WaitNovaService host t i))) (nova_up_check C host u)" for u
    unfolding migrated_check_def stopped_check_def nova_up_check_def
    by (intro lo.keeps_rules lookup_logs servers_logs; simp)+
  show "keeps (logs_only (emits (DrainHost host policy t i))) (drain_host C host policy timeout interval)"
    unfolding drain_host_def by (intro lo.keeps_rules servers_logs request_logs poll_logs checks; simp)
  show "keeps (logs_only (emits (WaitNovaService host t i))) (wait_nova_service C host timeout interval)"
    unfolding wait_nova_service_def by (intro lo.keeps_rules poll_logs checks; simp)
  have "keeps (logs_only is_watch) (wait_power C host target timeout interval observations)"
    unfolding wait_power_def by (intro lo.keeps_rules lookup_logs poll_logs observe_power_logs; simp)
  then show "keeps (logs_only (emits (WaitPower host target t i k)))
      (wait_power C host target timeout interval observations)" by (rule logs_only_mono) simp
qed

lemma run_action_sees: "keeps (sees_only (emits a)) (run_action C R cf uuid ctx a)"
  by (cases a)
    (simp_all only: run_action.simps expected_sees on_cloud_sees with_lock_sees operations_log waiting_logs so.keeps_return)

lemma perform_sees:
  assumes "perform C R cf uuid ctx a w = (ok, w')"
  shows "\<exists>es. seen w' = seen w @ es \<and> list_all (emits a) es"
proof -
  obtain r where "run_action C R cf uuid ctx a w = (r, w')"
    using assms by (auto simp: perform_def split: prod.splits)
  from keepsD [OF run_action_sees this] show ?thesis by (simp add: sees_only_def logs_only_def seen_def)
qed

section \<open>What successful actions have seen\<close>

lemma expected_cloud_ok:
  assumes "perform C R cf uuid ctx a w = (True, w')" and "run_action C R cf uuid ctx a = expected (on_cloud m)"
  shows "\<exists>d. m (pg_world w) = (Inr d, pg_world w')"
  using assms
  by (auto simp: perform_def expected_def on_cloud_def catch_io_def bnd_run io_run
      split: prod.splits sum.splits if_splits)

text \<open>A listing that lets a host be powered off: no servers, or with the policy stop only shut off ones.\<close>

definition safe_listing :: "string \<Rightarrow> server list \<Rightarrow> bool" where
  "safe_listing policy l \<longleftrightarrow> l = [] \<or> policy = ''stop'' \<and> list_all (\<lambda>s. status_of s = ''SHUTOFF'') l"

lemma assert_host_empty_ok:
  assumes "assert_host_empty C host (policy = ''stop'') w = (Inr d, w')"
  shows "\<exists>l. log w' = log w @ [Listed l] \<and> safe_listing policy l"
proof -
  obtain l w1 where l: "servers_on_host C host w = (Inr l, w1)"
    and rest: "l = [] \<or> policy = ''stop'' \<and> list_all (\<lambda>s. status_of s = ''SHUTOFF'') l" "w' = w1"
    using assms by (auto simp: assert_host_empty_def io_run elim!: bnd_InrD split: if_splits)
  from servers_on_host_run [OF l] rest show ?thesis by (auto simp: safe_listing_def)
qed

lemma verify_host_return_ok:
  assumes "verify_host_return C required host checked w = (Inr d, w')"
  shows "checked \<and> (\<exists>node. log w' = log w @ [Observed node] \<and> nd_power_state node = Some ''power on'')"
proof -
  have c: checked using assms by (auto simp: verify_host_return_def io_run split: if_splits)
  with assms obtain found w1 node w2 s w3 agents where run:
    "ironic_node_of C host w = (Inr found, w1)"
    "ask (cn_get_node C found) (\<lambda>n. [Observed n]) w1 = (Inr node, w2)" "nd_power_state node = Some ''power on''"
    "nova_service_of C host w2 = (Inr s, w3)" "ask (cn_agents C host) (\<lambda>_. []) w3 = (Inr agents, w')"
    by (auto simp: verify_host_return_def io_run elim!: bnd_InrD split: if_splits)
  have "log w1 = log w" using keepsD [OF lookup_logs(1) run(1), of "\<lambda>_. False"] by (auto simp: logs_only_def list_all_iff)
  moreover have "log w2 = log w1 @ [Observed node]" using run(2) by (auto elim: ask_InrD)
  moreover have "log w3 = log w2" using run(4) by (auto elim: nova_service_of_InrD)
  moreover have "log w' = log w3" using run(5) by (auto elim: ask_InrD)
  ultimately show ?thesis using c run(3) by auto
qed

section \<open>The gates of the workbook\<close>

fun is_off_request :: "cloud_event \<Rightarrow> bool" where
  "is_off_request (SetPower _ g) = (g \<noteq> ''power on'')"
| "is_off_request _ = False"

fun is_return :: "cloud_event \<Rightarrow> bool" where
  "is_return (Enabled _) = True"
| "is_return (Maintenance _ b) = (\<not> b)"
| "is_return _ = False"

text \<open>What a workflow must have seen before it powers a host off, and before it returns one.\<close>

fun off_ok :: "power_workflow \<Rightarrow> cloud_event list \<Rightarrow> bool" where
  "off_ok (PlannedPowerOff policy) es = (case last_listed es of None \<Rightarrow> False | Some l \<Rightarrow> safe_listing policy l)"
| "off_ok (PlannedReboot policy checked) es = (case last_listed es of None \<Rightarrow> False | Some l \<Rightarrow> safe_listing policy l)"
| "off_ok _ es = False"

definition powered_on :: "cloud_event list \<Rightarrow> bool" where
  "powered_on es \<longleftrightarrow> observed es \<noteq> [] \<and> nd_power_state (last (observed es)) = Some ''power on''"

fun return_ok :: "power_workflow \<Rightarrow> cloud_event list \<Rightarrow> bool" where
  "return_ok (PlannedReboot policy checked) es = (checked \<and> powered_on es)"
| "return_ok (PowerOnAndReturn checked) es = (checked \<and> powered_on es)"
| "return_ok _ es = False"

lemmas workbook = planned_power_off_def planned_reboot_def power_on_and_return_def host_power_status_def
  acquire_task_def power_off_tasks_def return_tasks_def closing_tasks_def task_def follow_def

text \<open>The actions that may cause such events.\<close>

fun asks_off :: "power_action \<Rightarrow> bool" where
  "asks_off (IronicPower host target soft) = (effective_target target soft \<noteq> ''power on'')"
| "asks_off _ = False"

fun asks_return :: "power_action \<Rightarrow> bool" where
  "asks_return (SetNovaService host enabled reason) = enabled"
| "asks_return (SetMasakariMaintenance host enabled) = (\<not> enabled)"
| "asks_return _ = False"

lemma emits_off: "emits a e \<Longrightarrow> is_off_request e \<Longrightarrow> asks_off a"
  by (cases a; cases e) auto

lemma emits_return: "emits a e \<Longrightarrow> is_return e \<longleftrightarrow> asks_return a"
  by (cases a; cases e) auto

lemma all_tasks: "map_of xs t = Some tk \<Longrightarrow> list_all (\<lambda>(t, tk). R t tk) xs \<Longrightarrow> R t tk"
  by (auto simp: list_all_iff dest: map_of_SomeD)

definition gate_off :: "string set" where "gate_off = {''request_off''}"
definition gate_return :: "string set" where "gate_return = {''nova_enable'', ''maintenance_off''}"

lemma workbook_tasks:
  "list_all (\<lambda>(t, tk). \<forall>ok. length (follow ok tk) \<le> 1) (tasks_of host flow)"
  "list_all (\<lambda>(t, tk). (t \<in> gate_off) = asks_off (tk_action tk)) (tasks_of host flow)"
  "list_all (\<lambda>(t, tk). (t \<in> gate_return) = asks_return (tk_action tk)) (tasks_of host flow)"
  by (cases flow; simp add: workbook gate_off_def gate_return_def effective_target_def)+

lemma workbook_gates:
  "list_all (\<lambda>(t, tk). \<forall>ok. \<forall>t' \<in> set (follow ok tk). t' \<in> gate_off \<longrightarrow>
     ok \<and> (\<exists>policy. tk_action tk = AssertHostEmpty host (policy = ''stop'')
       \<and> (flow = PlannedPowerOff policy \<or> (\<exists>checked. flow = PlannedReboot policy checked)))) (tasks_of host flow)"
  "list_all (\<lambda>(t, tk). \<forall>ok. \<forall>t' \<in> set (follow ok tk). t' \<in> gate_return \<longrightarrow> t \<notin> gate_return \<longrightarrow>
     ok \<and> (\<exists>checked. tk_action tk = VerifyHostReturn host checked
       \<and> (flow = PowerOnAndReturn checked \<or> (\<exists>policy. flow = PlannedReboot policy checked)))) (tasks_of host flow)"
  by (cases flow; auto simp: workbook gate_off_def gate_return_def)+

lemma asks_off_listed:
  "asks_off a \<Longrightarrow> list_all (emits a) fs \<Longrightarrow> last_listed (es @ fs) = last_listed es"
proof -
  assume "asks_off a" and "list_all (emits a) fs"
  then have "last_listed fs = None"
    by (cases a; induction fs rule: last_listed.induct) auto
  then show ?thesis by (simp add: last_listed_append)
qed

lemma asks_return_observed:
  "asks_return a \<Longrightarrow> list_all (emits a) fs \<Longrightarrow> observed (es @ fs) = observed es"
proof -
  assume "asks_return a" and "list_all (emits a) fs"
  then have "observed fs = []"
    by (cases a; induction fs rule: observed.induct) auto
  then show ?thesis by simp
qed

lemma off_ok_cong: "last_listed es = last_listed fs \<Longrightarrow> off_ok flow es = off_ok flow fs"
  by (cases flow) simp_all

lemma return_ok_cong: "observed es = observed fs \<Longrightarrow> return_ok flow es = return_ok flow fs"
  by (cases flow) (simp_all add: powered_on_def)

lemma off_entry:
  assumes "map_of (tasks_of host flow) t = Some tk" and "perform C R cf uuid ctx (tk_action tk) w = (ok, w')"
    and "t' \<in> set (follow ok tk)" and "t' \<in> gate_off"
  shows "off_ok flow (seen w')"
proof -
  from all_tasks [OF assms(1) workbook_gates(1)] assms(3,4) obtain policy where
    ok: ok and a: "tk_action tk = AssertHostEmpty host (policy = ''stop'')"
    and flow: "flow = PlannedPowerOff policy \<or> (\<exists>checked. flow = PlannedReboot policy checked)" by blast
  have "\<exists>d. assert_host_empty C host (policy = ''stop'') (pg_world w) = (Inr d, pg_world w')"
    using assms(2) ok a by (intro expected_cloud_ok) (auto simp: a)
  then obtain l where "seen w' = seen w @ [Listed l]" "safe_listing policy l"
    using assert_host_empty_ok by (metis seen_def)
  with flow show ?thesis by (auto simp: last_listed_append)
qed

lemma return_entry:
  assumes "map_of (tasks_of host flow) t = Some tk" and "t \<notin> gate_return"
    and "perform C R cf uuid ctx (tk_action tk) w = (ok, w')"
    and "t' \<in> set (follow ok tk)" and "t' \<in> gate_return"
  shows "return_ok flow (seen w')"
proof -
  from all_tasks [OF assms(1) workbook_gates(2)] assms(2,4,5) obtain checked where
    ok: ok and a: "tk_action tk = VerifyHostReturn host checked"
    and flow: "flow = PowerOnAndReturn checked \<or> (\<exists>policy. flow = PlannedReboot policy checked)" by blast
  have "\<exists>d. verify_host_return C [] host checked (pg_world w) = (Inr d, pg_world w')"
    using assms(3) ok a by (intro expected_cloud_ok) (auto simp: a)
  then obtain node where "checked" "seen w' = seen w @ [Observed node]" "nd_power_state node = Some ''power on''"
    using verify_host_return_ok by (metis seen_def)
  with flow show ?thesis by (auto simp: powered_on_def)
qed

interpretation off: gated_workflow "perform C R cf uuid ctx" seen "tasks_of host flow" emits is_off_request
    "off_ok flow" gate_off
  for C :: "'c conn" and R :: "'s redis" and cf uuid ctx host flow
proof (unfold_locales, goal_cases)
  case 1 then show ?case by (rule perform_sees)
next
  case 2 then show ?case using all_tasks [OF _ workbook_tasks(2)] emits_off by blast
next
  case 3 then show ?case using all_tasks [OF 3(1) workbook_tasks(2)] asks_off_listed off_ok_cong by blast
next
  case 4 then show ?case by (intro off_entry) auto
next
  case 5 then show ?case using all_tasks [OF _ workbook_tasks(1)] by blast
qed

interpretation ret: gated_workflow "perform C R cf uuid ctx" seen "tasks_of host flow" emits is_return
    "return_ok flow" gate_return
  for C :: "'c conn" and R :: "'s redis" and cf uuid ctx host flow
proof (unfold_locales, goal_cases)
  case 1 then show ?case by (rule perform_sees)
next
  case 2 then show ?case using all_tasks [OF _ workbook_tasks(3)] emits_return by blast
next
  case 3 then show ?case using all_tasks [OF 3(1) workbook_tasks(3)] asks_return_observed return_ok_cong by blast
next
  case 4 then show ?case by (intro return_entry) auto
next
  case 5 then show ?case using all_tasks [OF _ workbook_tasks(1)] by blast
qed

text \<open>
  C4. The workbook powers a host off only through its gate.  In every run of every workflow,
  whatever interferes, each request to power a host off comes from \<open>planned_power_off\<close> or
  \<open>planned_reboot\<close>, and the last listing of the host's servers before it was empty, or under
  the policy \<open>stop\<close> had only servers that are shut off.
\<close>

theorem workflow_off_gated:
  assumes "wf_run (perform C R cf uuid ctx) seen (tasks_of host flow) (begin_wf (first_task flow) (fresh w)) n k"
    and "seen (wf_world k) = pre @ SetPower i g # post" and "g \<noteq> ''power on''"
  shows "\<exists>policy l. (flow = PlannedPowerOff policy \<or> (\<exists>checked. flow = PlannedReboot policy checked))
    \<and> last_listed pre = Some l \<and> safe_listing policy l"
proof -
  have "guarded is_off_request (off_ok flow) (seen (wf_world k))"
    using assms(1) by (rule off.run_always) (auto simp: first_task_def gate_off_def fresh_def seen_def)
  then have "off_ok flow pre" using assms(2,3) by (auto simp: guarded_def dest: spec [of _ "length pre"])
  then show ?thesis by (cases flow) (auto split: option.splits)
qed

text \<open>
  C10. The workbook returns a host only through its gate.  In every run of every workflow,
  whatever interferes, the Nova service is enabled and the Masakari maintenance ended only by
  \<open>planned_reboot\<close> or \<open>power_on_and_return\<close>, only if the operator vouched for the stale domains,
  and after the node was last observed powered on.
\<close>

theorem workflow_return_gated:
  assumes "wf_run (perform C R cf uuid ctx) seen (tasks_of host flow) (begin_wf (first_task flow) (fresh w)) n k"
    and "seen (wf_world k) = pre @ e # post" and "is_return e"
  shows "(flow = PowerOnAndReturn True \<or> (\<exists>policy. flow = PlannedReboot policy True)) \<and> powered_on pre"
proof -
  have "guarded is_return (return_ok flow) (seen (wf_world k))"
    using assms(1) by (rule ret.run_always) (auto simp: first_task_def gate_return_def fresh_def seen_def)
  then have "return_ok flow pre" using assms(2,3) by (auto simp: guarded_def dest: spec [of _ "length pre"])
  then show ?thesis by (cases flow) auto
qed

section \<open>How the workflows end\<close>

definition main_tasks :: "string \<Rightarrow> power_workflow \<Rightarrow> string list" where
  "main_tasks host flow = takeWhile (\<lambda>t. t \<noteq> ''fail_safe_host'') (map fst (tasks_of host flow))"

definition fail_safe_tasks :: "string list" where
  "fail_safe_tasks = [''fail_safe_host'', ''audit_failure'', ''release_lock_error'']"

lemma below: "list_all R [0..<m] \<Longrightarrow> n < m \<Longrightarrow> R n"
  by (simp add: list_all_iff)

lemma workbook_main:
  "flow \<noteq> HostPowerStatus \<Longrightarrow> list_all (\<lambda>n. main_tasks host flow ! n \<noteq> ''fail''
     \<and> (\<exists>tk. map_of (tasks_of host flow) (main_tasks host flow ! n) = Some tk
       \<and> follow True tk = next_of (main_tasks host flow) (Suc n)
       \<and> follow False tk = next_of (recovery_of (main_tasks host flow) fail_safe_tasks n) 0))
     [0..<length (main_tasks host flow)]"
  by (cases flow; simp add: main_tasks_def fail_safe_tasks_def workbook next_of_def recovery_of_def)

lemma workbook_recovery:
  "flow \<noteq> HostPowerStatus \<Longrightarrow> list_all (\<lambda>n. fail_safe_tasks ! n \<noteq> ''fail''
     \<and> (\<exists>tk. map_of (tasks_of host flow) (fail_safe_tasks ! n) = Some tk
       \<and> (\<forall>ok. follow ok tk = next_of (fail_safe_tasks @ [''fail'']) (Suc n))))
     [0..<length fail_safe_tasks]"
  by (cases flow; simp add: main_tasks_def fail_safe_tasks_def workbook next_of_def)

lemma workbook_pipeline:
  "flow \<noteq> HostPowerStatus \<Longrightarrow> pipeline (tasks_of host flow) (main_tasks host flow) fail_safe_tasks"
proof (unfold_locales, goal_cases)
  case 1 then show ?case by (cases flow) (simp_all add: main_tasks_def workbook)
next
  case 2 then show ?case using below [OF workbook_main] by blast
next
  case 3 then show ?case using below [OF workbook_recovery] by blast
qed

interpretation off_pipe: pipeline "tasks_of host (PlannedPowerOff policy)" "main_tasks host (PlannedPowerOff policy)"
    fail_safe_tasks for host policy
  by (rule workbook_pipeline) simp

interpretation reboot_pipe: pipeline "tasks_of host (PlannedReboot policy checked)"
    "main_tasks host (PlannedReboot policy checked)" fail_safe_tasks for host policy checked
  by (rule workbook_pipeline) simp

interpretation return_pipe: pipeline "tasks_of host (PowerOnAndReturn checked)"
    "main_tasks host (PowerOnAndReturn checked)" fail_safe_tasks for host checked
  by (rule workbook_pipeline) simp

text \<open>The history of a run that failed, by the task that failed.\<close>

lemma recovered_cases:
  assumes "m < length main" and "1 < length main" and "main ! 0 = ''acquire_lock''" and "last main = ''release_lock''"
    and "length bs = length (recovery_of main fail_safe_tasks m) - 1"
    and past: "past = recovered main fail_safe_tasks m bs"
  shows "past = [(''acquire_lock'', False)] \<or> past = done_with (butlast main) @ [(''release_lock'', False)]
    \<or> (0 < m \<and> Suc m < length main \<and> (\<exists>a b c. past = done_with (take m main)
        @ [(main ! m, False), (''fail_safe_host'', a), (''audit_failure'', b), (''release_lock_error'', c)]))"
proof -
  consider "m = 0" | "Suc m = length main" | "0 < m" "Suc m < length main" using assms(1) by linarith
  then show ?thesis
  proof cases
    case 1
    then show ?thesis using assms(3,5) past by (simp add: recovered_def recovery_of_def done_with_def)
  next
    case 2
    then have m: "m = length main - 1" by simp
    have "main \<noteq> []" using assms(2) by auto
    from assms(4) have last: "main ! m = ''release_lock''" unfolding m last_conv_nth [OF \<open>main \<noteq> []\<close>, symmetric] .
    have "take m main = butlast main" unfolding m by (rule butlast_conv_take [symmetric])
    moreover have "recovery_of main fail_safe_tasks m = []" using 2 assms(2) by (simp add: recovery_of_def)
    ultimately have "past = done_with (butlast main) @ [(''release_lock'', False)]"
      by (simp add: past recovered_def last)
    then show ?thesis by (intro disjI1 disjI2)
  next
    case 3
    then have "length bs = 3" using assms(5) by (simp add: recovery_of_def fail_safe_tasks_def)
    then obtain a b c where "bs = [a, b, c]" by (auto simp: numeral_3_eq_3 length_Suc_conv)
    then show ?thesis using 3 past by (simp add: recovered_def recovery_of_def fail_safe_tasks_def)
  qed
qed

text \<open>
  C11. How the workflows end.  Every run of a workflow that takes the lock ends within the number
  of its tasks and three more.  It ends in one of four ways: with every task done, the release of
  the lock being the last, and in success; or in failure because the lock was not acquired, and
  then no other task was begun; or in failure because the final release failed, and then every
  task before it was done; or in failure because another task failed, and then the fail-safe of
  the host, the audit event and a release of the lock were each performed after it, whatever
  became of them.
\<close>

theorem workflow_outcome:
  assumes "wf_run (perform C R cf uuid ctx) seen (tasks_of host flow) (begin_wf ''acquire_lock'' w) n k"
    and "flow \<noteq> HostPowerStatus"
  shows "n \<le> length (main_tasks host flow) + 3
    \<and> (wf_ready k = [] \<longrightarrow>
        \<not> wf_failed k \<and> wf_past k = done_with (main_tasks host flow)
      \<or> wf_failed k \<and> (wf_past k = [(''acquire_lock'', False)]
          \<or> wf_past k = done_with (butlast (main_tasks host flow)) @ [(''release_lock'', False)]
          \<or> (\<exists>m a b c. 0 < m \<and> Suc m < length (main_tasks host flow)
              \<and> wf_past k = done_with (take m (main_tasks host flow)) @ [(main_tasks host flow ! m, False),
                  (''fail_safe_host'', a), (''audit_failure'', b), (''release_lock_error'', c)])))"
proof -
  let ?main = "main_tasks host flow"
  have ends_of: "?main ! 0 = ''acquire_lock''" "last ?main = ''release_lock''" "1 < length ?main"
    using assms(2) by (cases flow; simp add: main_tasks_def workbook)+
  then have run: "wf_run (perform C R cf uuid ctx) seen (tasks_of host flow) (begin_wf (?main ! 0) w) n k"
    using assms(1) by simp
  have ends: "n \<le> length ?main + length fail_safe_tasks"
  proof (cases flow)
    case (PlannedPowerOff policy) show ?thesis using run unfolding PlannedPowerOff by (rule off_pipe.pipeline_bound)
  next
    case (PlannedReboot policy checked) show ?thesis using run unfolding PlannedReboot by (rule reboot_pipe.pipeline_bound)
  next
    case (PowerOnAndReturn checked) show ?thesis using run unfolding PowerOnAndReturn by (rule return_pipe.pipeline_bound)
  qed (use assms(2) in simp)
  have outcome: "\<not> wf_failed k \<and> wf_past k = done_with ?main \<or>
    wf_failed k \<and> (\<exists>m bs. m < length ?main \<and> wf_past k = recovered ?main fail_safe_tasks m bs
      \<and> length bs = length (recovery_of ?main fail_safe_tasks m) - 1)" if r: "wf_ready k = []"
  proof (cases flow)
    case (PlannedPowerOff policy) show ?thesis using run r unfolding PlannedPowerOff by (rule off_pipe.pipeline_outcome)
  next
    case (PlannedReboot policy checked) show ?thesis using run r unfolding PlannedReboot by (rule reboot_pipe.pipeline_outcome)
  next
    case (PowerOnAndReturn checked) show ?thesis using run r unfolding PowerOnAndReturn by (rule return_pipe.pipeline_outcome)
  qed (use assms(2) in simp)
  have "\<not> wf_failed k \<and> wf_past k = done_with ?main
      \<or> wf_failed k \<and> (wf_past k = [(''acquire_lock'', False)]
          \<or> wf_past k = done_with (butlast ?main) @ [(''release_lock'', False)]
          \<or> (\<exists>m a b c. 0 < m \<and> Suc m < length ?main \<and> wf_past k = done_with (take m ?main) @ [(?main ! m, False),
                  (''fail_safe_host'', a), (''audit_failure'', b), (''release_lock_error'', c)]))"
    if r: "wf_ready k = []"
    using outcome [OF r]
  proof
    assume "wf_failed k \<and> (\<exists>m bs. m < length ?main \<and> wf_past k = recovered ?main fail_safe_tasks m bs
      \<and> length bs = length (recovery_of ?main fail_safe_tasks m) - 1)"
    then obtain m bs where "wf_failed k" "m < length ?main" "wf_past k = recovered ?main fail_safe_tasks m bs"
      "length bs = length (recovery_of ?main fail_safe_tasks m) - 1" by blast
    with recovered_cases [OF this(2) ends_of(3,1,2) this(4,3)] show ?thesis by blast
  qed (rule disjI1)
  moreover have "length fail_safe_tasks = 3" by (simp add: fail_safe_tasks_def)
  ultimately show ?thesis using ends by metis
qed

section \<open>A run\<close>

text \<open>The actions of a planned power off up to the request, and of a return up to the enabling of Nova.\<close>

definition demo_run :: "power_action \<Rightarrow> (ironic_node, (string, string) pydict) plugin
    \<Rightarrow> bool \<times> (ironic_node, (string, string) pydict) plugin" where
  "demo_run = perform demo_conn demo_redis demo_conf ''u'' (workflow ''wf1'')"

lemma demo_walk_off:
  "map_option seen (walk demo_run (map (action_of (tasks_of ''n1'' (PlannedPowerOff ''require_empty'')))
      (take 8 (main_tasks ''n1'' (PlannedPowerOff ''require_empty'')))) (fresh (demo_plugin ''power on'')))
   = Some [Maintenance ''m'' True, Disabled ''s'' ''PowerOps workflow'', Listed [], Listed [],
       SetPower ''u1'' ''soft power off'']"
  by code_simp

theorem workflow_off_gated_witness:
  "\<exists>k. wf_run demo_run seen (tasks_of ''n1'' (PlannedPowerOff ''require_empty''))
       (begin_wf ''acquire_lock'' (fresh (demo_plugin ''power on''))) 8 k
     \<and> seen (wf_world k) = [Maintenance ''m'' True, Disabled ''s'' ''PowerOps workflow'', Listed [], Listed [],
         SetPower ''u1'' ''soft power off'']
     \<and> (\<exists>policy l. last_listed [Maintenance ''m'' True, Disabled ''s'' ''PowerOps workflow'', Listed [], Listed []]
         = Some l \<and> safe_listing policy l)"
proof -
  let ?flow = "PlannedPowerOff ''require_empty''"
  have first: "main_tasks ''n1'' ?flow ! 0 = ''acquire_lock''" "8 \<le> length (main_tasks ''n1'' ?flow)"
    by (simp_all add: main_tasks_def workbook)
  obtain w where w: "walk demo_run (map (action_of (tasks_of ''n1'' ?flow)) (take 8 (main_tasks ''n1'' ?flow)))
      (fresh (demo_plugin ''power on'')) = Some w"
    "seen w = [Maintenance ''m'' True, Disabled ''s'' ''PowerOps workflow'', Listed [], Listed []]
       @ SetPower ''u1'' ''soft power off'' # []"
    using demo_walk_off by auto
  let ?k = "\<lparr>wf_ready = next_of (main_tasks ''n1'' ?flow) 8, wf_past = done_with (take 8 (main_tasks ''n1'' ?flow)),
      wf_failed = False, wf_world = w\<rparr>"
  have run: "wf_run demo_run seen (tasks_of ''n1'' ?flow) (begin_wf ''acquire_lock'' (fresh (demo_plugin ''power on''))) 8 ?k"
    using off_pipe.pipeline_walk [OF first(2) w(1), of seen] unfolding first(1) .
  have seen: "seen (wf_world ?k) = [Maintenance ''m'' True, Disabled ''s'' ''PowerOps workflow'', Listed [], Listed []]
       @ SetPower ''u1'' ''soft power off'' # []" using w(2) by (simp only: wf_conf.simps)
  have start: "first_task ?flow = ''acquire_lock''" by (simp add: first_task_def)
  have "\<exists>policy l. (?flow = PlannedPowerOff policy \<or> (\<exists>checked. ?flow = PlannedReboot policy checked)) \<and>
      last_listed [Maintenance ''m'' True, Disabled ''s'' ''PowerOps workflow'', Listed [], Listed []] = Some l
      \<and> safe_listing policy l"
    by (rule workflow_off_gated [OF run [unfolded demo_run_def, folded start] seen]) simp
  then have gate: "\<exists>policy l. last_listed [Maintenance ''m'' True, Disabled ''s'' ''PowerOps workflow'', Listed [], Listed []]
       = Some l \<and> safe_listing policy l" by blast
  show ?thesis
    by (rule exI [of _ ?k], intro conjI run gate) (use seen in \<open>simp only: append.simps\<close>)
qed

text \<open>A cloud whose Nova service is disabled.\<close>

definition returning_conn :: "ironic_node conn" where
  "returning_conn = demo_conn\<lparr>cn_services := (\<lambda>h n. (Inr [\<lparr>ns_id = ''s'', ns_host = Some h,
     ns_binary = Some ''nova-compute'', ns_status = Some ''disabled'', ns_state = Some ''up''\<rparr>], n))\<rparr>"

definition return_run :: "power_action \<Rightarrow> (ironic_node, (string, string) pydict) plugin
    \<Rightarrow> bool \<times> (ironic_node, (string, string) pydict) plugin" where
  "return_run = perform returning_conn demo_redis demo_conf ''u'' (workflow ''wf1'')"

lemma demo_walk_return:
  "(case walk return_run (map (action_of (tasks_of ''n1'' (PowerOnAndReturn True)))
      (take 7 (main_tasks ''n1'' (PowerOnAndReturn True)))) (fresh (demo_plugin ''power on'')) of
     None \<Rightarrow> False | Some w \<Rightarrow> drop 6 (seen w) = [Enabled ''s''])"
  by code_simp

theorem workflow_return_gated_witness:
  "\<exists>k pre. wf_run return_run seen (tasks_of ''n1'' (PowerOnAndReturn True))
       (begin_wf ''acquire_lock'' (fresh (demo_plugin ''power on''))) 7 k
     \<and> seen (wf_world k) = pre @ [Enabled ''s''] \<and> powered_on pre"
proof -
  let ?flow = "PowerOnAndReturn True"
  have first: "main_tasks ''n1'' ?flow ! 0 = ''acquire_lock''" "7 \<le> length (main_tasks ''n1'' ?flow)"
    by (simp_all add: main_tasks_def workbook)
  obtain w where w: "walk return_run (map (action_of (tasks_of ''n1'' ?flow)) (take 7 (main_tasks ''n1'' ?flow)))
      (fresh (demo_plugin ''power on'')) = Some w" "drop 6 (seen w) = [Enabled ''s'']"
    using demo_walk_return by (auto split: option.splits)
  let ?k = "\<lparr>wf_ready = next_of (main_tasks ''n1'' ?flow) 7, wf_past = done_with (take 7 (main_tasks ''n1'' ?flow)),
      wf_failed = False, wf_world = w\<rparr>"
  have run: "wf_run return_run seen (tasks_of ''n1'' ?flow) (begin_wf ''acquire_lock'' (fresh (demo_plugin ''power on''))) 7 ?k"
    using return_pipe.pipeline_walk [OF first(2) w(1), of seen] unfolding first(1) .
  have seen: "seen (wf_world ?k) = take 6 (seen w) @ Enabled ''s'' # []"
    using append_take_drop_id [of 6 "seen w"] w(2) by (simp only: wf_conf.simps)
  have start: "first_task ?flow = ''acquire_lock''" by (simp add: first_task_def)
  have "powered_on (take 6 (seen w))"
    using workflow_return_gated [OF run [unfolded return_run_def, folded start] seen] by simp
  with run seen show ?thesis by blast
qed

text \<open>A cloud that does not know the host's node.\<close>

definition lost_run :: "power_action \<Rightarrow> (ironic_node, (string, string) pydict) plugin
    \<Rightarrow> bool \<times> (ironic_node, (string, string) pydict) plugin" where
  "lost_run = perform (demo_conn\<lparr>cn_nodes := (\<lambda>n. (Inr [], n))\<rparr>) demo_redis demo_conf ''u'' (workflow ''wf1'')"

lemma demo_lost:
  "fst (lost_run (AcquireHostLock ''n1'' None) (demo_plugin ''power on''))"
  "\<not> fst (lost_run (ResolveHost ''n1'') w)"
  by code_simp+

theorem workflow_outcome_witness:
  "\<exists>n k. wf_run lost_run seen (tasks_of ''n1'' (PlannedPowerOff ''require_empty''))
       (begin_wf ''acquire_lock'' (demo_plugin ''power on'')) n k \<and> n \<le> 14 \<and> wf_ready k = [] \<and> wf_failed k
     \<and> (\<exists>a b c. wf_past k = [(''acquire_lock'', True), (''resolve'', False),
          (''fail_safe_host'', a), (''audit_failure'', b), (''release_lock_error'', c)])"
proof -
  let ?flow = "PlannedPowerOff ''require_empty''"
  let ?k0 = "begin_wf ''acquire_lock'' (demo_plugin ''power on'')"
  let ?runs = "wf_run lost_run seen (tasks_of ''n1'' ?flow) ?k0"
  have main: "length (main_tasks ''n1'' ?flow) = 11" "take 2 (main_tasks ''n1'' ?flow) = [''acquire_lock'', ''resolve'']"
    by (simp_all add: main_tasks_def workbook)
  have outcome: "n \<le> 14 \<and> (wf_ready k = [] \<longrightarrow>
        \<not> wf_failed k \<and> wf_past k = done_with (main_tasks ''n1'' ?flow)
      \<or> wf_failed k \<and> (wf_past k = [(''acquire_lock'', False)]
          \<or> wf_past k = done_with (butlast (main_tasks ''n1'' ?flow)) @ [(''release_lock'', False)]
          \<or> (\<exists>m a b c. 0 < m \<and> Suc m < length (main_tasks ''n1'' ?flow)
              \<and> wf_past k = done_with (take m (main_tasks ''n1'' ?flow)) @ [(main_tasks ''n1'' ?flow ! m, False),
                  (''fail_safe_host'', a), (''audit_failure'', b), (''release_lock_error'', c)])))"
    if "?runs n k" for n k
    using workflow_outcome [OF that [unfolded lost_run_def]] main(1) by simp
  obtain w1 where w1: "lost_run (AcquireHostLock ''n1'' None) (demo_plugin ''power on'') = (True, w1)"
    using demo_lost(1) by (cases "lost_run (AcquireHostLock ''n1'' None) (demo_plugin ''power on'')") simp
  obtain w2 where w2: "lost_run (ResolveHost ''n1'') w1 = (False, w2)"
    using demo_lost(2) [of w1] by (cases "lost_run (ResolveHost ''n1'') w1") simp
  let ?k1 = "\<lparr>wf_ready = [''resolve''], wf_past = [(''acquire_lock'', True)], wf_failed = False, wf_world = w1\<rparr>"
  let ?k2 = "\<lparr>wf_ready = [''fail_safe_host''], wf_past = [(''acquire_lock'', True), (''resolve'', False)],
      wf_failed = False, wf_world = w2\<rparr>"
  have "advance lost_run (tasks_of ''n1'' ?flow) ?k0 = ?k1"
    using w1 by (simp add: advance.simps begin_wf_def workbook)
  moreover have "?runs (Suc 0) (advance lost_run (tasks_of ''n1'' ?flow) ?k0)"
    by (rule wf_run.performed [OF wf_run.start]) (simp add: begin_wf_def)
  ultimately have "?runs (Suc 0) ?k1" by (simp only:)
  then have "?runs (Suc (Suc 0)) (advance lost_run (tasks_of ''n1'' ?flow) ?k1)" by (rule wf_run.performed) simp
  moreover have "advance lost_run (tasks_of ''n1'' ?flow) ?k1 = ?k2"
    using w2 by (simp add: advance.simps workbook)
  ultimately have two: "?runs (Suc (Suc 0)) ?k2" by (simp only:)
  have bound: "n \<le> 14" if "?runs n k" for n k using outcome [OF that] by (rule conjunct1)
  have "\<exists>n k. ?runs n k \<and> wf_ready k = [] \<and> prefix (wf_past ?k2) (wf_past k)"
    by (rule run_completes [OF _ two]) (rule bound)
  then obtain n k where k: "?runs n k" "wf_ready k = []"
    "prefix [(''acquire_lock'', True), (''resolve'', False)] (wf_past k)" by auto
  then obtain rest where past: "wf_past k = (''acquire_lock'', True) # (''resolve'', False) # rest"
    by (auto simp: prefix_def)
  obtain later where m: "main_tasks ''n1'' ?flow = ''acquire_lock'' # ''resolve'' # later"
    using append_take_drop_id [of 2 "main_tasks ''n1'' ?flow"] unfolding main(2) by (metis append_Cons append_Nil)
  have "later \<noteq> []" using main(1) m by auto
  then have "wf_failed k \<and> (\<exists>a b c. wf_past k = [(''acquire_lock'', True), (''resolve'', False),
          (''fail_safe_host'', a), (''audit_failure'', b), (''release_lock_error'', c)])"
    using outcome [OF k(1)] k(2) past unfolding m
    by (auto simp: done_with_def gr0_conv_Suc take_Cons' split: if_splits)
  with k outcome [OF k(1)] show ?thesis by blast
qed

end
