(* ===== verification/FernetCron.thy ===== *)
theory FernetCron
  imports PyVal
begin

text \<open>
  The cron generator of the keystone role
  (\<open>ansible/roles/keystone/files/fernet_rotate_cron_generator.py\<close>): \<open>generate\<close> and \<open>main\<close>.
  Its loops may run forever, so they are \<open>partial_function (option)\<close>: \<open>None\<close> means that the
  program does not return.  Argument parsing is argparse's; \<open>main\<close> starts from the three
  integers.
\<close>

section \<open>The generator\<close>

definition MINUTE_SPAN :: int where "MINUTE_SPAN = 1"
definition HOUR_SPAN :: int where "HOUR_SPAN = 60"
definition DAY_SPAN :: int where "DAY_SPAN = 24 * HOUR_SPAN"
definition WEEK_SPAN :: int where "WEEK_SPAN = 7 * DAY_SPAN"

lemmas spans = MINUTE_SPAN_def HOUR_SPAN_def DAY_SPAN_def WEEK_SPAN_def

datatype cron_field = Star | At int

record cron =
  cr_min :: cron_field
  cr_hour :: cron_field
  cr_day :: cron_field

partial_function (option) cron_loop ::
  "(int \<Rightarrow> cron) \<Rightarrow> int \<Rightarrow> int \<Rightarrow> int \<Rightarrow> int \<Rightarrow> cron list option" where
  [code]: "cron_loop entry span rotation step time =
     (if time + rotation \<le> span
      then Option.bind (cron_loop entry span rotation step (time + step))
             (\<lambda>crons. Some (entry time # crons))
      else Some [])"

definition day_entry :: "int \<Rightarrow> cron" where
  "day_entry time = \<lparr>cr_min = At (time mod HOUR_SPAN), cr_hour = At (time mod HOUR_SPAN),
     cr_day = At (time div DAY_SPAN)\<rparr>"

definition hour_entry :: "int \<Rightarrow> cron" where
  "hour_entry time = \<lparr>cr_min = At (time mod HOUR_SPAN), cr_hour = At (time div HOUR_SPAN), cr_day = Star\<rparr>"

definition minute_entry :: "int \<Rightarrow> cron" where
  "minute_entry time = \<lparr>cr_min = At (time div MINUTE_SPAN), cr_hour = Star, cr_day = Star\<rparr>"

definition RotationIntervalTooLong :: pyexn where
  "RotationIntervalTooLong = OtherError ''RotationIntervalTooLong''"

definition generate :: "int \<Rightarrow> int \<Rightarrow> int \<Rightarrow> (pyexn + cron list) option" where
  "generate host_index total_hosts total_rotation_mins =
     (if host_index \<ge> total_hosts then Some (Inr [])
      else
        (let host_rotation_mins = total_rotation_mins * total_hosts;
             host_rotation_offset = total_rotation_mins * host_index;
             loop = (\<lambda>entry span. map_option Inr
               (cron_loop entry span total_rotation_mins host_rotation_mins host_rotation_offset))
         in if total_rotation_mins > WEEK_SPAN then Some (Inl RotationIntervalTooLong)
            else if host_rotation_mins > DAY_SPAN then loop day_entry WEEK_SPAN
            else if host_rotation_mins > HOUR_SPAN then loop hour_entry DAY_SPAN
            else loop minute_entry HOUR_SPAN))"

text \<open>What \<open>main\<close> prints: the jobs, or the text of the exception.\<close>

fun field_val :: "cron_field \<Rightarrow> pyval" where
  "field_val Star = PyStr ''*''"
| "field_val (At n) = PyInt n"

definition cron_val :: "cron \<Rightarrow> pyval" where
  "cron_val c = PyDict [(''min'', field_val (cr_min c)), (''hour'', field_val (cr_hour c)),
     (''day'', field_val (cr_day c))]"

definition json_exit :: "pyobj \<Rightarrow> bool \<Rightarrow> pyobj" where
  "json_exit msg failed = dict_update msg [(''failed'', PyBool failed), (''changed'', PyBool False)]"

definition fernet_main :: "int \<Rightarrow> int \<Rightarrow> int \<Rightarrow> pyobj option" where
  "fernet_main index number time =
     map_option (\<lambda>r. case r of
         Inl e \<Rightarrow> json_exit [(''msg'', PyStr ''Unable to schedule fernet key rotation with an interval greater than 1 week divided by the number of hosts'')] True
       | Inr jobs \<Rightarrow> json_exit [(''cron_jobs'', PyList (map cron_val jobs))] False)
       (generate index number time)"

section \<open>The loop\<close>

lemma cron_loop_times:
  assumes "0 < step"
  shows "\<exists>ts. cron_loop entry span rotation step time = Some (map entry ts)
    \<and> set ts = {x. \<exists>k::nat. x = time + int k * step \<and> x + rotation \<le> span}
    \<and> sorted_wrt (<) ts \<and> (\<forall>x \<in> set ts. time \<le> x)"
proof (induction "nat (span - rotation - time + 1)" arbitrary: time rule: less_induct)
  case less
  show ?case
  proof (cases "time + rotation \<le> span")
    case False
    have "{x. \<exists>k::nat. x = time + int k * step \<and> x + rotation \<le> span} = {}"
    proof -
      have "time \<le> time + int k * step" for k using assms by simp
      with False show ?thesis by (auto simp: not_le) (smt (verit))
    qed
    then show ?thesis using False by (subst cron_loop.simps) auto
  next
    case True
    then have "nat (span - rotation - (time + step) + 1) < nat (span - rotation - time + 1)"
      using assms by simp
    from less [OF this] obtain ts where ts: "cron_loop entry span rotation step (time + step) = Some (map entry ts)"
      "set ts = {x. \<exists>k::nat. x = time + step + int k * step \<and> x + rotation \<le> span}"
      "sorted_wrt (<) ts" "\<forall>x \<in> set ts. time + step \<le> x" by auto
    have "{x. \<exists>k::nat. x = time + int k * step \<and> x + rotation \<le> span} = insert time (set ts)"
    proof (intro set_eqI iffI)
      fix x assume "x \<in> {x. \<exists>k::nat. x = time + int k * step \<and> x + rotation \<le> span}"
      then obtain k :: nat where k: "x = time + int k * step" "x + rotation \<le> span" by auto
      show "x \<in> insert time (set ts)"
      proof (cases k)
        case (Suc j)
        with k have "x = time + step + int j * step" by (simp add: algebra_simps)
        with k(2) ts(2) show ?thesis by auto
      qed (use k in simp)
    next
      fix x assume "x \<in> insert time (set ts)"
      then consider "x = time" | k :: nat where "x = time + step + int k * step" "x + rotation \<le> span"
        using ts(2) by auto
      then show "x \<in> {x. \<exists>k::nat. x = time + int k * step \<and> x + rotation \<le> span}"
      proof cases
        case 1
        then show ?thesis using True by (auto intro: exI [of _ 0])
      next
        case 2
        then show ?thesis by (auto intro!: exI [of _ "Suc k"] simp: algebra_simps)
      qed
    qed
    moreover have "cron_loop entry span rotation step time = Some (map entry (time # ts))"
      using ts(1) True by (subst cron_loop.simps) simp
    moreover have "sorted_wrt (<) (time # ts)" using ts(3,4) assms by auto
    moreover have "\<forall>x \<in> set (time # ts). time \<le> x" using ts(4) assms by auto
    ultimately show ?thesis by (intro exI [of _ "time # ts"]) simp
  qed
qed

text \<open>
  A loop that starts and does not advance does not end: were there a result, the induction on
  the approximations of the fixed point would lead to its start again.
\<close>

lemma cron_loop_advances:
  "cron_loop entry span rotation step time = Some cs \<Longrightarrow> step \<le> 0 \<longrightarrow> \<not> time + rotation \<le> span"
  by (erule cron_loop.raw_induct [rotated])
    (auto simp: Option.bind_eq_Some_conv split: if_splits, smt (verit))

lemma cron_loop_stuck:
  "step \<le> 0 \<Longrightarrow> time + rotation \<le> span \<Longrightarrow> cron_loop entry span rotation step time = None"
  using cron_loop_advances by (cases "cron_loop entry span rotation step time") auto

text \<open>
  C40. When the generator returns.  \<open>generate\<close> runs forever exactly if the host takes part, the
  interval is not too long, the cycle over all hosts is not positive (a rotation interval of
  zero or less) and the first time still fits into the hour; then \<open>main\<close> prints nothing.
  With a positive interval and a host of the group it always returns.
\<close>

theorem generate_diverges_iff:
  "(generate i n t = None \<longleftrightarrow> i < n \<and> t \<le> WEEK_SPAN \<and> t * n \<le> 0 \<and> t * i + t \<le> HOUR_SPAN)
   \<and> (fernet_main i n t = None \<longleftrightarrow> generate i n t = None)
   \<and> (0 < t \<and> 0 \<le> i \<longrightarrow> generate i n t \<noteq> None)"
proof -
  have total: "cron_loop entry span t (t * n) (t * i) \<noteq> None" if "0 < t * n" for entry span
    using cron_loop_times [OF that, of entry span t "t * i"] by auto
  have "cron_loop entry span t (t * n) (t * i) = None \<longleftrightarrow> t * i + t \<le> span" if "t * n \<le> 0" for entry span
  proof (cases "t * i + t \<le> span")
    case False
    then show ?thesis by (subst cron_loop.simps) simp
  qed (simp add: cron_loop_stuck that)
  then have "t * n \<le> 0 \<Longrightarrow> generate i n t = None \<longleftrightarrow> i < n \<and> t \<le> WEEK_SPAN \<and> t * i + t \<le> HOUR_SPAN"
    by (auto simp: generate_def Let_def spans)
  moreover have "0 < t * n \<Longrightarrow> generate i n t \<noteq> None"
    using total by (auto simp: generate_def Let_def)
  ultimately have iff: "generate i n t = None \<longleftrightarrow> i < n \<and> t \<le> WEEK_SPAN \<and> t * n \<le> 0 \<and> t * i + t \<le> HOUR_SPAN"
    by (cases "t * n \<le> 0") auto
  moreover have "\<not> (0 < t \<and> 0 \<le> i \<and> i < n \<and> t * n \<le> 0)"
    using mult_pos_pos [of t n] by linarith
  ultimately show ?thesis by (auto simp: fernet_main_def)
qed

theorem generate_diverges_iff_witness:
  "generate 0 3 0 = None \<and> generate 2 3 1440 \<noteq> None"
  using generate_diverges_iff [of 0 3 0] generate_diverges_iff [of 2 3 1440] by (simp add: spans)

section \<open>When the jobs fire\<close>

fun matches :: "cron_field \<Rightarrow> int \<Rightarrow> bool" where
  "matches Star v = True"
| "matches (At w) v = (v = w)"

text \<open>Whether cron runs the job at minute \<open>m\<close> of the week.\<close>

definition fires :: "cron \<Rightarrow> int \<Rightarrow> bool" where
  "fires c m \<longleftrightarrow> matches (cr_min c) (m mod 60) \<and> matches (cr_hour c) (m div 60 mod 24)
     \<and> matches (cr_day c) (m div 1440)"

definition rotates :: "int \<Rightarrow> int \<Rightarrow> int \<Rightarrow> int \<Rightarrow> bool" where
  "rotates i n t m \<longleftrightarrow>
     (case generate i n t of Some (Inr crons) \<Rightarrow> list_ex (\<lambda>c. fires c m) crons | _ \<Rightarrow> False)"

text \<open>The period of the schedule: an hour, a day or a week.\<close>

definition cycle_span :: "int \<Rightarrow> int \<Rightarrow> int" where
  "cycle_span n t =
     (if t * n > DAY_SPAN then WEEK_SPAN else if t * n > HOUR_SPAN then DAY_SPAN else HOUR_SPAN)"

lemma minute_entry_fires: "0 \<le> x \<Longrightarrow> x < 60 \<Longrightarrow> fires (minute_entry x) m \<longleftrightarrow> m mod 60 = x"
  by (simp add: fires_def minute_entry_def spans)

lemma base60:
  fixes a b c d :: int
  assumes "0 \<le> b" "b < 60" "0 \<le> d" "d < 60"
  shows "a * 60 + b = c * 60 + d \<longleftrightarrow> b = d \<and> a = c"
proof
  assume e: "a * 60 + b = c * 60 + d"
  have "(a * 60 + b) mod 60 = b" "(c * 60 + d) mod 60 = d" using assms by simp_all
  with e have "b = d" by (simp only:)
  with e show "b = d \<and> a = c" by simp
qed simp

lemma minute_of_day: "m mod 1440 = (m div 60 mod 24) * 60 + m mod 60" for m :: int
  using zmod_zmult2_eq [of 24 m 60] by simp

lemma hour_entry_fires:
  assumes "0 \<le> x" "x < 1440"
  shows "fires (hour_entry x) m \<longleftrightarrow> m mod 1440 = x"
  using base60 [of "m mod 60" "x mod 60" "m div 60 mod 24" "x div 60"]
  by (simp add: minute_of_day fires_def hour_entry_def spans)

lemma day_entry_fires:
  assumes "1440 dvd x"
  shows "fires (day_entry x) m \<longleftrightarrow> m = x"
proof -
  obtain d where d: "x = 1440 * d" using assms by (auto simp: dvd_def)
  have "x mod 60 = 0" using assms dvd_trans [of 60 1440 x] by simp
  moreover have "m mod 1440 = 0 \<longleftrightarrow> m mod 60 = 0 \<and> m div 60 mod 24 = 0"
    unfolding minute_of_day using base60 [of "m mod 60" 0 "m div 60 mod 24" 0] by simp
  moreover have "m = x \<longleftrightarrow> m mod 1440 = 0 \<and> m div 1440 = d"
    using d by (metis add.right_neutral mult_div_mod_eq nonzero_mult_div_cancel_left mod_mult_self1_is_0
        zero_neq_numeral)
  ultimately show ?thesis using d by (simp add: fires_def day_entry_def spans)
qed

lemma round_robin_arith:
  fixes i n t x :: int
  assumes "0 < t" "0 \<le> i" "i < n" "0 \<le> x"
  shows "(\<exists>k::nat. x = t * i + int k * (t * n)) \<longleftrightarrow> t dvd x \<and> x div t mod n = i"
proof
  assume "\<exists>k::nat. x = t * i + int k * (t * n)"
  then obtain k :: nat where "x = t * (i + int k * n)" by (auto simp: algebra_simps)
  with assms show "t dvd x \<and> x div t mod n = i" by simp
next
  assume a: "t dvd x \<and> x div t mod n = i"
  let ?q = "x div t div n"
  have "x = t * (x div t)" using a by simp
  also have "x div t = i + ?q * n" using a by (metis add.commute mult.commute mult_div_mod_eq)
  finally have "x = t * i + ?q * (t * n)" by (simp add: algebra_simps)
  moreover have "0 \<le> ?q" using assms by (simp add: pos_imp_zdiv_nonneg_iff)
  ultimately show "\<exists>k::nat. x = t * i + int k * (t * n)" by (intro exI [of _ "nat ?q"]) simp
qed

lemma generate_jobs:
  assumes "0 < t" "t \<le> WEEK_SPAN" "0 \<le> i" "i < n"
  obtains entry ts where "generate i n t = Some (Inr (map entry ts))"
    and "entry = (if t * n > DAY_SPAN then day_entry else if t * n > HOUR_SPAN then hour_entry else minute_entry)"
    and "set ts = {x. 0 \<le> x \<and> t dvd x \<and> x div t mod n = i \<and> x + t \<le> cycle_span n t}"
proof -
  define entry where "entry = (if t * n > DAY_SPAN then day_entry else if t * n > HOUR_SPAN then hour_entry else minute_entry)"
  have "0 < t * n" using assms by simp
  from cron_loop_times [OF this, of entry "cycle_span n t" t "t * i"]
  obtain ts where ts: "cron_loop entry (cycle_span n t) t (t * n) (t * i) = Some (map entry ts)"
    "set ts = {x. \<exists>k::nat. x = t * i + int k * (t * n) \<and> x + t \<le> cycle_span n t}" by auto
  have "0 \<le> t * i + int k * (t * n)" for k using assms by simp
  with round_robin_arith [OF assms(1,3,4)] ts(2)
  have "set ts = {x. 0 \<le> x \<and> t dvd x \<and> x div t mod n = i \<and> x + t \<le> cycle_span n t}" by auto
  moreover have "generate i n t = Some (Inr (map entry ts))"
    using ts(1) assms(2,4) by (auto simp: generate_def Let_def entry_def cycle_span_def split: if_splits)
  ultimately show thesis using that entry_def by blast
qed

text \<open>
  The hosts rotate in turns.  For a positive interval \<open>t\<close> and \<open>n\<close> hosts whose cycle fits
  into a day, or whose interval is a number of whole days, host \<open>i\<close> rotates at minute \<open>m\<close> of the
  week exactly when the minute of the period is the beginning of a full interval whose number
  is \<open>i\<close> modulo \<open>n\<close>; so each full interval of the period is started by exactly one host.
\<close>

lemma rotation_round_robin:
  assumes "0 < t" and "t \<le> WEEK_SPAN" and "0 \<le> m" and "m < WEEK_SPAN"
    and "t * n \<le> DAY_SPAN \<or> DAY_SPAN dvd t" and "x = m mod cycle_span n t"
  shows "(\<forall>i. 0 \<le> i \<and> i < n \<longrightarrow>
           (rotates i n t m \<longleftrightarrow> t dvd x \<and> x + t \<le> cycle_span n t \<and> x div t mod n = i))
    \<and> (0 < n \<and> t dvd x \<and> x + t \<le> cycle_span n t \<longrightarrow> (\<exists>!i. 0 \<le> i \<and> i < n \<and> rotates i n t m))"
proof -
  have x: "0 \<le> x" using assms(6) by (simp add: cycle_span_def spans)
  have iff: "rotates i n t m \<longleftrightarrow> t dvd x \<and> x + t \<le> cycle_span n t \<and> x div t mod n = i"
    if i: "0 \<le> i" "i < n" for i
  proof -
    obtain entry ts where g: "generate i n t = Some (Inr (map entry ts))"
      "entry = (if t * n > DAY_SPAN then day_entry else if t * n > HOUR_SPAN then hour_entry else minute_entry)"
      "set ts = {x. 0 \<le> x \<and> t dvd x \<and> x div t mod n = i \<and> x + t \<le> cycle_span n t}"
      by (rule generate_jobs [OF assms(1,2) i])
    have "fires (entry y) m \<longleftrightarrow> y = x" if "y \<in> set ts" for y
    proof -
      have y: "0 \<le> y" "t dvd y" "y < cycle_span n t" using that g(3) assms(1) by auto
      show ?thesis
      proof (cases "t * n > DAY_SPAN")
        case True
        then have "1440 dvd y" using assms(5) y(2) by (auto simp: spans intro: dvd_trans)
        then show ?thesis using True assms(3,4,6) g(2)
          by (auto simp: day_entry_fires cycle_span_def spans)
      next
        case False
        then show ?thesis using y assms(6) g(2) hour_entry_fires [of y m] minute_entry_fires [of y m]
          by (auto simp: cycle_span_def spans split: if_splits)
      qed
    qed
    then have "rotates i n t m \<longleftrightarrow> x \<in> set ts"
      using g(1) by (auto simp: rotates_def list_ex_iff)
    then show ?thesis using g(3) x by auto
  qed
  then show ?thesis by (auto intro!: ex1I [of _ "x div t mod n"])
qed

lemma rotation_round_robin_witness:
  "rotates 1 3 20 (1440 + 620) \<and> \<not> rotates 0 3 20 (1440 + 620) \<and> rotates 0 2 1440 0"
proof -
  have c: "cycle_span 3 20 = 60" "cycle_span 2 1440 = 10080" by (simp_all add: cycle_span_def spans)
  from rotation_round_robin [of 20 "1440 + 620" 3 20] rotation_round_robin [of 1440 0 2 0] c
  show ?thesis by (simp add: spans)
qed

text \<open>
  Weekly schedules take the hour from the minutes.  A job of the weekly branch for time
  \<open>x\<close> fires at \<open>x\<close> exactly when the hour of the day happens to equal the minute; with two
  hosts and 1000 minutes the first host misses minute 2000, and the second is given the
  hour 40.
\<close>

lemma weekly_hour_from_minutes:
  "(\<forall>x. fires (day_entry x) x \<longleftrightarrow> x div 60 mod 24 = x mod 60)
   \<and> \<not> rotates 0 2 1000 2000 \<and> 2000 mod cycle_span 2 1000 div 1000 mod 2 = 0
   \<and> (\<exists>crons. generate 1 2 1000 = Some (Inr crons) \<and> (\<exists>c \<in> set crons. cr_hour c = At 40))"
proof -
  have "generate 1 2 1000 = Some (Inr (map day_entry [1000, 3000, 5000, 7000, 9000]))"
    by code_simp
  moreover have "cr_hour (day_entry 1000) = At 40" by (simp add: day_entry_def spans)
  moreover have "\<not> rotates 0 2 1000 2000" by code_simp
  ultimately show ?thesis
    by (simp add: fires_def day_entry_def spans cycle_span_def)
qed

end
