(* ===== verification/MergeYaml.thy ===== *)
theory MergeYaml
  imports PyVal
begin

text \<open>
  The merge_yaml action plugin (\<open>ansible/action_plugins/merge_yaml.py\<close>):
  \<open>Utils.update_nested_conf\<close> and the loop of \<open>run\<close> over the sources.  A source is given by what
  \<open>yaml.safe_load\<close> returns for it, or None when the file cannot be read; templating, loading
  and dumping YAML and the copy action are Ansible's and PyYAML's.  Keys are strings.  Lists
  shared through YAML anchors within one document are values here.
\<close>

section \<open>The merge\<close>

fun is_dict :: "pyval \<Rightarrow> bool" where
  "is_dict (PyDict _) = True"
| "is_dict _ = False"

fun is_list :: "pyval \<Rightarrow> bool" where
  "is_list (PyList _) = True"
| "is_list _ = False"

text \<open>
  The value stored for a key that is not given a dict: a list already there is extended when
  the option asks for it.
\<close>

definition merge_leaf :: "bool \<Rightarrow> pyval option \<Rightarrow> pyval \<Rightarrow> pyexn + pyval" where
  "merge_leaf extend_lists old v =
     (case old of
        Some (PyList xs) \<Rightarrow>
          (if extend_lists
           then (case v of PyList ys \<Rightarrow> Inr (PyList (xs @ ys))
                         | _ \<Rightarrow> Inl (OtherError ''AnsibleModuleError''))
           else Inr v)
      | _ \<Rightarrow> Inr v)"

text \<open>
  \<open>update_nested_conf(conf, update, extend_lists)\<close>.  \<open>conf\<close> may turn out not to be a dict: then
  the first item raises, an AttributeError from \<open>conf.get\<close> or a TypeError from the lookup or
  the assignment; without items it is returned as it is.
\<close>

function update_nested_conf :: "bool \<Rightarrow> pyval \<Rightarrow> pyobj \<Rightarrow> pyexn + pyval" where
  "update_nested_conf extend_lists conf [] = Inr conf"
| "update_nested_conf extend_lists conf ((k, v) # rest) =
     (case conf of
        PyDict d \<Rightarrow>
          (case (case v of
                   PyDict u \<Rightarrow>
                     update_nested_conf extend_lists
                       (case map_of d k of None \<Rightarrow> PyDict [] | Some c \<Rightarrow> c) u
                 | _ \<Rightarrow> merge_leaf extend_lists (map_of d k) v) of
             Inl e \<Rightarrow> Inl e
           | Inr w \<Rightarrow> update_nested_conf extend_lists (PyDict (AList.update k w d)) rest)
      | _ \<Rightarrow> Inl (if is_dict v then AttributeError else TypeError))"
  by pat_completeness auto
termination by (relation "measure (\<lambda>(e, c, u). size_list (size_prod (\<lambda>_. 0) size) u)") auto

definition read_config :: "pyval option \<Rightarrow> pyval" where
  "read_config doc =
     (case doc of None \<Rightarrow> PyDict [] | Some v \<Rightarrow> (if truthy v then v else PyDict []))"

fun merge_sources :: "bool \<Rightarrow> pyval \<Rightarrow> pyval option list \<Rightarrow> pyexn + pyval" where
  "merge_sources extend_lists output [] = Inr output"
| "merge_sources extend_lists output (doc # docs) =
     (case read_config doc of
        PyDict u \<Rightarrow>
          (case update_nested_conf extend_lists output u of
             Inl e \<Rightarrow> Inl e
           | Inr output' \<Rightarrow> merge_sources extend_lists output' docs)
      | _ \<Rightarrow> Inl AttributeError)"

definition merge_yaml :: "bool \<Rightarrow> pyval option list \<Rightarrow> pyexn + pyval" where
  "merge_yaml extend_lists docs = merge_sources extend_lists (PyDict []) docs"

section \<open>Leaves of a document\<close>

text \<open>The value that is not a dict at a path of keys, and the paths that pass through a leaf.\<close>

fun leaf :: "pyval \<Rightarrow> string list \<Rightarrow> pyval option" where
  "leaf v [] = (if is_dict v then None else Some v)"
| "leaf (PyDict d) (k # ks) = (case map_of d k of None \<Rightarrow> None | Some w \<Rightarrow> leaf w ks)"
| "leaf _ (k # ks) = None"

fun shadows :: "pyval \<Rightarrow> string list \<Rightarrow> bool" where
  "shadows v [] = False"
| "shadows (PyDict d) (k # ks) = (case map_of d k of None \<Rightarrow> False | Some w \<Rightarrow> shadows w ks)"
| "shadows _ (k # ks) = True"

text \<open>What the merged document has at a path, from what the two documents have there.\<close>

definition merged_leaf :: "bool \<Rightarrow> pyval option \<Rightarrow> pyval option \<Rightarrow> bool \<Rightarrow> pyval option" where
  "merged_leaf extend_lists old new shadowed =
     (case new of
        None \<Rightarrow> (if shadowed then None else old)
      | Some v \<Rightarrow> (case (old, v) of
           (Some (PyList xs), PyList ys) \<Rightarrow> Some (if extend_lists then PyList (xs @ ys) else v)
         | _ \<Rightarrow> Some v))"

lemma leaf_not_dict: "\<not> is_dict v \<Longrightarrow> leaf v p = (if p = [] then Some v else None)"
  by (cases v; cases p) auto

lemma shadows_not_dict: "\<not> is_dict v \<Longrightarrow> shadows v p = (p \<noteq> [])"
  by (cases v; cases p) auto

lemma merge_leaf_merged:
  assumes "merge_leaf e old v = Inr w" and "\<not> is_dict v"
  shows "\<not> is_dict w" and "merged_leaf e (case old of None \<Rightarrow> None | Some c \<Rightarrow> leaf c []) (Some v) False = Some w"
  using assms by (auto simp: merge_leaf_def merged_leaf_def split: option.splits pyval.splits if_splits)

lemma leaf_empty [simp]: "leaf (PyDict []) p = None"
  by (cases p) auto

lemma merged_leaf_None [simp]: "merged_leaf e old None False = old" "merged_leaf e old None True = None"
  by (simp_all add: merged_leaf_def)

lemma update_leaf_aux:
  "wf_val (PyDict u) \<Longrightarrow> update_nested_conf e conf u = Inr conf' \<Longrightarrow>
   leaf conf' p = merged_leaf e (leaf conf p) (leaf (PyDict u) p) (shadows (PyDict u) p)"
proof (induction e conf u arbitrary: conf' p rule: update_nested_conf.induct)
  case (1 e conf)
  then show ?case by (cases p) auto
next
  case (2 e conf k v rest)
  from "2.prems"(2) obtain d where d: "conf = PyDict d" by (cases conf) auto
  define old where "old = (case map_of d k of None \<Rightarrow> PyDict [] | Some c \<Rightarrow> c)"
  from "2.prems"(2) d obtain w where w: "(case v of PyDict u \<Rightarrow> update_nested_conf e old u
      | _ \<Rightarrow> merge_leaf e (map_of d k) v) = Inr w"
    and rest: "update_nested_conf e (PyDict (AList.update k w d)) rest = Inr conf'"
    unfolding old_def by (simp split: sum.splits)
  have wf: "wf_val v" "wf_val (PyDict rest)" "map_of rest k = None"
    using "2.prems"(1) by (auto simp: map_of_eq_None_iff)
  have IH: "leaf conf' p = merged_leaf e (leaf (PyDict (AList.update k w d)) p) (leaf (PyDict rest) p)
      (shadows (PyDict rest) p)" for p
    using "2.IH"(2) [OF d w [unfolded old_def] wf(2) rest] .
  have new: "leaf w ks = merged_leaf e (leaf (PyDict d) (k # ks)) (leaf v ks) (shadows v ks)" for ks
  proof (cases "is_dict v")
    case True
    then obtain x where v: "v = PyDict x" by (cases v) auto
    with w have "leaf w ks = merged_leaf e (leaf old ks) (leaf v ks) (shadows v ks)"
      using "2.IH"(1) [OF d v] wf(1) by (simp add: old_def)
    moreover have "leaf old ks = leaf (PyDict d) (k # ks)"
      by (cases ks) (auto simp: old_def split: option.splits)
    ultimately show ?thesis by simp
  next
    case False
    with w have m: "merge_leaf e (map_of d k) v = Inr w" by (cases v) auto
    show ?thesis
    proof (cases ks)
      case Nil
      then show ?thesis using merge_leaf_merged [OF m False] False
        by (simp add: leaf_not_dict split: option.splits)
    next
      case (Cons a list)
      then show ?thesis using merge_leaf_merged(1) [OF m False] False
        by (simp add: leaf_not_dict shadows_not_dict)
    qed
  qed
  show ?case
  proof (cases p)
    case Nil
    then show ?thesis using IH [of p] d by simp
  next
    case (Cons l ks)
    then show ?thesis using IH [of p] new [of ks] wf(3) d by (cases "l = k") simp_all
  qed
qed

section \<open>Merging all the sources\<close>

lemma merge_sources_leaf:
  "list_all (\<lambda>doc. wf_val (read_config doc)) docs \<Longrightarrow> merge_sources e start docs = Inr output' \<Longrightarrow>
   leaf output' p = fold (\<lambda>doc acc. merged_leaf e acc (leaf (read_config doc) p) (shadows (read_config doc) p))
     docs (leaf start p)"
proof (induction docs arbitrary: start)
  case (Cons doc docs)
  obtain u where u: "read_config doc = PyDict u"
    using Cons.prems(2) by (auto split: pyval.splits)
  then obtain out where out: "update_nested_conf e start u = Inr out" "merge_sources e out docs = Inr output'"
    using Cons.prems(2) by (auto split: sum.splits)
  have "wf_val (PyDict u)" using Cons.prems(1) u by simp
  from update_leaf_aux [OF this out(1)] show ?case
    using Cons.IH [OF _ out(2)] Cons.prems(1) u by (simp del: wf_val.simps)
qed simp

text \<open>The last source that says something of a path, by a leaf there or by one above it.\<close>

definition last_word :: "pyval option list \<Rightarrow> string list \<Rightarrow> pyval option" where
  "last_word docs p =
     (case find (\<lambda>d. leaf d p \<noteq> None \<or> shadows d p) (rev (map read_config docs)) of
        None \<Rightarrow> None | Some d \<Rightarrow> leaf d p)"

lemma merged_leaf_replace: "merged_leaf False old new s = (if new \<noteq> None \<or> s then new else old)"
  by (auto simp: merged_leaf_def split: option.splits pyval.splits)

lemma find_append: "find P (xs @ ys) = (case find P xs of None \<Rightarrow> find P ys | Some x \<Rightarrow> Some x)"
  by (induction xs) auto

lemma fold_last_word:
  "fold (\<lambda>doc acc. merged_leaf False acc (leaf (read_config doc) p) (shadows (read_config doc) p)) docs old =
     (case find (\<lambda>d. leaf d p \<noteq> None \<or> shadows d p) (rev (map read_config docs)) of
        None \<Rightarrow> old | Some d \<Rightarrow> leaf d p)"
  by (induction docs arbitrary: old) (auto simp: merged_leaf_replace find_append split: option.splits)

text \<open>
  C31. The later source wins.  Without \<open>extend_lists\<close>, whatever the nesting, the merged document
  has at every path the leaf of the last source that has a leaf at the path or above it; a
  source that cannot be read counts as empty.  So merging the result's last source again
  changes nothing.
\<close>

theorem merge_yaml_last_wins:
  assumes "list_all (\<lambda>doc. wf_val (read_config doc)) docs" and "merge_yaml False docs = Inr out"
  shows "leaf out p = last_word docs p
    \<and> (\<forall>out2. docs \<noteq> [] \<and> merge_yaml False (docs @ [last docs]) = Inr out2 \<longrightarrow> leaf out2 p = leaf out p)"
proof -
  have lw: "leaf out p = last_word docs p"
    if "list_all (\<lambda>doc. wf_val (read_config doc)) docs" "merge_yaml False docs = Inr out" for docs out
    using merge_sources_leaf [OF that(1) that(2) [unfolded merge_yaml_def], of p]
    by (simp add: fold_last_word last_word_def leaf_empty)
  have "last_word (docs @ [last docs]) p = last_word docs p" if "docs \<noteq> []"
    using that by (cases docs rule: rev_cases) (simp_all add: last_word_def)
  moreover have "list_all (\<lambda>doc. wf_val (read_config doc)) (docs @ [last docs])" if "docs \<noteq> []"
    using that assms(1) by (simp add: list_all_iff del: wf_val.simps)
  ultimately have "leaf out2 p = last_word docs p"
    if "docs \<noteq> []" "merge_yaml False (docs @ [last docs]) = Inr out2" for out2
    using that lw [of "docs @ [last docs]" out2] by (simp only: simp_thms)
  with lw [OF assms] show ?thesis by simp
qed

theorem merge_yaml_last_wins_witness:
  "\<exists>out. merge_yaml False
       [Some (PyDict [(''a'', PyDict [(''x'', PyInt 1), (''y'', PyInt 2)]), (''b'', PyDict [(''z'', PyInt 3)])]),
        None, Some (PyDict [(''a'', PyDict [(''x'', PyInt 9)]), (''b'', PyNone)])] = Inr out
     \<and> leaf out [''a'', ''x''] = Some (PyInt 9) \<and> leaf out [''a'', ''y''] = Some (PyInt 2)
     \<and> leaf out [''b'', ''z''] = None"
proof -
  let ?docs = "[Some (PyDict [(''a'', PyDict [(''x'', PyInt 1), (''y'', PyInt 2)]), (''b'', PyDict [(''z'', PyInt 3)])]),
        None, Some (PyDict [(''a'', PyDict [(''x'', PyInt 9)]), (''b'', PyNone)])]"
  obtain out where out: "merge_yaml False ?docs = Inr out"
    by (simp add: merge_yaml_def read_config_def merge_leaf_def)
  have "list_all (\<lambda>doc. wf_val (read_config doc)) ?docs" by (simp add: read_config_def)
  from merge_yaml_last_wins [OF this out] out show ?thesis
    by (simp add: last_word_def read_config_def)
qed

section \<open>Extending lists\<close>

definition list_items :: "pyval option \<Rightarrow> pyval list" where
  "list_items x = (case x of Some (PyList xs) \<Rightarrow> xs | _ \<Rightarrow> [])"

text \<open>A source with a list at the path, or with nothing there and nothing above.\<close>

definition lists_at :: "string list \<Rightarrow> pyval \<Rightarrow> bool" where
  "lists_at p d \<longleftrightarrow> (leaf d p = None \<or> (\<exists>xs. leaf d p = Some (PyList xs))) \<and> \<not> shadows d p"

lemma fold_extended:
  "list_all (\<lambda>doc. lists_at p (read_config doc)) docs \<Longrightarrow> old = None \<or> (\<exists>xs. old = Some (PyList xs)) \<Longrightarrow>
   fold (\<lambda>doc acc. merged_leaf True acc (leaf (read_config doc) p) (shadows (read_config doc) p)) docs old =
     (if old = None \<and> (\<forall>doc \<in> set docs. leaf (read_config doc) p = None) then None
      else Some (PyList (list_items old @ concat (map (\<lambda>doc. list_items (leaf (read_config doc) p)) docs))))"
proof (induction docs arbitrary: old)
  case (Cons doc docs)
  let ?new = "merged_leaf True old (leaf (read_config doc) p) (shadows (read_config doc) p)"
  have "?new = None \<or> (\<exists>xs. ?new = Some (PyList xs))"
    and "?new = None \<longleftrightarrow> old = None \<and> leaf (read_config doc) p = None"
    and "list_items ?new = list_items old @ list_items (leaf (read_config doc) p)"
    using Cons.prems by (auto simp: merged_leaf_def lists_at_def list_items_def)
  with Cons.IH [of ?new] Cons.prems(1) show ?case by auto
qed (auto simp: list_items_def)

text \<open>
  With \<open>extend_lists\<close>, a path where the sources have lists only holds their concatenation, in
  the order of the sources.
\<close>

lemma merge_yaml_extends:
  assumes "list_all (\<lambda>doc. wf_val (read_config doc)) docs" and "merge_yaml True docs = Inr out"
    and "list_all (\<lambda>doc. lists_at p (read_config doc)) docs"
    and "\<exists>doc \<in> set docs. leaf (read_config doc) p \<noteq> None"
  shows "leaf out p = Some (PyList (concat (map (\<lambda>doc. list_items (leaf (read_config doc) p)) docs)))"
  using merge_sources_leaf [OF assms(1) assms(2) [unfolded merge_yaml_def], of p] assms(4)
    fold_extended [OF assms(3), of None]
  by (auto simp: leaf_empty list_items_def [of None])

lemma merge_yaml_extends_witness:
  "\<exists>out. merge_yaml True [Some (PyDict [(''f'', PyList [PyStr ''a''])]), Some (PyDict [(''f'', PyList [PyStr ''b''])])] = Inr out
     \<and> leaf out [''f''] = Some (PyList [PyStr ''a'', PyStr ''b''])"
proof -
  let ?docs = "[Some (PyDict [(''f'', PyList [PyStr ''a''])]), Some (PyDict [(''f'', PyList [PyStr ''b''])])]"
  obtain out where out: "merge_yaml True ?docs = Inr out"
    by (simp add: merge_yaml_def read_config_def merge_leaf_def)
  have "leaf out [''f''] = Some (PyList (concat (map (\<lambda>doc. list_items (leaf (read_config doc) [''f''])) ?docs)))"
    by (rule merge_yaml_extends [OF _ out]) (simp_all add: read_config_def lists_at_def)
  with out show ?thesis by (simp add: read_config_def list_items_def)
qed

section \<open>When a merge fails\<close>

fun subtree :: "pyval \<Rightarrow> string list \<Rightarrow> pyval option" where
  "subtree v [] = Some v"
| "subtree (PyDict d) (k # ks) = (case map_of d k of None \<Rightarrow> None | Some w \<Rightarrow> subtree w ks)"
| "subtree _ (k # ks) = None"

text \<open>What may be given where the configuration already has the value \<open>old\<close>, not a dict.\<close>

definition compatible :: "bool \<Rightarrow> pyval \<Rightarrow> pyval \<Rightarrow> bool" where
  "compatible e old v \<longleftrightarrow>
     (case v of PyDict u \<Rightarrow> u = [] | PyList _ \<Rightarrow> True | _ \<Rightarrow> \<not> (e \<and> is_list old))"

definition clash_free :: "bool \<Rightarrow> pyval \<Rightarrow> pyval \<Rightarrow> bool" where
  "clash_free e conf v \<longleftrightarrow>
     (\<forall>p old w. leaf conf p = Some old \<longrightarrow> subtree v p = Some w \<longrightarrow> compatible e old w)"

lemma clash_free_Cons:
  assumes "map_of rest k = None"
  shows "clash_free e (PyDict d) (PyDict ((k, v) # rest)) \<longleftrightarrow>
    (\<forall>c. map_of d k = Some c \<longrightarrow> clash_free e c v) \<and> clash_free e (PyDict d) (PyDict rest)"
proof -
  have split: "clash_free e (PyDict d) (PyDict u) \<longleftrightarrow>
      (\<forall>l c w. map_of d l = Some c \<longrightarrow> map_of u l = Some w \<longrightarrow> clash_free e c w)" for u
  proof
    assume c: "clash_free e (PyDict d) (PyDict u)"
    show "\<forall>l c w. map_of d l = Some c \<longrightarrow> map_of u l = Some w \<longrightarrow> clash_free e c w"
    proof (intro allI impI)
      fix l a b assume ab: "map_of d l = Some a" "map_of u l = Some b"
      have "compatible e old w" if "leaf a p = Some old" "subtree b p = Some w" for p old w
        using c [unfolded clash_free_def, rule_format, of "l # p" old w] ab that by simp
      then show "clash_free e a b" by (simp add: clash_free_def)
    qed
  next
    assume c: "\<forall>l c w. map_of d l = Some c \<longrightarrow> map_of u l = Some w \<longrightarrow> clash_free e c w"
    show "clash_free e (PyDict d) (PyDict u)"
      unfolding clash_free_def
    proof (intro allI impI)
      fix p old w
      assume "leaf (PyDict d) p = Some old" "subtree (PyDict u) p = Some w"
      with c show "compatible e old w"
        by (cases p) (auto simp: clash_free_def split: option.splits)
    qed
  qed
  show ?thesis using assms by (auto simp: split) (metis option.distinct(1))
qed

lemma clash_free_update:
  assumes "map_of rest k = None"
  shows "clash_free e (PyDict (AList.update k w d)) (PyDict rest) \<longleftrightarrow> clash_free e (PyDict d) (PyDict rest)"
proof -
  have "(leaf (PyDict (AList.update k w d)) p = Some old \<and> subtree (PyDict rest) p = Some v) \<longleftrightarrow>
     (leaf (PyDict d) p = Some old \<and> subtree (PyDict rest) p = Some v)" for p old v
    using assms by (cases p) auto
  then show ?thesis unfolding clash_free_def by blast
qed

lemma merge_leaf_ok:
  "\<not> is_dict v \<Longrightarrow> (\<exists>w. merge_leaf e old v = Inr w) \<longleftrightarrow> (\<forall>c. old = Some c \<longrightarrow> clash_free e c v)"
proof -
  assume v: "\<not> is_dict v"
  have "subtree v p = (if p = [] then Some v else None)" for p
    using v by (cases v; cases p) auto
  then have "clash_free e c v \<longleftrightarrow> (\<not> is_dict c \<longrightarrow> compatible e c v)" for c
    by (auto simp: clash_free_def)
  then show ?thesis using v
    by (cases v) (auto simp: merge_leaf_def compatible_def split: option.splits pyval.splits)
qed

text \<open>The value merged under one key, and the errors of the merge.\<close>

definition merge_item :: "bool \<Rightarrow> pyval option \<Rightarrow> pyval \<Rightarrow> pyexn + pyval" where
  "merge_item e old v =
     (case v of
        PyDict u \<Rightarrow> update_nested_conf e (case old of None \<Rightarrow> PyDict [] | Some c \<Rightarrow> c) u
      | _ \<Rightarrow> merge_leaf e old v)"

lemma update_nested_conf_dict:
  "update_nested_conf e (PyDict d) ((k, v) # rest) =
     (case merge_item e (map_of d k) v of Inl err \<Rightarrow> Inl err
      | Inr w \<Rightarrow> update_nested_conf e (PyDict (AList.update k w d)) rest)"
  by (simp add: merge_item_def)

definition merge_errors :: "pyexn set" where
  "merge_errors = {AttributeError, TypeError, OtherError ''AnsibleModuleError''}"

text \<open>A result that is an error of the merge exactly unless \<open>ok\<close>.\<close>

definition settled :: "pyexn + pyval \<Rightarrow> bool \<Rightarrow> bool" where
  "settled r ok \<longleftrightarrow> (case r of Inl err \<Rightarrow> \<not> ok \<and> err \<in> merge_errors | Inr _ \<Rightarrow> ok)"

lemma clash_free_empty [simp]: "clash_free e (PyDict []) v"
  by (simp add: clash_free_def)

lemma clash_free_nothing [simp]: "clash_free e c (PyDict [])"
proof -
  have "subtree (PyDict []) p = (if p = [] then Some (PyDict []) else None)" for p
    by (cases p) auto
  then show ?thesis by (auto simp: clash_free_def compatible_def)
qed

lemma merge_item_settled:
  assumes "\<And>u. v = PyDict u \<Longrightarrow>
      settled (update_nested_conf e (case old of None \<Rightarrow> PyDict [] | Some c \<Rightarrow> c) u)
        (clash_free e (case old of None \<Rightarrow> PyDict [] | Some c \<Rightarrow> c) (PyDict u))"
  shows "settled (merge_item e old v) (\<forall>c. old = Some c \<longrightarrow> clash_free e c v)"
proof (cases "is_dict v")
  case True
  then obtain u where "v = PyDict u" by (cases v) auto
  with assms [OF this] show ?thesis by (simp add: merge_item_def split: option.splits)
next
  case False
  then have "merge_item e old v = merge_leaf e old v" by (cases v) (simp_all add: merge_item_def)
  moreover have "err \<in> merge_errors" if "merge_leaf e old v = Inl err" for err
    using that by (auto simp: merge_leaf_def merge_errors_def split: option.splits pyval.splits if_splits)
  ultimately show ?thesis using merge_leaf_ok [OF False, of e old]
    by (auto simp: settled_def split: sum.splits)
qed

lemma update_nested_conf_settled:
  "wf_val (PyDict u) \<Longrightarrow> settled (update_nested_conf e conf u) (clash_free e conf (PyDict u))"
proof (induction e conf u rule: update_nested_conf.induct)
  case (1 e conf)
  show ?case by (simp add: settled_def)
next
  case (2 e conf k v rest)
  have wf: "wf_val v" "wf_val (PyDict rest)" "map_of rest k = None"
    using "2.prems" by (auto simp: map_of_eq_None_iff)
  show ?case
  proof (cases "is_dict conf")
    case False
    then have "\<not> clash_free e conf (PyDict ((k, v) # rest))"
      by (auto simp: clash_free_def compatible_def leaf_not_dict intro!: exI [of _ "[]"])
    with False show ?thesis by (cases conf) (auto simp: settled_def merge_errors_def)
  next
    case True
    then obtain d where d: "conf = PyDict d" by (cases conf) auto
    have item: "settled (merge_item e (map_of d k) v) (\<forall>c. map_of d k = Some c \<longrightarrow> clash_free e c v)"
      by (rule merge_item_settled) (use "2.IH"(1) [OF d] wf(1) in simp)
    show ?thesis
    proof (cases "merge_item e (map_of d k) v")
      case (Inl err)
      with item show ?thesis
        by (auto simp: d update_nested_conf_dict clash_free_Cons [OF wf(3)] settled_def
            simp del: update_nested_conf.simps)
    next
      case (Inr w)
      with "2.IH"(2) [OF d _ wf(2), of w] item show ?thesis
        by (auto simp: d update_nested_conf_dict clash_free_Cons [OF wf(3)] clash_free_update [OF wf(3)]
            merge_item_def [symmetric] settled_def simp del: update_nested_conf.simps)
    qed
  qed
qed

text \<open>
  When a merge fails.  Merging an update into a configuration succeeds exactly if nowhere a
  value that is not a dict would have to take a non-empty dict, and, with \<open>extend_lists\<close>, no
  list would have to be extended by something else; otherwise it raises one of three errors,
  and only the last kind is the one the code words itself.
\<close>

lemma update_nested_conf_total:
  assumes "wf_val (PyDict u)"
  shows "((\<exists>conf'. update_nested_conf e conf u = Inr conf') \<longleftrightarrow> clash_free e conf (PyDict u))
    \<and> (\<forall>err. update_nested_conf e conf u = Inl err \<longrightarrow>
          err \<in> {AttributeError, TypeError, OtherError ''AnsibleModuleError''})"
  using update_nested_conf_settled [OF assms, of e conf]
  by (auto simp: settled_def merge_errors_def split: sum.splits)

lemma update_nested_conf_total_witness:
  "\<not> (\<exists>c. update_nested_conf False (PyDict [(''a'', PyInt 1)]) [(''a'', PyDict [(''b'', PyInt 2)])] = Inr c)
   \<and> (\<exists>c. update_nested_conf False (PyDict [(''a'', PyInt 1)]) [(''a'', PyDict [])] = Inr c)"
proof -
  have "\<not> clash_free False (PyDict [(''a'', PyInt 1)]) (PyDict [(''a'', PyDict [(''b'', PyInt 2)])])"
    by (auto simp: clash_free_def compatible_def intro!: exI [of _ "[''a'']"])
  moreover have "clash_free False (PyDict [(''a'', PyInt 1)]) (PyDict [(''a'', PyDict [])])"
    by (simp add: clash_free_Cons)
  ultimately show ?thesis
    using update_nested_conf_total [of "[(''a'', PyDict [(''b'', PyInt 2)])]" False "PyDict [(''a'', PyInt 1)]"]
      update_nested_conf_total [of "[(''a'', PyDict [])]" False "PyDict [(''a'', PyInt 1)]"] by simp
qed

end
