(* ===== verification/MergeConfigs.thy ===== *)
theory MergeConfigs
  imports PyVal
begin

text \<open>
  The merge_configs action plugin (\<open>ansible/action_plugins/merge_configs.py\<close>):
  \<open>OverrideConfigParser\<close> with its four methods, and the loop of \<open>run\<close> over the sources.

  The base class is oslo.config's \<open>BaseParser\<close>: its \<open>parse\<close> reads lines and calls
  \<open>new_section\<close> and \<open>assignment\<close>.  A source is given by the list of these calls, or None when
  the file cannot be read.  The object \<open>_cur_section\<close> is always the dict stored in
  \<open>_cur_sections\<close> under some name, so the model keeps the name.
\<close>

section \<open>The parser\<close>

datatype ini_call = NewSection string | Assignment string "string list"

type_synonym ini_section = "(string, string list list) pydict"

record override_parser =
  cur_sections :: "(string, ini_section) pydict"
  sections :: "(string, ini_section) pydict"
  cur_section :: "string option"
  whitespace :: string

definition ORPHAN_SECTION :: string where
  "ORPHAN_SECTION = ''TEMPORARY_ORPHAN_VARIABLE_SECTION''"

definition init_parser :: "bool \<Rightarrow> override_parser" where
  "init_parser ws = \<lparr>cur_sections = [], sections = [], cur_section = None,
     whitespace = (if ws then '' '' else [])\<rparr>"

text \<open>A section that is there but empty is replaced by a new dict, under the same name.\<close>

definition new_section :: "string \<Rightarrow> override_parser \<Rightarrow> override_parser" where
  "new_section section P =
     (let P' = (case map_of (cur_sections P) section of
                  Some (x # xs) \<Rightarrow> P
                | _ \<Rightarrow> P\<lparr>cur_sections := AList.update section [] (cur_sections P)\<rparr>)
      in P'\<lparr>cur_section := Some section\<rparr>)"

definition normal_value :: "string list \<Rightarrow> string list" where
  "normal_value value = (if value = [[]] then [] else value)"

definition add_value :: "string \<Rightarrow> string list \<Rightarrow> ini_section \<Rightarrow> ini_section" where
  "add_value key value sec =
     (case map_of sec key of
        Some (v # vs) \<Rightarrow> AList.update key ((v # vs) @ [value]) sec
      | _ \<Rightarrow> AList.update key [value] sec)"

definition assignment :: "string \<Rightarrow> string list \<Rightarrow> override_parser \<Rightarrow> override_parser" where
  "assignment key value P =
     (let P' = (if cur_section P = None then new_section ORPHAN_SECTION P else P);
          name = the (cur_section P');
          sec = the (map_of (cur_sections P') name)
      in P'\<lparr>cur_sections := AList.update name (add_value key (normal_value value) sec) (cur_sections P')\<rparr>)"

fun ini_call_run :: "ini_call \<Rightarrow> override_parser \<Rightarrow> override_parser" where
  "ini_call_run (NewSection s) P = new_section s P"
| "ini_call_run (Assignment k v) P = assignment k v P"

definition merge_section :: "string \<times> ini_section \<Rightarrow> (string, ini_section) pydict \<Rightarrow> (string, ini_section) pydict" where
  "merge_section sv secs =
     (case sv of (section, values) \<Rightarrow>
        (let old = (case map_of secs section of None \<Rightarrow> [] | Some o' \<Rightarrow> o')
         in AList.update section (dict_update old values) secs))"

definition parse :: "ini_call list \<Rightarrow> override_parser \<Rightarrow> override_parser" where
  "parse calls P =
     (let P' = fold ini_call_run calls (P\<lparr>cur_sections := [], cur_section := None\<rparr>)
      in P'\<lparr>sections := fold merge_section (cur_sections P') (sections P')\<rparr>)"

section \<open>Writing\<close>

definition newline :: string where
  "newline = [CHR 0x0A]"

definition write_value :: "string \<Rightarrow> string \<Rightarrow> string list \<Rightarrow> string" where
  "write_value ws key v =
     (case v of
        [] \<Rightarrow> key @ ws @ ''='' @ newline
      | value # others \<Rightarrow>
          key @ ws @ ''='' @ ws @ value @ newline
          @ concat (map (\<lambda>m. replicate (length key + length ws * 2 + 1) (CHR '' '') @ m @ newline) others))"

definition write_section :: "string \<Rightarrow> ini_section \<Rightarrow> string" where
  "write_section ws sec =
     concat (map (\<lambda>(key, values). concat (map (write_value ws key) values)) sec)"

definition write_config :: "override_parser \<Rightarrow> string" where
  "write_config P =
     concat (map (\<lambda>(section, sec).
       (if section \<noteq> ORPHAN_SECTION then ''['' @ section @ '']'' @ newline else [])
       @ write_section (whitespace P) sec @ newline) (sections P))"

definition read_source :: "ini_call list option \<Rightarrow> override_parser \<Rightarrow> override_parser" where
  "read_source source P = (case source of None \<Rightarrow> P | Some calls \<Rightarrow> parse calls P)"

definition merge_configs :: "bool \<Rightarrow> ini_call list option list \<Rightarrow> override_parser" where
  "merge_configs ws sources = fold read_source sources (init_parser ws)"

section \<open>What a source says\<close>

text \<open>
  The values a source gives to a key of a section, in order; keys before the first section
  header belong to the orphan section.
\<close>

fun said_in :: "string \<Rightarrow> ini_call list \<Rightarrow> string \<Rightarrow> string \<Rightarrow> string list list" where
  "said_in cur [] s k = []"
| "said_in cur (NewSection n # calls) s k = said_in n calls s k"
| "said_in cur (Assignment key v # calls) s k =
     (if cur = s \<and> key = k then [normal_value v] else []) @ said_in cur calls s k"

definition said :: "ini_call list \<Rightarrow> string \<Rightarrow> string \<Rightarrow> string list list" where
  "said calls = said_in ORPHAN_SECTION calls"

definition values_of :: "(string, ini_section) pydict \<Rightarrow> string \<Rightarrow> string \<Rightarrow> string list list option" where
  "values_of secs s k = (case map_of secs s of None \<Rightarrow> None | Some sec \<Rightarrow> map_of sec k)"

text \<open>The sections read from one source: no repeated names, no key without a value, and the
  current section among them.\<close>

definition wf_cur :: "override_parser \<Rightarrow> bool" where
  "wf_cur P \<longleftrightarrow> wf_dict (cur_sections P)
     \<and> (\<forall>s sec. map_of (cur_sections P) s = Some sec \<longrightarrow> wf_dict sec \<and> (\<forall>k. map_of sec k \<noteq> Some []))
     \<and> (\<forall>s. cur_section P = Some s \<longrightarrow> map_of (cur_sections P) s \<noteq> None)
     \<and> (cur_section P = None \<longrightarrow> cur_sections P = [])"

definition cur_name :: "override_parser \<Rightarrow> string" where
  "cur_name P = (case cur_section P of None \<Rightarrow> ORPHAN_SECTION | Some s \<Rightarrow> s)"

definition cur_values :: "override_parser \<Rightarrow> string \<Rightarrow> string \<Rightarrow> string list list" where
  "cur_values P s k = (case values_of (cur_sections P) s k of None \<Rightarrow> [] | Some vs \<Rightarrow> vs)"

lemma new_section_wf:
  assumes "wf_cur P"
  shows "wf_cur (new_section s P)" "cur_name (new_section s P) = s" "sections (new_section s P) = sections P"
    "cur_values (new_section s P) t k = cur_values P t k" "cur_section (new_section s P) = Some s"
  using assms
  by (auto simp: new_section_def wf_cur_def cur_name_def cur_values_def values_of_def Let_def
      split: option.splits list.splits)

lemma add_value_get:
  assumes "\<forall>k. map_of sec k \<noteq> Some []"
  shows "map_of (add_value key v sec) k =
    (if k = key then Some ((case map_of sec key of None \<Rightarrow> [] | Some vs \<Rightarrow> vs) @ [v]) else map_of sec k)"
proof (cases "map_of sec key")
  case (Some vs)
  with assms show ?thesis by (cases vs) (auto simp: add_value_def)
qed (simp add: add_value_def)

lemma wf_add_value: "wf_dict sec \<Longrightarrow> wf_dict (add_value key v sec)"
  by (auto simp: add_value_def split: option.splits list.splits)

lemma assignment_current:
  assumes "wf_cur P" "cur_section P = Some name"
  shows "wf_cur (assignment key v P)" "cur_name (assignment key v P) = name"
    "sections (assignment key v P) = sections P"
    "cur_values (assignment key v P) s k =
       cur_values P s k @ (if name = s \<and> key = k then [normal_value v] else [])"
proof -
  obtain sec where sec: "map_of (cur_sections P) name = Some sec" "wf_dict sec" "\<forall>k. map_of sec k \<noteq> Some []"
    using assms unfolding wf_cur_def by blast
  then show "wf_cur (assignment key v P)" using assms
    by (auto simp: assignment_def Let_def wf_cur_def add_value_get wf_add_value)
  show "cur_name (assignment key v P) = name" "sections (assignment key v P) = sections P"
    using assms by (simp_all add: assignment_def Let_def cur_name_def)
  show "cur_values (assignment key v P) s k =
       cur_values P s k @ (if name = s \<and> key = k then [normal_value v] else [])"
    using assms sec
    by (auto simp: assignment_def Let_def cur_values_def values_of_def add_value_get split: option.splits)
qed

lemma assignment_wf:
  assumes "wf_cur P"
  shows "wf_cur (assignment key v P)" "cur_name (assignment key v P) = cur_name P"
    "sections (assignment key v P) = sections P"
    "cur_values (assignment key v P) s k =
       cur_values P s k @ (if cur_name P = s \<and> key = k then [normal_value v] else [])"
proof -
  let ?P = "if cur_section P = None then new_section ORPHAN_SECTION P else P"
  have eq: "assignment key v P = assignment key v ?P"
    by (cases "cur_section P")
      (simp_all add: assignment_def Let_def new_section_def split: option.splits list.splits)
  have cur: "cur_section ?P = Some (cur_name P)"
    by (auto simp: cur_name_def new_section_def Let_def split: option.splits list.splits)
  have same: "wf_cur ?P" "sections ?P = sections P" "cur_values ?P s k = cur_values P s k"
    using new_section_wf [OF assms] assms by simp_all
  show "wf_cur (assignment key v P)" "cur_name (assignment key v P) = cur_name P"
    "sections (assignment key v P) = sections P"
    "cur_values (assignment key v P) s k =
       cur_values P s k @ (if cur_name P = s \<and> key = k then [normal_value v] else [])"
    unfolding eq using assignment_current [OF same(1) cur] same by simp_all
qed

lemma calls_said:
  "wf_cur P \<Longrightarrow> wf_cur (fold ini_call_run calls P) \<and> sections (fold ini_call_run calls P) = sections P
     \<and> cur_values (fold ini_call_run calls P) s k = cur_values P s k @ said_in (cur_name P) calls s k"
proof (induction calls arbitrary: P)
  case (Cons c calls)
  show ?case
  proof (cases c)
    case (NewSection n)
    then show ?thesis using Cons.IH [OF new_section_wf(1) [OF Cons.prems]] new_section_wf [OF Cons.prems]
      by simp
  next
    case (Assignment key v)
    then show ?thesis using Cons.IH [OF assignment_wf(1) [OF Cons.prems]] assignment_wf [OF Cons.prems]
      by simp
  qed
qed simp

lemma merge_section_get:
  "wf_dict sec \<Longrightarrow> values_of (merge_section (n, sec) secs) s k =
     (if s = n then (case map_of sec k of None \<Rightarrow> values_of secs s k | Some vs \<Rightarrow> Some vs) else values_of secs s k)"
  by (auto simp: merge_section_def values_of_def Let_def dict_update_get split: option.splits)

lemma values_of_Cons:
  "values_of ((n, sec) # cs) s k = (if s = n then map_of sec k else values_of cs s k)"
  by (simp add: values_of_def)

lemma values_of_absent: "map_of cs s = None \<Longrightarrow> values_of cs s k = None"
  by (simp add: values_of_def)

lemma merge_sections_get:
  "wf_dict cs \<Longrightarrow> \<forall>s sec. map_of cs s = Some sec \<longrightarrow> wf_dict sec \<Longrightarrow>
   values_of (fold merge_section cs secs) s k =
     (case values_of cs s k of None \<Rightarrow> values_of secs s k | Some vs \<Rightarrow> Some vs)"
proof (induction cs arbitrary: secs)
  case (Cons c cs)
  obtain n sec where c: "c = (n, sec)" by fastforce
  with Cons.prems have n: "map_of cs n = None" by (simp add: map_of_eq_None_iff)
  have "\<forall>s sec. map_of cs s = Some sec \<longrightarrow> wf_dict sec" and sec: "wf_dict sec"
    using Cons.prems(2) n c by (auto split: if_splits) (metis option.distinct(1))
  with Cons.IH [of "merge_section c secs"] Cons.prems(1) c n show ?case
    by (auto simp: merge_section_get [OF sec] values_of_Cons values_of_absent split: option.splits)
qed (simp add: values_of_def)

lemma parse_values:
  "values_of (sections (parse calls P)) s k =
     (if said calls s k = [] then values_of (sections P) s k else Some (said calls s k))"
proof -
  let ?P0 = "P\<lparr>cur_sections := [], cur_section := None\<rparr>"
  let ?P1 = "fold ini_call_run calls ?P0"
  have "wf_cur ?P0" by (simp add: wf_cur_def)
  from calls_said [OF this, of calls s k]
  have f: "wf_cur ?P1" "sections ?P1 = sections P" "cur_values ?P1 s k = said calls s k"
    by (simp_all add: said_def cur_name_def cur_values_def values_of_def)
  have "values_of (cur_sections ?P1) s k \<noteq> Some []"
    using f(1) by (auto simp: values_of_def wf_cur_def split: option.splits)
  with f(3) have "values_of (cur_sections ?P1) s k = (if said calls s k = [] then None else Some (said calls s k))"
    by (auto simp: cur_values_def split: option.splits)
  moreover have "sections (parse calls P) = fold merge_section (cur_sections ?P1) (sections P)"
    using f(2) by (simp add: parse_def Let_def)
  ultimately show ?thesis
    using merge_sections_get [of "cur_sections ?P1" "sections P" s k] f(1) by (auto simp: wf_cur_def)
qed

text \<open>
  C32. The later source wins, key by key.  In the merged configuration a key of a section has
  exactly the values the last source mentioning it there gives it, in that source's order
  (an empty value as a value with no lines); sources that cannot be read do not count.
\<close>

theorem merge_configs_last_wins:
  "values_of (sections (merge_configs ws sources)) s k =
     (case find (\<lambda>calls. said calls s k \<noteq> []) (rev (map the (filter (\<lambda>x. x \<noteq> None) sources))) of
        None \<Rightarrow> None | Some calls \<Rightarrow> Some (said calls s k))"
proof -
  have "values_of (sections (fold read_source sources P)) s k =
     (case find (\<lambda>calls. said calls s k \<noteq> []) (rev (map the (filter (\<lambda>x. x \<noteq> None) sources))) of
        None \<Rightarrow> values_of (sections P) s k | Some calls \<Rightarrow> Some (said calls s k))" for P
  proof (induction sources arbitrary: P)
    case (Cons source sources)
    have find_snoc: "find Q (xs @ [x]) = (case find Q xs of None \<Rightarrow> (if Q x then Some x else None) | Some y \<Rightarrow> Some y)"
      for Q :: "ini_call list \<Rightarrow> bool" and xs x by (induction xs) auto
    show ?case using Cons [of "read_source source P"]
      by (cases source) (auto simp: read_source_def parse_values find_snoc split: option.splits)
  qed simp
  from this [of "init_parser ws"] show ?thesis
    by (simp only: merge_configs_def) (simp add: init_parser_def values_of_def [of "[]"] cong: option.case_cong)
qed

text \<open>
  Keys without a section may end up in another one.  When a later source is the first to
  have keys before any section header, they are written after the earlier sections and
  without a header of their own, so that they fall into the section written before.
\<close>

lemma orphan_keys_misplaced:
  "write_config (merge_configs True
      [Some [NewSection ''DEFAULT'', Assignment ''debug'' [''True'']],
       Some [Assignment ''key'' [''v1'', ''v2'']]])
   = ''[DEFAULT]'' @ newline @ ''debug = True'' @ newline @ newline
     @ ''key = v1'' @ newline @ ''      v2'' @ newline @ newline
   \<and> said [Assignment ''key'' [''v1'', ''v2'']] ''DEFAULT'' ''key'' = []"
  by code_simp

end
