(* ===== verification/MergeActions.thy ===== *)
theory MergeActions
  imports MergeYaml MergeConfigs
begin

text \<open>
  The \<open>run\<close> methods of the two merging action plugins (\<open>ansible/action_plugins/merge_yaml.py\<close>,
  \<open>merge_configs.py\<close>): read and merge the sources, write the result into a temporary directory, let
  Ansible's copy action take it from there, and remove the directory.  The controller is a
  record of functions over its state: reading a source (templating and parsing included), making
  and removing a directory, writing a file, running the copy action with its arguments.  The world
  adds the variables of the templar and the log of what was done.
\<close>

section \<open>The controller\<close>

datatype plugin_event =
    MadeDir string
  | Wrote string string
  | CopyRun pyobj
  | RemovedDir string

record ('s, 'd) controller =
  ct_read :: "pyval \<Rightarrow> pyobj \<Rightarrow> 's \<Rightarrow> (pyexn + 'd option) \<times> 's"
  ct_mkdtemp :: "'s \<Rightarrow> (pyexn + string) \<times> 's"
  ct_write :: "string \<Rightarrow> string \<Rightarrow> 's \<Rightarrow> (pyexn + unit) \<times> 's"
  ct_copy :: "pyobj \<Rightarrow> pyobj \<Rightarrow> 's \<Rightarrow> (pyexn + pyobj) \<times> 's"
  ct_rmtree :: "string \<Rightarrow> 's \<Rightarrow> (pyexn + unit) \<times> 's"

record 's plugin_world =
  pl_state :: 's
  pl_vars :: pyobj
  pl_log :: "plugin_event list"

type_synonym ('s, 'a) plugin_io = "('s plugin_world, 'a) io"

definition controlled :: "('s \<Rightarrow> (pyexn + 'a) \<times> 's) \<Rightarrow> ('s, 'a) plugin_io" where
  "controlled f = (\<lambda>w. case f (pl_state w) of (r, s) \<Rightarrow> (r, w\<lparr>pl_state := s\<rparr>))"

definition note_done :: "plugin_event \<Rightarrow> ('s, unit) plugin_io" where
  "note_done e = modify_io (\<lambda>w. w\<lparr>pl_log := pl_log w @ [e]\<rparr>)"

text \<open>\<open>try: m finally: f\<close>: an exception of \<open>f\<close> takes the place of the outcome of \<open>m\<close>.\<close>

definition finally_io :: "('w, 'a) io \<Rightarrow> ('w, unit) io \<Rightarrow> ('w, 'a) io" where
  "finally_io m f = (\<lambda>w. case m w of (r, w') \<Rightarrow> (case f w' of (Inl e, w'') \<Rightarrow> (Inl e, w'') | (Inr _, w'') \<Rightarrow> (r, w'')))"

section \<open>Handing the result to the copy action\<close>

text \<open>\<open>copy_result['invocation']['module_args'].update(extra)\<close>.\<close>

definition update_invocation :: "pyobj \<Rightarrow> pyobj \<Rightarrow> pyexn + pyobj" where
  "update_invocation copy_result extra =
     (case map_of copy_result ''invocation'' of
        None \<Rightarrow> Inl KeyError
      | Some (PyDict invocation) \<Rightarrow>
          (case map_of invocation ''module_args'' of
             None \<Rightarrow> Inl KeyError
           | Some (PyDict module_args) \<Rightarrow>
               Inr (AList.update ''invocation''
                 (PyDict (AList.update ''module_args'' (PyDict (dict_update module_args extra)) invocation)) copy_result)
           | Some _ \<Rightarrow> Inl AttributeError)
      | Some _ \<Rightarrow> Inl TypeError)"

text \<open>The arguments of the new task: those of the task without the plugin's own, and the file.\<close>

definition copy_args :: "pyobj \<Rightarrow> string list \<Rightarrow> string \<Rightarrow> pyobj" where
  "copy_args args own file = AList.update ''src'' (PyStr file) (fold AList.delete own args)"

definition source_file :: "string \<Rightarrow> string" where
  "source_file dir = dir @ ''/source''"

definition transfer ::
  "('s, 'd) controller \<Rightarrow> pyobj \<Rightarrow> string list \<Rightarrow> string \<Rightarrow> pyobj \<Rightarrow> pyobj \<Rightarrow> pyobj \<Rightarrow> ('s, pyobj) plugin_io" where
  "transfer C args own content extra task_vars result =
     bnd (controlled (ct_mkdtemp C)) (\<lambda>dir.
     bnd (note_done (MadeDir dir)) (\<lambda>_.
     finally_io
       (bnd (note_done (Wrote (source_file dir) content)) (\<lambda>_.
        bnd (controlled (ct_write C (source_file dir) content)) (\<lambda>_.
        bnd (note_done (CopyRun (copy_args args own (source_file dir)))) (\<lambda>_.
        bnd (controlled (ct_copy C (copy_args args own (source_file dir)) task_vars)) (\<lambda>copy_result.
        bnd (lift_sum (update_invocation copy_result ((''src'', PyStr (source_file dir)) # extra))) (\<lambda>copy_result.
        return_io (dict_update result copy_result)))))))
       (bnd (note_done (RemovedDir dir)) (\<lambda>_. controlled (ct_rmtree C dir)))))"

definition arg :: "pyobj \<Rightarrow> string \<Rightarrow> pyval \<Rightarrow> pyval" where
  "arg args name fallback = (case map_of args name of None \<Rightarrow> fallback | Some v \<Rightarrow> v)"

definition source_list :: "pyobj \<Rightarrow> pyval list" where
  "source_list args = (case arg args ''sources'' PyNone of PyList xs \<Rightarrow> xs | v \<Rightarrow> [v])"

section \<open>merge_yaml\<close>

text \<open>One turn of the loop on an output.\<close>

definition merge_one :: "bool \<Rightarrow> pyval \<Rightarrow> pyval option \<Rightarrow> pyexn + pyval" where
  "merge_one extend_lists merged doc =
     (case read_config doc of PyDict u \<Rightarrow> update_nested_conf extend_lists merged u | _ \<Rightarrow> Inl AttributeError)"

definition read_yaml :: "('s, pyval) controller \<Rightarrow> pyval \<Rightarrow> ('s, pyval option) plugin_io" where
  "read_yaml C source =
     (if \<not> truthy source then return_io None
      else bnd (gets_io pl_vars) (\<lambda>vars. controlled (ct_read C source vars)))"

fun merge_loop :: "('s, pyval) controller \<Rightarrow> bool \<Rightarrow> pyval list \<Rightarrow> pyval \<Rightarrow> ('s, pyval) plugin_io" where
  "merge_loop C extend_lists [] merged = return_io merged"
| "merge_loop C extend_lists (source # rest) merged =
     bnd (read_yaml C source) (\<lambda>doc.
     bnd (lift_sum (merge_one extend_lists merged doc)) (merge_loop C extend_lists rest))"

text \<open>
  \<open>dict.update\<close> with the value of \<open>vars\<close>: a dict, or a list of pairs.
\<close>

fun pair_of :: "pyval \<Rightarrow> pyexn + (string \<times> pyval)" where
  "pair_of (PyList [PyStr k, v]) = Inr (k, v)"
| "pair_of (PyList [_, _]) = Inl TypeError"
| "pair_of (PyStr [a, b]) = Inr ([a], PyStr [b])"
| "pair_of (PyDict [(k, _), (l, _)]) = Inr (k, PyStr l)"
| "pair_of (PyList _) = Inl ValueError"
| "pair_of (PyStr _) = Inl ValueError"
| "pair_of (PyDict _) = Inl ValueError"
| "pair_of _ = Inl TypeError"

fun update_from_pairs :: "pyobj \<Rightarrow> pyval list \<Rightarrow> pyexn + pyobj" where
  "update_from_pairs d [] = Inr d"
| "update_from_pairs d (x # xs) =
     (case pair_of x of Inl e \<Rightarrow> Inl e | Inr (k, v) \<Rightarrow> update_from_pairs (AList.update k v d) xs)"

definition with_extra_vars :: "pyobj \<Rightarrow> pyval \<Rightarrow> pyexn + pyobj" where
  "with_extra_vars task_vars extra_vars =
     (case extra_vars of
        PyDict d \<Rightarrow> Inr (dict_update task_vars d)
      | v \<Rightarrow> (case val_iter v of Inl e \<Rightarrow> Inl e | Inr xs \<Rightarrow> update_from_pairs task_vars xs))"

definition set_templar_vars :: "pyobj \<Rightarrow> ('s, unit) plugin_io" where
  "set_templar_vars vars = modify_io (\<lambda>w. w\<lparr>pl_vars := vars\<rparr>)"

definition merge_yaml_run ::
  "('s, pyval) controller \<Rightarrow> (pyval \<Rightarrow> pyval \<Rightarrow> string) \<Rightarrow> pyobj \<Rightarrow> pyobj \<Rightarrow> pyobj \<Rightarrow> ('s, pyobj) plugin_io" where
  "merge_yaml_run C dump args task_vars result =
     bnd (gets_io pl_vars) (\<lambda>old_vars.
     bnd (lift_sum (with_extra_vars task_vars (arg args ''vars'' (PyList [])))) (\<lambda>temp_vars.
     bnd (set_templar_vars temp_vars) (\<lambda>_.
     bnd (merge_loop C (truthy (arg args ''extend_lists'' (PyBool False))) (source_list args) (PyDict [])) (\<lambda>merged.
     bnd (set_templar_vars old_vars) (\<lambda>_.
     transfer C args [''sources'', ''extend_lists'', ''yaml_width''] (dump merged (arg args ''yaml_width'' PyNone))
       [(''sources'', PyList (source_list args)), (''extend_lists'', arg args ''extend_lists'' (PyBool False))]
       task_vars result)))))"

section \<open>merge_configs\<close>

fun config_loop :: "('s, ini_call list) controller \<Rightarrow> pyval list \<Rightarrow> override_parser \<Rightarrow> ('s, override_parser) plugin_io" where
  "config_loop C [] config = return_io config"
| "config_loop C (source # rest) config =
     bnd (bnd (gets_io pl_vars) (\<lambda>vars. controlled (ct_read C source vars))) (\<lambda>calls.
     config_loop C rest (read_source calls config))"

definition merge_configs_run ::
  "('s, ini_call list) controller \<Rightarrow> pyobj \<Rightarrow> pyobj \<Rightarrow> pyobj \<Rightarrow> ('s, pyobj) plugin_io" where
  "merge_configs_run C args task_vars result =
     bnd (config_loop C (source_list args) (init_parser (truthy (arg args ''whitespace'' (PyBool True))))) (\<lambda>config.
     transfer C args [''sources'', ''whitespace''] (write_config config)
       [(''sources'', PyList (source_list args)), (''whitespace'', arg args ''whitespace'' (PyBool True))]
       task_vars result)"

section \<open>What a run does\<close>

definition quiet_step :: "'s plugin_world \<Rightarrow> 's plugin_world \<Rightarrow> bool" where
  "quiet_step w w' \<longleftrightarrow> pl_log w' = pl_log w"

interpretation noiseless: effect_frame quiet_step
  by unfold_locales (simp_all add: quiet_step_def)

definition steady_step :: "'s plugin_world \<Rightarrow> 's plugin_world \<Rightarrow> bool" where
  "steady_step w w' \<longleftrightarrow> pl_vars w' = pl_vars w"

interpretation steady: effect_frame steady_step
  by unfold_locales (simp_all add: steady_step_def)

lemma controlled_run: "controlled f w = (r, w') \<Longrightarrow> pl_log w' = pl_log w \<and> pl_vars w' = pl_vars w"
  by (auto simp: controlled_def split: prod.splits)

lemma controlled_quiet: "keeps quiet_step (controlled f)"
  by (simp add: keeps_def controlled_def quiet_step_def split: prod.splits)

lemma controlled_steady: "keeps steady_step (controlled f)"
  by (simp add: keeps_def controlled_def steady_step_def split: prod.splits)

lemma read_yaml_steady: "keeps steady_step (read_yaml C source)"
  unfolding read_yaml_def by (intro steady.keeps_rules controlled_steady)

lemma merge_loop_steady: "keeps steady_step (merge_loop C e sources out0)"
  by (induction sources arbitrary: out0) (auto intro!: steady.keeps_rules read_yaml_steady)

lemma read_yaml_quiet: "keeps quiet_step (read_yaml C source)"
  unfolding read_yaml_def by (intro noiseless.keeps_rules controlled_quiet)

lemma merge_loop_quiet: "keeps quiet_step (merge_loop C e sources out0)"
  by (induction sources arbitrary: out0) (auto intro!: noiseless.keeps_rules read_yaml_quiet)

lemma config_loop_quiet: "keeps quiet_step (config_loop C sources config)"
  by (induction sources arbitrary: config) (auto intro!: noiseless.keeps_rules controlled_quiet)

lemma config_loop_steady: "keeps steady_step (config_loop C sources config)"
  by (induction sources arbitrary: config) (auto intro!: steady.keeps_rules controlled_steady)

text \<open>The sources read one after the other, nothing merged in between.\<close>

fun read_all :: "('a \<Rightarrow> ('w, 'b) io) \<Rightarrow> 'a list \<Rightarrow> ('w, 'b list) io" where
  "read_all f [] = return_io []"
| "read_all f (x # xs) = bnd (f x) (\<lambda>y. bnd (read_all f xs) (\<lambda>ys. return_io (y # ys)))"

lemma read_all_Cons: "f x w = (Inr y, w1) \<Longrightarrow> read_all f xs w1 = (Inr ys, w2) \<Longrightarrow> read_all f (x # xs) w = (Inr (y # ys), w2)"
  by (simp add: io_run)

lemma merge_loop_merges:
  "merge_loop C e sources out0 w = (Inr out, w') \<Longrightarrow>
     \<exists>docs. read_all (read_yaml C) sources w = (Inr docs, w') \<and> merge_sources e out0 docs = Inr out"
proof (induction sources arbitrary: out0 w)
  case (Cons source sources)
  from Cons.prems obtain doc v where doc: "read_yaml C source w = (Inr doc, v)"
    and rest: "bnd (lift_sum (merge_one e out0 doc)) (merge_loop C e sources) v = (Inr out, w')"
    unfolding merge_loop.simps by (rule bnd_InrD)
  from rest obtain next' where n: "merge_one e out0 doc = Inr next'" "merge_loop C e sources next' v = (Inr out, w')"
    by (auto simp: lift_sum_def io_run split: sum.splits elim!: bnd_InrD)
  from Cons.IH [OF n(2)] obtain docs where docs: "read_all (read_yaml C) sources v = (Inr docs, w')"
    and "merge_sources e next' docs = Inr out" by blast
  with n(1) have "merge_sources e out0 (doc # docs) = Inr out" by (auto simp: merge_one_def split: pyval.splits)
  with read_all_Cons [of "read_yaml C", OF doc docs] show ?case by blast
qed (simp add: return_run)

text \<open>A source of \<open>merge_configs\<close> is read with the variables the templar has.\<close>

definition read_ini :: "('s, ini_call list) controller \<Rightarrow> pyval \<Rightarrow> ('s, ini_call list option) plugin_io" where
  "read_ini C source = bnd (gets_io pl_vars) (\<lambda>vars. controlled (ct_read C source vars))"

lemma config_loop_merges:
  "config_loop C sources config w = (Inr out, w') \<Longrightarrow>
     \<exists>docs. read_all (read_ini C) sources w = (Inr docs, w') \<and> out = fold read_source docs config"
proof (induction sources arbitrary: config w)
  case (Cons source sources)
  from Cons.prems obtain calls v where calls: "read_ini C source w = (Inr calls, v)"
    and rest: "config_loop C sources (read_source calls config) v = (Inr out, w')"
    unfolding config_loop.simps read_ini_def by (rule bnd_InrD)
  from Cons.IH [OF rest] obtain docs where docs: "read_all (read_ini C) sources v = (Inr docs, w')"
    and "out = fold read_source docs (read_source calls config)" by blast
  with read_all_Cons [of "read_ini C", OF calls docs] show ?case by (intro exI [of _ "calls # docs"]) simp
qed (simp add: return_run)

text \<open>
  Either no directory could be made, or the directory made is removed at the end, whatever happened
  between; there the content is written first and copied once.
\<close>

definition transferred :: "pyobj \<Rightarrow> string list \<Rightarrow> string \<Rightarrow> bool \<Rightarrow> plugin_event list \<Rightarrow> bool" where
  "transferred args own content done ts \<longleftrightarrow>
     (\<exists>dir us. ts = MadeDir dir # us @ [RemovedDir dir]
       \<and> us \<in> {[Wrote (source_file dir) content],
               [Wrote (source_file dir) content, CopyRun (copy_args args own (source_file dir))]}
       \<and> (done \<longrightarrow> length us = 2))"

lemma finally_removes:
  assumes "finally_io m (bnd (note_done (RemovedDir dir)) (\<lambda>_. controlled f)) w = (r, w')" and "m w = (r1, w1)"
  shows "pl_log w' = pl_log w1 @ [RemovedDir dir] \<and> pl_vars w' = pl_vars w1 \<and> (\<forall>a. r = Inr a \<longrightarrow> r1 = Inr a)"
  using assms
  by (auto simp: finally_io_def note_done_def bnd_run modify_run controlled_def split: prod.splits sum.splits)

lemma transfer_run:
  assumes "transfer C args own content extra task_vars result w = (r, w')"
  shows "pl_vars w' = pl_vars w \<and>
    ((pl_log w' = pl_log w \<and> isl r) \<or> (\<exists>ts. pl_log w' = pl_log w @ ts \<and> transferred args own content (\<not> isl r) ts))"
proof -
  obtain q w0 where q: "controlled (ct_mkdtemp C) w = (q, w0)" by fastforce
  note w0 = controlled_run [OF q]
  show ?thesis
  proof (cases q)
    case (Inl e)
    then show ?thesis using assms q w0 by (auto simp: transfer_def bnd_run)
  next
    case (Inr dir)
    let ?file = "source_file dir"
    let ?w1 = "w0\<lparr>pl_log := pl_log w0 @ [MadeDir dir]\<rparr>"
    define body where "body = bnd (note_done (Wrote ?file content)) (\<lambda>_.
        bnd (controlled (ct_write C ?file content)) (\<lambda>_.
        bnd (note_done (CopyRun (copy_args args own ?file))) (\<lambda>_.
        bnd (controlled (ct_copy C (copy_args args own ?file) task_vars)) (\<lambda>copy_result.
        bnd (lift_sum (update_invocation copy_result ((''src'', PyStr ?file) # extra))) (\<lambda>copy_result.
        return_io (dict_update result copy_result))))))"
    obtain r1 w2 where b: "body ?w1 = (r1, w2)" by fastforce
    have run: "finally_io body (bnd (note_done (RemovedDir dir)) (\<lambda>_. controlled (ct_rmtree C dir))) ?w1 = (r, w')"
      using assms q Inr by (simp add: transfer_def body_def bnd_run note_done_def modify_run)
    have "pl_vars w2 = pl_vars w0 \<and> (\<exists>us. pl_log w2 = pl_log ?w1 @ us
        \<and> us \<in> {[Wrote ?file content], [Wrote ?file content, CopyRun (copy_args args own ?file)]} \<and> (\<not> isl r1 \<longrightarrow> length us = 2))"
      using b by (auto simp: body_def bnd_run note_done_def modify_run controlled_def lift_sum_def io_run
          split: prod.splits sum.splits)
    then obtain us where us: "pl_vars w2 = pl_vars w0" "pl_log w2 = pl_log w @ MadeDir dir # us"
        "us \<in> {[Wrote ?file content], [Wrote ?file content, CopyRun (copy_args args own ?file)]}" "\<not> isl r1 \<longrightarrow> length us = 2"
      using w0 by auto
    note rm = finally_removes [OF run b]
    have "\<not> isl r \<longrightarrow> \<not> isl r1" using rm by (cases r) auto
    then have "transferred args own content (\<not> isl r) (MadeDir dir # us @ [RemovedDir dir])"
      using us(3,4) unfolding transferred_def by blast
    then show ?thesis using us(1,2) w0 rm by auto
  qed
qed

text \<open>
  A run that gets as far as its sources are merged puts the templar's variables back and writes the
  merge of the documents it read; before that it has done nothing.
\<close>

definition yaml_extends :: "pyobj \<Rightarrow> bool" where
  "yaml_extends args = truthy (arg args ''extend_lists'' (PyBool False))"

lemma merge_yaml_stages:
  assumes "merge_yaml_run C dump args task_vars result w = (r, w')"
  shows "(isl r \<and> pl_log w' = pl_log w) \<or>
    (\<exists>temp docs w1 merged.
       with_extra_vars task_vars (arg args ''vars'' (PyList [])) = Inr temp
     \<and> read_all (read_yaml C) (source_list args) (w\<lparr>pl_vars := temp\<rparr>) = (Inr docs, w1)
     \<and> merge_yaml (yaml_extends args) docs = Inr merged \<and> pl_log w1 = pl_log w
     \<and> transfer C args [''sources'', ''extend_lists'', ''yaml_width''] (dump merged (arg args ''yaml_width'' PyNone))
         [(''sources'', PyList (source_list args)), (''extend_lists'', arg args ''extend_lists'' (PyBool False))]
         task_vars result (w1\<lparr>pl_vars := pl_vars w\<rparr>) = (r, w'))"
proof (cases "with_extra_vars task_vars (arg args ''vars'' (PyList []))")
  case (Inl e)
  then have "r = Inl e \<and> w' = w" using assms by (simp add: merge_yaml_run_def bnd_run gets_run lift_sum_def raise_run)
  then show ?thesis by simp
next
  case temp: (Inr temp)
  let ?w = "w\<lparr>pl_vars := temp\<rparr>"
  obtain q w1 where q: "merge_loop C (yaml_extends args) (source_list args) (PyDict []) ?w = (q, w1)" by fastforce
  have quiet: "pl_log w1 = pl_log w"
    using keepsD [OF merge_loop_quiet q] by (simp add: quiet_step_def)
  note run = assms [unfolded merge_yaml_run_def set_templar_vars_def, folded yaml_extends_def]
  show ?thesis
  proof (cases q)
    case (Inl e)
    then have "r = Inl e" "w' = w1" using run q temp by (simp_all add: bnd_run gets_run lift_sum_def return_run modify_run)
    then show ?thesis using quiet by simp
  next
    case (Inr merged)
    then obtain docs where "read_all (read_yaml C) (source_list args) ?w = (Inr docs, w1)"
        "merge_yaml (yaml_extends args) docs = Inr merged"
      using merge_loop_merges [OF q [unfolded Inr]] unfolding merge_yaml_def by blast
    moreover have "transfer C args [''sources'', ''extend_lists'', ''yaml_width''] (dump merged (arg args ''yaml_width'' PyNone))
         [(''sources'', PyList (source_list args)), (''extend_lists'', arg args ''extend_lists'' (PyBool False))]
         task_vars result (w1\<lparr>pl_vars := pl_vars w\<rparr>) = (r, w')"
      using run q Inr temp by (simp add: bnd_run gets_run lift_sum_def return_run modify_run)
    ultimately show ?thesis using quiet temp by blast
  qed
qed

text \<open>
  C33. A run of the \<open>merge_yaml\<close> action has no effect before every source is read and merged; then the
  templar has its variables back, the merge of exactly the documents read is written once into a new
  directory, copied from there at most once, by a run that succeeds exactly once, and the
  directory is removed whatever happens.
\<close>

theorem merge_yaml_run_outcome:
  assumes "merge_yaml_run C dump args task_vars result w = (r, w')"
  shows "(isl r \<and> pl_log w' = pl_log w) \<or>
    (\<exists>temp docs w1 merged ts.
       with_extra_vars task_vars (arg args ''vars'' (PyList [])) = Inr temp
     \<and> read_all (read_yaml C) (source_list args) (w\<lparr>pl_vars := temp\<rparr>) = (Inr docs, w1)
     \<and> merge_yaml (yaml_extends args) docs = Inr merged
     \<and> pl_vars w' = pl_vars w \<and> pl_log w' = pl_log w @ ts
     \<and> transferred args [''sources'', ''extend_lists'', ''yaml_width'']
         (dump merged (arg args ''yaml_width'' PyNone)) (\<not> isl r) ts)"
  using merge_yaml_stages [OF assms]
proof (elim disjE exE conjE)
  fix temp docs w1 merged
  assume read: "with_extra_vars task_vars (arg args ''vars'' (PyList [])) = Inr temp"
      "read_all (read_yaml C) (source_list args) (w\<lparr>pl_vars := temp\<rparr>) = (Inr docs, w1)"
      "merge_yaml (yaml_extends args) docs = Inr merged" and quiet: "pl_log w1 = pl_log w"
    and move: "transfer C args [''sources'', ''extend_lists'', ''yaml_width''] (dump merged (arg args ''yaml_width'' PyNone))
         [(''sources'', PyList (source_list args)), (''extend_lists'', arg args ''extend_lists'' (PyBool False))]
         task_vars result (w1\<lparr>pl_vars := pl_vars w\<rparr>) = (r, w')"
  from transfer_run [OF move] read quiet show ?thesis by auto
qed simp

definition demo_controller :: "(unit, pyval) controller" where
  "demo_controller =
     \<lparr>ct_read = (\<lambda>source _ s. (Inr (Some (PyDict [(''from'', source)])), s)),
      ct_mkdtemp = (\<lambda>s. (Inr ''/tmp/m'', s)),
      ct_write = (\<lambda>_ _ s. (Inr (), s)),
      ct_copy = (\<lambda>args _ s. (Inr [(''invocation'', PyDict [(''module_args'', PyDict args)]), (''changed'', PyBool True)], s)),
      ct_rmtree = (\<lambda>_ s. (Inr (), s))\<rparr>"

definition demo_dump :: "pyval \<Rightarrow> pyval \<Rightarrow> string" where
  "demo_dump v _ = (case v of PyDict [(k, PyStr s)] \<Rightarrow> k @ ''='' @ s | _ \<Rightarrow> ''?'')"

definition demo_args :: pyobj where
  "demo_args = [(''sources'', PyList [PyStr ''a.yml'', PyStr ''b.yml'']), (''dest'', PyStr ''/etc/x'')]"

definition demo_plugin_world :: "unit plugin_world" where
  "demo_plugin_world = \<lparr>pl_state = (), pl_vars = [(''v'', PyInt 1)], pl_log = []\<rparr>"

lemma demo_merge_run:
  "pl_log (snd (merge_yaml_run demo_controller demo_dump demo_args [] [] demo_plugin_world)) =
     [MadeDir ''/tmp/m'', Wrote ''/tmp/m/source'' ''from=b.yml'',
      CopyRun [(''dest'', PyStr ''/etc/x''), (''src'', PyStr ''/tmp/m/source'')], RemovedDir ''/tmp/m'']"
  by code_simp

lemma merge_yaml_run_outcome_witness:
  "\<exists>temp docs w1 merged ts.
     read_all (read_yaml demo_controller) [PyStr ''a.yml'', PyStr ''b.yml''] (demo_plugin_world\<lparr>pl_vars := temp\<rparr>) = (Inr docs, w1)
   \<and> merge_yaml False docs = Inr merged
   \<and> pl_log (snd (merge_yaml_run demo_controller demo_dump demo_args [] [] demo_plugin_world)) = ts
   \<and> transferred demo_args [''sources'', ''extend_lists'', ''yaml_width''] (demo_dump merged PyNone) True ts"
proof -
  have start: "pl_log demo_plugin_world = []" by (simp add: demo_plugin_world_def)
  have args: "source_list demo_args = [PyStr ''a.yml'', PyStr ''b.yml'']" "yaml_extends demo_args = False"
      "arg demo_args ''yaml_width'' PyNone = PyNone" by code_simp+
  have done_ok: "\<not> isl (fst (merge_yaml_run demo_controller demo_dump demo_args [] [] demo_plugin_world))" by code_simp
  show ?thesis
    using merge_yaml_run_outcome [of demo_controller demo_dump demo_args "[]" "[]" demo_plugin_world, OF surjective_pairing]
    unfolding start args using done_ok by auto
qed

text \<open>A failing read or merge leaves the templar with the variables of the task: nothing restores them.\<close>

lemma merge_failure_leaves_vars:
  assumes "with_extra_vars task_vars (arg args ''vars'' (PyList [])) = Inr temp"
    and "merge_loop C (yaml_extends args) (source_list args) (PyDict []) (w\<lparr>pl_vars := temp\<rparr>) = (Inl e, w1)"
  shows "merge_yaml_run C dump args task_vars result w = (Inl e, w1) \<and> pl_vars w1 = temp"
proof -
  from keepsD [OF merge_loop_steady assms(2)] have "pl_vars w1 = temp" by (simp add: steady_step_def)
  then show ?thesis using assms
    by (simp add: merge_yaml_run_def set_templar_vars_def bnd_run gets_run lift_sum_def return_run modify_run
        yaml_extends_def [symmetric])
qed

text \<open>The same of \<open>merge_configs\<close>: its templar is never given other variables.\<close>

lemma merge_configs_run_outcome:
  assumes "merge_configs_run C args task_vars result w = (r, w')"
  shows "(isl r \<and> pl_log w' = pl_log w) \<or>
    (\<exists>docs w1 ts.
       read_all (read_ini C) (source_list args) w = (Inr docs, w1)
     \<and> pl_vars w' = pl_vars w \<and> pl_log w' = pl_log w @ ts
     \<and> transferred args [''sources'', ''whitespace'']
         (write_config (merge_configs (truthy (arg args ''whitespace'' (PyBool True))) docs)) (\<not> isl r) ts)"
proof -
  let ?start = "init_parser (truthy (arg args ''whitespace'' (PyBool True)))"
  obtain q w1 where q: "config_loop C (source_list args) ?start w = (q, w1)" by fastforce
  have quiet: "pl_log w1 = pl_log w" "pl_vars w1 = pl_vars w"
    using keepsD [OF config_loop_quiet q] keepsD [OF config_loop_steady q] by (simp_all add: quiet_step_def steady_step_def)
  show ?thesis
  proof (cases q)
    case (Inl e)
    then have "r = Inl e \<and> w' = w1" using assms q by (simp add: merge_configs_run_def bnd_run)
    then show ?thesis using quiet by simp
  next
    case (Inr config)
    with config_loop_merges q obtain docs where docs: "read_all (read_ini C) (source_list args) w = (Inr docs, w1)"
      "config = fold read_source docs ?start" by blast
    from assms q Inr have "transfer C args [''sources'', ''whitespace''] (write_config config)
       [(''sources'', PyList (source_list args)), (''whitespace'', arg args ''whitespace'' (PyBool True))]
       task_vars result w1 = (r, w')" by (simp add: merge_configs_run_def bnd_run)
    from transfer_run [OF this] docs quiet show ?thesis by (auto simp: merge_configs_def)
  qed
qed

end
