(* ===== verification/Spec2Isabelle.thy ===== *)
theory Spec2Isabelle
  imports KollaCommands PasswordCommands PowerOpsCommands PowerModules PluginConfig RepoChecks DhcpLease DockerClient Addresses CellFilters ContainerFacts Toolbox CommandLine InstallPaths PowerOpsReport DockerActions PodmanActions DatabaseShards Passwords MasakariSegment IronicNode MistralWorkbook PowerWorkflows PowerOpsImages FernetCron MergeActions PowerSafety PowerActions IronicFence
begin

text \<open>
  A model of the Python code of this repository: the container module of kolla-ansible, its
  configuration tools and filters, and the power operations built beside it.

  \<^bold>\<open>The program.\<close>  It has three groups of parts.

  \<^item> Containers.  \<open>library/kolla_container.py\<close> merges the arguments of a task, picks an engine
    and calls the method named by the action.  \<open>module_utils/kolla_container_worker.py\<close> compares
    a running container with the arguments and builds the options of a new one;
    \<open>kolla_docker_worker.py\<close> and \<open>kolla_podman_worker.py\<close> drive the engines;
    \<open>kolla_systemd_worker.py\<close> keeps the unit file through which containers are started.
    \<open>library/kolla_container_facts.py\<close> reads facts from the engine, \<open>library/kolla_toolbox.py\<close>
    runs an Ansible module inside a container.
  \<^item> Configuration.  The action plugins \<open>merge_yaml\<close> and \<open>merge_configs\<close>, the filters under
    \<open>kolla_ansible/\<close>, the fernet cron generator, the password tools under
    \<open>kolla_ansible/cmd/\<close>, and the command line, which turns a command into one run of
    ansible-playbook.
  \<^item> Power operations.  The Mistral plugin (\<open>operations.py\<close>, \<open>locks.py\<close>, \<open>actions.py\<close>) drains,
    powers and returns a host under a lock in Redis; the Masakari task fences a failed host; the
    modules of the powerops role reconcile Masakari, Ironic and Mistral with the inventory.
    The workbook \<open>mistral/workbooks/power-ops.yaml\<close> composes the plugin's actions into workflows;
    \<open>tools/powerops_cli.py\<close> validates the inputs of all of it and builds its images.

  Beside them stand the checks that the repository runs over its own files
  (\<open>tools/validate-all-file.py\<close>, \<open>tools/validate-yaml.py\<close>) and a helper of the development
  environment (\<open>contrib/dev/vagrant/newest_dhcp_lease.py\<close>).

  \<^bold>\<open>How code is modelled.\<close>  A method is a definition of the same name, prefixed (\<open>docker_\<close>,
  \<open>pod_\<close>) where the two workers share it.  Code with effects is a computation of the monad
  \<open>io\<close> of Prelude: it maps a world to a result, \<open>Inl\<close> an exception or \<open>Inr\<close> a value, and to the
  world it leaves; what was done before an exception stays done.  \<open>bnd\<close> is sequencing,
  \<open>catch_io\<close> an except clause, \<open>for_io\<close> a loop over a list.  Python values are the datatype
  \<open>pyval\<close> of PyVal, dicts are association lists in insertion order.  Libraries and services are
  parameters: a record of functions over an abstract state of theirs (\<open>docker\<close>, \<open>podman\<close>,
  \<open>bus\<close>, \<open>conn\<close>, \<open>redis\<close>, \<open>vault\<close>, \<open>generators\<close>, \<open>masakari\<close>, \<open>ironic\<close>).  Each function may
  answer with any exception or value and change its own state, so a theorem over such a record
  holds for every behaviour of the service.  The worlds keep a trace or log of the calls made,
  which is what the safety theorems speak of.

  \<^bold>\<open>Theories.\<close>

  \<^item> Prelude, PyVal: exceptions, the monad, dictionaries; strings, \<open>int()\<close>, \<open>str()\<close>, truth.
  \<^item> ModuleParams: \<open>generate_module\<close> of \<open>kolla_container.py\<close>, and the parameters as the workers
    read them (\<open>params\<close>, \<open>params_of\<close>).
  \<^item> Systemd: \<open>SystemdWorker\<close>.  The world \<open>host\<close> of the workers: files, trace, the flags
    \<open>changed\<close> and \<open>result\<close>, the engine's state.
  \<^item> ContainerWorker: the comparisons (\<open>compare_*\<close>, \<open>check_container_differs\<close>) and the builders.
  \<^item> DockerWorker, DockerActions: \<open>DockerWorker\<close> and \<open>main\<close> (\<open>module_main\<close>); then what the
    actions guarantee.  PodmanWorker, PodmanActions: the same for \<open>PodmanWorker\<close>.  DockerClient:
    the options of the Docker client and \<open>generate_tls\<close>.
  \<^item> ContainerFacts, Toolbox: the modules \<open>kolla_container_facts.py\<close> and \<open>kolla_toolbox.py\<close>.
  \<^item> MergeYaml, MergeConfigs, MergeActions (the \<open>run\<close> methods around them), ServiceFilters
    (\<open>filters.py\<close>), DatabaseShards (\<open>database_shards.py\<close>), CellFilters (\<open>nova_filters.py\<close>, \<open>fluentd_filters.py\<close>), Addresses
    (\<open>put_address_in_context.py\<close>, \<open>kolla_url.py\<close>, \<open>kolla_address.py\<close>) over IpAddress, a model of
    Python's ipaddress; FernetCron, Passwords (\<open>genpwd\<close>, \<open>mergepwd\<close>, \<open>readpwd\<close>, \<open>writepwd\<close>,
    \<open>hashi_vault\<close>).
  \<^item> ArgParse: Python's argparse as the tools use it: options with their abbreviations, clusters of
    short options, required options, choices and defaults.  PasswordCommands, PowerOpsCommands
    and KollaCommands run the tools from the words of their command lines.
  \<^item> Paths, InstallPaths, CommandLine, KollaCommands: \<open>os.path\<close>, the place of the data files
    (\<open>utils.py\<close>), \<open>ansible.py\<close>, and the commands of \<open>cli/commands.py\<close> with their parsers.
  \<^item> PowerOperations, PowerSafety: \<open>operations.py\<close> and its properties.  Locks: \<open>locks.py\<close> with its
    Lua scripts.  PowerActions: the action classes.  IronicFence: the Masakari task, which shares
    \<open>poll\<close> and \<open>observe_power\<close> with \<open>wait_power\<close>.
  \<^item> Reconcile: what the three modules of the powerops role share.  MasakariSegment, IronicNode,
    MistralWorkbook: the modules.  PowerModules: their connections and their \<open>main\<close>.
  \<^item> PluginConfig: the configuration options of the two plugins, their registration and the
    arguments of their connections (\<open>clients.py\<close>, \<open>config.py\<close>).
  \<^item> Workflow: direct workflows of Mistral, with interference between two actions.
    PowerWorkflows: the four workflows of the workbook, over the actions of PowerActions.
  \<^item> PowerOpsConfig, PowerOpsImages, PowerOpsReport, PowerOpsCommands: the command line of the power
    operations.
  \<^item> RepoChecks: \<open>validate-all-file.py\<close> and \<open>validate-yaml.py\<close>.  DhcpLease:
    \<open>newest_dhcp_lease.py\<close>.

  \<^bold>\<open>What the lemmas show.\<close>

  \<^item> Safety of the effects.  A missing image stops the workers before they touch the container;
    the Docker worker reports every modification as changed, whatever becomes of the action, and a
    pulled image when it returns; the modules of the powerops role write nothing in check mode, and
    report a change exactly when they wrote; generated or merged passwords overwrite nothing, and
    only a disk that fails can lose the file; an error message reveals no password; the merging
    actions hand the copy action the merge of the documents they read, or do nothing, and remove
    their directory.
  \<^item> The power protocol.  A power state is confirmed only by consecutive observations, within the
    number of attempts the timeout gives; a drained host was seen empty or shut off; a host
    returns only when all checks passed; the locks exclude each other and refine an abstract
    table from hosts to owners, under expiry as well.  In every run of the workbook's workflows,
    whatever happens between two actions, power is cut and a host returns only behind the check
    that guards it.  A run in which a task between the acquisition and the final release failed
    has performed the fail-safe, the audit and a release of the lock after it; in the other failed
    runs the lock was not acquired, and nothing else begun, or only the final release failed.
  \<^item> Composition.  The named nodes of a configuration that the command line accepts are
    accepted by the Ironic module, and those without a name rejected; its report reveals no
    credentials; an image is built only after each plugin's wheel was built, its one entry points
    file was found to hold the entry point and the wheel was copied, and images are pushed only to
    the confirmed registry, after the engine found them all.  Namespacing the services of a cell commutes with extracting
    their HAProxy sections.  A command of kolla-ansible starts one program, with the command's own
    variables, or none.  The commands that destroy, stop or prune do nothing unless the
    words of the command line confirm it.
  \<^item> The modules of the powerops role always end with a result or a failure of the module, whatever
    the service does; outside check mode the result says changed if and only if something was
    written.
  \<^item> Repository checks: the task check is exact for the tasks it looks at, those at the top level
    of a file and those directly in a block (\<open>role_task\<close>); the others are named in RepoChecks.
  \<^item> Functional behaviour: the last source wins in both merges, the arguments of a task win over
    the common ones, the filters and parsers meet their specifications on every branch.
  \<^item> Round trips and idempotence: volumes and environments compare equal to the container made
    from them, unit files and conforming containers are left alone, passwords survive the Vault,
    IP addresses and URLs are read back from their texts, environments from the engine's entries,
    the settings of a command from the words that state them; this holds for whole runs of
    \<open>writepwd\<close> and \<open>readpwd\<close> as well.
  \<^item> Termination: the polling of units and power states is bounded; the fernet cron generator runs
    forever exactly for the arguments named in \<open>generate_diverges_iff\<close>.

  \<^bold>\<open>Interfaces.\<close>  \<open>effect_frame\<close> (Prelude) is a reflexive and transitive relation between the
  worlds before and after, lifted through the combinators of the monad; the components interpret
  it with their own relations: \<open>only\<close>, \<open>never\<close>, \<open>grows\<close>, \<open>reported\<close> and \<open>asks\<close> on the trace of a
  worker, \<open>same\<close> on what its engine shows (DockerActions), \<open>logs_only\<close> on the log of the cloud (PowerSafety), \<open>same_files\<close>
  (Passwords), \<open>wrote 0\<close> on the count of writes (Reconcile), \<open>sees_only\<close> on the world of the
  workflows, \<open>leaves_key\<close> on the result of the facts module, \<open>quiet_step\<close> and \<open>steady_step\<close> on the
  log and the variables of a merging action.  \<open>keyed_store\<close> states the laws of a
  dictionary, interpreted on association lists; \<open>unit_store\<close> (Systemd) the laws of the unit file,
  interpreted on the operations of \<open>SystemdWorker\<close>.  \<open>text_codec\<close> (PyVal) states the laws of a
  text format, interpreted on numerals and on IP addresses.  \<open>annotated_workflow\<close> and its extension
  \<open>gated_workflow\<close> (Workflow) state when an annotation of the tasks is an invariant of all runs and
  when it guards an effect, \<open>pipeline\<close> when every run ends; PowerWorkflows interprets them on the
  workflows of the workbook.  \<open>honest_work\<close> (PowerModules) is the contract between a module's work
  and the shared shape of its \<open>main\<close>; it is interpreted on the three modules of the powerops role.

  \<^bold>\<open>Bounds.\<close>  Loops over data are structural.  The polling loops count down the attempts that
  the code computes (\<open>attempts\<close>, \<open>fence_attempts\<close>, \<open>timeout div 5 + 2\<close> polls of a unit), so the
  definitions need no fuel.  The loops of the fernet generator may not end and are partial
  functions into option: \<open>None\<close> is a run that never returns, and the theorems say when that is.

  \<^bold>\<open>Assumptions.\<close>  Four services are assumed to behave as documented where a theorem needs it,
  by hypotheses of that theorem: \<open>redis_laws\<close> (SET NX PX, PEXPIRE and DEL act on one key and
  answer with what they did), \<open>kv_laws\<close> (a secret written to the KV store is read back),
  \<open>choice_law\<close> (a random choice from a list is a member of it), and \<open>image_laws\<close> (reading and waiting
  do not change the image of a name, an image that is not listed has no id, after a pull without
  an error the name stands for one image).  \<open>demo_redis\<close>, the stores of Passwords and
  \<open>pulling_docker\<close> fulfil them.

  \<^bold>\<open>Not modelled.\<close>  Libraries and their languages: the validation of arguments by AnsibleModule,
  templating, YAML syntax, the parsing of JSON, the line parser of oslo.config, the OpenStack SDK,
  D-Bus, libvirt, and the clients of the engines.  argparse is modelled without the texts of its
  help and errors; cliff, which finds a command of kolla-ansible by its name and handles the
  global options, is not.  Time is only the number of sleeps and of retries; locks expire at any
  moment (\<open>Expire\<close>).  Floats do not occur in \<open>pyval\<close>: a fractional value of a dimension is
  outside it, and the one option of a plugin that is a fraction is counted in tenths.  Strings
  are ASCII, so bytes and their decoding coincide with text.  The files that register filters
  with Ansible, \<open>setup.py\<close> and the configuration of the documentation have no behaviour of their
  own.  The writes of the unit files do not fail (those of the password files do), and the values
  of the merged YAML documents are copied, so that two aliases of one list within a source are two
  lists.
\<close>

end
